(* ===== verification/Prelude.thy ===== *)
theory Prelude
  imports Main "HOL-Library.Word"
begin

text \<open>
  Shared vocabulary of the development: Rust's machine integers as words, the outcome of a
  Rust call (value, error, panic or divergence), byte-addressed memory with little-endian
  accesses, and the generic lemmas on words, alignment and lists that the components use.

  Arithmetic is that of the default build of \<^verbatim>\<open>scripts/build.sh\<close> (the release profile of
  a 32-bit target): \<open>+\<close>, \<open>-\<close>, \<open>*\<close> wrap around, a shift amount is taken modulo the width,
  \<^verbatim>\<open>debug_assert!\<close> is absent, and out-of-range indexing, division by zero, \<^verbatim>\<open>assert!\<close>,
  \<^verbatim>\<open>expect\<close> and \<^verbatim>\<open>unwrap\<close> panic.
\<close>

unbundle bit_operations_syntax

named_theorems addr_simps \<open>reading addresses and sizes as natural numbers\<close>
named_theorems mem_simps \<open>reads of memory after writes\<close>

section \<open>Machine integers\<close>

type_synonym u8 = "8 word"
type_synonym u16 = "16 word"
type_synonym u32 = "32 word"
type_synonym u64 = "64 word"
type_synonym usize = "32 word"

text \<open>Shift left by a run-time amount, as the release profile computes it.\<close>

definition shl :: "'a::len word \<Rightarrow> nat \<Rightarrow> 'a word" where
  "shl x n = push_bit (n mod LENGTH('a)) x"

definition shr :: "'a::len word \<Rightarrow> nat \<Rightarrow> 'a word" where
  "shr x n = drop_bit (n mod LENGTH('a)) x"

text \<open>\<^verbatim>\<open>usize::saturating_sub\<close>.\<close>

definition saturating_sub :: "u32 \<Rightarrow> u32 \<Rightarrow> u32" where
  "saturating_sub a b = (if a \<le> b then 0 else a - b)"

lemma saturating_sub_alt: "saturating_sub a b = (if b \<le> a then a - b else 0)"
  by (auto simp: saturating_sub_def)

section \<open>Outcomes of a call\<close>

text \<open>
  A Rust function returns a value (\<open>Ok\<close>), an error value (\<open>Err\<close>), panics, or does not
  return at all.
\<close>

datatype ('a, 'e) outcome = Ok 'a | Err 'e | Panic | Diverge

text \<open>Calls that return no error value.\<close>

type_synonym 'a call = "('a, unit) outcome"

primrec obind :: "('a, 'e) outcome \<Rightarrow> ('a \<Rightarrow> ('b, 'e) outcome) \<Rightarrow> ('b, 'e) outcome" where
  "obind (Ok x) f = f x"
| "obind (Err e) f = Err e"
| "obind Panic f = Panic"
| "obind Diverge f = Diverge"

text \<open>\<^verbatim>\<open>.map_err(f)\<close>.\<close>

primrec map_err :: "('e \<Rightarrow> 'f) \<Rightarrow> ('a, 'e) outcome \<Rightarrow> ('a, 'f) outcome" where
  "map_err g (Ok x) = Ok x"
| "map_err g (Err e) = Err (g e)"
| "map_err g Panic = Panic"
| "map_err g Diverge = Diverge"

text \<open>\<^verbatim>\<open>.ok_or(e)\<close> and the result of a loop that may run forever.\<close>

definition ok_or :: "'e \<Rightarrow> 'a option \<Rightarrow> ('a, 'e) outcome" where
  "ok_or e v = (case v of None \<Rightarrow> Err e | Some x \<Rightarrow> Ok x)"

definition of_loop :: "'a option \<Rightarrow> ('a, 'e) outcome" where
  "of_loop v = (case v of None \<Rightarrow> Diverge | Some x \<Rightarrow> Ok x)"

text \<open>\<^verbatim>\<open>.or_else(|| b)\<close> and the decimal digits that \<^verbatim>\<open>format!("{}", n)\<close> prints.\<close>

definition or_else :: "'a option \<Rightarrow> 'a option \<Rightarrow> 'a option" where
  "or_else a b = (case a of None \<Rightarrow> b | Some x \<Rightarrow> Some x)"

fun dec_digits :: "nat \<Rightarrow> string" where
  "dec_digits n =
     (if n < 10 then [char_of (48 + n)] else dec_digits (n div 10) @ [char_of (48 + n mod 10)])"

declare dec_digits.simps [simp del]

lemma or_else_simps [simp]: "or_else None b = b" "or_else (Some x) b = Some x"
  by (simp_all add: or_else_def)

lemma obind_eq_Ok [simp]: "obind r f = Ok y \<longleftrightarrow> (\<exists>x. r = Ok x \<and> f x = Ok y)"
  by (cases r) auto

lemma obind_assoc: "obind (obind r f) g = obind r (\<lambda>x. obind (f x) g)"
  by (cases r) auto

lemma map_err_eq_Ok [simp]: "map_err g r = Ok x \<longleftrightarrow> r = Ok x"
  by (cases r) auto

lemma ok_or_simps [simp]: "ok_or e None = Err e" "ok_or e (Some x) = Ok x"
  by (simp_all add: ok_or_def)

lemma of_loop_simps [simp]: "of_loop None = Diverge" "of_loop (Some x) = Ok x"
  by (simp_all add: of_loop_def)

lemma of_loop_eq_Ok [simp]: "of_loop v = Ok x \<longleftrightarrow> v = Some x"
  by (cases v) auto

text \<open>Reading a result off, to evaluate concrete runs.\<close>

primrec is_ok :: "('a, 'e) outcome \<Rightarrow> bool" where
  "is_ok (Ok x) \<longleftrightarrow> True"
| "is_ok (Err e) \<longleftrightarrow> False"
| "is_ok Panic \<longleftrightarrow> False"
| "is_ok Diverge \<longleftrightarrow> False"

definition the_ok :: "('a, 'e) outcome \<Rightarrow> 'a" where
  "the_ok r = (case r of Ok x \<Rightarrow> x)"

lemma the_ok_Ok [simp]: "the_ok (Ok x) = x"
  by (simp add: the_ok_def)

lemma is_okD: "is_ok r \<Longrightarrow> r = Ok (the_ok r)"
  by (cases r) auto

lemma take_take_append: "take n (take n xs @ ys) = take n (xs @ ys)"
  by (cases "n \<le> length xs") simp_all

section \<open>Text\<close>

text \<open>\<^verbatim>\<open>core::str::from_utf8\<close>: whether bytes are well-formed UTF-8.\<close>

definition cont :: "u8 \<Rightarrow> bool" where
  "cont b \<longleftrightarrow> 0x80 \<le> b \<and> b \<le> 0xBF"

fun utf8_valid :: "u8 list \<Rightarrow> bool" where
  "utf8_valid [] \<longleftrightarrow> True"
| "utf8_valid (a # bs) \<longleftrightarrow>
     (if a < 0x80 then utf8_valid bs
      else if 0xC2 \<le> a \<and> a \<le> 0xDF then
        (case bs of b # r \<Rightarrow> cont b \<and> utf8_valid r | _ \<Rightarrow> False)
      else if 0xE0 \<le> a \<and> a \<le> 0xEF then
        (case bs of b # c # r \<Rightarrow>
           cont b \<and> cont c \<and> (a = 0xE0 \<longrightarrow> 0xA0 \<le> b) \<and> (a = 0xED \<longrightarrow> b \<le> 0x9F) \<and> utf8_valid r
         | _ \<Rightarrow> False)
      else if 0xF0 \<le> a \<and> a \<le> 0xF4 then
        (case bs of b # c # d # r \<Rightarrow>
           cont b \<and> cont c \<and> cont d \<and> (a = 0xF0 \<longrightarrow> 0x90 \<le> b) \<and> (a = 0xF4 \<longrightarrow> b \<le> 0x8F) \<and> utf8_valid r
         | _ \<Rightarrow> False)
      else False)"

definition to_string :: "u8 list \<Rightarrow> string" where
  "to_string bs = map (\<lambda>b. char_of (unat b)) bs"

section \<open>Words read as natural numbers\<close>

lemma unat_add_small [addr_simps]:
  fixes a b :: "'a::len word"
  assumes "unat a + unat b < 2 ^ LENGTH('a)"
  shows "unat (a + b) = unat a + unat b"
  using assms by (simp add: unat_word_ariths)

lemma unat_sub_le [addr_simps]:
  fixes a b :: "'a::len word"
  assumes "b \<le> a"
  shows "unat (a - b) = unat a - unat b"
  using assms by (simp add: unat_sub)

lemma unat_less: "unat (a :: 'a::len word) < 2 ^ LENGTH('a)"
  by (rule unsigned_less)

lemma unat_pow2 [addr_simps]: "k < LENGTH('a) \<Longrightarrow> unat ((2::'a::len word) ^ k) = 2 ^ k"
proof -
  assume k: "k < LENGTH('a)"
  have "unat (word_of_nat (2 ^ k) :: 'a word) = 2 ^ k"
    using k by (simp only: unat_of_nat) simp
  then show ?thesis by simp
qed

lemma shl_pow2 [addr_simps]:
  assumes "k + n < LENGTH('a)"
  shows "shl ((2::'a::len word) ^ k) n = 2 ^ (k + n)"
  using assms by (simp add: shl_def push_bit_eq_mult power_add mult.commute)

text \<open>A cast keeps a value that fits, and cuts off what does not.\<close>

lemma unat_ucast_mod: "unat (ucast (w :: 'a::len word) :: 'b::len word) = unat w mod 2 ^ LENGTH('b)"
  by (simp add: unsigned_ucast_eq take_bit_eq_mod)

lemma unat_ucast_small:
  "unat (w :: 'a::len word) < 2 ^ LENGTH('b) \<Longrightarrow> unat (ucast w :: 'b::len word) = unat w"
  by (simp add: unat_ucast_mod)

lemma unat_ucast_up:
  assumes "LENGTH('a) \<le> LENGTH('b)"
  shows "unat (ucast (w :: 'a::len word) :: 'b::len word) = unat w"
proof -
  have "(2 :: nat) ^ LENGTH('a) \<le> 2 ^ LENGTH('b)" using assms by simp
  then show ?thesis using unat_less [of w] by (intro unat_ucast_small) linarith
qed

lemma unat_drop_bit: "unat (drop_bit n (w :: 'a::len word)) = unat w div 2 ^ n"
  by (simp only: unat_drop_bit_eq) (simp add: drop_bit_eq_div)

text \<open>Clearing the low bits of an address is rounding down to a power of two.\<close>

lemma unat_and_mask:
  fixes x :: "'a::len word"
  shows "unat (x AND mask k) = unat x mod 2 ^ k"
proof -
  have "unat (take_bit k x) = take_bit k (unat x)"
    by (rule unsigned_take_bit_eq)
  then show ?thesis
    by (simp only: take_bit_eq_mask) (simp flip: take_bit_eq_mask add: take_bit_eq_mod)
qed

lemma and_not_mask_eq:
  fixes x :: "'a::len word"
  shows "x AND NOT (mask k) = x - (x AND mask k)"
proof -
  have "(x AND NOT (mask k)) + (x AND mask k) = (x AND NOT (mask k)) OR (x AND mask k)"
    by (rule disjunctive_add) (auto simp: bit_simps)
  also have "\<dots> = x"
    by (rule bit_eqI) (auto simp: bit_simps)
  finally show ?thesis by (simp add: eq_diff_eq)
qed

lemma unat_and_not_mask:
  fixes x :: "'a::len word"
  shows "unat (x AND NOT (mask k)) = unat x div 2 ^ k * 2 ^ k"
proof -
  have "x AND mask k \<le> x"
    by (simp add: word_le_nat_alt unat_and_mask)
  then show ?thesis
    by (simp add: and_not_mask_eq unat_sub_le unat_and_mask minus_mod_eq_div_mult)
qed

lemma pow2_minus_1_eq_mask: "(2::'a::len word) ^ k - 1 = mask k"
  by (simp add: mask_eq_exp_minus_1)

lemma and_mask_eq_0_iff:
  fixes x :: "'a::len word"
  shows "x AND mask k = 0 \<longleftrightarrow> 2 ^ k dvd unat x"
proof -
  have "x AND mask k = 0 \<longleftrightarrow> unat (x AND mask k) = 0"
    by (simp add: unat_eq_zero)
  then show ?thesis by (simp add: unat_and_mask dvd_eq_mod_eq_0)
qed

text \<open>Flipping one bit of an aligned address moves to the neighbouring block.\<close>

lemma nat_xor_pow2:
  fixes n :: nat
  shows "n XOR 2 ^ k = (if even (n div 2 ^ k) then n + 2 ^ k else n - 2 ^ k)"
proof (cases "bit n k")
  case False
  then have "n + 2 ^ k = n OR 2 ^ k"
    by (intro disjunctive_add) (auto simp: bit_simps)
  also have "\<dots> = n XOR 2 ^ k"
    using False by (intro bit_eqI) (auto simp: bit_simps)
  finally show ?thesis using False by (simp add: bit_iff_odd)
next
  case True
  have "(n XOR 2 ^ k) + 2 ^ k = (n XOR 2 ^ k) OR 2 ^ k"
    using True by (intro disjunctive_add) (auto simp: bit_simps)
  also have "\<dots> = n"
    using True by (intro bit_eqI) (auto simp: bit_simps)
  finally have "(n XOR 2 ^ k) + 2 ^ k = n" .
  then have "n XOR 2 ^ k = n - 2 ^ k" by linarith
  with True show ?thesis by (simp add: bit_iff_odd)
qed

lemma unat_xor_pow2:
  fixes x :: "'a::len word"
  assumes "k < LENGTH('a)"
  shows "unat (x XOR 2 ^ k) = (if even (unat x div 2 ^ k) then unat x + 2 ^ k else unat x - 2 ^ k)"
  using assms by (simp add: unsigned_xor_eq unat_pow2 nat_xor_pow2)

section \<open>Little-endian bytes\<close>

definition from_le16 :: "u8 \<Rightarrow> u8 \<Rightarrow> u16" where
  "from_le16 b0 b1 = ucast b0 OR push_bit 8 (ucast b1)"

definition from_le32 :: "u8 \<Rightarrow> u8 \<Rightarrow> u8 \<Rightarrow> u8 \<Rightarrow> u32" where
  "from_le32 b0 b1 b2 b3 =
     ucast b0 OR push_bit 8 (ucast b1) OR push_bit 16 (ucast b2) OR push_bit 24 (ucast b3)"

definition le_byte :: "nat \<Rightarrow> u32 \<Rightarrow> u8" where
  "le_byte i v = ucast (drop_bit (8 * i) v)"

definition to_le32 :: "u32 \<Rightarrow> u8 list" where
  "to_le32 v = [le_byte 0 v, le_byte 1 v, le_byte 2 v, le_byte 3 v]"

lemma length_to_le32 [simp]: "length (to_le32 v) = 4"
  by (simp add: to_le32_def)

lemma from_le32_le_byte [simp]:
  "from_le32 (le_byte 0 v) (le_byte 1 v) (le_byte 2 v) (le_byte 3 v) = v"
proof (rule bit_word_eqI)
  fix n assume "n < LENGTH(32)"
  then have "n < 8 \<or> (8 \<le> n \<and> n < 16) \<or> (16 \<le> n \<and> n < 24) \<or> (24 \<le> n \<and> n < 32)"
    by simp linarith
  then show "bit (from_le32 (le_byte 0 v) (le_byte 1 v) (le_byte 2 v) (le_byte 3 v)) n = bit v n"
    by (elim disjE) (auto simp: from_le32_def le_byte_def bit_simps)
qed

section \<open>Byte-addressed memory\<close>

type_synonym memory = "u32 \<Rightarrow> u8"

definition read_u32 :: "memory \<Rightarrow> u32 \<Rightarrow> u32" where
  "read_u32 m a = from_le32 (m a) (m (a + 1)) (m (a + 2)) (m (a + 3))"

definition write_u32 :: "memory \<Rightarrow> u32 \<Rightarrow> u32 \<Rightarrow> memory" where
  "write_u32 m a v =
     m(a := le_byte 0 v, a + 1 := le_byte 1 v, a + 2 := le_byte 2 v, a + 3 := le_byte 3 v)"

text \<open>\<^verbatim>\<open>core::ptr::write_bytes(a, v, n)\<close>.\<close>

definition write_bytes :: "memory \<Rightarrow> u32 \<Rightarrow> u8 \<Rightarrow> u32 \<Rightarrow> memory" where
  "write_bytes m a v n = (\<lambda>x. if x - a < n then v else m x)"

text \<open>The cells a 32-bit access touches, and the cells of an interval of addresses.\<close>

definition cells :: "u32 \<Rightarrow> u32 set" where
  "cells a = {a, a + 1, a + 2, a + 3}"

definition span :: "nat \<Rightarrow> nat \<Rightarrow> u32 set" where
  "span lo n = {x. lo \<le> unat x \<and> unat x < lo + n}"

lemma read_write_u32_same [mem_simps]: "read_u32 (write_u32 m a v) a = v"
  by (simp add: read_u32_def write_u32_def del: One_nat_def)

lemma write_u32_other [mem_simps]: "x \<notin> cells a \<Longrightarrow> write_u32 m a v x = m x"
  by (simp add: write_u32_def cells_def)

lemma read_u32_cong: "(\<And>x. x \<in> cells a \<Longrightarrow> m x = m' x) \<Longrightarrow> read_u32 m a = read_u32 m' a"
  by (simp add: read_u32_def cells_def)

lemma read_write_u32_other [mem_simps]:
  "cells a \<inter> cells b = {} \<Longrightarrow> read_u32 (write_u32 m a v) b = read_u32 m b"
  by (intro read_u32_cong write_u32_other) blast

lemma read_u32_upd_other [mem_simps]: "x \<notin> cells b \<Longrightarrow> read_u32 (m(x := v)) b = read_u32 m b"
  by (rule read_u32_cong) auto

lemma cells_span:
  assumes "4 \<le> n" and "unat a + n \<le> 2 ^ 32"
  shows "cells a \<subseteq> span (unat a) n"
proof -
  have "unat (a + of_nat i) = unat a + i" if "i < 4" for i
    using assms that by (subst unat_add_small) (auto simp: unat_of_nat)
  from this [of 1] this [of 2] this [of 3] show ?thesis
    using assms by (auto simp: cells_def span_def)
qed

lemma span_disjoint:
  "lo + n \<le> lo' \<or> lo' + n' \<le> lo \<Longrightarrow> span lo n \<inter> span lo' n' = {}"
  by (auto simp: span_def)

end
