(* ===== verification/Buddy_Allocator.thy ===== *)
theory Buddy_Allocator
  imports Prelude
begin

text \<open>
  The buddy allocator of \<^verbatim>\<open>kernel/src/mm/buddy_allocator.rs\<close>.  The free lists are intrusive:
  the link of a free block is the first word of the block itself, and the order of an
  allocated block is the first byte of the block, so every operation works on the pair of
  the allocator's fields and the memory.  Orders are \<open>nat\<close> (the code never passes one that
  could wrap), addresses and sizes are 32-bit words.
\<close>

section \<open>State and operations\<close>

definition MAX_ORDER :: nat where
  "MAX_ORDER = 10"

text \<open>\<^verbatim>\<open>size_of::<BlockHeader>()\<close>: one byte, padded to its alignment of 8.\<close>

definition HEADER_SIZE :: u32 where
  "HEADER_SIZE = 8"

record buddy_allocator =
  free_lists :: "u32 list"
  base_addr :: u32
  total_size :: u32
  min_block_size :: u32

type_synonym bstate = "buddy_allocator \<times> memory"

record layout =
  lay_size :: u32
  lay_align :: u32

definition buddy_new :: "u32 \<Rightarrow> buddy_allocator" where
  "buddy_new mbs =
     \<lparr>free_lists = replicate (MAX_ORDER + 1) 0, base_addr = 0, total_size = 0,
      min_block_size = mbs\<rparr>"

definition add_to_free_list :: "bstate \<Rightarrow> u32 \<Rightarrow> nat \<Rightarrow> bstate" where
  "add_to_free_list s addr order =
     (case s of (b, m) \<Rightarrow>
        (b\<lparr>free_lists := (free_lists b)[order := addr]\<rparr>,
         write_u32 m addr (free_lists b ! order)))"

definition remove_from_free_list :: "bstate \<Rightarrow> nat \<Rightarrow> u32 \<times> bstate" where
  "remove_from_free_list s order =
     (case s of (b, m) \<Rightarrow>
        let block = free_lists b ! order in
        (block, (b\<lparr>free_lists := (free_lists b)[order := read_u32 m block]\<rparr>, m)))"

text \<open>
  \<^verbatim>\<open>remove_specific_from_free_list\<close> walks the list with a \<^verbatim>\<open>&mut *mut FreeBlock\<close>: a slot is the
  head of a list or the link field of a block.
\<close>

datatype slot = HeadSlot nat | NextSlot u32

fun slot_read :: "bstate \<Rightarrow> slot \<Rightarrow> u32" where
  "slot_read (b, m) (HeadSlot order) = free_lists b ! order"
| "slot_read (b, m) (NextSlot p) = read_u32 m p"

fun slot_write :: "bstate \<Rightarrow> slot \<Rightarrow> u32 \<Rightarrow> bstate" where
  "slot_write (b, m) (HeadSlot order) v = (b\<lparr>free_lists := (free_lists b)[order := v]\<rparr>, m)"
| "slot_write (b, m) (NextSlot p) v = (b, write_u32 m p v)"

partial_function (option) remove_walk :: "bstate \<Rightarrow> u32 \<Rightarrow> slot \<Rightarrow> (bool \<times> bstate) option" where
  "remove_walk s addr current =
     (let p = slot_read s current in
      if p = 0 then Some (False, s)
      else if p = addr then Some (True, slot_write s current (read_u32 (snd s) p))
      else remove_walk s addr (NextSlot p))"

definition remove_specific_from_free_list ::
  "bstate \<Rightarrow> u32 \<Rightarrow> nat \<Rightarrow> (bool \<times> bstate) option" where
  "remove_specific_from_free_list s addr order = remove_walk s addr (HeadSlot order)"

text \<open>The inner loop of \<^verbatim>\<open>init\<close>: the largest order whose block fits and is aligned, or 0.\<close>

fun init_order :: "u32 \<Rightarrow> u32 \<Rightarrow> u32 \<Rightarrow> nat \<Rightarrow> nat" where
  "init_order mbs remaining current 0 = 0"
| "init_order mbs remaining current (Suc n) =
     (let block_size = shl mbs (Suc n) in
      if block_size \<le> remaining \<and> current AND (block_size - 1) = 0 then Suc n
      else init_order mbs remaining current n)"

partial_function (option) init_loop :: "bstate \<Rightarrow> u32 \<Rightarrow> u32 \<Rightarrow> bstate option" where
  "init_loop s current end_addr =
     (let mbs = min_block_size (fst s) in
      if current + mbs \<le> end_addr then
        let remaining = end_addr - current;
            order = init_order mbs remaining current MAX_ORDER in
        if order > 0 then
          init_loop (add_to_free_list s current order) (current + shl mbs order) end_addr
        else if mbs \<le> remaining then
          init_loop (add_to_free_list s current 0) (current + mbs) end_addr
        else init_loop s current end_addr
      else Some s)"

definition buddy_init :: "bstate \<Rightarrow> u32 \<Rightarrow> u32 \<Rightarrow> bstate option" where
  "buddy_init s start_addr end_addr =
     (case s of (b, m) \<Rightarrow>
        let mbs = min_block_size b;
            start = (start_addr + mbs - 1) AND NOT (mbs - 1);
            end' = end_addr AND NOT (mbs - 1) in
        init_loop
          (b\<lparr>base_addr := start, total_size := end' - start,
             free_lists := replicate (MAX_ORDER + 1) 0\<rparr>, m) start end')"

definition split_block :: "u32 \<Rightarrow> nat \<Rightarrow> bstate \<Rightarrow> bstate" where
  "split_block block split_order s =
     add_to_free_list s (block + shl (min_block_size (fst s)) (split_order - 1)) (split_order - 1)"

definition alloc_block_order :: "bstate \<Rightarrow> nat \<Rightarrow> u32 option \<times> bstate" where
  "alloc_block_order s order =
     (if order > MAX_ORDER then (None, s)
      else if free_lists (fst s) ! order \<noteq> 0 then
        (case remove_from_free_list s order of (block, s') \<Rightarrow> (Some block, s'))
      else
        case find (\<lambda>h. free_lists (fst s) ! h \<noteq> 0) [order + 1..<MAX_ORDER + 1] of
          None \<Rightarrow> (None, s)
        | Some higher_order \<Rightarrow>
            (case remove_from_free_list s higher_order of
               (block, s') \<Rightarrow>
                 (Some block, fold (split_block block) (rev [order + 1..<higher_order + 1]) s')))"

definition alloc_block :: "bstate \<Rightarrow> u32 option \<times> bstate" where
  "alloc_block s = alloc_block_order s 0"

function free_block_loop :: "bstate \<Rightarrow> u32 \<Rightarrow> nat \<Rightarrow> (u32 \<times> nat \<times> bstate) option" where
  "free_block_loop s current_addr current_order =
     (if current_order < MAX_ORDER then
        let block_size = shl (min_block_size (fst s)) current_order;
            buddy_addr = current_addr XOR block_size in
        if buddy_addr < base_addr (fst s) \<or> base_addr (fst s) + total_size (fst s) \<le> buddy_addr
        then Some (current_addr, current_order, s)
        else
          (case remove_specific_from_free_list s buddy_addr current_order of
             None \<Rightarrow> None
           | Some (True, s') \<Rightarrow>
               free_block_loop s' (min current_addr buddy_addr) (current_order + 1)
           | Some (False, s') \<Rightarrow> Some (current_addr, current_order, s'))
      else Some (current_addr, current_order, s))"
  by pat_completeness auto
termination
  by (relation "measure (\<lambda>(s, a, order). MAX_ORDER - order)") auto

declare free_block_loop.simps [simp del]

definition free_block :: "bstate \<Rightarrow> u32 \<Rightarrow> nat \<Rightarrow> bstate option" where
  "free_block s addr order =
     (if order > MAX_ORDER then Some s
      else map_option (\<lambda>(a, ord, s'). add_to_free_list s' a ord) (free_block_loop s addr order))"

text \<open>The size search of \<^verbatim>\<open>alloc\<close>; it does not end once \<^verbatim>\<open>block_size\<close> has been shifted out to 0.\<close>

partial_function (option) order_for :: "u32 \<Rightarrow> u32 \<Rightarrow> nat \<Rightarrow> nat option" where
  "order_for block_size needed order =
     (if block_size < needed then order_for (push_bit 1 block_size) needed (order + 1)
      else Some order)"

declare init_loop.simps [code] remove_walk.simps [code] order_for.simps [code]

definition header_size :: "layout \<Rightarrow> u32" where
  "header_size lay =
     (let align = max (lay_align lay) 8 in (HEADER_SIZE + align - 1) AND NOT (align - 1))"

definition buddy_alloc :: "bstate \<Rightarrow> layout \<Rightarrow> (u32 option \<times> bstate) option" where
  "buddy_alloc s lay =
     (if lay_size lay = 0 then Some (None, s)
      else
        let hs = header_size lay; needed = lay_size lay + hs in
        case order_for (min_block_size (fst s)) needed 0 of
          None \<Rightarrow> None
        | Some order \<Rightarrow>
            (case alloc_block_order s order of
               (None, s') \<Rightarrow> Some (None, s')
             | (Some addr, (b, m)) \<Rightarrow>
                 Some (Some (addr + hs), (b, m(addr := (of_nat order :: u8))))))"

definition buddy_free :: "bstate \<Rightarrow> u32 \<Rightarrow> bstate option" where
  "buddy_free s ptr =
     (if ptr = 0 then Some s
      else
        let header_addr = ptr - HEADER_SIZE; order = unat (snd s header_addr) in
        free_block s header_addr order)"

end
