(* ===== verification/Buddy_Geometry.thy ===== *)
theory Buddy_Geometry
  imports Buddy_Allocator
begin

text \<open>
  The abstract view of the buddy allocator: a set of blocks (address, order) that tile part
  of the managed region, and how splitting and merging change such a set.  Nothing here
  mentions the free lists; \<open>Buddy_Lists\<close> connects the two.
\<close>

type_synonym block = "u32 \<times> nat"

definition bsize :: "nat \<Rightarrow> nat \<Rightarrow> nat" where
  "bsize k order = 2 ^ (k + order)"

definition extent :: "nat \<Rightarrow> block \<Rightarrow> nat set" where
  "extent k x = {unat (fst x)..<unat (fst x) + bsize k (snd x)}"

definition block_ok :: "nat \<Rightarrow> nat \<Rightarrow> nat \<Rightarrow> block \<Rightarrow> bool" where
  "block_ok k lo hi x \<longleftrightarrow>
     snd x \<le> MAX_ORDER \<and> bsize k (snd x) dvd unat (fst x) \<and>
     lo \<le> unat (fst x) \<and> unat (fst x) + bsize k (snd x) \<le> hi"

definition tiling :: "nat \<Rightarrow> nat \<Rightarrow> nat \<Rightarrow> block set \<Rightarrow> bool" where
  "tiling k lo hi B \<longleftrightarrow>
     (\<forall>x\<in>B. block_ok k lo hi x) \<and>
     (\<forall>x\<in>B. \<forall>y\<in>B. x \<noteq> y \<longrightarrow> extent k x \<inter> extent k y = {})"

definition cover :: "nat \<Rightarrow> block set \<Rightarrow> nat set" where
  "cover k B = (\<Union>x\<in>B. extent k x)"

lemma bsize_pos [simp]: "0 < bsize k order"
  by (simp add: bsize_def)

lemma bsize_nonzero [simp]: "bsize k order \<noteq> 0"
  by (simp add: bsize_def)

lemma bsize_Suc: "bsize k (Suc order) = 2 * bsize k order"
  by (simp add: bsize_def)

lemma bsize_mono: "order \<le> order' \<Longrightarrow> bsize k order \<le> bsize k order'"
  by (simp add: bsize_def)

lemma cover_insert [simp]: "cover k (insert x B) = extent k x \<union> cover k B"
  by (simp add: cover_def)

lemma cover_empty [simp]: "cover k {} = {}"
  by (simp add: cover_def)

lemma tiling_empty [simp]: "tiling k lo hi {}"
  by (simp add: tiling_def)

lemma tiling_insert:
  "tiling k lo hi (insert x B) \<longleftrightarrow>
     block_ok k lo hi x \<and> tiling k lo hi (B - {x}) \<and> extent k x \<inter> cover k (B - {x}) = {}"
  unfolding tiling_def cover_def by blast

lemma tiling_subset: "tiling k lo hi B \<Longrightarrow> C \<subseteq> B \<Longrightarrow> tiling k lo hi C"
  unfolding tiling_def by blast

lemma extent_nonempty [simp]: "extent k x \<noteq> {}"
  by (simp add: extent_def)

lemma addr_in_extent [simp]: "unat a \<in> extent k (a, order)"
  by (simp add: extent_def)

lemma disjoint_not_mem: "extent k x \<inter> cover k B = {} \<Longrightarrow> x \<notin> B"
  using extent_nonempty [of k x] unfolding cover_def by blast

text \<open>Two different blocks of a tiling never start at the same address.\<close>

lemma tiling_address_unique:
  assumes "tiling k lo hi B" "(a, i) \<in> B" "(a, j) \<in> B"
  shows "i = j"
proof (rule ccontr)
  assume "i \<noteq> j"
  then have "extent k (a, i) \<inter> extent k (a, j) = {}"
    using assms by (auto simp: tiling_def)
  then show False by (auto simp: extent_def)
qed

section \<open>Splitting and merging\<close>

lemma split_block_ok:
  assumes ok: "block_ok k lo hi (a, Suc order)" and hi: "hi \<le> 2 ^ 32" and k: "k + MAX_ORDER < 32"
  defines "c \<equiv> a + 2 ^ (k + order)"
  shows "unat c = unat a + bsize k order"
    and "block_ok k lo hi (a, order)" and "block_ok k lo hi (c, order)"
    and "extent k (a, Suc order) = extent k (a, order) \<union> extent k (c, order)"
    and "extent k (a, order) \<inter> extent k (c, order) = {}"
proof -
  have o: "order < MAX_ORDER" using ok by (simp add: block_ok_def)
  have p: "unat ((2::u32) ^ (k + order)) = bsize k order"
    using o k by (simp add: unat_pow2 bsize_def)
  have bound: "unat a + 2 * bsize k order \<le> 2 ^ 32"
    using ok hi by (simp add: block_ok_def bsize_Suc)
  have "unat a + bsize k order < 2 ^ 32"
    using bound bsize_pos [of k order] by linarith
  then show c: "unat c = unat a + bsize k order"
    unfolding c_def by (subst unat_add_small) (simp_all add: p)
  have d: "bsize k order dvd unat a"
    using ok by (auto simp: block_ok_def bsize_Suc elim: dvd_mult_right)
  show "block_ok k lo hi (a, order)" and "block_ok k lo hi (c, order)"
    using ok c d by (auto simp: block_ok_def bsize_Suc)
  show "extent k (a, Suc order) = extent k (a, order) \<union> extent k (c, order)"
    and "extent k (a, order) \<inter> extent k (c, order) = {}"
    using c by (auto simp: extent_def bsize_Suc)
qed

lemma tiling_split:
  assumes "tiling k lo hi (insert (a, Suc order) B)" "(a, Suc order) \<notin> B"
    and "hi \<le> 2 ^ 32" "k + MAX_ORDER < 32"
  defines "c \<equiv> a + 2 ^ (k + order)"
  shows "tiling k lo hi (insert (a, order) (insert (c, order) B))"
    and "cover k (insert (a, order) (insert (c, order) B)) = cover k (insert (a, Suc order) B)"
    and "(a, order) \<notin> B" and "(c, order) \<notin> B" and "a \<noteq> c"
proof -
  have B: "block_ok k lo hi (a, Suc order)" "tiling k lo hi B"
      "extent k (a, Suc order) \<inter> cover k B = {}"
    using assms(1,2) by (auto simp: tiling_insert)
  note sp = split_block_ok [OF B(1) assms(3,4), folded c_def]
  have dj: "extent k (a, order) \<inter> cover k B = {}" "extent k (c, order) \<inter> cover k B = {}"
    using B(3) sp(4) by auto
  show nm: "(a, order) \<notin> B" "(c, order) \<notin> B"
    using dj by (auto dest: disjoint_not_mem)
  show ne: "a \<noteq> c" using sp(1) by auto
  show "tiling k lo hi (insert (a, order) (insert (c, order) B))"
    using B sp dj nm ne by (simp add: tiling_insert Int_Un_distrib insert_Diff_if)
  show "cover k (insert (a, order) (insert (c, order) B)) = cover k (insert (a, Suc order) B)"
    using sp(4) by auto
qed

text \<open>The buddy of an aligned block, as the code computes it.\<close>

definition buddy_of :: "nat \<Rightarrow> u32 \<Rightarrow> nat \<Rightarrow> u32" where
  "buddy_of k a order = a XOR 2 ^ (k + order)"

lemma unat_buddy_of:
  assumes "k + order < 32"
  shows "unat (buddy_of k a order) =
    (if even (unat a div bsize k order) then unat a + bsize k order else unat a - bsize k order)"
  using assms by (simp add: buddy_of_def bsize_def unat_xor_pow2)

lemma buddy_of_neq:
  assumes "k + order < 32"
  shows "a \<noteq> buddy_of k a order"
proof
  assume "a = buddy_of k a order"
  then have "bit a (k + order) = bit (buddy_of k a order) (k + order)" by simp
  with assms show False by (simp add: buddy_of_def bit_simps)
qed

lemma dvd_double:
  fixes n s :: nat
  assumes "s dvd n" "even (n div s)" "0 < s"
  shows "2 * s dvd n"
proof -
  from assms(1) obtain q where q: "n = s * q" ..
  with assms(2,3) have "even q" by simp
  then show ?thesis by (auto simp: q)
qed

lemma merge_block_ok:
  assumes a: "block_ok k lo hi (a, order)" and b: "block_ok k lo hi (buddy_of k a order, order)"
    and k: "k + MAX_ORDER < 32" and o: "order < MAX_ORDER"
  defines "c \<equiv> min a (buddy_of k a order)"
  shows "block_ok k lo hi (c, Suc order)"
    and "extent k (c, Suc order) = extent k (a, order) \<union> extent k (buddy_of k a order, order)"
proof -
  let ?b = "buddy_of k a order" and ?s = "bsize k order"
  have ub: "unat ?b = (if even (unat a div ?s) then unat a + ?s else unat a - ?s)"
    using k o by (intro unat_buddy_of) simp
  have dvd: "?s dvd unat a" using a by (simp add: block_ok_def)
  have *: "unat c = (if even (unat a div ?s) then unat a else unat a - ?s) \<and> 2 * ?s dvd unat c
      \<and> (odd (unat a div ?s) \<longrightarrow> ?s \<le> unat a)"
  proof (cases "even (unat a div ?s)")
    case True
    then have "c = a" using ub by (simp add: c_def min_def word_le_nat_alt)
    with True dvd show ?thesis by (simp add: dvd_double)
  next
    case False
    then have "unat a \<noteq> 0" by (intro notI) simp
    then have le: "?s \<le> unat a" using dvd by (intro dvd_imp_le) auto
    then have "\<not> a \<le> ?b"
      using ub False bsize_pos [of k order] by (simp add: word_le_nat_alt del: bsize_pos)
    then have "c = ?b" by (simp add: c_def min_def)
    moreover have "(unat a - ?s) div ?s = unat a div ?s - 1"
      using le by (simp add: le_div_geq)
    ultimately show ?thesis
      using False ub le dvd by (auto intro!: dvd_double)
  qed
  show "block_ok k lo hi (c, Suc order)"
    using a b ub * o by (auto simp: block_ok_def bsize_Suc split: if_splits)
  show "extent k (c, Suc order) = extent k (a, order) \<union> extent k (?b, order)"
    using ub * by (auto simp: extent_def bsize_Suc split: if_splits)
qed

lemma tiling_merge:
  assumes t: "tiling k lo hi (insert (a, order) (insert (buddy_of k a order, order) B))"
    and n: "(a, order) \<notin> B" "(buddy_of k a order, order) \<notin> B"
    and k: "k + MAX_ORDER < 32" and o: "order < MAX_ORDER"
  defines "c \<equiv> min a (buddy_of k a order)"
  shows "tiling k lo hi (insert (c, Suc order) B)"
    and "cover k (insert (c, Suc order) B) =
         cover k (insert (a, order) (insert (buddy_of k a order, order) B))"
    and "(c, Suc order) \<notin> B"
proof -
  let ?b = "buddy_of k a order"
  have ko: "k + order < 32" using k o by simp
  have "a \<noteq> ?b"
    by (rule buddy_of_neq [OF ko])
  then have ok: "block_ok k lo hi (a, order)" "block_ok k lo hi (?b, order)" "tiling k lo hi B"
    and dj: "extent k (a, order) \<inter> cover k B = {}" "extent k (?b, order) \<inter> cover k B = {}"
    using t n by (auto simp: tiling_insert insert_Diff_if)
  note mg = merge_block_ok [OF ok(1,2) k o, folded c_def]
  have d: "extent k (c, Suc order) \<inter> cover k B = {}" using mg(2) dj by auto
  then show nm: "(c, Suc order) \<notin> B" by (rule disjoint_not_mem)
  show "tiling k lo hi (insert (c, Suc order) B)"
    using mg(1) ok(3) d nm by (simp add: tiling_insert)
  show "cover k (insert (c, Suc order) B) = cover k (insert (a, order) (insert (?b, order) B))"
    using mg(2) by auto
qed

text \<open>Free space is coalesced when no block and its buddy are free at the same order.\<close>

definition coalesced :: "nat \<Rightarrow> block set \<Rightarrow> bool" where
  "coalesced k B \<longleftrightarrow> (\<forall>a i. (a, i) \<in> B \<longrightarrow> i < MAX_ORDER \<longrightarrow> (buddy_of k a i, i) \<notin> B)"

lemma buddy_of_buddy_of [simp]: "buddy_of k (buddy_of k a i) i = a"
  by (simp add: buddy_of_def xor.assoc)

lemma split_buddy:
  assumes "block_ok k lo hi (a, Suc order)" "k + MAX_ORDER < 32"
  shows "buddy_of k (a + 2 ^ (k + order)) order = a"
proof -
  have ord: "k + order < 32" using assms by (simp add: block_ok_def)
  have "2 * bsize k order dvd unat a" using assms(1) by (simp add: block_ok_def bsize_Suc)
  then have "even (unat a div bsize k order)" by (auto elim!: dvdE)
  then have "unat (buddy_of k a order) = unat a + 2 ^ (k + order)"
    using unat_buddy_of [OF ord, of a] by (simp add: bsize_def)
  then have "word_of_nat (unat (buddy_of k a order)) = (word_of_nat (unat a + 2 ^ (k + order)) :: u32)"
    by (simp only:)
  then have "buddy_of k a order = a + 2 ^ (k + order)" by simp
  then show ?thesis by (metis buddy_of_buddy_of)
qed

lemma coalesced_subset: "coalesced k B \<Longrightarrow> C \<subseteq> B \<Longrightarrow> coalesced k C"
  unfolding coalesced_def by blast

lemma coalesced_insert:
  assumes "coalesced k B" "k + i < 32" "i < MAX_ORDER \<Longrightarrow> (buddy_of k a i, i) \<notin> B"
  shows "coalesced k (insert (a, i) B)"
  unfolding coalesced_def
proof (intro allI impI notI)
  fix c j assume *: "(c, j) \<in> insert (a, i) B" "j < MAX_ORDER" "(buddy_of k c j, j) \<in> insert (a, i) B"
  show False
  proof (cases "c = a \<and> j = i")
    case True
    with * assms(3) buddy_of_neq [OF assms(2), of a] show False by auto
  next
    case False
    with * have c: "(c, j) \<in> B" by auto
    with * assms(1) have "buddy_of k c j = a \<and> j = i" unfolding coalesced_def by blast
    then have "c = buddy_of k a i" "j = i" by (metis buddy_of_buddy_of)+
    with c *(2) assms(3) show False by simp
  qed
qed

text \<open>
  In coalesced free space, every aligned run of free memory of the size of a block lies in
  one free block.
\<close>

lemma aligned_nested:
  fixes a b :: nat
  assumes "2 ^ i dvd a" "2 ^ j dvd b" "i \<le> j" "{a..<a + 2 ^ i} \<inter> {b..<b + 2 ^ j} \<noteq> {}"
  shows "{a..<a + 2 ^ i} \<subseteq> {b..<b + 2 ^ j}"
proof -
  have "(2::nat) ^ i dvd 2 ^ j" using assms(3) by (rule le_imp_power_dvd)
  then obtain q where q: "(2::nat) ^ j = 2 ^ i * q" ..
  from assms(1) obtain x where x: "a = 2 ^ i * x" ..
  from assms(2) obtain y where y: "b = 2 ^ i * q * y" by (auto simp: q)
  from assms(4) have "a < b + 2 ^ j" "b < a + 2 ^ i" by auto
  then have "2 ^ i * x < 2 ^ i * (q * y + q)" "2 ^ i * (q * y) < 2 ^ i * (x + 1)"
    by (simp_all add: x y q algebra_simps)
  then have "x < q * y + q" "q * y < x + 1" by (simp_all only: mult_less_cancel1)
  then have "q * y \<le> x" "x + 1 \<le> q * y + q" by simp_all
  then have "2 ^ i * (q * y) \<le> 2 ^ i * x" "2 ^ i * (x + 1) \<le> 2 ^ i * (q * y + q)"
    by (simp_all only: mult_le_mono2)
  then show ?thesis by (auto simp: x y q algebra_simps)
qed

lemma buddy_pair:
  assumes "bsize k j dvd unat a" "k + j < 32"
  obtains c where "bsize k (Suc j) dvd c"
    and "{c..<c + bsize k (Suc j)} = extent k (a, j) \<union> extent k (buddy_of k a j, j)"
    and "bsize k j dvd unat (buddy_of k a j)"
proof -
  let ?s = "bsize k j"
  have ub: "unat (buddy_of k a j) = (if even (unat a div ?s) then unat a + ?s else unat a - ?s)"
    using assms(2) by (rule unat_buddy_of)
  show thesis
  proof (cases "even (unat a div ?s)")
    case True
    then show thesis
      using ub assms(1) dvd_double [OF assms(1) True bsize_pos]
      by (intro that [of "unat a"]) (auto simp: extent_def bsize_Suc)
  next
    case False
    then have "unat a \<noteq> 0" by (intro notI) simp
    then have le: "?s \<le> unat a" using assms(1) by (intro dvd_imp_le) auto
    then have "(unat a - ?s) div ?s = unat a div ?s - 1" by (simp add: le_div_geq)
    then have "2 * ?s dvd unat a - ?s" using False le assms(1) by (intro dvd_double) auto
    then show thesis
      using ub assms(1) False le by (intro that [of "unat a - ?s"]) (auto simp: extent_def bsize_Suc)
  qed
qed

lemma extent_nested:
  assumes "bsize k i dvd r" "block_ok k lo hi x" "extent k x \<inter> {r..<r + bsize k i} \<noteq> {}"
  shows "i \<le> snd x \<Longrightarrow> {r..<r + bsize k i} \<subseteq> extent k x"
    and "snd x \<le> i \<Longrightarrow> extent k x \<subseteq> {r..<r + bsize k i}"
  using aligned_nested [of "k + i" r "k + snd x" "unat (fst x)"]
    aligned_nested [of "k + snd x" "unat (fst x)" "k + i" r] assms
  by (simp_all add: bsize_def extent_def block_ok_def Int_commute)

lemma ivl_eq_start: "0 < n \<Longrightarrow> {a..<a + n} = {b..<b + n} \<longleftrightarrow> a = (b::nat)"
  by (auto simp: atLeastLessThan_eq_iff)

lemma coalesced_run:
  assumes t: "tiling k lo hi B" and co: "coalesced k B" and k: "k + MAX_ORDER < 32"
    and r: "i \<le> MAX_ORDER" "bsize k i dvd r" "{r..<r + bsize k i} \<subseteq> cover k B"
  shows "\<exists>x\<in>B. i \<le> snd x \<and> {r..<r + bsize k i} \<subseteq> extent k x"
proof (rule ccontr)
  assume none: "\<not> ?thesis"
  let ?R = "{r..<r + bsize k i}"
  have ok: "block_ok k lo hi x" if "x \<in> B" for x using t that by (simp add: tiling_def)
  have small: "snd x < i \<and> extent k x \<subseteq> ?R" if "x \<in> B" "extent k x \<inter> ?R \<noteq> {}" for x
    using extent_nested [OF r(2) ok [OF that(1)] that(2)] none that(1)
    by (cases "i \<le> snd x") auto
  let ?Q = "\<lambda>x. x \<in> B \<and> extent k x \<inter> ?R \<noteq> {}"
  have "r \<in> cover k B" using r(3) by auto
  then have "\<exists>x. ?Q x" by (fastforce simp: cover_def)
  then obtain a j where "?Q (a, j)" and least: "\<And>x. ?Q x \<Longrightarrow> j \<le> snd x"
    using ex_has_least_nat [of ?Q _ snd] by (metis prod.collapse)
  then have a: "(a, j) \<in> B" "extent k (a, j) \<inter> ?R \<noteq> {}" by auto
  let ?b = "buddy_of k a j"
  have ji: "j < i" and aR: "extent k (a, j) \<subseteq> ?R" using small [OF a] by auto
  then have jm: "j < MAX_ORDER" "k + j < 32" using r(1) k by auto
  obtain c where c: "bsize k (Suc j) dvd c" "{c..<c + bsize k (Suc j)} = extent k (a, j) \<union> extent k (?b, j)"
    and bd: "bsize k j dvd unat ?b"
    using buddy_pair [OF _ jm(2), of a] ok [OF a(1)] by (auto simp: block_ok_def)
  have "{c..<c + bsize k (Suc j)} \<inter> ?R \<noteq> {}" unfolding c(2) using a(2) by blast
  then have "{c..<c + bsize k (Suc j)} \<subseteq> ?R"
    using c(1) r(2) ji unfolding bsize_def by (intro aligned_nested) simp_all
  then have bR: "extent k (?b, j) \<subseteq> ?R" using c(2) by auto
  have ubx: "unat ?b \<in> extent k (?b, j)" by (simp add: extent_def)
  then have "unat ?b \<in> cover k B" using bR r(3) by blast
  then obtain x where x: "x \<in> B" "unat ?b \<in> extent k x" unfolding cover_def by blast
  have "extent k x \<inter> ?R \<noteq> {}" using x(2) bR ubx by blast
  then have jx: "j \<le> snd x" using least [of x] x(1) by blast
  have "snd x = j"
  proof (rule ccontr)
    assume "snd x \<noteq> j"
    moreover have "extent k x \<inter> {c..<c + bsize k (Suc j)} \<noteq> {}" using x(2) ubx c(2) by blast
    ultimately have "extent k (a, j) \<subseteq> extent k x"
      using extent_nested(1) [OF c(1) ok [OF x(1)]] jx c(2) by auto
    then have "extent k x \<inter> extent k (a, j) \<noteq> {}" using a(2) by blast
    then have "x = (a, j)" using t x(1) a(1) unfolding tiling_def by blast
    with \<open>snd x \<noteq> j\<close> show False by simp
  qed
  moreover have "extent k x \<inter> {unat ?b..<unat ?b + bsize k j} \<noteq> {}"
    using x(2) ubx by (auto simp: extent_def)
  ultimately have "extent k x = extent k (?b, j)"
    using extent_nested [OF bd ok [OF x(1)]] by (auto simp: extent_def)
  then have "fst x = ?b" using \<open>snd x = j\<close> by (simp add: extent_def ivl_eq_start word_unat_eq_iff)
  then have "(?b, j) \<in> B" using x(1) \<open>snd x = j\<close> by (metis prod.collapse)
  then show False using co a(1) jm(1) unfolding coalesced_def by blast
qed

end
