(* ===== verification/Buddy_Lists.thy ===== *)
theory Buddy_Lists
  imports Buddy_Geometry
begin

text \<open>
  The intrusive free lists: a relational abstraction from the links in memory to a list of
  block addresses per order, the allocator invariant over both views, and one lemma per
  list operation of \<open>Buddy_Allocator\<close>.  The ghost set \<open>A\<close> of an invariant holds the blocks
  that are in use (or in the hands of the operation that is running).
\<close>

section \<open>Linked lists in memory\<close>

primrec seg :: "memory \<Rightarrow> u32 \<Rightarrow> u32 list \<Rightarrow> u32 \<Rightarrow> bool" where
  "seg m p [] q \<longleftrightarrow> p = q"
| "seg m p (a # as) q \<longleftrightarrow> p = a \<and> a \<noteq> 0 \<and> seg m (read_u32 m a) as q"

abbreviation chain :: "memory \<Rightarrow> u32 \<Rightarrow> u32 list \<Rightarrow> bool" where
  "chain m p as \<equiv> seg m p as 0"

lemma seg_append: "seg m p (as @ bs) r \<longleftrightarrow> (\<exists>q. seg m p as q \<and> seg m q bs r)"
  by (induction as arbitrary: p) auto

lemma seg_frame:
  "(\<And>a x. a \<in> set as \<Longrightarrow> x \<in> cells a \<Longrightarrow> m' x = m x) \<Longrightarrow> seg m' p as q = seg m p as q"
proof (induction as arbitrary: p)
  case (Cons a as)
  have "read_u32 m' a = read_u32 m a"
    using Cons.prems by (intro read_u32_cong) auto
  with Cons show ?case by auto
qed simp

lemma seg_write_frame:
  "(\<And>a. a \<in> set as \<Longrightarrow> cells w \<inter> cells a = {}) \<Longrightarrow> seg (write_u32 m w v) p as q = seg m p as q"
  by (rule seg_frame, rule write_u32_other) blast

lemma seg_upd_frame:
  "(\<And>a. a \<in> set as \<Longrightarrow> x \<notin> cells a) \<Longrightarrow> seg (m(x := v)) p as q = seg m p as q"
  by (rule seg_frame) auto

lemma chain_null [simp]: "chain m 0 as \<longleftrightarrow> as = []"
  by (cases as) auto

lemma chain_head: "chain m p as \<Longrightarrow> p = 0 \<longleftrightarrow> as = []"
  by (cases as) auto

lemma walk_miss:
  "chain m (slot_read (b, m) sl) as \<Longrightarrow> addr \<notin> set as \<Longrightarrow>
   remove_walk (b, m) addr sl = Some (False, (b, m))"
proof (induction as arbitrary: sl)
  case Nil
  then show ?case by (subst remove_walk.simps) simp
next
  case (Cons a as)
  then have "remove_walk (b, m) addr (NextSlot a) = Some (False, (b, m))" by simp
  with Cons.prems show ?case by (subst remove_walk.simps) (auto simp: Let_def)
qed

lemma walk_hit:
  "chain m (slot_read (b, m) sl) (xs @ addr # ys) \<Longrightarrow> addr \<notin> set xs \<Longrightarrow>
   remove_walk (b, m) addr sl =
     Some (True, slot_write (b, m) (if xs = [] then sl else NextSlot (last xs)) (read_u32 m addr))"
proof (induction xs arbitrary: sl)
  case Nil
  then show ?case by (subst remove_walk.simps) (simp add: Let_def)
next
  case (Cons x xs)
  then have "remove_walk (b, m) addr (NextSlot x) =
      Some (True, slot_write (b, m) (if xs = [] then NextSlot x else NextSlot (last xs)) (read_u32 m addr))"
    by simp
  with Cons.prems show ?case by (subst remove_walk.simps) (auto simp: Let_def)
qed

section \<open>The blocks on the free lists\<close>

definition frees :: "u32 list list \<Rightarrow> block set" where
  "frees F = {(a, order). order < length F \<and> a \<in> set (F ! order)}"

lemma frees_push:
  "order < length F \<Longrightarrow> frees (F[order := a # F ! order]) = insert (a, order) (frees F)"
  by (auto simp: frees_def nth_list_update split: if_splits)

lemma frees_delete:
  "order < length F \<Longrightarrow> set xs = set (F ! order) - {a} \<Longrightarrow>
   frees (F[order := xs]) = frees F - {(a, order)}"
  by (auto simp: frees_def nth_list_update split: if_splits)

section \<open>The invariant\<close>

definition buddy_inv :: "nat \<Rightarrow> bstate \<Rightarrow> u32 list list \<Rightarrow> block set \<Rightarrow> bool" where
  "buddy_inv k s F A \<longleftrightarrow>
     (case s of (b, m) \<Rightarrow>
        min_block_size b = 2 ^ k \<and> 3 \<le> k \<and> k + MAX_ORDER < 32 \<and>
        0 < unat (base_addr b) \<and> unat (base_addr b) + unat (total_size b) < 2 ^ 32 \<and>
        length (free_lists b) = MAX_ORDER + 1 \<and> length F = MAX_ORDER + 1 \<and>
        (\<forall>order\<le>MAX_ORDER. chain m (free_lists b ! order) (F ! order) \<and> distinct (F ! order)) \<and>
        tiling k (unat (base_addr b)) (unat (base_addr b) + unat (total_size b)) (frees F \<union> A) \<and>
        frees F \<inter> A = {})"

text \<open>
  What every operation leaves alone: the region it manages and each byte of the blocks in
  use.
\<close>

definition preserves :: "nat \<Rightarrow> block set \<Rightarrow> bstate \<Rightarrow> bstate \<Rightarrow> bool" where
  "preserves k A s s' \<longleftrightarrow>
     base_addr (fst s') = base_addr (fst s) \<and> total_size (fst s') = total_size (fst s) \<and>
     min_block_size (fst s') = min_block_size (fst s) \<and>
     (\<forall>y\<in>A. \<forall>x. unat x \<in> extent k y \<longrightarrow> snd s' x = snd s x)"

lemma preserves_refl [simp]: "preserves k A s s"
  by (simp add: preserves_def)

lemma preserves_trans [trans]:
  "preserves k A s s' \<Longrightarrow> preserves k A s' s'' \<Longrightarrow> preserves k A s s''"
  by (auto simp: preserves_def)

lemma preserves_mono: "preserves k A s s' \<Longrightarrow> B \<subseteq> A \<Longrightarrow> preserves k B s s'"
  by (auto simp: preserves_def)

lemma cells_extent:
  assumes "block_ok k lo hi (a, order)" "hi \<le> 2 ^ 32" "2 \<le> k" "x \<in> cells a"
  shows "unat x \<in> extent k (a, order)"
proof -
  have "(2::nat) ^ 2 \<le> 2 ^ (k + order)"
    using assms(3) by (intro power_increasing) auto
  then have "cells a \<subseteq> span (unat a) (bsize k order)"
    using assms(1,2) by (intro cells_span) (auto simp: block_ok_def bsize_def)
  with assms(4) show ?thesis by (auto simp: span_def extent_def)
qed

lemma tiling_cells_disjoint:
  assumes "tiling k lo hi B" "hi \<le> 2 ^ 32" "2 \<le> k"
    and "(a, i) \<in> B" "(c, j) \<in> B" "(a, i) \<noteq> (c, j)"
  shows "cells a \<inter> cells c = {}"
proof -
  have ok: "block_ok k lo hi (a, i)" "block_ok k lo hi (c, j)"
    and dj: "extent k (a, i) \<inter> extent k (c, j) = {}"
    using assms unfolding tiling_def by blast+
  show ?thesis
    using dj cells_extent [OF ok(1) assms(2,3)] cells_extent [OF ok(2) assms(2,3)] by blast
qed

lemma buddy_inv_cells:
  assumes "buddy_inv k s F A" "(a, i) \<in> frees F \<union> A" "(c, j) \<in> frees F \<union> A" "(a, i) \<noteq> (c, j)"
  shows "cells a \<inter> cells c = {}"
proof -
  obtain lo hi where "tiling k lo hi (frees F \<union> A)" "hi \<le> 2 ^ 32" "2 \<le> k"
    using assms(1) by (cases s) (auto simp: buddy_inv_def)
  then show ?thesis using assms(2-4) by (rule tiling_cells_disjoint)
qed

lemma buddy_inv_cells_extent:
  assumes "buddy_inv k s F A" "(a, i) \<in> frees F \<union> A" "y \<in> frees F \<union> A" "(a, i) \<noteq> y"
    and "unat x \<in> extent k y"
  shows "x \<notin> cells a"
proof -
  obtain lo hi where t: "tiling k lo hi (frees F \<union> A)" "hi \<le> 2 ^ 32" "2 \<le> k"
    using assms(1) by (cases s) (auto simp: buddy_inv_def)
  have "block_ok k lo hi (a, i)" "extent k (a, i) \<inter> extent k y = {}"
    using t(1) assms(2-4) unfolding tiling_def by blast+
  then show ?thesis using cells_extent [OF _ t(2,3)] assms(5) by blast
qed

lemma buddy_inv_nonnull:
  assumes "buddy_inv k s F A" "(a, i) \<in> frees F \<union> A"
  shows "a \<noteq> 0" and "i \<le> MAX_ORDER"
proof -
  obtain lo hi where "block_ok k lo hi (a, i)" "0 < lo"
    using assms unfolding buddy_inv_def tiling_def by (cases s) auto
  then show "a \<noteq> 0" "i \<le> MAX_ORDER" by (auto simp: block_ok_def)
qed

lemma buddy_inv_head:
  "buddy_inv k (b, m) F A \<Longrightarrow> order \<le> MAX_ORDER \<Longrightarrow> free_lists b ! order = 0 \<longleftrightarrow> F ! order = []"
  by (auto simp: buddy_inv_def dest: chain_head)

section \<open>The list operations\<close>

lemma add_to_free_list_inv:
  assumes inv: "buddy_inv k s F (insert (a, order) A)" and new: "(a, order) \<notin> A"
  shows "buddy_inv k (add_to_free_list s a order) (F[order := a # F ! order]) A"
    and "preserves k A s (add_to_free_list s a order)"
proof -
  obtain b m where s: "s = (b, m)" by (cases s)
  have "write_u32 m a v x = m x" if "y \<in> A" "unat x \<in> extent k y" for v x y
    using that new by (intro write_u32_other buddy_inv_cells_extent [OF inv, of a order y]) auto
  then show "preserves k A s (add_to_free_list s a order)"
    by (auto simp: s add_to_free_list_def preserves_def)
  have ord: "order < length F" "order \<le> MAX_ORDER" and nz: "a \<noteq> 0"
    using inv buddy_inv_nonnull [OF inv, of a order] by (auto simp: s buddy_inv_def)
  have nf: "(a, order) \<notin> frees F" using inv by (auto simp: s buddy_inv_def)
  let ?h = "free_lists b ! order" and ?m = "write_u32 m a (free_lists b ! order)"
  have frame: "seg ?m p (F ! i) 0 = seg m p (F ! i) 0" if "i < length F" for p i
  proof (rule seg_write_frame)
    fix c assume "c \<in> set (F ! i)"
    then have "(c, i) \<in> frees F" using that by (simp add: frees_def)
    then show "cells a \<inter> cells c = {}"
      using nf by (intro buddy_inv_cells [OF inv]) auto
  qed
  have "chain ?m ((free_lists b)[order := a] ! i) (F[order := a # F ! order] ! i)
      \<and> distinct (F[order := a # F ! order] ! i)" if "i \<le> MAX_ORDER" for i
  proof (cases "i = order")
    case True
    have "a \<notin> set (F ! order)" using nf ord by (simp add: frees_def)
    with True inv ord nz show ?thesis by (auto simp: s buddy_inv_def frame mem_simps)
  next
    case False
    with inv that show ?thesis by (auto simp: s buddy_inv_def frame)
  qed
  then show "buddy_inv k (add_to_free_list s a order) (F[order := a # F ! order]) A"
    using inv new nf ord by (simp add: s buddy_inv_def add_to_free_list_def frees_push)
qed

text \<open>Taking one block off a list, however the links are rewritten.\<close>

lemma buddy_inv_take:
  assumes inv: "buddy_inv k (b, m) F A" and mem: "(a, order) \<in> frees F"
    and xs: "set xs = set (F ! order) - {a}" "distinct xs"
    and fl: "length fl = MAX_ORDER + 1" "\<And>i. i \<le> MAX_ORDER \<Longrightarrow> chain m' (fl ! i) (F[order := xs] ! i)"
  shows "buddy_inv k (b\<lparr>free_lists := fl\<rparr>, m') (F[order := xs]) (insert (a, order) A)"
    and "frees (F[order := xs]) = frees F - {(a, order)}"
proof -
  have len: "order < length F" using mem by (simp add: frees_def)
  show fr: "frees (F[order := xs]) = frees F - {(a, order)}"
    using len xs(1) by (rule frees_delete)
  have "frees (F[order := xs]) \<union> insert (a, order) A = frees F \<union> A"
    and "frees (F[order := xs]) \<inter> insert (a, order) A = frees F \<inter> A - {(a, order)}"
    using mem unfolding fr by blast+
  moreover have "distinct (F[order := xs] ! i)" if "i \<le> MAX_ORDER" for i
    using inv that xs(2) len by (cases "i = order") (simp_all add: buddy_inv_def)
  ultimately show "buddy_inv k (b\<lparr>free_lists := fl\<rparr>, m') (F[order := xs]) (insert (a, order) A)"
    using inv fl by (simp add: buddy_inv_def)
qed

lemma remove_from_free_list_inv:
  assumes inv: "buddy_inv k s F A" and ord: "order \<le> MAX_ORDER" and F: "F ! order = a # as"
  obtains s' where "remove_from_free_list s order = (a, s')" "preserves k A s s'"
    and "buddy_inv k s' (F[order := as]) (insert (a, order) A)"
    and "(a, order) \<in> frees F" "frees (F[order := as]) = frees F - {(a, order)}"
proof -
  obtain b m where s: "s = (b, m)" by (cases s)
  have ch: "chain m (free_lists b ! order) (a # as)" "distinct (a # as)" and len: "order < length F"
    using inv ord F by (auto simp: s buddy_inv_def simp flip: F)
  then have mem: "(a, order) \<in> frees F" using F by (simp add: frees_def)
  let ?fl = "(free_lists b)[order := read_u32 m a]"
  have "chain m (?fl ! i) (F[order := as] ! i)" if "i \<le> MAX_ORDER" for i
    using inv that ch(1) ord by (cases "i = order") (auto simp: s buddy_inv_def)
  then have "buddy_inv k (b\<lparr>free_lists := ?fl\<rparr>, m) (F[order := as]) (insert (a, order) A)"
    and "frees (F[order := as]) = frees F - {(a, order)}"
    using inv ch(2) F by (intro buddy_inv_take [OF inv [unfolded s] mem]; auto simp: s buddy_inv_def)+
  then show thesis
    using ch(1) mem by (intro that) (auto simp: s remove_from_free_list_def preserves_def Let_def)
qed

text \<open>
  \<^verbatim>\<open>remove_specific_from_free_list\<close> always returns on well-formed lists; it unlinks the block
  when the list holds it and changes nothing otherwise.
\<close>

lemma remove_specific_miss:
  assumes "buddy_inv k s F A" "order \<le> MAX_ORDER" "addr \<notin> set (F ! order)"
  shows "remove_specific_from_free_list s addr order = Some (False, s)"
  using assms by (cases s) (auto simp: remove_specific_from_free_list_def buddy_inv_def intro!: walk_miss)

lemma unlink_middle:
  assumes "chain m p (zs @ z # addr # ys)" "distinct (zs @ z # addr # ys)"
    and "\<And>c. c \<in> set (zs @ ys) \<Longrightarrow> cells z \<inter> cells c = {}"
  shows "chain (write_u32 m z (read_u32 m addr)) p (zs @ z # ys)"
proof -
  let ?m = "write_u32 m z (read_u32 m addr)"
  have 1: "seg m p zs z" "z \<noteq> 0" "chain m (read_u32 m addr) ys"
    using assms(1) by (auto simp: seg_append)
  have "seg ?m p zs z" using 1(1) assms(3) by (subst seg_write_frame) auto
  moreover have "chain ?m (read_u32 m addr) ys"
    using 1(3) assms(3) by (subst seg_write_frame) auto
  ultimately show ?thesis
    using 1(2) by (auto simp: seg_append read_write_u32_same)
qed

lemma remove_specific_hit:
  assumes inv: "buddy_inv k s F A" and ord: "order \<le> MAX_ORDER" and mem: "addr \<in> set (F ! order)"
  obtains s' where "remove_specific_from_free_list s addr order = Some (True, s')" "preserves k A s s'"
    and "buddy_inv k s' (F[order := remove1 addr (F ! order)]) (insert (addr, order) A)"
    and "frees (F[order := remove1 addr (F ! order)]) = frees F - {(addr, order)}"
proof -
  obtain b m where s: "s = (b, m)" by (cases s)
  have ch: "chain m (free_lists b ! order) (F ! order)" "distinct (F ! order)" and len: "order < length F"
    using inv ord by (auto simp: s buddy_inv_def)
  have fm: "(addr, order) \<in> frees F" using mem len by (simp add: frees_def)
  obtain xs ys where F: "F ! order = xs @ addr # ys" and nx: "addr \<notin> set xs"
    using split_list_first [OF mem] by auto
  have rm: "remove1 addr (F ! order) = xs @ ys" using F nx by (simp add: remove1_append)
  note take = buddy_inv_take [OF inv [unfolded s] fm, of "xs @ ys", folded rm]
  have st: "set (remove1 addr (F ! order)) = set (F ! order) - {addr}" using ch(2) by simp
  have hit: "remove_specific_from_free_list s addr order =
      Some (True, slot_write (b, m) (if xs = [] then HeadSlot order else NextSlot (last xs)) (read_u32 m addr))"
    unfolding remove_specific_from_free_list_def s using ch(1) F nx by (intro walk_hit [of m b _ xs addr ys]) simp_all
  show thesis
  proof (cases xs rule: rev_cases)
    case Nil
    let ?fl = "(free_lists b)[order := read_u32 m addr]"
    have "chain m (?fl ! i) (F[order := remove1 addr (F ! order)] ! i)" if "i \<le> MAX_ORDER" for i
      using inv that ch(1) ord F Nil by (cases "i = order") (auto simp: s buddy_inv_def)
    note t = take [OF st distinct_remove1 [OF ch(2)] _ this]
    show thesis
      using hit Nil inv t
      by (intro that [of "(b\<lparr>free_lists := ?fl\<rparr>, m)"]) (auto simp: preserves_def s buddy_inv_def)
  next
    case (snoc zs z)
    let ?m = "write_u32 m z (read_u32 m addr)"
    have zm: "(z, order) \<in> frees F" using F snoc len by (simp add: frees_def)
    have dj: "cells z \<inter> cells c = {}" if "(c, i) \<in> frees F" "(c, i) \<noteq> (z, order)" for c i
      using that zm by (intro buddy_inv_cells [OF inv]) auto
    have "chain ?m (free_lists b ! i) (F[order := remove1 addr (F ! order)] ! i)" if "i \<le> MAX_ORDER" for i
    proof (cases "i = order")
      case True
      have "chain ?m (free_lists b ! order) (zs @ z # ys)"
      proof (rule unlink_middle)
        fix c assume c: "c \<in> set (zs @ ys)"
        then have "c \<noteq> z" "c \<in> set (F ! order)" using ch(2) F snoc by auto
        then show "cells z \<inter> cells c = {}" using len by (intro dj [of c order]) (auto simp: frees_def)
      qed (use ch F snoc in auto)
      then show ?thesis using True rm snoc len by simp
    next
      case False
      have "chain ?m (free_lists b ! i) (F ! i) = chain m (free_lists b ! i) (F ! i)"
        using inv that False
        by (intro seg_write_frame dj [of _ i]) (auto simp: frees_def s buddy_inv_def)
      then show ?thesis using inv that False by (simp add: s buddy_inv_def)
    qed
    note t = take [OF st distinct_remove1 [OF ch(2)] _ this]
    have b: "b\<lparr>free_lists := free_lists b\<rparr> = b" by simp
    have "?m x = m x" if "y \<in> A" "unat x \<in> extent k y" for x y
      using that zm inv by (intro write_u32_other buddy_inv_cells_extent [OF inv, of z order y])
        (auto simp: s buddy_inv_def)
    then show thesis
      using hit snoc inv t b by (intro that [of "(b, ?m)"]) (auto simp: preserves_def s buddy_inv_def)
  qed
qed

end
