(* ===== verification/Buddy_Correct.thy ===== *)
theory Buddy_Correct
  imports Buddy_Lists
begin

text \<open>
  Block-level correctness of the buddy allocator: allocation with splitting, freeing with
  merging, and the initial carving of a region, each against the invariant of
  \<open>Buddy_Lists\<close>.
\<close>

section \<open>Allocation\<close>

lemma buddy_inv_regroup:
  assumes "buddy_inv k s F A" "frees F \<inter> A' = {}"
    and "\<And>lo hi. tiling k lo hi (frees F \<union> A) \<Longrightarrow> hi \<le> 2 ^ 32 \<Longrightarrow> tiling k lo hi (frees F \<union> A')"
  shows "buddy_inv k s F A'"
  using assms by (cases s) (simp add: buddy_inv_def)

lemma buddy_inv_order: "buddy_inv k s F A \<Longrightarrow> k + MAX_ORDER < 32"
  by (cases s) (simp add: buddy_inv_def)

lemma buddy_inv_disjoint: "buddy_inv k s F A \<Longrightarrow> frees F \<inter> A = {}"
  by (cases s) (simp add: buddy_inv_def)

lemma buddy_inv_length: "buddy_inv k s F A \<Longrightarrow> length F = MAX_ORDER + 1"
  by (cases s) (simp add: buddy_inv_def)

lemma buddy_inv_shl:
  "buddy_inv k s F A \<Longrightarrow> order \<le> MAX_ORDER \<Longrightarrow> shl (min_block_size (fst s)) order = 2 ^ (k + order)"
  by (cases s) (simp add: buddy_inv_def shl_pow2)

lemma buddy_inv_region:
  assumes "buddy_inv k s F A" "(a, i) \<in> frees F"
  shows "base_addr (fst s) \<le> a" "a < base_addr (fst s) + total_size (fst s)"
proof -
  obtain b m where s: "s = (b, m)" by (cases s)
  have "block_ok k (unat (base_addr b)) (unat (base_addr b) + unat (total_size b)) (a, i)"
    and u: "unat (base_addr b) + unat (total_size b) < 2 ^ 32"
    using assms by (auto simp: s buddy_inv_def tiling_def)
  then show "base_addr (fst s) \<le> a" "a < base_addr (fst s) + total_size (fst s)"
    using bsize_pos [of k i] by (auto simp: s block_ok_def word_le_nat_alt word_less_nat_alt unat_add_small simp del: bsize_pos)
qed

lemma split_block_inv:
  assumes inv: "buddy_inv k s F (insert (a, Suc order) A)" and new: "(a, Suc order) \<notin> A"
  obtains F' where "buddy_inv k (split_block a (Suc order) s) F' (insert (a, order) A)"
    and "(a, order) \<notin> A" "preserves k A s (split_block a (Suc order) s)"
    and "cover k (frees F' \<union> insert (a, order) A) = cover k (frees F \<union> insert (a, Suc order) A)"
    and "coalesced k (frees F) \<Longrightarrow> coalesced k (frees F')" "preserves k {(a, order)} s (split_block a (Suc order) s)"
proof -
  let ?c = "a + 2 ^ (k + order)"
  have ord: "Suc order \<le> MAX_ORDER" using buddy_inv_nonnull [OF inv] by auto
  then have c: "split_block a (Suc order) s = add_to_free_list s ?c order"
    using buddy_inv_shl [OF inv, of order] by (simp add: split_block_def)
  obtain lo hi where t: "tiling k lo hi (insert (a, Suc order) (frees F \<union> A))" "hi \<le> 2 ^ 32"
    and nf: "(a, Suc order) \<notin> frees F" and dj: "frees F \<inter> A = {}"
    using inv by (cases s) (auto simp: buddy_inv_def)
  note sp = tiling_split [OF t(1) _ t(2) buddy_inv_order [OF inv]]
  have n: "(a, order) \<notin> frees F \<union> A" "(?c, order) \<notin> frees F \<union> A" "a \<noteq> ?c"
    and cv: "cover k (insert (a, order) (insert (?c, order) (frees F \<union> A))) =
      cover k (insert (a, Suc order) (frees F \<union> A))"
    using sp nf new by auto
  have "buddy_inv k s F (insert (?c, order) (insert (a, order) A))"
  proof (rule buddy_inv_regroup [OF inv])
    fix lo hi assume "tiling k lo hi (frees F \<union> insert (a, Suc order) A)" "hi \<le> 2 ^ 32"
    then show "tiling k lo hi (frees F \<union> insert (?c, order) (insert (a, order) A))"
      using tiling_split(1) [of k lo hi a order "frees F \<union> A"] nf new buddy_inv_order [OF inv]
      by (simp add: insert_commute)
  qed (use n dj in auto)
  then have i: "buddy_inv k (split_block a (Suc order) s) (F[order := ?c # F ! order]) (insert (a, order) A)"
    and p: "preserves k (insert (a, order) A) s (split_block a (Suc order) s)"
    using n by (auto simp: c intro: add_to_free_list_inv)
  have "order < length F" using inv ord by (cases s) (simp add: buddy_inv_def)
  then have fr: "frees (F[order := ?c # F ! order]) = insert (?c, order) (frees F)" by (rule frees_push)
  have ko: "k + order < 32" using buddy_inv_order [OF inv] ord by simp
  have "buddy_of k ?c order = a"
    using split_buddy [of k lo hi a order] t buddy_inv_order [OF inv] by (auto simp: tiling_def)
  then have "coalesced k (frees F) \<Longrightarrow> coalesced k (frees (F[order := ?c # F ! order]))"
    using n(1) ko unfolding fr by (intro coalesced_insert) auto
  then show thesis
    using that [OF i] n(1) cv preserves_mono [OF p] fr by (auto simp: insert_commute)
qed

lemma preserves_shrink:
  assumes "preserves k {(a, h)} s s'" "order \<le> h"
  shows "preserves k {(a, order)} s s'"
proof -
  have "extent k (a, order) \<subseteq> extent k (a, h)" using bsize_mono [OF assms(2), of k] by (auto simp: extent_def)
  then show ?thesis using assms(1) by (auto simp: preserves_def)
qed

lemma split_loop_inv:
  assumes "buddy_inv k s F (insert (a, h) A)" "(a, h) \<notin> A" "order \<le> h"
  shows "\<exists>F'. let s' = fold (split_block a) (rev [order + 1..<h + 1]) s in
    buddy_inv k s' F' (insert (a, order) A) \<and> (a, order) \<notin> A \<and> preserves k A s s' \<and>
    cover k (frees F' \<union> insert (a, order) A) = cover k (frees F \<union> insert (a, h) A) \<and>
    (coalesced k (frees F) \<longrightarrow> coalesced k (frees F')) \<and> preserves k {(a, order)} s s'"
  using assms
proof (induction h arbitrary: s F)
  case 0
  then show ?case by auto
next
  case (Suc h)
  show ?case
  proof (cases "order = Suc h")
    case True
    with Suc.prems show ?thesis by auto
  next
    case False
    then have le: "order \<le> h" using Suc.prems by simp
    obtain F1 where F1: "buddy_inv k (split_block a (Suc h) s) F1 (insert (a, h) A)"
      "(a, h) \<notin> A" "preserves k A s (split_block a (Suc h) s)"
      "cover k (frees F1 \<union> insert (a, h) A) = cover k (frees F \<union> insert (a, Suc h) A)"
      "coalesced k (frees F) \<longrightarrow> coalesced k (frees F1)" "preserves k {(a, h)} s (split_block a (Suc h) s)"
      using split_block_inv [OF Suc.prems(1,2)] by blast
    from le have "rev [order + 1..<Suc h + 1] = Suc h # rev [order + 1..<h + 1]" by simp
    then show ?thesis
      using Suc.IH [OF F1(1,2) le] F1(4,5) preserves_trans [OF F1(3)] preserves_trans [OF preserves_shrink [OF F1(6) le]]
      by (simp add: Let_def del: upt_Suc) blast
  qed
qed

lemma find_upt_Some:
  "find P [i..<j] = Some h \<longleftrightarrow> i \<le> h \<and> h < j \<and> P h \<and> (\<forall>n. i \<le> n \<and> n < h \<longrightarrow> \<not> P n)"
proof -
  have "find P [i..<j] = Some h \<longleftrightarrow>
      (\<exists>n<j - i. P (i + n) \<and> h = i + n \<and> (\<forall>l<n. \<not> P (i + l)))"
    by (auto simp: find_Some_iff)
  also have "\<dots> \<longleftrightarrow> i \<le> h \<and> h < j \<and> P h \<and> (\<forall>n. i \<le> n \<and> n < h \<longrightarrow> \<not> P n)"
    by (auto simp: less_diff_conv2 intro!: exI [of _ "h - i"])
      (metis add_diff_inverse_nat add_less_cancel_left not_less)
  finally show ?thesis .
qed

lemma find_upt_None: "find P [i..<j] = None \<longleftrightarrow> (\<forall>n. i \<le> n \<and> n < j \<longrightarrow> \<not> P n)"
  by (auto simp: find_None_iff)

text \<open>An allocation succeeds exactly when some list of the order or above is not empty.\<close>

lemma alloc_block_order_None:
  assumes inv: "buddy_inv k s F A"
  shows "fst (alloc_block_order s order) = None \<longleftrightarrow> (\<forall>i. order \<le> i \<and> i \<le> MAX_ORDER \<longrightarrow> F ! i = [])"
    and "fst (alloc_block_order s order) = None \<Longrightarrow> snd (alloc_block_order s order) = s"
proof -
  obtain b m where s: "s = (b, m)" by (cases s)
  note hd = buddy_inv_head [OF inv [unfolded s]]
  show "fst (alloc_block_order s order) = None \<longleftrightarrow> (\<forall>i. order \<le> i \<and> i \<le> MAX_ORDER \<longrightarrow> F ! i = [])"
  proof (cases "order \<le> MAX_ORDER \<and> F ! order = []")
    case True
    have "find (\<lambda>h. free_lists b ! h \<noteq> 0) [order + 1..<MAX_ORDER + 1] = None \<longleftrightarrow>
        (\<forall>i. order \<le> i \<and> i \<le> MAX_ORDER \<longrightarrow> F ! i = [])"
      using True hd unfolding find_upt_None
      by (metis Suc_eq_plus1 Suc_leD le_antisym less_Suc_eq_le not_less_eq_eq)
    then show ?thesis
      using True hd
      by (auto simp: s alloc_block_order_def simp del: upt_Suc split: option.splits prod.splits)
  next
    case False
    then show ?thesis
      using hd by (auto simp: s alloc_block_order_def split: prod.splits)
  qed
  show "fst (alloc_block_order s order) = None \<Longrightarrow> snd (alloc_block_order s order) = s"
    by (auto simp: alloc_block_order_def split: if_splits option.splits prod.splits)
qed

lemma alloc_block_order_inv:
  assumes inv: "buddy_inv k s F A" and res: "alloc_block_order s order = (Some a, s')"
  obtains F' where "buddy_inv k s' F' (insert (a, order) A)" "(a, order) \<notin> A"
    and "preserves k A s s'" "cover k (frees F' \<union> insert (a, order) A) = cover k (frees F \<union> A)"
    and "extent k (a, order) \<subseteq> cover k (frees F)"
    and "coalesced k (frees F) \<Longrightarrow> coalesced k (frees F')" "preserves k {(a, order)} s s'"
proof -
  obtain b m where s: "s = (b, m)" by (cases s)
  note hd = buddy_inv_head [OF inv [unfolded s]]
  have ord: "order \<le> MAX_ORDER" using res by (auto simp: alloc_block_order_def split: if_splits)
  obtain h where h: "order \<le> h" "h \<le> MAX_ORDER" "F ! h \<noteq> []"
    and eq: "alloc_block_order s order =
      (case remove_from_free_list s h of (block, t) \<Rightarrow>
         (Some block, fold (split_block block) (rev [order + 1..<h + 1]) t))"
  proof (cases "F ! order = []")
    case True
    then obtain h where f: "find (\<lambda>h. free_lists b ! h \<noteq> 0) [order + 1..<MAX_ORDER + 1] = Some h"
      using res hd ord by (auto simp: s alloc_block_order_def simp del: upt_Suc split: option.splits)
    then have "order < h" "h \<le> MAX_ORDER" "F ! h \<noteq> []"
      using hd by (auto simp: find_upt_Some simp del: upt_Suc)
    moreover have "free_lists b ! order = 0" using True hd ord by simp
    ultimately show thesis
      using ord f by (intro that [of h]) (simp_all add: s alloc_block_order_def del: upt_Suc)
  next
    case False
    then show thesis
      using hd ord by (intro that [of order]) (auto simp: s alloc_block_order_def)
  qed
  from h(3) obtain c as where F: "F ! h = c # as" by (cases "F ! h") auto
  obtain t where t: "remove_from_free_list s h = (c, t)" "preserves k A s t"
    "buddy_inv k t (F[h := as]) (insert (c, h) A)" "(c, h) \<in> frees F"
    "frees (F[h := as]) = frees F - {(c, h)}"
    using remove_from_free_list_inv [OF inv h(2) F] by blast
  have c: "c = a" "s' = fold (split_block a) (rev [order + 1..<h + 1]) t"
    using eq t(1) res by auto
  have n: "(a, h) \<notin> A" using inv t(4) c by (auto simp: s buddy_inv_def)
  obtain F' where F': "buddy_inv k s' F' (insert (a, order) A)" "(a, order) \<notin> A" "preserves k A t s'"
    "cover k (frees F' \<union> insert (a, order) A) = cover k (frees (F[h := as]) \<union> insert (a, h) A)"
    "coalesced k (frees (F[h := as])) \<longrightarrow> coalesced k (frees F')" "preserves k {(a, order)} t s'"
    using split_loop_inv [OF t(3) [unfolded c] n h(1)] by (auto simp: c(2) Let_def)
  have "frees (F[h := as]) \<union> insert (a, h) A = frees F \<union> A" using t(4,5) c by auto
  moreover have "extent k (a, order) \<subseteq> extent k (a, h)"
    using bsize_mono [OF h(1), of k] by (auto simp: extent_def)
  moreover have "coalesced k (frees F) \<Longrightarrow> coalesced k (frees F')"
    using F'(5) t(5) coalesced_subset [of k "frees F"] by auto
  moreover have "preserves k {(a, order)} s t" using t(1) by (auto simp: s preserves_def remove_from_free_list_def Let_def)
  then have "preserves k {(a, order)} s s'" using F'(6) by (rule preserves_trans)
  ultimately show thesis
    using that [OF F'(1,2) preserves_trans [OF t(2) F'(3)]] F'(4) t(4) c by (auto simp: cover_def)
qed

section \<open>Freeing\<close>

lemma free_block_loop_inv:
  assumes "buddy_inv k s F (insert (a, order) A)" "(a, order) \<notin> A"
  shows "\<exists>c i s' F'. free_block_loop s a order = Some (c, i, s') \<and>
    buddy_inv k s' F' (insert (c, i) A) \<and> (c, i) \<notin> A \<and> preserves k A s s' \<and>
    cover k (frees F' \<union> insert (c, i) A) = cover k (frees F \<union> insert (a, order) A) \<and>
    frees F' \<subseteq> frees F \<and> (i < MAX_ORDER \<longrightarrow> (buddy_of k c i, i) \<notin> frees F')"
  using assms
proof (induction s a order arbitrary: F rule: free_block_loop.induct)
  case (1 s a order)
  note inv = "1.prems"(1) and new = "1.prems"(2)
  let ?b = "buddy_of k a order"
  have ord: "order \<le> MAX_ORDER" using buddy_inv_nonnull [OF inv] by auto
  have buddy: "a XOR shl (min_block_size (fst s)) order = ?b"
    using buddy_inv_shl [OF inv ord] by (simp add: buddy_of_def)
  show ?case
  proof (cases "order < MAX_ORDER \<and> \<not> (?b < base_addr (fst s) \<or> base_addr (fst s) + total_size (fst s) \<le> ?b)
      \<and> ?b \<in> set (F ! order)")
    case False
    then have "free_block_loop s a order = Some (a, order, s)"
      using remove_specific_miss [OF inv ord, of ?b]
      by (subst free_block_loop.simps) (auto simp: Let_def buddy)
    moreover have "(?b, order) \<notin> frees F" if "order < MAX_ORDER"
      using False that buddy_inv_region [OF inv, of ?b order] by (auto simp: frees_def)
    ultimately show ?thesis using inv new by auto
  next
    case True
    then have hit: "?b \<in> set (F ! order)" and lt: "order < MAX_ORDER" by auto
    obtain s1 where s1: "remove_specific_from_free_list s ?b order = Some (True, s1)"
      "preserves k (insert (a, order) A) s s1"
      "buddy_inv k s1 (F[order := remove1 ?b (F ! order)]) (insert (?b, order) (insert (a, order) A))"
      "frees (F[order := remove1 ?b (F ! order)]) = frees F - {(?b, order)}"
      using remove_specific_hit [OF inv ord hit] by blast
    let ?F = "F[order := remove1 ?b (F ! order)]" and ?c = "min a ?b"
    have bf: "(?b, order) \<in> frees F" and dj: "frees F \<inter> insert (a, order) A = {}"
      using buddy_inv_length [OF inv] buddy_inv_disjoint [OF inv] hit ord by (auto simp: frees_def)
    have k: "k + MAX_ORDER < 32" by (rule buddy_inv_order [OF inv])
    have n: "(a, order) \<notin> frees ?F \<union> A" "(?b, order) \<notin> frees ?F \<union> A"
      using s1(4) dj new bf by auto
    have mg: "tiling k lo hi (insert (?c, Suc order) (frees ?F \<union> A)) \<and>
        cover k (insert (?c, Suc order) (frees ?F \<union> A)) =
          cover k (insert (a, order) (insert (?b, order) (frees ?F \<union> A))) \<and>
        (?c, Suc order) \<notin> frees ?F \<union> A"
      if "tiling k lo hi (frees ?F \<union> insert (?b, order) (insert (a, order) A))" for lo hi
      using tiling_merge [of k lo hi a order "frees ?F \<union> A"] that n k lt by (simp add: insert_commute)
    obtain lo hi where "tiling k lo hi (frees ?F \<union> insert (?b, order) (insert (a, order) A))"
      using s1(3) by (cases s1) (auto simp: buddy_inv_def)
    note m = mg [OF this]
    have i1: "buddy_inv k s1 ?F (insert (?c, Suc order) A)"
      by (rule buddy_inv_regroup [OF s1(3)]) (use m mg dj s1(4) in auto)
    have step: "free_block_loop s a order = free_block_loop s1 ?c (order + 1)"
      using True s1(1) by (subst free_block_loop.simps) (simp add: Let_def buddy)
    obtain c i s' F' where IH: "free_block_loop s1 ?c (order + 1) = Some (c, i, s')"
      "buddy_inv k s' F' (insert (c, i) A)" "(c, i) \<notin> A" "preserves k A s1 s'"
      "cover k (frees F' \<union> insert (c, i) A) = cover k (frees ?F \<union> insert (?c, order + 1) A)"
      "frees F' \<subseteq> frees ?F" "i < MAX_ORDER \<longrightarrow> (buddy_of k c i, i) \<notin> frees F'"
      using "1.IH" [of "shl (min_block_size (fst s)) order" ?b "(True, s1)" True s1 ?F] True s1(1) i1 m buddy
      by auto
    have "frees ?F \<union> insert (?b, order) (insert (a, order) A) = frees F \<union> insert (a, order) A"
      using s1(4) bf by auto
    then have "cover k (frees ?F \<union> insert (?c, order + 1) A) = cover k (frees F \<union> insert (a, order) A)"
      using m by (simp add: insert_commute)
    then show ?thesis
      using step IH s1(4) preserves_trans [OF preserves_mono [OF s1(2)] IH(4)] by auto
  qed
qed

lemma free_block_inv:
  assumes inv: "buddy_inv k s F A" and mem: "(a, order) \<in> A"
  obtains s' F' where "free_block s a order = Some s'"
    and "buddy_inv k s' F' (A - {(a, order)})" "preserves k (A - {(a, order)}) s s'"
    and "cover k (frees F' \<union> (A - {(a, order)})) = cover k (frees F \<union> A)"
    and "coalesced k (frees F) \<Longrightarrow> coalesced k (frees F')"
proof -
  let ?A = "A - {(a, order)}"
  have A: "insert (a, order) ?A = A" using mem by auto
  obtain c i s1 F1 where l: "free_block_loop s a order = Some (c, i, s1)"
    "buddy_inv k s1 F1 (insert (c, i) ?A)" "(c, i) \<notin> ?A" "preserves k ?A s s1"
    "cover k (frees F1 \<union> insert (c, i) ?A) = cover k (frees F \<union> A)"
    "frees F1 \<subseteq> frees F" "i < MAX_ORDER \<longrightarrow> (buddy_of k c i, i) \<notin> frees F1"
    using free_block_loop_inv [of k s F a order ?A] inv unfolding A by blast
  have ord: "order \<le> MAX_ORDER" "i < length F1"
    using buddy_inv_nonnull [OF inv, of a order] buddy_inv_nonnull [OF l(2), of c i] mem
    by (auto simp: buddy_inv_length [OF l(2)])
  have "coalesced k (frees F) \<Longrightarrow> coalesced k (insert (c, i) (frees F1))"
    using l(6,7) buddy_inv_order [OF inv] buddy_inv_nonnull(2) [OF l(2), of c i]
    by (intro coalesced_insert coalesced_subset [OF _ l(6)]) auto
  with ord show thesis
    using l(1) l(5) add_to_free_list_inv(1) [OF l(2,3)]
      preserves_trans [OF l(4) add_to_free_list_inv(2) [OF l(2,3)]]
    by (intro that [of "add_to_free_list s1 c i" "F1[i := c # F1 ! i]"])
      (auto simp: free_block_def frees_push)
qed

end
