(* ===== verification/Buddy_Init.thy ===== *)
theory Buddy_Init
  imports Buddy_Correct
begin

text \<open>
  The carving of a region into free blocks by \<^verbatim>\<open>BuddyAllocator::init\<close>: it returns, and the
  blocks it puts on the free lists tile the aligned part of the region exactly.
\<close>

lemma init_order_fits:
  assumes "k + MAX_ORDER < 32" "n \<le> MAX_ORDER" "0 < init_order (2 ^ k) remaining current n"
  defines "i \<equiv> init_order (2 ^ k) remaining current n"
  shows "i \<le> n" and "bsize k i \<le> unat remaining" and "bsize k i dvd unat current"
proof -
  have "i \<le> n \<and> bsize k i \<le> unat remaining \<and> bsize k i dvd unat current"
    using assms(2,3) unfolding i_def
  proof (induction n)
    case (Suc n)
    let ?fits = "2 ^ (k + Suc n) \<le> remaining \<and> current AND mask (k + Suc n) = 0"
    have sz: "shl (2 ^ k :: u32) (Suc n) = 2 ^ (k + Suc n)"
      using assms(1) Suc.prems by (intro shl_pow2) simp
    have eq: "init_order (2 ^ k) remaining current (Suc n) =
        (if ?fits then Suc n else init_order (2 ^ k) remaining current n)"
      by (simp only: init_order.simps sz Let_def pow2_minus_1_eq_mask)
    have u: "unat ((2::u32) ^ (k + Suc n)) = bsize k (Suc n)"
      using assms(1) Suc.prems by (subst unat_pow2) (simp_all add: bsize_def)
    show ?case
    proof (cases ?fits)
      case True
      then show ?thesis
        using u by (simp only: eq if_True) (simp add: word_le_nat_alt and_mask_eq_0_iff bsize_def)
    next
      case False
      with Suc eq show ?thesis by (simp only: if_False) simp
    qed
  qed simp
  then show "i \<le> n" "bsize k i \<le> unat remaining" "bsize k i dvd unat current" by auto
qed

text \<open>\<^verbatim>\<open>init\<close> is greedy: at each address it takes the largest block that is aligned there and fits.\<close>

lemma init_order_max:
  assumes "k + MAX_ORDER < 32" "n \<le> MAX_ORDER"
    and "init_order (2 ^ k) remaining current n < j" "j \<le> n"
  shows "\<not> (bsize k j \<le> unat remaining \<and> bsize k j dvd unat current)"
  using assms(2-4)
proof (induction n)
  case (Suc n)
  let ?fits = "2 ^ (k + Suc n) \<le> remaining \<and> current AND mask (k + Suc n) = 0"
  have sz: "shl (2 ^ k :: u32) (Suc n) = 2 ^ (k + Suc n)"
    using assms(1) Suc.prems by (intro shl_pow2) simp
  have eq: "init_order (2 ^ k) remaining current (Suc n) =
      (if ?fits then Suc n else init_order (2 ^ k) remaining current n)"
    by (simp only: init_order.simps sz Let_def pow2_minus_1_eq_mask)
  have u: "unat ((2::u32) ^ (k + Suc n)) = bsize k (Suc n)"
    using assms(1) Suc.prems by (subst unat_pow2) (simp_all add: bsize_def)
  have nf: "\<not> ?fits" using Suc.prems(2,3) unfolding eq by (auto split: if_splits)
  show ?case
  proof (cases "j = Suc n")
    case True
    have "?fits \<longleftrightarrow> bsize k (Suc n) \<le> unat remaining \<and> bsize k (Suc n) dvd unat current"
      by (simp only: word_le_nat_alt u and_mask_eq_0_iff) (simp only: bsize_def)
    with nf True show ?thesis by blast
  next
    case False
    then show ?thesis using Suc nf unfolding eq if_not_P [OF nf] by auto
  qed
qed simp

definition greedy :: "nat \<Rightarrow> nat \<Rightarrow> block set \<Rightarrow> bool" where
  "greedy k e B \<longleftrightarrow> (\<forall>a i. (a, i) \<in> B \<longrightarrow> i < MAX_ORDER \<longrightarrow>
     bsize k (Suc i) dvd unat a \<longrightarrow> e < unat a + bsize k (Suc i))"

lemma greedy_coalesced:
  assumes "greedy k e B" "tiling k lo e B" "k + MAX_ORDER < 32"
  shows "coalesced k B"
  unfolding coalesced_def
proof (intro allI impI notI)
  fix a i assume *: "(a, i) \<in> B" "i < MAX_ORDER" "(buddy_of k a i, i) \<in> B"
  let ?b = "buddy_of k a i" and ?c = "min a (buddy_of k a i)"
  have ok: "block_ok k lo e (a, i)" "block_ok k lo e (?b, i)" using assms(2) * by (auto simp: tiling_def)
  have "block_ok k lo e (?c, Suc i)" using merge_block_ok(1) [OF ok assms(3) *(2)] .
  moreover have "(?c, i) \<in> B" using * by (simp add: min_def)
  ultimately show False using assms(1) *(2) unfolding greedy_def block_ok_def by (metis fst_conv snd_conv not_less)
qed

lemma carve_inv:
  assumes inv: "buddy_inv k s F {}"
    and ok: "block_ok k (unat (base_addr (fst s))) (unat (base_addr (fst s)) + unat (total_size (fst s))) (c, i)"
    and dj: "extent k (c, i) \<inter> cover k (frees F) = {}"
  defines "s' \<equiv> add_to_free_list s c i"
  obtains F' where "buddy_inv k s' F' {}" "preserves k {} s s'"
    and "cover k (frees F') = extent k (c, i) \<union> cover k (frees F)" "frees F' = insert (c, i) (frees F)"
proof -
  have nf: "(c, i) \<notin> frees F" using dj by (rule disjoint_not_mem)
  then have "buddy_inv k s F {(c, i)}"
    using inv ok dj by (cases s) (auto simp: buddy_inv_def tiling_insert)
  from add_to_free_list_inv [OF this] have
    "buddy_inv k s' (F[i := c # F ! i]) {}" "preserves k {} s s'" by (auto simp: s'_def)
  moreover have "i < length F" using ok by (simp add: buddy_inv_length [OF inv] block_ok_def)
  ultimately show thesis using that by (auto simp: frees_push)
qed

lemma init_step:
  assumes "k + MAX_ORDER < 32" "min_block_size (fst s) = 2 ^ k" "bsize k 0 dvd unat current"
    and room: "unat current + bsize k 0 \<le> unat e"
  obtains i where "i \<le> MAX_ORDER" "bsize k i dvd unat current" "unat current + bsize k i \<le> unat e"
    and "i < MAX_ORDER \<Longrightarrow> bsize k (Suc i) dvd unat current \<Longrightarrow> unat e < unat current + bsize k (Suc i)"
    and "init_loop s current e = init_loop (add_to_free_list s current i) (current + 2 ^ (k + i)) e"
proof -
  let ?r = "e - current" and ?i = "init_order (2 ^ k) (e - current) current MAX_ORDER"
  have p: "unat ((2::u32) ^ k) = bsize k 0" using assms(1) by (simp add: unat_pow2 bsize_def)
  have le: "current \<le> e" using room by (simp add: word_le_nat_alt)
  have r: "unat ?r = unat e - unat current" using le by (rule unat_sub_le)
  have "unat current + bsize k 0 < 2 ^ 32"
    using room unat_less [of e] by simp
  then have "unat (current + 2 ^ k) = unat current + bsize k 0"
    by (subst unat_add_small) (simp_all add: p)
  then have c: "current + 2 ^ k \<le> e" "2 ^ k \<le> ?r"
    using room r by (simp_all add: word_le_nat_alt p)
  have max: "unat e < unat current + bsize k (Suc ?i)"
    if "?i < MAX_ORDER" "bsize k (Suc ?i) dvd unat current"
    using init_order_max [OF assms(1) order_refl lessI, of ?r current] that r le
    by (simp add: word_le_nat_alt not_le)
  show thesis
  proof (cases "0 < ?i")
    case True
    note f = init_order_fits [OF assms(1) order_refl True]
    have "shl (2 ^ k :: u32) ?i = 2 ^ (k + ?i)"
      using assms(1) f(1) by (intro shl_pow2) simp
    then have "init_loop s current e = init_loop (add_to_free_list s current ?i) (current + 2 ^ (k + ?i)) e"
      using True c assms(2) by (subst init_loop.simps) (simp add: Let_def)
    then show thesis
      using f r room max by (intro that [of ?i]) auto
  next
    case False
    then have "init_loop s current e = init_loop (add_to_free_list s current 0) (current + 2 ^ (k + 0)) e"
      using c assms(2) by (subst init_loop.simps) (simp add: Let_def)
    then show thesis
      using room assms(3) max False by (intro that [of 0]) auto
  qed
qed

lemma init_loop_inv:
  assumes "buddy_inv k s F {}" "cover k (frees F) = {unat (base_addr (fst s))..<unat current}"
    and "unat (base_addr (fst s)) \<le> unat current" "unat current \<le> unat e"
    and "bsize k 0 dvd unat current" "bsize k 0 dvd unat e"
    and "unat e + bsize k 0 < 2 ^ 32" "unat (base_addr (fst s)) + unat (total_size (fst s)) = unat e"
    and "greedy k (unat e) (frees F)"
  shows "\<exists>s' F'. init_loop s current e = Some s' \<and> buddy_inv k s' F' {} \<and> preserves k {} s s' \<and>
    cover k (frees F') = {unat (base_addr (fst s))..<unat e} \<and> greedy k (unat e) (frees F')"
  using assms
proof (induction "unat e - unat current" arbitrary: s F current rule: less_induct)
  case less
  note inv = less.prems(1) and k = buddy_inv_order [OF less.prems(1)]
  have mbs: "min_block_size (fst s) = 2 ^ k" using inv by (cases s) (simp add: buddy_inv_def)
  show ?case
  proof (cases "unat current + bsize k 0 \<le> unat e")
    case False
    have "unat e - unat current < bsize k 0" using False less.prems(4) by linarith
    moreover have "bsize k 0 dvd unat e - unat current" using less.prems(5,6) by (rule dvd_diff_nat [rotated])
    ultimately have e: "unat e = unat current"
      using less.prems(4) by (auto dest: dvd_imp_le)
    have "unat current + unat ((2::u32) ^ k) < 2 ^ 32" and p: "unat ((2::u32) ^ k) = bsize k 0"
      using less.prems(7) e k by (simp_all add: unat_pow2 bsize_def)
    then have "unat (current + 2 ^ k) = unat current + bsize k 0"
      by (subst unat_add_small) simp_all
    then have "init_loop s current e = Some s"
      using False mbs by (subst init_loop.simps) (simp add: Let_def word_le_nat_alt)
    then show ?thesis using less.prems e by auto
  next
    case True
    obtain i where i: "i \<le> MAX_ORDER" "bsize k i dvd unat current" "unat current + bsize k i \<le> unat e"
      and mx: "i < MAX_ORDER \<Longrightarrow> bsize k (Suc i) dvd unat current \<Longrightarrow> unat e < unat current + bsize k (Suc i)"
      and eq: "init_loop s current e = init_loop (add_to_free_list s current i) (current + 2 ^ (k + i)) e"
      using init_step [OF k mbs less.prems(5) True] by blast
    let ?c = "current + 2 ^ (k + i)" and ?s = "add_to_free_list s current i"
    have ext: "extent k (current, i) = {unat current..<unat current + bsize k i}"
      by (simp add: extent_def)
    have "block_ok k (unat (base_addr (fst s))) (unat (base_addr (fst s)) + unat (total_size (fst s))) (current, i)"
      using i less.prems(3,8) by (simp add: block_ok_def)
    moreover have "extent k (current, i) \<inter> cover k (frees F) = {}"
      using less.prems(2) by (auto simp: ext)
    ultimately obtain F1 where F1: "buddy_inv k ?s F1 {}" "preserves k {} s ?s"
      "cover k (frees F1) = extent k (current, i) \<union> cover k (frees F)" "frees F1 = insert (current, i) (frees F)"
      using carve_inv [OF inv] by metis
    have c: "unat ?c = unat current + bsize k i"
      using i k unat_less [of e] by (subst unat_add_small) (simp_all add: unat_pow2 bsize_def)
    have gr: "greedy k (unat e) (frees F1)"
      using less.prems(9) mx unfolding F1(4) greedy_def by blast
    have cov: "cover k (frees F1) = {unat (base_addr (fst s))..<unat ?c}"
      using less.prems(2,3) by (auto simp: F1(3) ext c)
    have "bsize k 0 dvd bsize k i" by (simp add: bsize_def power_add)
    then have "bsize k 0 dvd unat ?c" using less.prems(5) by (simp add: c)
    moreover have "base_addr (fst ?s) = base_addr (fst s)" "total_size (fst ?s) = total_size (fst s)"
      using F1(2) by (simp_all add: preserves_def)
    moreover have "unat e - unat ?c < unat e - unat current"
      using c i(3) bsize_pos [of k i] by linarith
    ultimately show ?thesis
      using less.hyps [of ?c ?s F1] F1(1) cov gr less.prems c i(3) eq preserves_trans [OF F1(2)] by auto
  qed
qed

section \<open>Rounding of the region\<close>

definition round_up :: "nat \<Rightarrow> nat \<Rightarrow> nat" where
  "round_up k n = (n + 2 ^ k - 1) div 2 ^ k * 2 ^ k"

definition round_down :: "nat \<Rightarrow> nat \<Rightarrow> nat" where
  "round_down k n = n div 2 ^ k * 2 ^ k"

lemma unat_round_up:
  assumes "unat a + 2 ^ k \<le> 2 ^ 32" "k < 32"
  shows "unat ((a + 2 ^ k - 1) AND NOT (2 ^ k - 1) :: u32) = round_up k (unat a)"
proof -
  have "unat (a + (2 ^ k - 1)) = unat a + (2 ^ k - 1)"
    using assms by (subst unat_add_small) (simp_all add: unat_sub_le unat_pow2 word_le_nat_alt)
  then show ?thesis
    using assms by (simp add: pow2_minus_1_eq_mask unat_and_not_mask round_up_def flip: add_diff_eq)
qed

lemma unat_round_down: "unat ((a :: u32) AND NOT (2 ^ k - 1)) = round_down k (unat a)"
  by (simp add: pow2_minus_1_eq_mask unat_and_not_mask round_down_def)

lemma round_down_le: "round_down k n \<le> n"
  by (simp add: round_down_def)

lemma round_up_ge: "n \<le> round_up k n"
proof -
  have "(n + 2 ^ k - 1) div 2 ^ k * 2 ^ k + (n + 2 ^ k - 1) mod 2 ^ k = n + 2 ^ k - 1"
    by (rule div_mult_mod_eq)
  moreover have "(n + 2 ^ k - 1) mod 2 ^ k < 2 ^ k" by simp
  ultimately show ?thesis unfolding round_up_def by linarith
qed

end
