(* ===== verification/Buddy_Api.thy ===== *)
theory Buddy_Api
  imports Buddy_Init
begin

text \<open>
  The pointer-level interface of the buddy allocator (\<^verbatim>\<open>alloc\<close> and \<^verbatim>\<open>free\<close> with a block
  header) and the contract its two clients, the page allocator and the kernel heap, rely on.
\<close>

section \<open>The order search of alloc\<close>

lemma push_bit_pow2: "push_bit 1 ((2::u32) ^ k) = 2 ^ Suc k"
  by (simp add: push_bit_eq_mult)

lemma order_for_returns:
  assumes "k \<le> 31" "unat needed \<le> 2 ^ 31"
  shows "\<exists>n. order_for (2 ^ k) needed i = Some (i + n) \<and> k + n \<le> 31 \<and> unat needed \<le> bsize k n \<and>
    (0 < n \<longrightarrow> bsize k (n - 1) < unat needed)"
  using assms
proof (induction "31 - k" arbitrary: k i)
  case 0
  then have k: "k = 31" by simp
  then have u: "unat ((2::u32) ^ k) = 2 ^ 31" by (subst unat_pow2) simp_all
  then have "order_for (2 ^ k) needed i = Some i"
    using 0 by (subst order_for.simps) (simp add: word_less_nat_alt)
  then show ?case using 0 k by (intro exI [of _ 0]) (simp add: bsize_def)
next
  case (Suc d)
  then have k: "k < 31" by simp
  then have u: "unat ((2::u32) ^ k) = 2 ^ k" by (subst unat_pow2) simp_all
  show ?case
  proof (cases "2 ^ k < needed")
    case False
    then have "order_for (2 ^ k) needed i = Some i" by (subst order_for.simps) simp
    then show ?thesis
      using False u k by (intro exI [of _ 0]) (simp add: word_less_nat_alt bsize_def)
  next
    case True
    then have eq: "order_for (2 ^ k) needed i = order_for (2 ^ Suc k) needed (i + 1)"
      by (subst order_for.simps) (simp only: push_bit_pow2 if_True)
    have "d = 31 - Suc k" "Suc k \<le> 31" using Suc.hyps(2) k by simp_all
    then obtain n where n: "order_for (2 ^ Suc k) needed (i + 1) = Some (i + 1 + n)"
      "Suc k + n \<le> 31" "unat needed \<le> bsize (Suc k) n" "0 < n \<longrightarrow> bsize (Suc k) (n - 1) < unat needed"
      using Suc.hyps(1) [of "Suc k" "i + 1"] Suc.prems(2) by blast
    have "bsize k n < unat needed"
    proof (cases n)
      case 0
      then show ?thesis using True u by (simp add: word_less_nat_alt bsize_def)
    next
      case (Suc m)
      then show ?thesis using n(4) by (simp add: bsize_def)
    qed
    then show ?thesis using eq n(1-3) by (intro exI [of _ "Suc n"]) (simp add: bsize_def)
  qed
qed

lemma order_for_bound: "order_for bs needed i = Some r \<Longrightarrow> \<exists>j. needed \<le> push_bit j bs"
proof (erule order_for.raw_induct [where P = "\<lambda>bs needed i r. \<exists>j. needed \<le> push_bit j bs", rotated])
  fix f and bs needed :: u32 and i r :: nat
  assume IH: "\<And>bs needed i r. f bs needed i = Some r \<Longrightarrow> \<exists>j. needed \<le> push_bit j bs"
    and eq: "(if bs < needed then f (push_bit 1 bs) needed (i + 1) else Some i) = Some r"
  show "\<exists>j. needed \<le> push_bit j bs"
  proof (cases "bs < needed")
    case True
    with eq have "f (push_bit 1 bs) needed (i + 1) = Some r" by simp
    from IH [OF this] obtain j where "needed \<le> push_bit j (push_bit 1 bs)" ..
    then show ?thesis unfolding push_bit_push_bit by blast
  next
    case False
    then show ?thesis by (intro exI [of _ 0]) simp
  qed
qed

lemma order_for_diverges:
  assumes "2 ^ 31 < unat needed"
  shows "order_for (2 ^ k) needed i = None"
proof (rule ccontr)
  assume "order_for (2 ^ k) needed i \<noteq> None"
  then obtain j where j: "needed \<le> push_bit j (2 ^ k)" using order_for_bound by blast
  have "push_bit j ((2::u32) ^ k) = 2 ^ (j + k)" by (simp add: push_bit_eq_mult power_add)
  moreover have "unat ((2::u32) ^ (j + k)) \<le> 2 ^ 31"
  proof (cases "j + k < 32")
    case True
    then have "(2::nat) ^ (j + k) \<le> 2 ^ 31" by (intro power_increasing) auto
    then show ?thesis using True by (simp add: unat_pow2)
  next
    case False
    then have "(2::u32) ^ (j + k) = 0" by (simp only: exp_eq_zero_iff) simp
    then show ?thesis by (simp only:) simp
  qed
  ultimately show False using j assms by (simp add: word_le_nat_alt)
qed

section \<open>alloc\<close>

text \<open>
  The layouts Rust can construct: the alignment is a power of two and the size, rounded up
  to it, does not exceed \<^verbatim>\<open>isize::MAX\<close>.
\<close>

definition valid_layout :: "nat \<Rightarrow> layout \<Rightarrow> bool" where
  "valid_layout j lay \<longleftrightarrow> j < 31 \<and> lay_align lay = 2 ^ j \<and> round_up j (unat (lay_size lay)) < 2 ^ 31"

lemma round_up_small: "0 < n \<Longrightarrow> n \<le> 2 ^ k \<Longrightarrow> round_up k n = 2 ^ k"
proof -
  assume n: "0 < n" "n \<le> 2 ^ k"
  have "(n + 2 ^ k - 1) div 2 ^ k = 1"
    using n by (intro div_nat_eqI) auto
  then show ?thesis by (simp add: round_up_def)
qed

lemma max_pow2_8: "j < 31 \<Longrightarrow> max ((2::u32) ^ j) 8 = 2 ^ max j 3"
proof (cases "j \<le> 3")
  case True
  then have "unat ((2::u32) ^ j) \<le> 8"
    using power_increasing [of j 3 "2::nat"] by (simp add: unat_pow2)
  with True show ?thesis by (simp add: max_def word_le_nat_alt)
next
  case False
  assume "j < 31"
  then have "(8::u32) \<le> 2 ^ j"
    using False power_increasing [of 3 j "2::nat"] by (simp add: word_le_nat_alt unat_pow2)
  with False show ?thesis by (simp add: max_absorb1)
qed

lemma unat_header_size: "valid_layout j lay \<Longrightarrow> unat (header_size lay) = 2 ^ max j 3"
proof -
  assume "valid_layout j lay"
  then have j: "j < 31" "lay_align lay = 2 ^ j" by (auto simp: valid_layout_def)
  let ?J = "max j 3"
  have p: "(8::nat) \<le> 2 ^ ?J" "(2::nat) ^ ?J \<le> 2 ^ 30"
    using power_increasing [of 3 ?J "2::nat"] power_increasing [of ?J 30 "2::nat"] j by simp_all
  have "unat (header_size lay) = round_up ?J 8"
    unfolding header_size_def HEADER_SIZE_def Let_def j(2) max_pow2_8 [OF j(1)]
    using p j by (subst unat_round_up) simp_all
  then show ?thesis using p by (simp add: round_up_small)
qed

text \<open>A client that writes inside a block it owns does not disturb the free lists.\<close>

lemma buddy_inv_client_writes:
  assumes inv: "buddy_inv k (b, m) F A" and y: "y \<in> A"
    and w: "\<And>x. m' x \<noteq> m x \<Longrightarrow> unat x \<in> extent k y"
  shows "buddy_inv k (b, m') F A"
proof -
  have "seg m' p (F ! i) q = seg m p (F ! i) q" if "i \<le> MAX_ORDER" for p q i
  proof (rule seg_frame)
    fix a x assume "a \<in> set (F ! i)" "x \<in> cells a"
    then have "(a, i) \<in> frees F" using that buddy_inv_length [OF inv] by (simp add: frees_def)
    moreover have "(a, i) \<noteq> y" using calculation y buddy_inv_disjoint [OF inv] by blast
    ultimately have "unat x \<notin> extent k y"
      using \<open>x \<in> cells a\<close> y buddy_inv_cells_extent [OF inv, of a i y x] by blast
    then show "m' x = m x" using w by blast
  qed
  then show ?thesis using inv by (simp add: buddy_inv_def)
qed

lemma buddy_inv_client_write:
  assumes "buddy_inv k (b, m) F A" "y \<in> A" "unat x \<in> extent k y"
  shows "buddy_inv k (b, m(x := v)) F A"
proof (rule buddy_inv_client_writes [OF assms(1,2)])
  fix z assume "(m(x := v)) z \<noteq> m z"
  then have "z = x" by (auto split: if_splits)
  then show "unat z \<in> extent k y" using assms(3) by simp
qed

text \<open>What a successful \<^verbatim>\<open>alloc\<close> hands out: a fresh block with its header and the user area in it.\<close>

definition handed_out :: "nat \<Rightarrow> layout \<Rightarrow> u32 \<Rightarrow> block \<Rightarrow> bool" where
  "handed_out k lay p x \<longleftrightarrow>
     p = fst x + header_size lay \<and> unat p = unat (fst x) + unat (header_size lay) \<and>
     unat p + unat (lay_size lay) \<le> unat (fst x) + bsize k (snd x) \<and>
     unat (lay_align lay) dvd unat p"

lemma handed_out_block:
  assumes ok: "block_ok k lo hi (a, i)" and hi: "hi \<le> 2 ^ 32" and lay: "valid_layout j lay"
    and pos: "lay_size lay \<noteq> 0" and fits: "unat (lay_size lay) + 2 ^ max j 3 \<le> bsize k i"
  shows "handed_out k lay (a + header_size lay) (a, i)"
proof -
  let ?J = "max j 3"
  have hs: "unat (header_size lay) = 2 ^ ?J" using lay by (rule unat_header_size)
  have "0 < unat (lay_size lay)" using pos by (simp add: unat_gt_0)
  then have lt: "2 ^ ?J < bsize k i" using fits by linarith
  then have "unat a + unat (header_size lay) < 2 ^ 32"
    using ok hi hs by (simp add: block_ok_def)
  then have u: "unat (a + header_size lay) = unat a + 2 ^ ?J" by (simp add: unat_add_small hs)
  have "?J < k + i" using lt by (simp add: bsize_def)
  then have "(2::nat) ^ ?J dvd bsize k i" by (simp add: bsize_def le_imp_power_dvd)
  then have "2 ^ ?J dvd unat a" using ok by (auto simp: block_ok_def intro: dvd_trans)
  then have "(2::nat) ^ ?J dvd unat (a + header_size lay)" by (simp add: u)
  moreover have "(2::nat) ^ j dvd 2 ^ ?J" by (simp add: le_imp_power_dvd)
  ultimately have "2 ^ j dvd unat (a + header_size lay)" by (rule dvd_trans [rotated])
  then show ?thesis
    using u hs fits lay by (simp add: handed_out_def valid_layout_def unat_pow2)
qed

lemma buddy_alloc_cases:
  assumes inv: "buddy_inv k s F A" and lay: "valid_layout j lay" and pos: "lay_size lay \<noteq> 0"
  defines "n \<equiv> unat (lay_size lay) + 2 ^ max j 3"
  obtains (diverge) "2 ^ 31 < n" "buddy_alloc s lay = None"
  | (oom) i where "n \<le> 2 ^ 31" "n \<le> bsize k i" "0 < i \<longrightarrow> bsize k (i - 1) < n"
      "\<forall>l. i \<le> l \<and> l \<le> MAX_ORDER \<longrightarrow> F ! l = []" "buddy_alloc s lay = Some (None, s)"
  | (ok) a i s' F' where "n \<le> 2 ^ 31" "n \<le> bsize k i" "0 < i \<longrightarrow> bsize k (i - 1) < n"
      "buddy_alloc s lay = Some (Some (a + header_size lay), s')"
      "handed_out k lay (a + header_size lay) (a, i)" "snd s' a = of_nat i"
      "buddy_inv k s' F' (insert (a, i) A)" "(a, i) \<notin> A" "preserves k A s s'"
      "cover k (frees F' \<union> insert (a, i) A) = cover k (frees F \<union> A)" "coalesced k (frees F) \<longrightarrow> coalesced k (frees F')"
proof -
  have j: "j < 31" "lay_align lay = 2 ^ j" "unat (lay_size lay) < 2 ^ 31"
    using lay round_up_ge [of "unat (lay_size lay)" j] by (auto simp: valid_layout_def)
  have hs: "unat (header_size lay) = 2 ^ max j 3" using lay by (rule unat_header_size)
  have "(2::nat) ^ max j 3 \<le> 2 ^ 30" using j by (intro power_increasing) auto
  then have n: "unat (lay_size lay + header_size lay) = n"
    using j by (simp add: unat_add_small hs n_def)
  have k: "k + MAX_ORDER < 32" and mbs: "min_block_size (fst s) = 2 ^ k"
    using inv by (auto simp: buddy_inv_def split: prod.splits)
  show thesis
  proof (cases "2 ^ 31 < n")
    case True
    then have "order_for (2 ^ k) (lay_size lay + header_size lay) 0 = None"
      using n by (intro order_for_diverges) simp
    then show thesis using True pos by (intro diverge) (simp_all add: buddy_alloc_def mbs Let_def)
  next
    case False
    then have n31: "n \<le> 2 ^ 31" by simp
    with False obtain i where i: "order_for (2 ^ k) (lay_size lay + header_size lay) 0 = Some i"
      "k + i \<le> 31" "n \<le> bsize k i" "0 < i \<longrightarrow> bsize k (i - 1) < n"
      using order_for_returns [of k "lay_size lay + header_size lay" 0] k n by auto
    obtain r s1 where Pair: "alloc_block_order s i = (r, s1)" by (cases "alloc_block_order s i")
    show thesis
    proof (cases r)
        case None
        then have "s1 = s" "\<forall>l. i \<le> l \<and> l \<le> MAX_ORDER \<longrightarrow> F ! l = []"
          using alloc_block_order_None [OF inv, of i] Pair by auto
        then show thesis using i n31 None Pair pos by (intro oom [of i]) (simp_all add: buddy_alloc_def mbs Let_def)
      next
        case (Some a)
        obtain b m where s1: "s1 = (b, m)" by (cases s1)
        obtain F' where F': "buddy_inv k (b, m) F' (insert (a, i) A)" "(a, i) \<notin> A"
          "preserves k A s (b, m)" "cover k (frees F' \<union> insert (a, i) A) = cover k (frees F \<union> A)"
          "coalesced k (frees F) \<longrightarrow> coalesced k (frees F')"
          using alloc_block_order_inv [OF inv] Pair Some s1 by metis
        let ?m = "m(a := (of_nat i :: u8))"
        have inv': "buddy_inv k (b, ?m) F' (insert (a, i) A)"
          using F'(1) by (rule buddy_inv_client_write [of _ _ _ _ _ "(a, i)"]) simp_all
        obtain lo hi where t: "tiling k lo hi (frees F' \<union> insert (a, i) A)" and hi: "hi < 2 ^ 32"
          using F'(1) by (auto simp: buddy_inv_def)
        then have bk: "block_ok k lo hi (a, i)" by (auto simp: tiling_def)
        have "?m x = m x" if "y \<in> A" "unat x \<in> extent k y" for x y
          using that t F'(2) by (auto simp: tiling_def) (metis addr_in_extent disjoint_iff insertI1 UnI2)
        then have "preserves k A s (b, ?m)" using F'(3) by (auto simp: preserves_def)
        moreover have "handed_out k lay (a + header_size lay) (a, i)"
          using i(3) unfolding n_def
          by (intro handed_out_block [OF bk less_imp_le [OF hi] lay pos])
        ultimately show thesis
          using i n31 inv' F' Pair Some s1 pos
          by (intro ok [of i a "(b, ?m)" F']) (simp_all add: buddy_alloc_def mbs Let_def)
      qed
  qed
qed

lemma buddy_alloc_Some:
  assumes "buddy_inv k s F A" "valid_layout j lay" "lay_size lay \<noteq> 0" "buddy_alloc s lay = Some (Some p, s')"
  obtains a i F' where "p = a + header_size lay" "handed_out k lay p (a, i)" "snd s' a = of_nat i"
    and "buddy_inv k s' F' (insert (a, i) A)" "(a, i) \<notin> A"
    and "cover k (frees F' \<union> insert (a, i) A) = cover k (frees F \<union> A)" "preserves k A s s'"
  using assms(1-3)
proof (cases rule: buddy_alloc_cases)
  case (ok a i t F')
  then show thesis using assms(4) that [of a i F'] by simp
qed (use assms(4) in simp_all)

lemma buddy_alloc_diverge_iff:
  assumes "buddy_inv k s F A" "valid_layout j lay" "lay_size lay \<noteq> 0"
  shows "buddy_alloc s lay = None \<longleftrightarrow> 2 ^ 31 < unat (lay_size lay) + 2 ^ max j 3"
  using assms
proof (cases rule: buddy_alloc_cases)
  case (oom i)
  then show ?thesis by simp
next
  case (ok a i t F')
  then show ?thesis by simp
qed simp

section \<open>free\<close>

text \<open>
  \<^verbatim>\<open>free\<close> looks for the header 8 bytes below the pointer.  That is where \<^verbatim>\<open>alloc\<close> put it when
  the alignment is at most 8.
\<close>

lemma buddy_free_inv:
  assumes inv: "buddy_inv k s F A" and mem: "(a, i) \<in> A" and hdr: "snd s a = of_nat i"
  obtains s' F' where "buddy_free s (a + 8) = Some s'"
    and "buddy_inv k s' F' (A - {(a, i)})" "preserves k (A - {(a, i)}) s s'"
    and "cover k (frees F' \<union> (A - {(a, i)})) = cover k (frees F \<union> A)" "coalesced k (frees F) \<Longrightarrow> coalesced k (frees F')"
proof -
  have i: "i \<le> MAX_ORDER" using buddy_inv_nonnull [OF inv, of a i] mem by auto
  obtain lo hi where "block_ok k lo hi (a, i)" "hi < 2 ^ 32" "3 \<le> k"
    using inv mem by (cases s) (auto simp: buddy_inv_def tiling_def)
  moreover from this have "(2::nat) ^ 3 \<le> bsize k i"
    unfolding bsize_def by (intro power_increasing) auto
  ultimately have "unat (a + 8) = unat a + 8"
    by (subst unat_add_small) (auto simp: block_ok_def)
  then have "a + 8 \<noteq> 0" by (metis add_is_0 unat_0 zero_neq_numeral)
  moreover have "unat (snd s a) = i"
    using i by (simp add: hdr unat_of_nat MAX_ORDER_def)
  ultimately have "buddy_free s (a + 8) = free_block s a i"
    by (simp add: buddy_free_def HEADER_SIZE_def Let_def)
  then show thesis using free_block_inv [OF inv mem] that by metis
qed

section \<open>The contract for clients\<close>

text \<open>
  What the page allocator and the heap rely on: an invariant indexed by the set of blocks
  in use, kept by every operation; blocks in use never overlap; a block in use can always
  be given back; and the bytes of the blocks in use belong to the client alone.
\<close>

locale block_allocator =
  fixes alloc :: "'s \<Rightarrow> nat \<Rightarrow> u32 option \<times> 's"
    and free :: "'s \<Rightarrow> u32 \<Rightarrow> nat \<Rightarrow> 's option"
    and invar :: "'s \<Rightarrow> block set \<Rightarrow> bool"
    and extent_of :: "block \<Rightarrow> nat set"
    and byte_at :: "'s \<Rightarrow> u32 \<Rightarrow> u8"
  assumes alloc_Some: "invar s A \<Longrightarrow> alloc s i = (Some a, s') \<Longrightarrow> invar s' (insert (a, i) A) \<and> (a, i) \<notin> A"
    and alloc_None: "invar s A \<Longrightarrow> alloc s i = (None, s') \<Longrightarrow> s' = s"
    and free_returns: "invar s A \<Longrightarrow> (a, i) \<in> A \<Longrightarrow>
      \<exists>s'. free s a i = Some s' \<and> invar s' (A - {(a, i)})"
    and in_use_disjoint: "invar s A \<Longrightarrow> x \<in> A \<Longrightarrow> y \<in> A \<Longrightarrow> x \<noteq> y \<Longrightarrow> extent_of x \<inter> extent_of y = {}"
    and alloc_frame: "invar s A \<Longrightarrow> alloc s i = (r, s') \<Longrightarrow> x \<in> A \<Longrightarrow> unat c \<in> extent_of x \<Longrightarrow>
      byte_at s' c = byte_at s c"
    and free_frame: "invar s A \<Longrightarrow> (a, i) \<in> A \<Longrightarrow> free s a i = Some s' \<Longrightarrow> x \<in> A - {(a, i)} \<Longrightarrow>
      unat c \<in> extent_of x \<Longrightarrow> byte_at s' c = byte_at s c"
begin

lemma alloc_keeps_invar:
  assumes "invar s A" "alloc s i = (r, s')"
  obtains "r = None" "s' = s" | a where "r = Some a" "invar s' (insert (a, i) A)" "(a, i) \<notin> A"
  using assms alloc_Some alloc_None by (cases r) blast+

lemma fresh_block_disjoint:
  assumes "invar s A" "alloc s i = (Some a, s')" "x \<in> A"
  shows "extent_of (a, i) \<inter> extent_of x = {}"
  using alloc_Some [OF assms(1,2)] assms(3) in_use_disjoint [of s' "insert (a, i) A" "(a, i)" x] by auto

text \<open>A block survives, byte for byte, another block's whole life.\<close>

lemma neighbour_untouched:
  assumes "invar s A" "alloc s i = (Some a, t)" "free t a i = Some u" "x \<in> A" "unat c \<in> extent_of x"
  shows "byte_at u c = byte_at s c"
proof -
  have t: "invar t (insert (a, i) A)" "(a, i) \<notin> A" using alloc_Some assms(1,2) by blast+
  have "byte_at t c = byte_at s c" using alloc_frame assms(1,2,4,5) by blast
  moreover have "byte_at u c = byte_at t c"
    using t assms(3-5) by (intro free_frame [of t "insert (a, i) A" a i u x]) auto
  ultimately show ?thesis by simp
qed

end

text \<open>The two instances the kernel has: 32-byte blocks for the heap, pages for the page allocator.\<close>

definition in_use_inv :: "nat \<Rightarrow> bstate \<Rightarrow> block set \<Rightarrow> bool" where
  "in_use_inv k s A \<longleftrightarrow> (\<exists>F. buddy_inv k s F A)"

lemma buddy_block_allocator:
  "block_allocator alloc_block_order free_block (in_use_inv k) (extent k) snd"
proof
  fix s A i a s' assume "in_use_inv k s A" "alloc_block_order s i = (Some a, s')"
  then show "in_use_inv k s' (insert (a, i) A) \<and> (a, i) \<notin> A"
    unfolding in_use_inv_def by (metis alloc_block_order_inv)
next
  fix s A i s' assume "in_use_inv k s A" "alloc_block_order s i = (None, s')"
  then show "s' = s" unfolding in_use_inv_def by (metis alloc_block_order_None(2) fst_conv snd_conv)
next
  fix s A a i assume "in_use_inv k s A" "(a, i) \<in> A"
  then show "\<exists>s'. free_block s a i = Some s' \<and> in_use_inv k s' (A - {(a, i)})"
    unfolding in_use_inv_def by (metis free_block_inv)
next
  fix s A x y assume "in_use_inv k s A" "x \<in> A" "y \<in> A" "x \<noteq> y"
  moreover then obtain F where "buddy_inv k s F A" by (auto simp: in_use_inv_def)
  then obtain lo hi where "tiling k lo hi (frees F \<union> A)"
    by (cases s) (auto simp: buddy_inv_def)
  ultimately show "extent k x \<inter> extent k y = {}" unfolding tiling_def by blast
next
  fix s A i r s' x and c :: u32
  assume *: "in_use_inv k s A" "alloc_block_order s i = (r, s')" "x \<in> A" "unat c \<in> extent k x"
  then obtain F where F: "buddy_inv k s F A" by (auto simp: in_use_inv_def)
  show "snd s' c = snd s c"
  proof (cases r)
    case None
    then show ?thesis using alloc_block_order_None(2) [OF F, of i] *(2) by simp
  next
    case (Some a)
    then have "preserves k A s s'" using alloc_block_order_inv [OF F] *(2) by metis
    then show ?thesis using *(3,4) by (simp add: preserves_def)
  qed
next
  fix s A a i s' x and c :: u32
  assume *: "in_use_inv k s A" "(a, i) \<in> A" "free_block s a i = Some s'" "x \<in> A - {(a, i)}" "unat c \<in> extent k x"
  then obtain F where F: "buddy_inv k s F A" by (auto simp: in_use_inv_def)
  have "preserves k (A - {(a, i)}) s s'" using free_block_inv [OF F *(2)] *(3) by (metis option.inject)
  then show "snd s' c = snd s c" using *(4,5) by (simp add: preserves_def)
qed

interpretation heap_blocks: block_allocator alloc_block_order free_block "in_use_inv 5" "extent 5" snd
  by (rule buddy_block_allocator)

interpretation page_blocks: block_allocator alloc_block_order free_block "in_use_inv 12" "extent 12" snd
  by (rule buddy_block_allocator)

end
