(* ===== verification/Buddy_Machine.thy ===== *)
theory Buddy_Machine
  imports Buddy_Api
begin

text \<open>
  The allocator as a state machine: the states its clients can drive it into from a freshly
  initialised region, with the set of blocks in use as ghost state, and the properties of
  every reachable state.
\<close>

section \<open>Steps and reachable states\<close>

definition region_ok :: "nat \<Rightarrow> u32 \<Rightarrow> u32 \<Rightarrow> bool" where
  "region_ok k st en \<longleftrightarrow>
     3 \<le> k \<and> k + MAX_ORDER < 32 \<and> unat st + 2 ^ k \<le> 2 ^ 32 \<and> st \<noteq> 0 \<and>
     round_up k (unat st) \<le> round_down k (unat en) \<and> unat en + 2 ^ k < 2 ^ 32"

inductive buddy_step :: "nat \<Rightarrow> bstate \<times> block set \<Rightarrow> bstate \<times> block set \<Rightarrow> bool" for k where
  step_alloc: "alloc_block_order s i = (Some a, s') \<Longrightarrow> buddy_step k (s, A) (s', insert (a, i) A)"
| step_oom: "alloc_block_order s i = (None, s') \<Longrightarrow> buddy_step k (s, A) (s', A)"
| step_free: "(a, i) \<in> A \<Longrightarrow> free_block s a i = Some s' \<Longrightarrow> buddy_step k (s, A) (s', A - {(a, i)})"
| step_write: "y \<in> A \<Longrightarrow> unat x \<in> extent k y \<Longrightarrow> buddy_step k ((b, m), A) ((b, m(x := v)), A)"

inductive buddy_reach :: "nat \<Rightarrow> u32 \<Rightarrow> u32 \<Rightarrow> bstate \<times> block set \<Rightarrow> bool" for k st en where
  reach_init: "region_ok k st en \<Longrightarrow> buddy_init (buddy_new (2 ^ k), m) st en = Some s \<Longrightarrow>
    buddy_reach k st en (s, {})"
| reach_step: "buddy_reach k st en c \<Longrightarrow> buddy_step k c c' \<Longrightarrow> buddy_reach k st en c'"

lemma region_ok_round:
  assumes "region_ok k st en"
  shows "0 < round_up k (unat st)" "round_down k (unat en) + bsize k 0 < 2 ^ 32"
    and "bsize k 0 dvd round_up k (unat st)" "bsize k 0 dvd round_down k (unat en)"
proof -
  have "unat st \<noteq> 0" using assms by (simp add: region_ok_def unat_eq_0)
  then show "0 < round_up k (unat st)" using round_up_ge [of "unat st" k] by linarith
  show "round_down k (unat en) + bsize k 0 < 2 ^ 32"
    using round_down_le [of k "unat en"] assms by (simp add: region_ok_def bsize_def)
  show "bsize k 0 dvd round_up k (unat st)" by (simp add: round_up_def bsize_def)
  show "bsize k 0 dvd round_down k (unat en)" by (simp add: round_down_def bsize_def)
qed

lemma buddy_init_establishes:
  assumes ok: "region_ok k st en"
  obtains s F where "buddy_init (buddy_new (2 ^ k), m) st en = Some s" "buddy_inv k s F {}"
    and "unat (base_addr (fst s)) = round_up k (unat st)"
    and "unat (base_addr (fst s)) + unat (total_size (fst s)) = round_down k (unat en)"
    and "cover k (frees F) = {round_up k (unat st)..<round_down k (unat en)}" "coalesced k (frees F)"
proof -
  let ?st = "(st + 2 ^ k - 1) AND NOT (2 ^ k - 1) :: u32" and ?en = "en AND NOT (2 ^ k - 1) :: u32"
  let ?b = "buddy_new (2 ^ k)\<lparr>base_addr := ?st, total_size := ?en - ?st,
    free_lists := replicate (MAX_ORDER + 1) 0\<rparr>"
  have "unat ?st = round_up k (unat st)" using ok by (intro unat_round_up) (auto simp: region_ok_def)
  moreover have "unat ?en = round_down k (unat en)" by (rule unat_round_down)
  ultimately have u: "unat ?st = round_up k (unat st)" "unat ?en = round_down k (unat en)" .
  have le: "?st \<le> ?en" using ok u by (simp add: word_le_nat_alt region_ok_def)
  have tot: "unat ?st + unat (?en - ?st) = unat ?en"
    using le by (simp add: unat_sub_le word_le_nat_alt)
  note r = region_ok_round [OF ok]
  have fr: "frees (replicate (MAX_ORDER + 1) []) = {}" by (auto simp: frees_def simp del: replicate_Suc)
  have inv: "buddy_inv k (?b, m) (replicate (MAX_ORDER + 1) []) {}"
    using ok r(1,2) u tot fr
    by (simp add: buddy_inv_def buddy_new_def region_ok_def nth_append del: replicate_Suc)
  obtain s' F' where "init_loop (?b, m) ?st ?en = Some s'" "buddy_inv k s' F' {}"
    "preserves k {} (?b, m) s'" "cover k (frees F') = {unat (base_addr (fst (?b, m)))..<unat ?en}"
    "greedy k (unat ?en) (frees F')"
    using init_loop_inv [OF inv, of ?st ?en] fr u tot r le by (auto simp: word_le_nat_alt greedy_def)
  moreover from this have "coalesced k (frees F')"
    using tot greedy_coalesced [of k "unat ?en" "frees F'" "unat ?st"] buddy_inv_order
    by (cases s') (auto simp: buddy_inv_def preserves_def)
  ultimately show thesis
    using u tot by (intro that [of s' F'])
      (auto simp: buddy_init_def buddy_new_def Let_def preserves_def)
qed

text \<open>Every reachable state satisfies the invariant, manages the same region and loses no byte of it.\<close>

definition machine_inv :: "nat \<Rightarrow> u32 \<Rightarrow> u32 \<Rightarrow> bstate \<Rightarrow> u32 list list \<Rightarrow> block set \<Rightarrow> bool" where
  "machine_inv k st en s F A \<longleftrightarrow>
     buddy_inv k s F A \<and> unat (base_addr (fst s)) = round_up k (unat st) \<and>
     unat (base_addr (fst s)) + unat (total_size (fst s)) = round_down k (unat en) \<and>
     cover k (frees F \<union> A) = {round_up k (unat st)..<round_down k (unat en)} \<and>
     coalesced k (frees F)"

lemma machine_inv_step:
  assumes "machine_inv k st en s F A" "buddy_step k (s, A) (s', A')"
  shows "\<exists>F'. machine_inv k st en s' F' A'"
  using assms(2)
proof (cases rule: buddy_step.cases)
  case (step_alloc i a)
  have inv: "buddy_inv k s F A" and co: "coalesced k (frees F)"
    using assms(1) by (simp_all add: machine_inv_def)
  obtain F' where "buddy_inv k s' F' (insert (a, i) A)" "preserves k A s s'"
    "cover k (frees F' \<union> insert (a, i) A) = cover k (frees F \<union> A)" "coalesced k (frees F')"
    using alloc_block_order_inv [OF inv] step_alloc co by metis
  then show ?thesis using assms(1) step_alloc by (auto simp: machine_inv_def preserves_def)
next
  case (step_oom i)
  then have "s' = s"
    using alloc_block_order_None(2) [of k s F A i] assms(1) by (simp add: machine_inv_def)
  then show ?thesis using assms(1) step_oom by auto
next
  case (step_free a i)
  have inv: "buddy_inv k s F A" and co: "coalesced k (frees F)"
    using assms(1) by (simp_all add: machine_inv_def)
  obtain F' where "buddy_inv k s' F' A'" "preserves k A' s s'"
    "cover k (frees F' \<union> A') = cover k (frees F \<union> A)" "coalesced k (frees F')"
    using free_block_inv [OF inv step_free(2)] step_free co by (metis option.inject)
  then show ?thesis using assms(1) by (auto simp: machine_inv_def preserves_def)
next
  case (step_write y x b m v)
  then show ?thesis
    using assms(1) buddy_inv_client_write [of k b m F A y x v] by (auto simp: machine_inv_def)
qed

text \<open>The pointer interface keeps it too.\<close>

lemma machine_alloc_inv:
  assumes F: "machine_inv k st en s F A" and "buddy_inv k s' F' (insert (a, i) A)" "preserves k A s s'"
    and "cover k (frees F' \<union> insert (a, i) A) = cover k (frees F \<union> A)" "coalesced k (frees F) \<longrightarrow> coalesced k (frees F')"
  shows "machine_inv k st en s' F' (insert (a, i) A)"
  using assms by (auto simp: machine_inv_def preserves_def)

lemma machine_free_inv:
  assumes F: "machine_inv k st en s F A" and mem: "(a, i) \<in> A" and hdr: "snd s a = of_nat i"
  obtains s' F' where "buddy_free s (a + 8) = Some s'" "machine_inv k st en s' F' (A - {(a, i)})"
    and "preserves k (A - {(a, i)}) s s'"
proof -
  have "buddy_inv k s F A" using F by (simp add: machine_inv_def)
  from buddy_free_inv [OF this mem hdr] obtain s' F' where s': "buddy_free s (a + 8) = Some s'"
    "buddy_inv k s' F' (A - {(a, i)})" "preserves k (A - {(a, i)}) s s'"
    "cover k (frees F' \<union> (A - {(a, i)})) = cover k (frees F \<union> A)" "coalesced k (frees F) \<Longrightarrow> coalesced k (frees F')"
    by metis
  then have "machine_inv k st en s' F' (A - {(a, i)})" using F by (auto simp: machine_inv_def preserves_def)
  with s' show thesis using that by blast
qed

lemma reachable_inv: "buddy_reach k st en c \<Longrightarrow> \<exists>F. machine_inv k st en (fst c) F (snd c)"
proof (induction rule: buddy_reach.induct)
  case (reach_init m s)
  then show ?case
    using buddy_init_establishes [OF reach_init(1), of m] by (auto simp: machine_inv_def) fastforce
next
  case (reach_step c c')
  then show ?case using machine_inv_step by (cases c, cases c') fastforce
qed

lemma machine_inv_tiling:
  assumes "machine_inv k st en s F A"
  shows "tiling k (round_up k (unat st)) (round_down k (unat en)) (frees F \<union> A)"
    and "frees F \<inter> A = {}" and "k + MAX_ORDER < 32"
proof -
  have inv: "buddy_inv k s F A" using assms by (simp add: machine_inv_def)
  show "frees F \<inter> A = {}" "k + MAX_ORDER < 32"
    using buddy_inv_disjoint [OF inv] buddy_inv_order [OF inv] .
  obtain b m where s: "s = (b, m)" by (cases s)
  have "tiling k (unat (base_addr b)) (unat (base_addr b) + unat (total_size b)) (frees F \<union> A)"
    using inv by (simp add: s buddy_inv_def)
  moreover have "round_up k (unat st) = unat (base_addr b)"
    "round_down k (unat en) = unat (base_addr b) + unat (total_size b)"
    using assms by (simp_all add: s machine_inv_def)
  ultimately show "tiling k (round_up k (unat st)) (round_down k (unat en)) (frees F \<union> A)"
    by (simp only:)
qed

text \<open>The part of the region that is not in use is the free space.\<close>

lemma free_cover:
  assumes "buddy_inv k s F A"
  shows "cover k (frees F) = cover k (frees F \<union> A) - cover k A"
proof -
  obtain lo hi where t: "tiling k lo hi (frees F \<union> A)"
    using assms by (cases s) (auto simp: buddy_inv_def)
  have "extent k x \<inter> extent k y = {}" if "x \<in> frees F" "y \<in> A" for x y
  proof -
    have "x \<noteq> y" using that buddy_inv_disjoint [OF assms] by blast
    then show ?thesis using that t by (simp add: tiling_def)
  qed
  then have "cover k (frees F) \<inter> cover k A = {}" by (fastforce simp: cover_def)
  moreover have "cover k (frees F \<union> A) = cover k (frees F) \<union> cover k A" by (simp add: cover_def)
  ultimately show ?thesis by blast
qed

lemma machine_inv_free_space:
  assumes "machine_inv k st en s F A"
  shows "cover k (frees F) = {round_up k (unat st)..<round_down k (unat en)} - cover k A"
  using assms free_cover [of k s F A] by (simp add: machine_inv_def)

text \<open>An allocation fails exactly when the free space has no aligned run of the size.\<close>

lemma machine_alloc_None_iff:
  assumes "machine_inv k st en s F A" "i \<le> MAX_ORDER"
  shows "fst (alloc_block_order s i) = None \<longleftrightarrow>
    \<not> (\<exists>r. bsize k i dvd r \<and>
      {r..<r + bsize k i} \<subseteq> {round_up k (unat st)..<round_down k (unat en)} - cover k A)"
proof -
  note F = assms(1)
  have inv: "buddy_inv k s F A" and co: "coalesced k (frees F)" using F by (simp_all add: machine_inv_def)
  note t = machine_inv_tiling [OF F]
  have tf: "tiling k (round_up k (unat st)) (round_down k (unat en)) (frees F)"
    using t(1) unfolding tiling_def by blast
  have some: "fst (alloc_block_order s i) \<noteq> None" if "x \<in> frees F" "i \<le> snd x" for x
    using that buddy_inv_nonnull(2) [OF inv, of "fst x" "snd x"] alloc_block_order_None(1) [OF inv, of i]
    by (cases x) (auto simp: frees_def)
  show ?thesis unfolding machine_inv_free_space [OF F, symmetric]
  proof (intro iffI notI; (elim exE conjE)?)
    fix r assume "fst (alloc_block_order s i) = None" "bsize k i dvd r" "{r..<r + bsize k i} \<subseteq> cover k (frees F)"
    then show False using coalesced_run [OF tf co t(3) assms(2)] some by blast
  next
    assume no: "\<not> (\<exists>r. bsize k i dvd r \<and> {r..<r + bsize k i} \<subseteq> cover k (frees F))"
    show "fst (alloc_block_order s i) = None"
    proof (rule ccontr)
      assume "fst (alloc_block_order s i) \<noteq> None"
      then obtain l a where "i \<le> l" "l \<le> MAX_ORDER" "a \<in> set (F ! l)"
        using alloc_block_order_None(1) [OF inv, of i] by (metis list.set_intros(1) neq_Nil_conv)
      then have x: "(a, l) \<in> frees F" "bsize k i dvd bsize k l" "bsize k i \<le> bsize k l"
        using buddy_inv_length [OF inv] by (auto simp: frees_def bsize_def le_imp_power_dvd)
      then have "bsize k l dvd unat a" using tf by (auto simp: tiling_def block_ok_def)
      moreover have "{unat a..<unat a + bsize k i} \<subseteq> cover k (frees F)"
        using x(1,3) by (force simp: cover_def extent_def)
      ultimately show False using no x(2) dvd_trans by blast
    qed
  qed
qed

text \<open>
  So \<^verbatim>\<open>alloc\<close> answers out of memory exactly when no block that could hold the request is free: no
  aligned run of unused memory has the size of a block that is large enough.
\<close>

definition room :: "nat \<Rightarrow> u32 \<Rightarrow> u32 \<Rightarrow> block set \<Rightarrow> nat \<Rightarrow> bool" where
  "room k st en A n \<longleftrightarrow>
     (\<exists>i\<le>MAX_ORDER. \<exists>r. n \<le> bsize k i \<and> bsize k i dvd r \<and>
        {r..<r + bsize k i} \<subseteq> {round_up k (unat st)..<round_down k (unat en)} - cover k A)"

lemma no_room:
  assumes F: "machine_inv k st en s F A" and i: "0 < i \<longrightarrow> bsize k (i - 1) < n"
    and none: "\<forall>l. i \<le> l \<and> l \<le> MAX_ORDER \<longrightarrow> F ! l = []"
  shows "\<not> room k st en A n"
proof
  assume "room k st en A n"
  then obtain l r where l: "l \<le> MAX_ORDER" "n \<le> bsize k l" "bsize k l dvd r"
    "{r..<r + bsize k l} \<subseteq> {round_up k (unat st)..<round_down k (unat en)} - cover k A"
    unfolding room_def by blast
  have "buddy_inv k s F A" using F by (simp add: machine_inv_def)
  moreover have "i \<le> l"
  proof (rule ccontr)
    assume "\<not> i \<le> l"
    then have "0 < i" "l \<le> i - 1" by simp_all
    then have "bsize k l < n" using i bsize_mono [of l "i - 1" k] by linarith
    then show False using l(2) by simp
  qed
  ultimately have "fst (alloc_block_order s l) = None" using none alloc_block_order_None(1) by auto
  then show False using machine_alloc_None_iff [OF F l(1)] l(3,4) by blast
qed

lemma handed_out_room:
  assumes F: "machine_inv k st en s F A" and F': "machine_inv k st en s' F' (insert (a, i) A)"
    and new: "(a, i) \<notin> A" and n: "n \<le> bsize k i"
  shows "room k st en A n"
proof -
  note t = machine_inv_tiling(1) [OF F']
  have "buddy_inv k s' F' (insert (a, i) A)" using F' by (simp add: machine_inv_def)
  then have "i \<le> MAX_ORDER" using buddy_inv_nonnull(2) [of k s' F' "insert (a, i) A" a i] by auto
  moreover have b: "bsize k i dvd unat a" "round_up k (unat st) \<le> unat a" "unat a + bsize k i \<le> round_down k (unat en)"
    using t by (auto simp: tiling_def block_ok_def)
  moreover have "extent k (a, i) \<inter> extent k y = {}" if "y \<in> A" for y
  proof -
    have "y \<noteq> (a, i)" using that new by blast
    then show ?thesis using t that unfolding tiling_def by blast
  qed
  then have "extent k (a, i) \<inter> cover k A = {}" unfolding cover_def by blast
  then have "{unat a..<unat a + bsize k i} \<subseteq> {round_up k (unat st)..<round_down k (unat en)} - cover k A"
    using b by (auto simp: extent_def)
  ultimately show ?thesis using n b(1) unfolding room_def by blast
qed

end
