(* ===== verification/Buddy_Properties.thy ===== *)
theory Buddy_Properties
  imports Buddy_Machine
begin

text \<open>
  The properties of the buddy allocator, stated over the states its clients can reach, each
  with a concrete run of the code as witness.
\<close>

section \<open>A concrete region\<close>

text \<open>Two 32-byte blocks at address 4096, in zeroed memory: the allocator carves one block of order 1.\<close>

definition demo_region :: bstate where
  "demo_region =
     (\<lparr>free_lists = [0, 4096, 0, 0, 0, 0, 0, 0, 0, 0, 0], base_addr = 4096, total_size = 64,
       min_block_size = 32\<rparr>, write_u32 (\<lambda>_. 0) 4096 0)"

lemma demo_region_ok: "region_ok 5 4096 4160"
  by (simp add: region_ok_def MAX_ORDER_def round_up_def round_down_def)

lemma demo_init_order: "init_order 32 64 4096 10 = 1"
  by code_simp

lemma demo_init: "buddy_init (buddy_new (2 ^ 5), \<lambda>_. 0) 4096 4160 = Some demo_region"
proof -
  have "replicate (MAX_ORDER + 1) (0::u32) = [0, 0, 0, 0, 0, 0, 0, 0, 0, 0, 0]"
    by (simp add: MAX_ORDER_def eval_nat_numeral)
  moreover have "init_order 32 64 4096 MAX_ORDER = 1"
    unfolding MAX_ORDER_def by (rule demo_init_order)
  moreover have "shl (32::u32) 1 = 64" by (simp add: shl_def push_bit_eq_mult)
  ultimately show ?thesis
    by (simp add: buddy_init_def buddy_new_def Let_def init_loop.simps add_to_free_list_def demo_region_def)
qed

lemma demo_reach: "buddy_reach 5 4096 4160 (demo_region, {})"
  using demo_region_ok demo_init by (rule reach_init)

definition demo_one :: bstate where
  "demo_one =
     (\<lparr>free_lists = [4128, 0, 0, 0, 0, 0, 0, 0, 0, 0, 0], base_addr = 4096, total_size = 64,
       min_block_size = 32\<rparr>, write_u32 (write_u32 (\<lambda>_. 0) 4096 0) 4128 0)"

definition demo_two :: bstate where
  "demo_two = (fst demo_one\<lparr>free_lists := replicate 11 0\<rparr>, snd demo_one)"

lemma demo_alloc: "alloc_block_order demo_region 0 = (Some 4096, demo_one)"
proof -
  have "[0 + 1..<MAX_ORDER + 1] = [1, 2, 3, 4, 5, 6, 7, 8, 9, 10]"
    by (simp add: MAX_ORDER_def upt_rec)
  moreover have "rev [0 + 1..<1 + 1] = [1::nat]" by simp
  moreover have "shl (32::u32) 0 = 32" by (simp add: shl_def)
  moreover have "read_u32 (write_u32 (\<lambda>_. 0) 4096 0) 4096 = 0" by (simp add: mem_simps)
  ultimately show ?thesis
    by (simp add: alloc_block_order_def demo_region_def remove_from_free_list_def split_block_def
        add_to_free_list_def Let_def demo_one_def del: upt_Suc)
qed

lemma demo_alloc2: "alloc_block_order demo_one 0 = (Some 4128, demo_two)"
proof -
  have "replicate 11 (0::u32) = [0, 0, 0, 0, 0, 0, 0, 0, 0, 0, 0]" by (simp add: numeral_eq_Suc)
  then show ?thesis
    by (simp add: alloc_block_order_def demo_one_def demo_two_def remove_from_free_list_def Let_def
        mem_simps)
qed

lemma demo_reach1: "buddy_reach 5 4096 4160 (demo_one, {(4096, 0)})"
  using reach_step [OF demo_reach step_alloc [OF demo_alloc]] by simp

lemma demo_reach2: "buddy_reach 5 4096 4160 (demo_two, {(4128, 0), (4096, 0)})"
  using reach_step [OF demo_reach1 step_alloc [OF demo_alloc2]] by simp

definition demo_layout :: layout where
  "demo_layout = \<lparr>lay_size = 16, lay_align = 8\<rparr>"

lemma demo_valid: "valid_layout 3 demo_layout"
  by (simp add: valid_layout_def demo_layout_def round_up_def)

lemma demo_buddy_alloc:
  "buddy_alloc demo_region demo_layout = Some (Some 4104, (fst demo_one, (snd demo_one)(4096 := 0)))"
proof -
  have "header_size demo_layout = 8" by (simp add: header_size_def demo_layout_def HEADER_SIZE_def)
  moreover have "order_for 32 24 0 = Some 0" by (simp add: order_for.simps)
  moreover have "min_block_size (fst demo_region) = 32" by (simp add: demo_region_def)
  ultimately show ?thesis
    by (simp add: buddy_alloc_def demo_alloc Let_def demo_layout_def case_prod_beta)
qed

section \<open>Properties\<close>

text \<open>
  \<^verbatim>\<open>BuddyAllocator::init\<close> returns on every region it can manage, whatever the memory held,
  and leaves free lists whose blocks partition the block-aligned part of the region exactly, with
  no block and its buddy both free.
\<close>

lemma buddy_init_partitions:
  assumes "region_ok k st en"
  shows "\<exists>s F. buddy_init (buddy_new (2 ^ k), m) st en = Some s \<and> buddy_inv k s F {} \<and>
    cover k (frees F) = {round_up k (unat st)..<round_down k (unat en)} \<and> coalesced k (frees F)"
  using buddy_init_establishes [OF assms, of m] by metis

lemma buddy_init_partitions_witness:
  "\<exists>s F. buddy_init (buddy_new (2 ^ 5), \<lambda>_. 0) 4096 4160 = Some s \<and> buddy_inv 5 s F {} \<and>
    cover 5 (frees F) = {4096..<4160} \<and> coalesced 5 (frees F)"
  using buddy_init_partitions [OF demo_region_ok, of "\<lambda>_. 0"] by (simp add: round_up_def round_down_def)

text \<open>
  C12. In every reachable state each block in use is aligned to its size and lies inside the region
  the allocator was given, and no two blocks in use overlap.
\<close>

theorem blocks_in_use_disjoint:
  assumes "buddy_reach k st en (s, A)"
  shows "(\<forall>x \<in> A. bsize k (snd x) dvd unat (fst x) \<and> extent k x \<subseteq> {unat st..<unat en}) \<and>
    (\<forall>x \<in> A. \<forall>y \<in> A. x \<noteq> y \<longrightarrow> extent k x \<inter> extent k y = {})"
proof -
  obtain F where "machine_inv k st en s F A" using reachable_inv [OF assms] by auto
  note t = machine_inv_tiling(1) [OF this]
  have "bsize k (snd x) dvd unat (fst x) \<and> extent k x \<subseteq> {unat st..<unat en}" if "x \<in> A" for x
  proof -
    have "block_ok k (round_up k (unat st)) (round_down k (unat en)) x"
      using t that unfolding tiling_def by blast
    then show ?thesis
      using round_up_ge [of "unat st" k] round_down_le [of k "unat en"] by (auto simp: extent_def block_ok_def)
  qed
  moreover have "extent k x \<inter> extent k y = {}" if "x \<in> A" "y \<in> A" "x \<noteq> y" for x y
    using t that unfolding tiling_def by blast
  ultimately show ?thesis by blast
qed

theorem blocks_in_use_disjoint_witness:
  "extent 5 (4096, 0) \<inter> extent 5 (4128, 0) = {} \<and> extent 5 (4096, 0) \<subseteq> {4096..<4160} \<and> bsize 5 0 dvd 4096"
  using blocks_in_use_disjoint [OF demo_reach2] by auto

text \<open>
  C11. Conservation: in every reachable state the free lists are well-formed and hold, without
  overlap, exactly the bytes of the region that are not in use; no run of alloc and free loses
  or duplicates memory.
\<close>

theorem free_space_conserved:
  assumes "buddy_reach k st en (s, A)"
  shows "\<exists>F. buddy_inv k s F A \<and>
    cover k (frees F) = {round_up k (unat st)..<round_down k (unat en)} - cover k A"
proof -
  obtain F where F: "machine_inv k st en s F A" using reachable_inv [OF assms] by auto
  then have "buddy_inv k s F A" by (simp add: machine_inv_def)
  then show ?thesis using machine_inv_free_space [OF F] by blast
qed

theorem free_space_conserved_witness:
  "\<exists>F. buddy_inv 5 demo_one F {(4096, 0)} \<and> cover 5 (frees F) = {4096..<4160} - cover 5 {(4096, 0)}"
  using free_space_conserved [OF demo_reach1] by (simp add: round_up_def round_down_def)

text \<open>
  C1. \<^verbatim>\<open>alloc_block_order\<close> is complete: in a reachable state it fails exactly when the region has
  no aligned run of unused memory of the requested size.  Splitting and merging never fragment
  the free space beyond what the blocks in use force.
\<close>

theorem alloc_block_order_complete:
  assumes "buddy_reach k st en (s, A)" "i \<le> MAX_ORDER"
  shows "fst (alloc_block_order s i) = None \<longleftrightarrow>
    \<not> (\<exists>r. bsize k i dvd r \<and>
      {r..<r + bsize k i} \<subseteq> {round_up k (unat st)..<round_down k (unat en)} - cover k A)"
proof -
  obtain F where "machine_inv k st en s F A" using reachable_inv [OF assms(1)] by auto
  then show ?thesis using assms(2) by (rule machine_alloc_None_iff)
qed

theorem alloc_block_order_complete_witness:
  "fst (alloc_block_order demo_one 1) = None \<longleftrightarrow>
    \<not> (\<exists>r. bsize 5 1 dvd r \<and> {r..<r + bsize 5 1} \<subseteq> {4096..<4160} - cover 5 {(4096, 0)})"
  using alloc_block_order_complete [OF demo_reach1, of 1]
  by (simp add: round_up_def round_down_def MAX_ORDER_def)

text \<open>
  C7. Giving back a block in use always returns, keeps every byte of the other blocks in use,
  and leads to a reachable state in which the block is no longer in use.
\<close>

theorem free_block_returns:
  assumes "buddy_reach k st en (s, A)" "(a, i) \<in> A"
  shows "\<exists>s'. free_block s a i = Some s' \<and> buddy_reach k st en (s', A - {(a, i)}) \<and>
    (\<forall>y\<in>A - {(a, i)}. \<forall>c. unat c \<in> extent k y \<longrightarrow> snd s' c = snd s c)"
proof -
  obtain F where "machine_inv k st en s F A" using reachable_inv [OF assms(1)] by auto
  then have "buddy_inv k s F A" by (simp add: machine_inv_def)
  then obtain s' where s': "free_block s a i = Some s'" "preserves k (A - {(a, i)}) s s'"
    using free_block_inv assms(2) by blast
  then have "buddy_reach k st en (s', A - {(a, i)})"
    using reach_step [OF assms(1) step_free] assms(2) by blast
  with s' show ?thesis by (auto simp: preserves_def)
qed

theorem free_block_returns_witness:
  "\<exists>s'. free_block demo_two 4128 0 = Some s' \<and> buddy_reach 5 4096 4160 (s', {(4096, 0)}) \<and>
    (\<forall>c. unat c \<in> extent 5 (4096, 0) \<longrightarrow> snd s' c = snd demo_two c)"
  using free_block_returns [OF demo_reach2, of 4128 0] by (simp add: insert_Diff_if)

text \<open>
  C13. \<^verbatim>\<open>alloc\<close> followed by \<^verbatim>\<open>free\<close> for an alignment of at most 8: the pointer is aligned and its
  whole user area lies in a block that was not in use; whatever the client writes to its user area
  in between (\<open>m'\<close> differs from the memory only there), \<^verbatim>\<open>free\<close> finds the header again and gives the
  block back.
\<close>

theorem buddy_alloc_free_roundtrip:
  assumes "buddy_reach k st en (s, A)" "valid_layout j lay" "j \<le> 3" "lay_size lay \<noteq> 0"
    and "buddy_alloc s lay = Some (Some p, s')"
    and w: "\<And>c. m' c \<noteq> snd s' c \<Longrightarrow> unat c \<in> {unat p..<unat p + unat (lay_size lay)}"
  shows "\<exists>a i t F. (a, i) \<notin> A \<and> handed_out k lay p (a, i) \<and>
    buddy_free (fst s', m') p = Some t \<and> buddy_inv k t F A \<and>
    cover k (frees F) = {round_up k (unat st)..<round_down k (unat en)} - cover k A"
proof -
  obtain F where F: "machine_inv k st en s F A" using reachable_inv [OF assms(1)] by auto
  then have inv: "buddy_inv k s F A" by (simp add: machine_inv_def)
  from buddy_alloc_Some [OF inv assms(2,4,5)]
  obtain a i F' where p: "p = a + header_size lay" "handed_out k lay p (a, i)" "snd s' a = of_nat i"
    and F': "buddy_inv k s' F' (insert (a, i) A)" "(a, i) \<notin> A"
      "cover k (frees F' \<union> insert (a, i) A) = cover k (frees F \<union> A)" .
  have hs: "unat (header_size lay) = 8" using unat_header_size [OF assms(2)] assms(3) by (simp add: max_def)
  then have "header_size lay = 8" by (simp add: word_unat_eq_iff)
  then have p8: "p = a + 8" using p(1) by simp
  have up: "unat p = unat a + 8" using p(2) hs by (auto simp: handed_out_def)
  then have wa: "m' a = snd s' a" using w [of a] by auto
  have inv': "buddy_inv k (fst s', m') F' (insert (a, i) A)"
  proof (rule buddy_inv_client_writes [of _ _ "snd s'" _ _ "(a, i)"])
    show "unat x \<in> extent k (a, i)" if "m' x \<noteq> snd s' x" for x
      using w [OF that] p(2) up by (auto simp: handed_out_def extent_def)
  qed (use F'(1) in simp_all)
  have hdr: "snd (fst s', m') a = of_nat i" using wa p(3) by simp
  obtain t F2 where t: "buddy_free (fst s', m') (a + 8) = Some t"
    and F2: "buddy_inv k t F2 (insert (a, i) A - {(a, i)})"
    and cv: "cover k (frees F2 \<union> (insert (a, i) A - {(a, i)})) = cover k (frees F' \<union> insert (a, i) A)"
    by (rule buddy_free_inv [OF inv' insertI1 hdr])
  have A: "insert (a, i) A - {(a, i)} = A" using F'(2) by auto
  have "cover k (frees F2) = cover k (frees F2 \<union> A) - cover k A"
    by (rule free_cover [OF F2 [unfolded A]])
  also have "\<dots> = {round_up k (unat st)..<round_down k (unat en)} - cover k A"
    using cv F'(3) F unfolding A by (simp add: machine_inv_def)
  finally show ?thesis using F'(2) p(2) t p8 F2 unfolding A by blast
qed

text \<open>The client fills its 16 bytes.\<close>

definition demo_filled :: memory where
  "demo_filled = (\<lambda>c. if 4104 \<le> c \<and> c < 4120 then 0xFF else snd (fst demo_one, (snd demo_one)(4096 := 0)) c)"

theorem buddy_alloc_free_roundtrip_witness:
  "\<exists>a i t F. (a, i) \<notin> {} \<and> handed_out 5 demo_layout 4104 (a, i) \<and>
    buddy_free (fst demo_one, demo_filled) 4104 = Some t \<and>
    buddy_inv 5 t F {} \<and> cover 5 (frees F) = {4096..<4160} - cover 5 {}"
proof -
  have "unat c \<in> {unat (4104 :: u32)..<unat (4104 :: u32) + unat (lay_size demo_layout)}"
    if "demo_filled c \<noteq> snd (fst demo_one, (snd demo_one)(4096 := 0)) c" for c
    using that by (auto simp: demo_filled_def demo_layout_def word_le_nat_alt word_less_nat_alt split: if_splits)
  from buddy_alloc_free_roundtrip [OF demo_reach demo_valid order_refl _ demo_buddy_alloc this]
  show ?thesis by (simp add: demo_layout_def round_up_def round_down_def)
qed

text \<open>
  When the pointer interface of the allocator answers: for a non-empty layout that Rust
  admits, \<^verbatim>\<open>alloc\<close> runs forever exactly when the size plus the header exceeds half the address
  space (the doubling search for an order has then shifted the block size out to 0);
  otherwise it answers, with a pointer or out of memory.
\<close>

lemma buddy_alloc_termination:
  assumes "buddy_reach k st en (s, A)" "valid_layout j lay" "lay_size lay \<noteq> 0"
  shows "buddy_alloc s lay = None \<longleftrightarrow> 2 ^ 31 < unat (lay_size lay) + 2 ^ max j 3"
proof -
  obtain F where "machine_inv k st en s F A" using reachable_inv [OF assms(1)] by auto
  then have inv: "buddy_inv k s F A" by (simp add: machine_inv_def)
  show ?thesis by (rule buddy_alloc_diverge_iff [OF inv assms(2,3)])
qed

lemma buddy_alloc_termination_witness:
  "buddy_alloc demo_region demo_layout \<noteq> None"
  using buddy_alloc_termination [OF demo_reach demo_valid] by (simp add: demo_layout_def)

text \<open>
  A free at an address that is not aligned to a block: no free block is its buddy, so it goes onto a
  free list as it is.
\<close>

lemma take_bit_dvd_unat: "take_bit k (x :: u32) = 0 \<longleftrightarrow> 2 ^ k dvd unat x"
proof -
  have "take_bit k x = 0 \<longleftrightarrow> unat (take_bit k x) = 0" by (simp only: unat_eq_0)
  also have "\<dots> \<longleftrightarrow> 2 ^ k dvd unat x" by (simp only: unsigned_take_bit_eq take_bit_eq_mod [of k "unat x"] dvd_eq_mod_eq_0)
  finally show ?thesis .
qed

lemma free_block_misaligned:
  assumes inv: "buddy_inv k s F A" and order: "order \<le> MAX_ORDER" and a: "\<not> bsize k 0 dvd unat a"
  shows "free_block s a order = Some (add_to_free_list s a order)"
proof -
  let ?b = "a XOR shl (min_block_size (fst s)) order"
  have "?b \<notin> set (F ! order)"
  proof
    assume "?b \<in> set (F ! order)"
    then have "(?b, order) \<in> frees F" using order buddy_inv_length [OF inv] by (simp add: frees_def)
    moreover obtain lo hi where "tiling k lo hi (frees F \<union> A)" using inv by (cases s) (auto simp: buddy_inv_def)
    ultimately have "block_ok k lo hi (?b, order)" unfolding tiling_def by blast
    then have "bsize k order dvd unat ?b" by (simp add: block_ok_def)
    then have d: "2 ^ k dvd unat ?b" by (auto simp: bsize_def power_add intro: dvd_mult_left)
    have k: "k < 32" "k + order < 32" using buddy_inv_order [OF inv] order by simp_all
    have "take_bit k ?b = 0" using d unfolding take_bit_dvd_unat .
    moreover have "take_bit k ?b = take_bit k a"
      unfolding buddy_inv_shl [OF inv order] by (rule bit_word_eqI) (auto simp: bit_simps)
    ultimately have "take_bit k a = 0" by simp
    then show False using a by (simp add: take_bit_dvd_unat bsize_def)
  qed
  then have "remove_specific_from_free_list s ?b order = Some (False, s)"
    by (rule remove_specific_miss [OF inv order])
  then have "free_block_loop s a order = Some (a, order, s)"
    by (subst free_block_loop.simps) (auto simp: Let_def)
  then show ?thesis using order by (simp add: free_block_def)
qed

text \<open>For a larger alignment the place where \<^verbatim>\<open>free\<close> looks is inside the block, and not aligned.\<close>

lemma wide_pointer:
  assumes "handed_out k lay p (a, i)" "valid_layout j lay" "3 < j" "4 \<le> k"
  shows "unat (p - 8) \<in> extent k (a, i) - {unat a}" "\<not> bsize k 0 dvd unat (p - 8)"
proof -
  have up: "unat p = unat a + 2 ^ j" using assms(1,3) unat_header_size [OF assms(2)] by (auto simp: handed_out_def max_def)
  have J: "(2::nat) ^ 4 \<le> 2 ^ j" using assms(3) by (intro power_increasing) auto
  have u: "unat (p - 8) = unat a + 2 ^ j - 8"
    using up J by (subst unat_sub_le) (simp_all add: word_le_nat_alt)
  have "unat p \<le> unat a + bsize k i" using assms(1) by (auto simp: handed_out_def)
  then show "unat (p - 8) \<in> extent k (a, i) - {unat a}"
    using u up J by (auto simp: extent_def)
  have "2 ^ j dvd unat p" using assms(1,2) by (auto simp: handed_out_def valid_layout_def unat_pow2)
  then have "(2::nat) ^ 4 dvd unat p" using assms(3) le_imp_power_dvd [of 4 j "2::nat"] by (auto intro: dvd_trans)
  then obtain q where q: "unat p = 16 * q" by auto
  moreover have "unat (p - 8) = unat p - 8" using u up J by simp
  moreover have "0 < q" using q up by (cases q) simp_all
  ultimately have "\<not> 16 dvd unat (p - 8)" by presburger
  moreover have "(16::nat) dvd bsize k 0" using le_imp_power_dvd [OF assms(4), of "2::nat"] by (simp add: bsize_def)
  ultimately show "\<not> bsize k 0 dvd unat (p - 8)" using dvd_trans by blast
qed

text \<open>
  C14. \<^verbatim>\<open>free\<close> reads the header 8 bytes below the pointer; \<^verbatim>\<open>alloc\<close> wrote it at the start of the
  block, a whole alignment below it.  For alignments up to 8 the two agree, and \<^verbatim>\<open>free\<close> gives back
  the block that \<^verbatim>\<open>alloc\<close> took.  For a larger alignment \<^verbatim>\<open>free\<close> takes a byte of padding for the
  order: when that byte is an order, \<^verbatim>\<open>free\<close> puts an address inside the block, not aligned to any
  block, at the head of a free list, and otherwise it does nothing, so the block is lost.
\<close>

theorem buddy_free_header_iff:
  assumes "buddy_reach k st en (s, A)" "4 \<le> k" "valid_layout j lay" "lay_size lay \<noteq> 0"
    and "buddy_alloc s lay = Some (Some p, s')"
  shows "\<exists>a i. (a, i) \<notin> A \<and> handed_out k lay p (a, i) \<and>
    (if j \<le> 3 then buddy_free s' p = free_block s' a i
     else unat (p - 8) \<in> extent k (a, i) - {unat a} \<and> \<not> bsize k 0 dvd unat (p - 8) \<and>
       (\<exists>t. buddy_free s' p = Some t \<and>
          (if unat (snd s' (p - 8)) \<le> MAX_ORDER then free_lists (fst t) ! unat (snd s' (p - 8)) = p - 8 else t = s')))"
proof -
  obtain F where "machine_inv k st en s F A" using reachable_inv [OF assms(1)] by auto
  then have inv: "buddy_inv k s F A" by (simp add: machine_inv_def)
  from buddy_alloc_Some [OF inv assms(3-5)]
  obtain a i F' where p: "p = a + header_size lay" "handed_out k lay p (a, i)" "snd s' a = of_nat i"
    and F': "buddy_inv k s' F' (insert (a, i) A)" "(a, i) \<notin> A" .
  have hs: "unat (header_size lay) = 2 ^ max j 3" using assms(3) by (rule unat_header_size)
  have up: "unat p = unat a + 2 ^ max j 3" using p(2) hs by (auto simp: handed_out_def)
  have "p \<noteq> 0" using up by auto
  then have free: "buddy_free s' p = free_block s' (p - 8) (unat (snd s' (p - 8)))"
    by (simp add: buddy_free_def HEADER_SIZE_def Let_def)
  have "if j \<le> 3 then buddy_free s' p = free_block s' a i
     else unat (p - 8) \<in> extent k (a, i) - {unat a} \<and> \<not> bsize k 0 dvd unat (p - 8) \<and>
       (\<exists>t. buddy_free s' p = Some t \<and>
          (if unat (snd s' (p - 8)) \<le> MAX_ORDER then free_lists (fst t) ! unat (snd s' (p - 8)) = p - 8 else t = s'))"
  proof (cases "j \<le> 3")
    case True
    then have "header_size lay = 8" using hs by (simp add: word_unat_eq_iff max_def)
    moreover have "i \<le> MAX_ORDER" using buddy_inv_nonnull(2) [OF F'(1), of a i] by auto
    ultimately show ?thesis using True free p(1,3) by (simp add: unat_of_nat MAX_ORDER_def)
  next
    case False
    then have mem: "unat (p - 8) \<in> extent k (a, i) - {unat a}" and mis: "\<not> bsize k 0 dvd unat (p - 8)"
      using wide_pointer [OF p(2) assms(3) _ assms(2)] by auto
    show ?thesis
    proof (cases "unat (snd s' (p - 8)) \<le> MAX_ORDER")
      case True
      moreover have "length (free_lists (fst s')) = MAX_ORDER + 1" using F'(1) by (cases s') (simp add: buddy_inv_def)
      ultimately show ?thesis using False mem mis free free_block_misaligned [OF F'(1) True mis]
        by (auto simp: add_to_free_list_def split: prod.splits)
    next
      case over: False
      then show ?thesis using False mem mis free by (simp add: free_block_def)
    qed
  qed
  then show ?thesis using F'(2) p(2) by blast
qed

text \<open>16 bytes aligned to 16 in the same region: the pointer is 4112, and \<^verbatim>\<open>free\<close> lists 4104.\<close>

definition wide_layout :: layout where
  "wide_layout = \<lparr>lay_size = 16, lay_align = 16\<rparr>"

lemma wide_buddy_alloc:
  "buddy_alloc demo_region wide_layout = Some (Some 4112, (fst demo_one, (snd demo_one)(4096 := 0)))"
proof -
  have "header_size wide_layout = 16" by (simp add: header_size_def wide_layout_def HEADER_SIZE_def)
  moreover have "order_for 32 32 0 = Some 0" by (simp add: order_for.simps)
  moreover have "min_block_size (fst demo_region) = 32" by (simp add: demo_region_def)
  ultimately show ?thesis
    by (simp add: buddy_alloc_def demo_alloc Let_def wide_layout_def case_prod_beta)
qed

theorem buddy_free_header_iff_witness:
  "\<exists>t. buddy_free (fst demo_one, (snd demo_one)(4096 := 0)) 4112 = Some t \<and> free_lists (fst t) ! 0 = 4104"
proof -
  have "valid_layout 4 wide_layout" by (simp add: valid_layout_def wide_layout_def round_up_def)
  moreover have "((snd demo_one)(4096 := 0)) 4104 = 0" by (simp add: demo_one_def write_u32_def)
  ultimately show ?thesis
    using buddy_free_header_iff [OF demo_reach _ _ _ wide_buddy_alloc, of 4] by (auto simp: wide_layout_def)
qed

end
