(* ===== verification/Page_Allocator.thy ===== *)
theory Page_Allocator
  imports Buddy_Machine
begin

text \<open>
  The page allocator (\<^verbatim>\<open>kernel/src/mm/page_allocator.rs\<close>), the owned frames it hands out
  (\<^verbatim>\<open>kernel/src/mm/page_table.rs\<close>) and the process stacks built on them
  (\<^verbatim>\<open>kernel/src/process/stack.rs\<close>).  The \<^verbatim>\<open>OnceCell<Mutex<BuddyAllocator>>\<close> is an optional
  allocator next to the memory; dropping an owned frame is an explicit call.
\<close>

section \<open>The allocator\<close>

definition PAGE_SIZE :: u32 where
  "PAGE_SIZE = 4096"

type_synonym pstate = "buddy_allocator option \<times> memory"

definition page_allocator_new :: "buddy_allocator option" where
  "page_allocator_new = None"

definition page_allocator_init :: "pstate \<Rightarrow> u32 \<Rightarrow> u32 \<Rightarrow> pstate call" where
  "page_allocator_init s start end' =
     (case s of (inner, m) \<Rightarrow>
        case buddy_init (buddy_new PAGE_SIZE, m) start end' of
          None \<Rightarrow> Diverge
        | Some (buddy, m') \<Rightarrow> (if inner = None then Ok (Some buddy, m') else Panic))"

text \<open>\<^verbatim>\<open>with_page_allocator\<close>: the closure runs on the allocator and the memory.\<close>

definition with_page_allocator :: "pstate \<Rightarrow> (bstate \<Rightarrow> ('r \<times> bstate) call) \<Rightarrow> ('r \<times> pstate) call" where
  "with_page_allocator s f =
     (case s of
        (None, m) \<Rightarrow> Panic
      | (Some b, m) \<Rightarrow> obind (f (b, m)) (\<lambda>(r, b', m'). Ok (r, Some b', m')))"

section \<open>Owned frames\<close>

datatype page = Page (page_addr: u32)
datatype page_block = PageBlock (pb_order: nat) (pb_addr: u32)
datatype l1_table = L1Table (l1_base: u32)
datatype l2_table = L2Table (l2_base: u32)

text \<open>The constructors zero the frame, then check the address: \<^verbatim>\<open>NonNull::new(addr).unwrap()\<close>.\<close>

definition zeroed :: "u32 \<Rightarrow> (u32 \<Rightarrow> 'f) \<Rightarrow> u32 \<Rightarrow> memory \<Rightarrow> ('f \<times> memory) call" where
  "zeroed n mk addr m =
     (let m' = write_bytes m addr 0 n in if addr = 0 then Panic else Ok (mk addr, m'))"

definition page_new :: "u32 \<Rightarrow> memory \<Rightarrow> (page \<times> memory) call" where
  "page_new = zeroed PAGE_SIZE Page"

definition page_block_new :: "nat \<Rightarrow> u32 \<Rightarrow> memory \<Rightarrow> (page_block \<times> memory) call" where
  "page_block_new order = zeroed (shl PAGE_SIZE order) (PageBlock order)"

definition l1_table_new :: "u32 \<Rightarrow> memory \<Rightarrow> (l1_table \<times> memory) call" where
  "l1_table_new = zeroed (shl PAGE_SIZE 1) L1Table"

definition l2_table_new :: "u32 \<Rightarrow> memory \<Rightarrow> (l2_table \<times> memory) call" where
  "l2_table_new = zeroed PAGE_SIZE L2Table"

text \<open>\<^verbatim>\<open>unsafe { alloc }.map(F::new)\<close>: the allocation and the constructor under the lock.\<close>

definition alloc_with ::
  "(bstate \<Rightarrow> u32 option \<times> bstate) \<Rightarrow> (u32 \<Rightarrow> memory \<Rightarrow> ('f \<times> memory) call) \<Rightarrow> pstate \<Rightarrow>
   ('f option \<times> pstate) call" where
  "alloc_with get new s =
     with_page_allocator s (\<lambda>t.
       case get t of
         (None, t') \<Rightarrow> Ok (None, t')
       | (Some addr, (b, m)) \<Rightarrow> obind (new addr m) (\<lambda>(f, m'). Ok (Some f, (b, m'))))"

definition page_alloc :: "pstate \<Rightarrow> (page option \<times> pstate) call" where
  "page_alloc = alloc_with alloc_block page_new"

definition page_alloc_block :: "nat \<Rightarrow> pstate \<Rightarrow> (page_block option \<times> pstate) call" where
  "page_alloc_block order = alloc_with (\<lambda>t. alloc_block_order t order) (page_block_new order)"

definition alloc_l1_table :: "pstate \<Rightarrow> (l1_table option \<times> pstate) call" where
  "alloc_l1_table = alloc_with (\<lambda>t. alloc_block_order t 2) l1_table_new"

definition alloc_l2_table :: "pstate \<Rightarrow> (l2_table option \<times> pstate) call" where
  "alloc_l2_table = alloc_with alloc_block l2_table_new"

definition page_free_block :: "pstate \<Rightarrow> u32 \<Rightarrow> nat \<Rightarrow> pstate call" where
  "page_free_block s addr order =
     (case s of
        (None, m) \<Rightarrow> Ok s
      | (Some b, m) \<Rightarrow>
          obind (of_loop (free_block (b, m) addr order)) (\<lambda>(b', m'). Ok (Some b', m')))"

text \<open>The destructors.\<close>

definition page_drop :: "page \<Rightarrow> pstate \<Rightarrow> pstate call" where
  "page_drop f s = page_free_block s (page_addr f) 0"

definition page_block_drop :: "page_block \<Rightarrow> pstate \<Rightarrow> pstate call" where
  "page_block_drop f s = page_free_block s (pb_addr f) (pb_order f)"

definition l1_table_drop :: "l1_table \<Rightarrow> pstate \<Rightarrow> pstate call" where
  "l1_table_drop f s = page_free_block s (l1_base f) 2"

definition l2_table_drop :: "l2_table \<Rightarrow> pstate \<Rightarrow> pstate call" where
  "l2_table_drop f s = page_free_block s (l2_base f) 0"

section \<open>Page-table entries\<close>

definition l1_set_entry :: "l1_table \<Rightarrow> u32 \<Rightarrow> u32 \<Rightarrow> memory \<Rightarrow> memory call" where
  "l1_set_entry t index value m =
     (if index < 4096 then Ok (write_u32 m (l1_base t + 4 * index) value) else Panic)"

definition l1_get_entry :: "l1_table \<Rightarrow> u32 \<Rightarrow> memory \<Rightarrow> u32 call" where
  "l1_get_entry t index m = (if index < 4096 then Ok (read_u32 m (l1_base t + 4 * index)) else Panic)"

definition l2_set_entry :: "l2_table \<Rightarrow> u32 \<Rightarrow> u32 \<Rightarrow> memory \<Rightarrow> memory call" where
  "l2_set_entry t index value m =
     (if index < 256 then Ok (write_u32 m (l2_base t + 4 * index) value) else Panic)"

definition l2_get_entry :: "l2_table \<Rightarrow> u32 \<Rightarrow> memory \<Rightarrow> u32 call" where
  "l2_get_entry t index m = (if index < 256 then Ok (read_u32 m (l2_base t + 4 * index)) else Panic)"

section \<open>Process stacks\<close>

definition KERNEL_STACK_ORDER :: nat where
  "KERNEL_STACK_ORDER = 2"

definition USER_STACK_ORDER :: nat where
  "USER_STACK_ORDER = 2"

datatype stack_error = OutOfMemory

record kernel_stack =
  ks_block :: page_block

record user_stack =
  us_block :: page_block

text \<open>A stack constructor keeps the frame or reports that there is none; the state is returned in both cases.\<close>

definition stack_of ::
  "(page_block option \<times> pstate) call \<Rightarrow> (page_block \<Rightarrow> 'k) \<Rightarrow> (('k, stack_error) outcome \<times> pstate) call" where
  "stack_of r mk =
     obind r (\<lambda>(block, s'). Ok (obind (ok_or OutOfMemory block) (\<lambda>b. Ok (mk b)), s'))"

definition kernel_stack_new :: "pstate \<Rightarrow> ((kernel_stack, stack_error) outcome \<times> pstate) call" where
  "kernel_stack_new s = stack_of (page_alloc_block KERNEL_STACK_ORDER s) (\<lambda>b. \<lparr>ks_block = b\<rparr>)"

definition kernel_stack_top :: "kernel_stack \<Rightarrow> u32" where
  "kernel_stack_top k = pb_addr (ks_block k) + shl PAGE_SIZE KERNEL_STACK_ORDER"

definition kernel_stack_bottom :: "kernel_stack \<Rightarrow> u32" where
  "kernel_stack_bottom k = pb_addr (ks_block k)"

definition kernel_stack_initial_sp :: "kernel_stack \<Rightarrow> u32" where
  "kernel_stack_initial_sp k = kernel_stack_top k - 16"

definition kernel_stack_size :: "kernel_stack \<Rightarrow> u32" where
  "kernel_stack_size k = shl PAGE_SIZE KERNEL_STACK_ORDER"

definition user_stack_new :: "pstate \<Rightarrow> ((user_stack, stack_error) outcome \<times> pstate) call" where
  "user_stack_new s = stack_of (page_alloc_block USER_STACK_ORDER s) (\<lambda>b. \<lparr>us_block = b\<rparr>)"

definition user_stack_top :: "user_stack \<Rightarrow> u32" where
  "user_stack_top k = pb_addr (us_block k) + shl PAGE_SIZE USER_STACK_ORDER"

definition user_stack_bottom :: "user_stack \<Rightarrow> u32" where
  "user_stack_bottom k = pb_addr (us_block k)"

definition user_stack_initial_sp :: "user_stack \<Rightarrow> u32" where
  "user_stack_initial_sp k = user_stack_top k - 16"

definition user_stack_size :: "user_stack \<Rightarrow> u32" where
  "user_stack_size k = shl PAGE_SIZE USER_STACK_ORDER"

end
