(* ===== verification/Page_Correct.thy ===== *)
theory Page_Correct
  imports Page_Allocator
begin

text \<open>
  Correctness of the page allocator, the owned frames, the page tables and the stacks: the
  invariant of the initialised allocator, indexed by the set of frames that are owned.
\<close>

section \<open>The invariant\<close>

definition page_inv :: "u32 \<Rightarrow> u32 \<Rightarrow> pstate \<Rightarrow> block set \<Rightarrow> bool" where
  "page_inv st en s A \<longleftrightarrow> (\<exists>b m F. s = (Some b, m) \<and> machine_inv 12 st en (b, m) F A)"

text \<open>The bytes of the frames in \<open>A\<close> are the same in both states.\<close>

definition frames_kept :: "block set \<Rightarrow> pstate \<Rightarrow> pstate \<Rightarrow> bool" where
  "frames_kept A s s' \<longleftrightarrow> (\<forall>y\<in>A. \<forall>c. unat c \<in> extent 12 y \<longrightarrow> snd s' c = snd s c)"

text \<open>The region still has an unused aligned run of \<open>2 ^ i\<close> pages.\<close>

definition has_room :: "u32 \<Rightarrow> u32 \<Rightarrow> block set \<Rightarrow> nat \<Rightarrow> bool" where
  "has_room st en A i \<longleftrightarrow> (\<exists>r. bsize 12 i dvd r \<and>
     {r..<r + bsize 12 i} \<subseteq> {round_up 12 (unat st)..<round_down 12 (unat en)} - cover 12 A)"

lemma write_bytes_in: "unat a \<le> unat c \<Longrightarrow> unat c < unat a + unat n \<Longrightarrow> write_bytes m a v n c = v"
  by (simp add: write_bytes_def word_less_nat_alt unat_sub_le word_le_nat_alt less_diff_conv2)

lemma write_bytes_out:
  assumes "unat a + unat n \<le> 2 ^ 32" "unat c < unat a \<or> unat a + unat n \<le> unat c"
  shows "write_bytes m a v n c = m c"
proof -
  have "unat (c - a) = (if unat a \<le> unat c then unat c - unat a else unat c + 2 ^ 32 - unat a)"
    unfolding unat_sub_if_size [of c a] by (simp only: word_size) simp
  with assms show ?thesis
    by (auto simp: write_bytes_def word_less_nat_alt word_le_nat_alt split: if_splits)
qed

text \<open>Writes inside an owned frame keep the invariant.\<close>

lemma page_inv_client_write:
  assumes "page_inv st en (inner, m) A" "y \<in> A"
    and "\<And>c. m' c \<noteq> m c \<Longrightarrow> unat c \<in> extent 12 y"
  shows "page_inv st en (inner, m') A"
proof -
  obtain b F where b: "inner = Some b" "machine_inv 12 st en (b, m) F A"
    using assms(1) by (auto simp: page_inv_def)
  then have inv: "buddy_inv 12 (b, m) F A" by (simp add: machine_inv_def)
  have "buddy_inv 12 (b, m') F A"
    using buddy_inv_client_writes [OF inv assms(2,3)] .
  then show ?thesis using b by (auto simp: page_inv_def machine_inv_def)
qed

section \<open>Allocation of frames\<close>

lemma page_inv_block_ok:
  assumes "page_inv st en s A" "(a, i) \<in> A"
  shows "a \<noteq> 0" "i \<le> MAX_ORDER" "unat a + bsize 12 i < 2 ^ 32" "bsize 12 i dvd unat a"
    and "extent 12 (a, i) \<subseteq> {unat st..<unat en}"
proof -
  obtain b m F where F: "machine_inv 12 st en (b, m) F A" using assms(1) by (auto simp: page_inv_def)
  then have inv: "buddy_inv 12 (b, m) F A" by (simp add: machine_inv_def)
  show "a \<noteq> 0" "i \<le> MAX_ORDER" using buddy_inv_nonnull [OF inv] assms(2) by auto
  have ok: "block_ok 12 (round_up 12 (unat st)) (round_down 12 (unat en)) (a, i)"
    using machine_inv_tiling(1) [OF F] assms(2) by (auto simp: tiling_def)
  then show "bsize 12 i dvd unat a" by (simp add: block_ok_def)
  show "unat a + bsize 12 i < 2 ^ 32"
    using ok F inv by (auto simp: block_ok_def machine_inv_def buddy_inv_def)
  show "extent 12 (a, i) \<subseteq> {unat st..<unat en}"
    using ok round_up_ge [of "unat st" 12] round_down_le [of 12 "unat en"]
    by (auto simp: extent_def block_ok_def)
qed

lemma unat_page_shl: "i \<le> MAX_ORDER \<Longrightarrow> unat (shl PAGE_SIZE i) = bsize 12 i"
proof -
  assume "i \<le> MAX_ORDER"
  then have i: "12 + i < 32" by (simp add: MAX_ORDER_def)
  have "shl ((2::u32) ^ 12) i = 2 ^ (12 + i)" using i by (intro shl_pow2) simp
  then show ?thesis using i by (simp add: PAGE_SIZE_def bsize_def unat_pow2)
qed

text \<open>
  The one lemma behind every \<^verbatim>\<open>alloc\<close> of a frame: either the region has no room and nothing
  changes, or a fresh frame is handed out with its first \<open>n\<close> bytes zeroed, the rest of it as it was
  and every owned frame untouched.  It neither panics nor runs forever.
\<close>

lemma alloc_with_cases:
  assumes inv: "page_inv st en s A" and i: "i \<le> MAX_ORDER" and n: "unat n \<le> bsize 12 i"
  obtains (full) "alloc_with (\<lambda>t. alloc_block_order t i) (zeroed n mk) s = Ok (None, s)" "\<not> has_room st en A i"
  | (frame) a s' where "alloc_with (\<lambda>t. alloc_block_order t i) (zeroed n mk) s = Ok (Some (mk a), s')"
      "has_room st en A i" "(a, i) \<notin> A" "page_inv st en s' (insert (a, i) A)" "frames_kept A s s'"
      "\<And>c. unat a \<le> unat c \<Longrightarrow> unat c < unat a + unat n \<Longrightarrow> snd s' c = 0"
      "\<And>c. unat a + unat n \<le> unat c \<Longrightarrow> unat c < unat a + bsize 12 i \<Longrightarrow> snd s' c = snd s c"
proof -
  obtain b m F where s: "s = (Some b, m)" and F: "machine_inv 12 st en (b, m) F A"
    using inv by (auto simp: page_inv_def)
  then have bi: "buddy_inv 12 (b, m) F A" by (simp add: machine_inv_def)
  note room = machine_alloc_None_iff [OF F i, folded has_room_def]
  show thesis
  proof -
    obtain r t where Pair: "alloc_block_order (b, m) i = (r, t)" by (cases "alloc_block_order (b, m) i")
    show thesis
    proof (cases r)
      case None
      then have "t = (b, m)" using alloc_block_order_None(2) [OF bi, of i] Pair by simp
      then show thesis using None Pair room by (intro full) (simp_all add: s alloc_with_def with_page_allocator_def)
    next
      case (Some a)
      obtain b1 m1 where t: "t = (b1, m1)" by (cases t)
      have step: "buddy_step 12 ((b, m), A) ((b1, m1), insert (a, i) A)"
        using Pair Some t by (intro step_alloc) simp
      then have p1: "page_inv st en (Some b1, m1) (insert (a, i) A)"
        using machine_inv_step [OF F] by (auto simp: page_inv_def)
      obtain nA: "(a, i) \<notin> A" and pr: "preserves 12 A (b, m) (b1, m1)" and self: "preserves 12 {(a, i)} (b, m) (b1, m1)"
        using alloc_block_order_inv [OF bi, of i a "(b1, m1)"] Pair Some t by metis
      note ok = page_inv_block_ok [OF p1 insertI1]
      let ?m = "write_bytes m1 a 0 n"
      have diff: "unat c \<in> extent 12 (a, i)" if "?m c \<noteq> m1 c" for c
        using that write_bytes_out [of a n c m1 0] ok(3) n by (force simp: extent_def not_less)
      have p2: "page_inv st en (Some b1, ?m) (insert (a, i) A)"
        by (rule page_inv_client_write [OF p1 insertI1 diff])
      have "frames_kept A s (Some b1, ?m)"
        unfolding frames_kept_def
      proof (intro ballI allI impI)
        fix y and c :: u32 assume y: "y \<in> A" "unat c \<in> extent 12 y"
        obtain F1 where "machine_inv 12 st en (b1, m1) F1 (insert (a, i) A)" using p1 by (auto simp: page_inv_def)
        note t1 = machine_inv_tiling(1) [OF this]
        have "(a, i) \<noteq> y" using y nA by auto
        then have "extent 12 (a, i) \<inter> extent 12 y = {}" using t1 y(1) by (simp add: tiling_def)
        then have "?m c = m1 c" using y(2) diff by blast
        then show "snd (Some b1, ?m) c = snd s c" using pr y by (simp add: preserves_def s)
      qed
      moreover have "snd (Some b1, ?m) c = snd s c" if "unat a + unat n \<le> unat c" "unat c < unat a + bsize 12 i" for c
      proof -
        have "?m c = m1 c" using write_bytes_out [of a n c m1 0] ok(3) n that by simp
        moreover have "m1 c = m c" using self that by (auto simp: preserves_def extent_def)
        ultimately show ?thesis by (simp add: s)
      qed
      ultimately show thesis
        using Pair Some t nA p2 ok(1) room write_bytes_in
        by (intro frame [of a "(Some b1, ?m)"])
          (simp_all add: s alloc_with_def with_page_allocator_def zeroed_def)
    qed
  qed
qed

text \<open>Dropping an owned frame gives its block back.\<close>

lemma page_free_block_inv:
  assumes inv: "page_inv st en s A" and mem: "(a, i) \<in> A"
  obtains s' where "page_free_block s a i = Ok s'" "page_inv st en s' (A - {(a, i)})"
    "frames_kept (A - {(a, i)}) s s'"
proof -
  obtain b m F where s: "s = (Some b, m)" and F: "machine_inv 12 st en (b, m) F A"
    using inv by (auto simp: page_inv_def)
  then have bi: "buddy_inv 12 (b, m) F A" by (simp add: machine_inv_def)
  obtain t where t: "free_block (b, m) a i = Some t" "preserves 12 (A - {(a, i)}) (b, m) t"
    using free_block_inv [OF bi mem] by metis
  obtain b1 m1 where t1: "t = (b1, m1)" by (cases t)
  have "buddy_step 12 ((b, m), A) ((b1, m1), A - {(a, i)})"
    using mem t(1) t1 by (intro step_free) simp_all
  then have "page_inv st en (Some b1, m1) (A - {(a, i)})"
    using machine_inv_step [OF F] by (auto simp: page_inv_def)
  then show thesis
    using t t1 by (intro that [of "(Some b1, m1)"]) (simp_all add: s page_free_block_def frames_kept_def preserves_def)
qed

lemma page_inv_room:
  assumes "page_inv st en s A" "(a, i) \<in> A"
  shows "has_room st en (A - {(a, i)}) i"
proof -
  obtain b m F where F: "machine_inv 12 st en (b, m) F A" using assms(1) by (auto simp: page_inv_def)
  note t = machine_inv_tiling(1) [OF F]
  have "extent 12 (a, i) \<subseteq> {round_up 12 (unat st)..<round_down 12 (unat en)}"
    using F assms(2) by (fastforce simp: machine_inv_def cover_def)
  moreover have "extent 12 (a, i) \<inter> extent 12 y = {}" if "y \<in> A - {(a, i)}" for y
    using t that assms(2) unfolding tiling_def by blast
  then have "extent 12 (a, i) \<inter> cover 12 (A - {(a, i)}) = {}" unfolding cover_def by blast
  ultimately show ?thesis
    using page_inv_block_ok(4) [OF assms] unfolding has_room_def
    by (intro exI [of _ "unat a"]) (auto simp: extent_def)
qed

section \<open>Entries of a table\<close>

text \<open>Entry \<open>j\<close> of a table of \<open>n\<close> entries occupies its own four bytes of the table's frame.\<close>

lemma entry_span:
  assumes "unat base + 4 * n < 2 ^ 32" "unat j < n"
  shows "cells (base + 4 * j) \<subseteq> span (unat base + 4 * unat j) 4"
proof -
  have "unat (4 * j) = 4 * unat j"
    using assms by (subst unat_word_ariths) simp
  then have "unat (base + 4 * j) = unat base + 4 * unat j"
    using assms by (subst unat_add_small) simp_all
  then show ?thesis using cells_span [of 4 "base + 4 * j"] assms by simp
qed

lemma entry_cells_disjoint:
  assumes "unat base + 4 * n < 2 ^ 32" "unat j < n" "unat l < n" "j \<noteq> l"
  shows "cells (base + 4 * j) \<inter> cells (base + 4 * l) = {}"
proof -
  have "unat j \<noteq> unat l" using assms(4) by (simp add: word_unat_eq_iff)
  then have "unat base + 4 * unat j + 4 \<le> unat base + 4 * unat l \<or>
      unat base + 4 * unat l + 4 \<le> unat base + 4 * unat j" by linarith
  from span_disjoint [OF this] show ?thesis
    using entry_span [OF assms(1,2)] entry_span [OF assms(1,3)] by blast
qed

lemma entry_extent:
  assumes "unat base + 4 * n < 2 ^ 32" "unat j < n" "4 * n \<le> bsize 12 i" "x \<in> cells (base + 4 * j)"
  shows "unat x \<in> extent 12 (base, i)"
  using entry_span [OF assms(1,2)] assms(2-4) by (auto simp: span_def extent_def)

text \<open>A write to an entry of an owned table touches no other owned frame.\<close>

lemma entry_write_frames_kept:
  assumes "page_inv st en s A" "(base, i) \<in> A" "4 * n \<le> bsize 12 i" "unat j < n"
  shows "frames_kept (A - {(base, i)}) s (fst s, write_u32 (snd s) (base + 4 * j) v)"
  unfolding frames_kept_def
proof (intro ballI allI impI)
  fix y and c :: u32 assume y: "y \<in> A - {(base, i)}" "unat c \<in> extent 12 y"
  obtain b m F where "machine_inv 12 st en (b, m) F A" using assms(1) by (auto simp: page_inv_def)
  note t = machine_inv_tiling(1) [OF this]
  have "unat base + 4 * n < 2 ^ 32" using page_inv_block_ok(3) [OF assms(1,2)] assms(3) by simp
  note e = entry_extent [OF this assms(4,3)]
  have "extent 12 (base, i) \<inter> extent 12 y = {}" using t y(1) assms(2) unfolding tiling_def by blast
  then have "c \<notin> cells (base + 4 * j)" using e y(2) by blast
  then show "snd (fst s, write_u32 (snd s) (base + 4 * j) v) c = snd s c" by (simp add: write_u32_other)
qed

end
