(* ===== verification/Page_Properties.thy ===== *)
theory Page_Properties
  imports Page_Correct
begin

text \<open>
  The page allocator as a state machine over the frames its clients own, and its properties.
\<close>

section \<open>Reachable states\<close>

inductive page_step :: "pstate \<times> block set \<Rightarrow> pstate \<times> block set \<Rightarrow> bool" where
  get_page: "page_alloc s = Ok (Some (Page a), s') \<Longrightarrow> page_step (s, A) (s', insert (a, 0) A)"
| no_page: "page_alloc s = Ok (None, s') \<Longrightarrow> page_step (s, A) (s', A)"
| get_block: "page_alloc_block i s = Ok (Some (PageBlock i a), s') \<Longrightarrow> page_step (s, A) (s', insert (a, i) A)"
| no_block: "page_alloc_block i s = Ok (None, s') \<Longrightarrow> page_step (s, A) (s', A)"
| get_l1: "alloc_l1_table s = Ok (Some (L1Table a), s') \<Longrightarrow> page_step (s, A) (s', insert (a, 2) A)"
| no_l1: "alloc_l1_table s = Ok (None, s') \<Longrightarrow> page_step (s, A) (s', A)"
| get_l2: "alloc_l2_table s = Ok (Some (L2Table a), s') \<Longrightarrow> page_step (s, A) (s', insert (a, 0) A)"
| no_l2: "alloc_l2_table s = Ok (None, s') \<Longrightarrow> page_step (s, A) (s', A)"
| drop_frame: "(a, i) \<in> A \<Longrightarrow> page_free_block s a i = Ok s' \<Longrightarrow> page_step (s, A) (s', A - {(a, i)})"
| write_frame: "y \<in> A \<Longrightarrow> unat x \<in> extent 12 y \<Longrightarrow> page_step ((inner, m), A) ((inner, m(x := v)), A)"

inductive page_reach :: "u32 \<Rightarrow> u32 \<Rightarrow> pstate \<times> block set \<Rightarrow> bool" for st en where
  page_reach_init: "region_ok 12 st en \<Longrightarrow> page_allocator_init (None, m) st en = Ok s \<Longrightarrow>
    page_reach st en (s, {})"
| page_reach_step: "page_reach st en c \<Longrightarrow> page_step c c' \<Longrightarrow> page_reach st en c'"

lemma page_init_inv:
  assumes "region_ok 12 st en"
  obtains s where "page_allocator_init (None, m) st en = Ok s" "page_inv st en s {}"
proof -
  obtain t F where t: "buddy_init (buddy_new (2 ^ 12), m) st en = Some t" "buddy_inv 12 t F {}"
    "unat (base_addr (fst t)) = round_up 12 (unat st)"
    "unat (base_addr (fst t)) + unat (total_size (fst t)) = round_down 12 (unat en)"
    "cover 12 (frees F) = {round_up 12 (unat st)..<round_down 12 (unat en)}" "coalesced 12 (frees F)"
    using buddy_init_establishes [OF assms] by metis
  obtain b m' where t': "t = (b, m')" by (cases t)
  have "machine_inv 12 st en (b, m') F {}"
    using t unfolding t' by (simp add: machine_inv_def)
  then have "page_inv st en (Some b, m') {}" by (auto simp: page_inv_def)
  moreover have "page_allocator_init (None, m) st en = Ok (Some b, m')"
    using t(1) by (simp add: page_allocator_init_def PAGE_SIZE_def t')
  ultimately show thesis using that by blast
qed

text \<open>Every allocation function is the one pattern at its order and size.\<close>

lemma frame_alloc_unfold:
  "page_alloc s = alloc_with (\<lambda>t. alloc_block_order t 0) (zeroed PAGE_SIZE Page) s"
  "page_alloc_block i s = alloc_with (\<lambda>t. alloc_block_order t i) (zeroed (shl PAGE_SIZE i) (PageBlock i)) s"
  "alloc_l1_table s = alloc_with (\<lambda>t. alloc_block_order t 2) (zeroed (shl PAGE_SIZE 1) L1Table) s"
  "alloc_l2_table s = alloc_with (\<lambda>t. alloc_block_order t 0) (zeroed PAGE_SIZE L2Table) s"
  by (simp_all add: page_alloc_def page_alloc_block_def alloc_l1_table_def alloc_l2_table_def page_new_def
      page_block_new_def l1_table_new_def l2_table_new_def alloc_with_def alloc_block_def)

lemma frame_sizes:
  "unat PAGE_SIZE \<le> bsize 12 0" "unat (shl PAGE_SIZE 1) \<le> bsize 12 2"
  "i \<le> MAX_ORDER \<Longrightarrow> unat (shl PAGE_SIZE i) \<le> bsize 12 i"
proof -
  show "unat PAGE_SIZE \<le> bsize 12 0" by (simp add: PAGE_SIZE_def bsize_def)
  have "unat (shl PAGE_SIZE 1) = bsize 12 1" by (rule unat_page_shl) (simp add: MAX_ORDER_def)
  then show "unat (shl PAGE_SIZE 1) \<le> bsize 12 2" by (simp add: bsize_def)
  show "i \<le> MAX_ORDER \<Longrightarrow> unat (shl PAGE_SIZE i) \<le> bsize 12 i" by (simp add: unat_page_shl)
qed

lemma alloc_with_step:
  assumes "page_inv st en s A" "alloc_with (\<lambda>t. alloc_block_order t i) (zeroed n mk) s = Ok (r, s')"
    and "i \<le> MAX_ORDER \<Longrightarrow> unat n \<le> bsize 12 i"
  shows "r = None \<Longrightarrow> s' = s" and "r = Some f \<Longrightarrow> \<exists>a. f = mk a \<and> page_inv st en s' (insert (a, i) A)"
proof -
  have "r = None \<and> s' = s \<or> (\<exists>a. r = Some (mk a) \<and> page_inv st en s' (insert (a, i) A))"
  proof (cases "i \<le> MAX_ORDER")
    case True
    show ?thesis using alloc_with_cases [OF assms(1) True assms(3) [OF True], of mk] assms(2) by auto
  next
    case False
    then show ?thesis
      using assms by (auto simp: page_inv_def alloc_with_def with_page_allocator_def alloc_block_order_def)
  qed
  then show "r = None \<Longrightarrow> s' = s" "r = Some f \<Longrightarrow> \<exists>a. f = mk a \<and> page_inv st en s' (insert (a, i) A)"
    by auto
qed

lemma frame_step:
  assumes "page_inv st en s A" "alloc_with (\<lambda>t. alloc_block_order t i) (zeroed n mk) s = Ok (Some (mk a), s')"
    and "i \<le> MAX_ORDER \<Longrightarrow> unat n \<le> bsize 12 i" "inj mk"
  shows "page_inv st en s' (insert (a, i) A)"
  using alloc_with_step(2) [OF assms(1-3) refl] assms(4) by (auto dest: injD)

lemma no_frame_step:
  assumes "page_inv st en s A" "alloc_with (\<lambda>t. alloc_block_order t i) (zeroed n mk) s = Ok (None, s')"
    and "i \<le> MAX_ORDER \<Longrightarrow> unat n \<le> bsize 12 i"
  shows "page_inv st en s' A"
  using alloc_with_step(1) [OF assms refl] assms(1) by simp

lemma inj_frames: "inj Page" "inj (PageBlock i)" "inj L1Table" "inj L2Table"
  by (auto intro: injI)

lemma page_inv_step:
  assumes "page_inv st en s A" "page_step (s, A) (s', A')"
  shows "page_inv st en s' A'"
  using assms(2)
proof (cases rule: page_step.cases)
  case (drop_frame a i)
  then show ?thesis using page_free_block_inv [OF assms(1)] by (metis outcome.inject(1))
next
  case (write_frame y x inner m v)
  then have "page_inv st en (inner, m) A" using assms(1) by simp
  then show ?thesis
    using write_frame page_inv_client_write [of st en inner m A y "m(x := v)"] by (auto split: if_splits)
next
  case (get_page a)
  then show ?thesis using frame_step [OF assms(1) _ frame_sizes(1)] inj_frames unfolding frame_alloc_unfold by simp
next
  case (no_page)
  then show ?thesis using no_frame_step [OF assms(1) _ frame_sizes(1)] unfolding frame_alloc_unfold by simp
next
  case (get_block i a)
  then show ?thesis using frame_step [OF assms(1) _ frame_sizes(3) inj_frames(2)] unfolding frame_alloc_unfold by simp
next
  case (no_block i)
  then show ?thesis using no_frame_step [OF assms(1) _ frame_sizes(3)] unfolding frame_alloc_unfold by simp
next
  case (get_l1 a)
  then show ?thesis using frame_step [OF assms(1) _ frame_sizes(2)] inj_frames unfolding frame_alloc_unfold by simp
next
  case (no_l1)
  then show ?thesis using no_frame_step [OF assms(1) _ frame_sizes(2)] unfolding frame_alloc_unfold by simp
next
  case (get_l2 a)
  then show ?thesis using frame_step [OF assms(1) _ frame_sizes(1)] inj_frames unfolding frame_alloc_unfold by simp
next
  case (no_l2)
  then show ?thesis using no_frame_step [OF assms(1) _ frame_sizes(1)] unfolding frame_alloc_unfold by simp
qed

lemma page_reach_inv: "page_reach st en c \<Longrightarrow> page_inv st en (fst c) (snd c)"
proof (induction rule: page_reach.induct)
  case (page_reach_init m s)
  then show ?case using page_init_inv [OF page_reach_init(1), of m] by (metis fst_conv snd_conv outcome.inject(1))
next
  case (page_reach_step c c')
  then show ?case using page_inv_step by (metis prod.collapse)
qed

section \<open>A concrete machine\<close>

text \<open>Four pages at address 65536 in memory full of ones: one free block of order 2.\<close>

definition demo_free :: buddy_allocator where
  "demo_free = \<lparr>free_lists = [0, 0, 65536, 0, 0, 0, 0, 0, 0, 0, 0], base_addr = 65536,
     total_size = 16384, min_block_size = 4096\<rparr>"

definition demo_mem :: memory where
  "demo_mem = write_u32 (\<lambda>_. 1) 65536 0"

definition demo_pages :: pstate where
  "demo_pages = (Some demo_free, demo_mem)"

lemma demo_pages_ok: "region_ok 12 65536 81920"
  by (simp add: region_ok_def MAX_ORDER_def round_up_def round_down_def)

lemma demo_pages_init: "page_allocator_init (None, \<lambda>_. 1) 65536 81920 = Ok demo_pages"
proof -
  have "replicate (MAX_ORDER + 1) (0::u32) = [0, 0, 0, 0, 0, 0, 0, 0, 0, 0, 0]"
    by (simp add: MAX_ORDER_def eval_nat_numeral)
  moreover have "init_order 4096 16384 65536 MAX_ORDER = 2"
    unfolding MAX_ORDER_def by code_simp
  moreover have "shl (4096::u32) 2 = 16384" by (simp add: shl_def push_bit_eq_mult)
  ultimately show ?thesis
    by (simp add: page_allocator_init_def buddy_init_def buddy_new_def Let_def init_loop.simps PAGE_SIZE_def
        add_to_free_list_def demo_pages_def demo_free_def demo_mem_def)
qed

lemma demo_pages_reach: "page_reach 65536 81920 (demo_pages, {})"
  using demo_pages_ok demo_pages_init by (rule page_reach_init)

definition demo_empty :: buddy_allocator where
  "demo_empty = \<lparr>free_lists = [0, 0, 0, 0, 0, 0, 0, 0, 0, 0, 0], base_addr = 65536, total_size = 16384,
     min_block_size = 4096\<rparr>"

lemma demo_pages_take: "alloc_block_order (demo_free, demo_mem) 2 = (Some 65536, (demo_empty, demo_mem))"
  by (simp add: alloc_block_order_def demo_free_def demo_mem_def remove_from_free_list_def Let_def mem_simps
      MAX_ORDER_def demo_empty_def)

definition demo_l1 :: pstate where
  "demo_l1 = (Some demo_empty, write_bytes demo_mem 65536 0 8192)"

lemma demo_alloc_l1: "alloc_l1_table demo_pages = Ok (Some (L1Table 65536), demo_l1)"
proof -
  have "shl PAGE_SIZE 1 = 8192" by (simp add: shl_def push_bit_eq_mult PAGE_SIZE_def)
  then show ?thesis
    by (simp add: alloc_l1_table_def alloc_with_def with_page_allocator_def l1_table_new_def zeroed_def
        demo_l1_def demo_pages_def demo_pages_take)
qed

lemma demo_l1_reach: "page_reach 65536 81920 (demo_l1, {(65536, 2)})"
  using page_reach_step [OF demo_pages_reach get_l1 [OF demo_alloc_l1]] by simp

section \<open>Properties\<close>

text \<open>
  C17. \<^verbatim>\<open>alloc_block::<ORDER>\<close> in any reachable state: it always returns; it hands out nothing
  exactly when the region has no unused aligned run of that many pages; and a block it hands out
  is fresh, zeroed throughout, inside the managed region, and every frame already owned keeps its
  bytes.
\<close>

theorem page_alloc_block_correct:
  assumes "page_reach st en (s, A)" "i \<le> MAX_ORDER"
  shows "(\<not> has_room st en A i \<and> page_alloc_block i s = Ok (None, s)) \<or>
    (has_room st en A i \<and> (\<exists>a s'. page_alloc_block i s = Ok (Some (PageBlock i a), s') \<and> (a, i) \<notin> A \<and>
      page_reach st en (s', insert (a, i) A) \<and> frames_kept A s s' \<and>
      (\<forall>c. unat c \<in> extent 12 (a, i) \<longrightarrow> snd s' c = 0) \<and> extent 12 (a, i) \<subseteq> {unat st..<unat en}))"
proof -
  have inv: "page_inv st en s A" using page_reach_inv [OF assms(1)] by simp
  note cs = alloc_with_cases [OF inv assms(2) frame_sizes(3) [OF assms(2)], where mk = "PageBlock i", folded frame_alloc_unfold]
  show ?thesis
  proof (cases rule: cs)
    case 1
    then show ?thesis by blast
  next
    case (2 a s')
    have "page_reach st en (s', insert (a, i) A)"
      by (rule page_reach_step [OF assms(1) get_block [OF 2(1)]])
    moreover have "unat c \<in> extent 12 (a, i) \<longrightarrow> snd s' c = 0" for c
      using 2(6) [of c] unat_page_shl [OF assms(2)] by (simp add: extent_def)
    ultimately show ?thesis using 2(1-5) page_inv_block_ok(5) [OF 2(4) insertI1] by blast
  qed
qed

theorem page_alloc_block_correct_witness:
  "(\<not> has_room 65536 81920 {(65536, 2)} 0 \<and> page_alloc_block 0 demo_l1 = Ok (None, demo_l1)) \<or>
    (has_room 65536 81920 {(65536, 2)} 0 \<and> (\<exists>a s'. page_alloc_block 0 demo_l1 = Ok (Some (PageBlock 0 a), s')))"
  using page_alloc_block_correct [OF demo_l1_reach, of 0] by auto

text \<open>
  Dropping an owned block of pages always succeeds and makes room for the next block of
  that size: the allocation that follows the drop does not fail.
\<close>

lemma page_block_drop_reusable:
  assumes "page_reach st en (s, A)" "(a, i) \<in> A"
  shows "\<exists>s' b s''. page_block_drop (PageBlock i a) s = Ok s' \<and> page_reach st en (s', A - {(a, i)}) \<and>
    frames_kept (A - {(a, i)}) s s' \<and> page_alloc_block i s' = Ok (Some (PageBlock i b), s'')"
proof -
  have inv: "page_inv st en s A" using page_reach_inv [OF assms(1)] by simp
  obtain s' where s': "page_free_block s a i = Ok s'" "page_inv st en s' (A - {(a, i)})"
    "frames_kept (A - {(a, i)}) s s'" using page_free_block_inv [OF inv assms(2)] by blast
  have r: "page_reach st en (s', A - {(a, i)})"
    by (rule page_reach_step [OF assms(1) drop_frame [OF assms(2) s'(1)]])
  have i: "i \<le> MAX_ORDER" using page_inv_block_ok(2) [OF inv assms(2)] .
  have room: "has_room st en (A - {(a, i)}) i" by (rule page_inv_room [OF inv assms(2)])
  show ?thesis
  proof (cases rule: alloc_with_cases [OF s'(2) i frame_sizes(3) [OF i], where mk = "PageBlock i"])
    case 1
    with room show ?thesis by simp
  next
    case (2 b s'')
    then show ?thesis using s' r by (auto simp: page_block_drop_def frame_alloc_unfold)
  qed
qed

lemma page_block_drop_reusable_witness:
  "\<exists>s' b s''. page_block_drop (PageBlock 2 65536) demo_l1 = Ok s' \<and> page_reach 65536 81920 (s', {}) \<and>
    page_alloc_block 2 s' = Ok (Some (PageBlock 2 b), s'')"
  using page_block_drop_reusable [OF demo_l1_reach, of 65536 2] by auto

text \<open>Reading an entry depends on its four bytes.\<close>

lemma read_u32_eqI: "(\<And>i. i < 4 \<Longrightarrow> m (a + i) = m' (a + i)) \<Longrightarrow> read_u32 m a = read_u32 m' a"
proof -
  assume e: "\<And>i. i < 4 \<Longrightarrow> m (a + i) = m' (a + i)"
  show ?thesis using e [of 0] e [of 1] e [of 2] e [of 3] by (simp add: read_u32_def)
qed

lemma entry_byte:
  assumes "unat a + 16384 < 2 ^ 32" "index < 4096" "i < (4 :: u32)"
  shows "unat (a + 4 * index + i) = unat a + 4 * unat index + unat i"
proof -
  have u: "unat index < 4096" "unat i < 4" using assms(2,3) by (simp_all add: word_less_nat_alt)
  have "unat (4 * index) = 4 * unat index" using u by (simp add: unat_word_ariths)
  then have "unat (a + 4 * index) = unat a + 4 * unat index" using u assms(1) by (simp add: unat_add_small)
  then show ?thesis using u assms(1) by (simp add: unat_add_small)
qed

text \<open>
  C18. \<^verbatim>\<open>L1Table::new\<close> zeroes 8 KiB although the table has 4096 entries (16 KiB).  Whenever
  \<^verbatim>\<open>alloc_l1_table\<close> hands out a table, entries 0 to 2047 are zero and entries 2048 to 4095, the
  upper half of the address space, are whatever the memory held before.
\<close>

theorem l1_table_half_zeroed:
  assumes "page_reach st en (s, A)" "alloc_l1_table s = Ok (Some t, s')"
  shows "(\<forall>j. j < 2048 \<longrightarrow> l1_get_entry t j (snd s') = Ok 0) \<and>
    (\<forall>j. 2048 \<le> j \<and> j < 4096 \<longrightarrow> l1_get_entry t j (snd s') = l1_get_entry t j (snd s))"
proof -
  have inv: "page_inv st en s A" using page_reach_inv [OF assms(1)] by simp
  have i: "2 \<le> MAX_ORDER" by (simp add: MAX_ORDER_def)
  have n: "unat (shl PAGE_SIZE 1) = 8192" using unat_page_shl [of 1] by (simp add: MAX_ORDER_def bsize_def)
  note cs = alloc_with_cases [OF inv i frame_sizes(2), where mk = L1Table, folded frame_alloc_unfold]
  show ?thesis
  proof (cases rule: cs)
    case 1
    then show ?thesis using assms(2) by simp
  next
    case (2 a s1)
    have t: "t = L1Table a" "s' = s1" using 2(1) assms(2) by simp_all
    have fit: "unat a + 16384 < 2 ^ 32" using page_inv_block_ok(3) [OF 2(4) insertI1] by (simp add: bsize_def)
    have "read_u32 (snd s1) (a + 4 * j) = read_u32 (\<lambda>_. 0) (a + 4 * j)" if "j < 2048" for j
      using that entry_byte [OF fit, of j] n
      by (intro read_u32_eqI 2(6)) (auto simp: word_less_nat_alt)
    moreover have "read_u32 (\<lambda>_. 0) x = 0" for x by (simp add: read_u32_def from_le32_def)
    moreover have "read_u32 (snd s1) (a + 4 * j) = read_u32 (snd s) (a + 4 * j)" if "2048 \<le> j" "j < 4096" for j
      using that entry_byte [OF fit, of j] n
      by (intro read_u32_eqI 2(7)) (auto simp: word_less_nat_alt word_le_nat_alt bsize_def)
    moreover have "j < 4096" if "j < 2048" for j :: u32 using that by (simp add: word_less_nat_alt)
    ultimately show ?thesis by (simp add: t l1_get_entry_def)
  qed
qed

theorem l1_table_half_zeroed_witness:
  "l1_get_entry (L1Table 65536) 2047 (snd demo_l1) = Ok 0 \<and>
   l1_get_entry (L1Table 65536) 2048 (snd demo_l1) = Ok 0x01010101"
proof -
  have "l1_get_entry (L1Table 65536) 2048 (snd demo_pages) = Ok 0x01010101"
    by (simp add: l1_get_entry_def demo_pages_def read_u32_def demo_mem_def write_u32_def from_le32_def push_bit_eq_mult)
  then show ?thesis using l1_table_half_zeroed [OF demo_pages_reach demo_alloc_l1] by simp
qed

text \<open>
  Writing an entry of an owned L1 table: it panics exactly for an index of 4096 or more, and
  otherwise that entry reads back the value, every other entry is unchanged and so is every other
  frame.
\<close>

lemma l1_set_entry_correct:
  assumes "page_reach st en (s, A)" "(l1_base t, 2) \<in> A"
  shows "(4096 \<le> index \<longrightarrow> l1_set_entry t index v (snd s) = Panic) \<and>
    (index < 4096 \<longrightarrow> (\<exists>m. l1_set_entry t index v (snd s) = Ok m \<and> l1_get_entry t index m = Ok v \<and>
      (\<forall>j<4096. j \<noteq> index \<longrightarrow> l1_get_entry t j m = l1_get_entry t j (snd s)) \<and>
      frames_kept (A - {(l1_base t, 2)}) s (fst s, m)))"
proof -
  have inv: "page_inv st en s A" using page_reach_inv [OF assms(1)] by simp
  have sz: "4 * 4096 \<le> bsize 12 2" by (simp add: bsize_def)
  have fit: "unat (l1_base t) + 4 * 4096 < 2 ^ 32"
    using page_inv_block_ok(3) [OF inv assms(2)] by (simp add: bsize_def)
  have lt: "unat j < 4096" if "j < 4096" for j :: u32 using that by (simp add: word_less_nat_alt)
  have "read_u32 (write_u32 (snd s) (l1_base t + 4 * index) v) (l1_base t + 4 * j) =
      read_u32 (snd s) (l1_base t + 4 * j)" if "index < 4096" "j < 4096" "j \<noteq> index" for j
    using that entry_cells_disjoint [OF fit lt lt, of index j] by (intro read_write_u32_other) auto
  moreover have "frames_kept (A - {(l1_base t, 2)}) s (fst s, write_u32 (snd s) (l1_base t + 4 * index) v)"
    if "index < 4096" using entry_write_frames_kept [OF inv assms(2) sz lt [OF that]] .
  ultimately show ?thesis
    by (auto simp: l1_set_entry_def l1_get_entry_def read_write_u32_same)
qed

lemma l1_set_entry_correct_witness:
  "\<exists>m. l1_set_entry (L1Table 65536) 4095 7 (snd demo_l1) = Ok m \<and> l1_get_entry (L1Table 65536) 4095 m = Ok 7"
  using l1_set_entry_correct [OF demo_l1_reach, of "L1Table 65536" 4095 7] by auto

text \<open>
  A process stack: creation fails with \<^verbatim>\<open>OutOfMemory\<close> exactly when no aligned 16 KiB of the
  region is unused, and otherwise the stack is a fresh zeroed 16 KiB block whose initial stack
  pointer is 16-byte aligned and lies 16 bytes below the top, without address wrap-around.
\<close>

lemma kernel_stack_new_correct:
  assumes "page_reach st en (s, A)"
  shows "(kernel_stack_new s = Ok (Err OutOfMemory, s) \<and> \<not> has_room st en A 2) \<or>
    (\<exists>k s'. kernel_stack_new s = Ok (Ok k, s') \<and> has_room st en A 2 \<and>
      page_reach st en (s', insert (kernel_stack_bottom k, 2) A) \<and> (kernel_stack_bottom k, 2) \<notin> A \<and>
      unat (kernel_stack_top k) = unat (kernel_stack_bottom k) + 16384 \<and>
      unat (kernel_stack_initial_sp k) = unat (kernel_stack_top k) - 16 \<and> 16 dvd unat (kernel_stack_initial_sp k))"
proof -
  have inv: "page_inv st en s A" using page_reach_inv [OF assms(1)] by simp
  have i: "2 \<le> MAX_ORDER" by (simp add: MAX_ORDER_def)
  note cs = alloc_with_cases [OF inv i frame_sizes(3) [OF i], where mk = "PageBlock 2", folded frame_alloc_unfold]
  show ?thesis
  proof (cases rule: cs)
    case 1
    then show ?thesis by (simp add: kernel_stack_new_def stack_of_def KERNEL_STACK_ORDER_def)
  next
    case (2 a s')
    let ?k = "\<lparr>ks_block = PageBlock 2 a\<rparr>"
    note ok = page_inv_block_ok [OF 2(4) insertI1]
    have sz: "unat (shl PAGE_SIZE 2) = 16384" using unat_page_shl [OF i] by (simp add: bsize_def)
    then have top: "unat (kernel_stack_top ?k) = unat a + 16384"
      using ok(3) by (simp add: kernel_stack_top_def KERNEL_STACK_ORDER_def unat_add_small bsize_def)
    then have sp: "unat (kernel_stack_initial_sp ?k) = unat a + 16368"
      by (simp add: kernel_stack_initial_sp_def unat_sub_le word_le_nat_alt)
    have "(16::nat) dvd bsize 12 2" by (simp add: bsize_def)
    then have "16 dvd unat a" using ok(4) by (rule dvd_trans)
    then have "16 dvd unat a + 16368" by simp
    moreover have "page_reach st en (s', insert (a, 2) A)"
      by (rule page_reach_step [OF assms(1) get_block [OF 2(1)]])
    moreover have "kernel_stack_new s = Ok (Ok ?k, s')"
      using 2(1) by (simp add: kernel_stack_new_def stack_of_def KERNEL_STACK_ORDER_def)
    moreover have "kernel_stack_bottom ?k = a" by (simp add: kernel_stack_bottom_def)
    ultimately show ?thesis using 2(2,3) top sp by (intro disjI2 exI [of _ ?k] exI [of _ s']) simp
  qed
qed

lemma kernel_stack_new_correct_witness:
  "kernel_stack_new demo_l1 = Ok (Err OutOfMemory, demo_l1) \<or>
    (\<exists>k s'. kernel_stack_new demo_l1 = Ok (Ok k, s') \<and> has_room 65536 81920 {(65536, 2)} 2)"
  using kernel_stack_new_correct [OF demo_l1_reach] by blast

end
