(* ===== verification/Heap_Allocator.thy ===== *)
theory Heap_Allocator
  imports Buddy_Machine
begin

text \<open>
  The kernel heap (\<^verbatim>\<open>kernel/src/mm/heap_allocator.rs\<close>): the \<^verbatim>\<open>GlobalAlloc\<close> implementation on a
  buddy allocator of 32-byte blocks.  A null result of the allocator ends in
  \<^verbatim>\<open>alloc_error_handler\<close>, which panics.
\<close>

section \<open>Operations\<close>

type_synonym hstate = "buddy_allocator option \<times> memory"

definition heap_new :: "buddy_allocator option" where
  "heap_new = None"

definition MIN_BLOCK_SIZE :: u32 where
  "MIN_BLOCK_SIZE = 32"

definition heap_init :: "hstate \<Rightarrow> u32 \<Rightarrow> u32 \<Rightarrow> hstate call" where
  "heap_init s start end' =
     (case s of
        (Some b, m) \<Rightarrow> Panic
      | (None, m) \<Rightarrow>
          obind (of_loop (buddy_init (buddy_new MIN_BLOCK_SIZE, m) start end'))
            (\<lambda>(buddy, m'). Ok (Some buddy, m')))"

definition alloc_error_handler :: "layout \<Rightarrow> 'a call" where
  "alloc_error_handler lay = Panic"

definition heap_alloc :: "hstate \<Rightarrow> layout \<Rightarrow> (u32 \<times> hstate) call" where
  "heap_alloc s lay =
     (case s of
        (None, m) \<Rightarrow> Panic
      | (Some b, m) \<Rightarrow>
          obind (of_loop (buddy_alloc (b, m) lay))
            (\<lambda>(r, b', m').
               case r of
                 Some ptr \<Rightarrow> Ok (ptr, (Some b', m'))
               | None \<Rightarrow> alloc_error_handler lay))"

definition heap_dealloc :: "hstate \<Rightarrow> u32 \<Rightarrow> layout \<Rightarrow> hstate call" where
  "heap_dealloc s ptr lay =
     (case s of
        (None, m) \<Rightarrow> Ok s
      | (Some b, m) \<Rightarrow> obind (of_loop (buddy_free (b, m) ptr)) (\<lambda>(b', m'). Ok (Some b', m')))"

text \<open>\<^verbatim>\<open>core::ptr::copy_nonoverlapping(src, dst, n)\<close>.\<close>

definition copy_bytes :: "memory \<Rightarrow> u32 \<Rightarrow> u32 \<Rightarrow> u32 \<Rightarrow> memory" where
  "copy_bytes m src dst n = (\<lambda>x. if x - dst < n then m (src + (x - dst)) else m x)"

definition heap_realloc :: "hstate \<Rightarrow> u32 \<Rightarrow> layout \<Rightarrow> u32 \<Rightarrow> (u32 \<times> hstate) call" where
  "heap_realloc s ptr old_layout new_size =
     (let new_layout = \<lparr>lay_size = new_size, lay_align = lay_align old_layout\<rparr> in
      obind (heap_alloc s new_layout) (\<lambda>(new_ptr, inner, m).
        if new_ptr = 0 then Ok (0, inner, m)
        else
          obind (heap_dealloc (inner, copy_bytes m ptr new_ptr (min (lay_size old_layout) new_size)) ptr old_layout)
            (\<lambda>s'. Ok (new_ptr, s'))))"

definition init_heap :: "hstate \<Rightarrow> u32 \<Rightarrow> u32 \<Rightarrow> hstate call" where
  "init_heap s start end' = heap_init s start end'"

section \<open>Live allocations\<close>

text \<open>
  The ghost state of the heap is what its clients know: the pointer and the size of every live
  allocation.  The block of a pointer is found by its header.  The invariant speaks of the heap of
  a region: its blocks, free and live, make up the whole of it.
\<close>

type_synonym live = "(u32 \<times> u32) set"

definition blk :: "memory \<Rightarrow> u32 \<Rightarrow> block" where
  "blk m p = (p - 8, unat (m (p - 8)))"

definition user_area :: "u32 \<times> u32 \<Rightarrow> nat set" where
  "user_area x = {unat (fst x)..<unat (fst x) + unat (snd x)}"

definition heap_inv :: "u32 \<Rightarrow> u32 \<Rightarrow> hstate \<Rightarrow> live \<Rightarrow> bool" where
  "heap_inv st en s L \<longleftrightarrow>
     (\<exists>b m F. s = (Some b, m) \<and> machine_inv 5 st en (b, m) F (blk m ` fst ` L) \<and>
        (\<forall>(p, n)\<in>L. 8 \<le> unat p \<and> unat n + 8 \<le> bsize 5 (snd (blk m p))) \<and> inj_on fst L)"

lemma heap_invE:
  assumes "heap_inv st en s L"
  obtains b m F where "s = (Some b, m)" "machine_inv 5 st en (b, m) F (blk m ` fst ` L)"
    and "buddy_inv 5 (b, m) F (blk m ` fst ` L)" "inj_on fst L"
    and "\<And>p n. (p, n) \<in> L \<Longrightarrow> 8 \<le> unat p \<and> unat n + 8 \<le> bsize 5 (snd (blk m p))"
proof -
  obtain b m F where s: "s = (Some b, m)" "machine_inv 5 st en (b, m) F (blk m ` fst ` L)" "inj_on fst L"
    and sz: "\<forall>(p, n)\<in>L. 8 \<le> unat p \<and> unat n + 8 \<le> bsize 5 (snd (blk m p))"
    using assms by (auto simp: heap_inv_def)
  moreover have "buddy_inv 5 (b, m) F (blk m ` fst ` L)" using s(2) by (simp add: machine_inv_def)
  ultimately show thesis using that by blast
qed

lemma blk_inj: "inj (blk m)"
  by (auto simp: blk_def inj_def)

lemma unat_minus_8: "8 \<le> unat p \<Longrightarrow> unat (p - 8 :: u32) = unat p - 8"
  by (simp add: unat_sub_le word_le_nat_alt)

lemma user_area_extent:
  assumes "8 \<le> unat p" "unat n + 8 \<le> bsize 5 (snd (blk m p))"
  shows "user_area (p, n) \<subseteq> extent 5 (blk m p) - {unat (p - 8)}"
  using assms unat_minus_8 [OF assms(1)] by (auto simp: user_area_def extent_def blk_def)

lemma header_extent: "unat (p - 8) \<in> extent 5 (blk m p)"
  by (simp add: extent_def blk_def)

lemma heap_blocks_disjoint:
  assumes "buddy_inv 5 (b, m) F (blk m ` fst ` L)" "(p, n) \<in> L" "(q, l) \<in> L" "p \<noteq> q"
  shows "extent 5 (blk m p) \<inter> extent 5 (blk m q) = {}"
proof -
  have "in_use_inv 5 (b, m) (blk m ` fst ` L)" using assms(1) by (auto simp: in_use_inv_def)
  moreover have "blk m p \<noteq> blk m q" using assms(4) blk_inj by (auto dest: injD)
  ultimately show ?thesis
    using assms(2,3) by (intro heap_blocks.in_use_disjoint) (force simp: image_iff)+
qed

text \<open>
  Any change of memory that keeps the headers of the live blocks keeps their blocks.
\<close>

lemma blk_cong: "m' (p - 8) = m (p - 8) \<Longrightarrow> blk m' p = blk m p"
  by (simp add: blk_def)

lemma preserves_blk:
  assumes "preserves 5 (blk m ` fst ` L) (b, m) (b', m')" "L' \<subseteq> L" "(p, n) \<in> L'"
  shows "blk m' p = blk m p"
proof -
  have "blk m p \<in> blk m ` fst ` L" using assms by force
  then have "m' (p - 8) = m (p - 8)"
    using assms(1) header_extent [of p m] unfolding preserves_def by fastforce
  then show ?thesis by (rule blk_cong)
qed

end
