(* ===== verification/Heap_Properties.thy ===== *)
theory Heap_Properties
  imports Heap_Allocator
begin

text \<open>
  Correctness of the kernel heap: every operation keeps the invariant of the live allocations,
  the reachable states, and the properties.
\<close>

section \<open>Operations keep the invariant\<close>

definition live_kept :: "live \<Rightarrow> hstate \<Rightarrow> hstate \<Rightarrow> bool" where
  "live_kept L s s' \<longleftrightarrow> (\<forall>x\<in>L. \<forall>c. unat c \<in> user_area x \<longrightarrow> snd s' c = snd s c)"

lemma live_kept_trans: "live_kept L s t \<Longrightarrow> live_kept L t u \<Longrightarrow> live_kept L s u"
  by (simp add: live_kept_def)

lemma live_kept_mono: "live_kept L s t \<Longrightarrow> L' \<subseteq> L \<Longrightarrow> live_kept L' s t"
  by (auto simp: live_kept_def)

text \<open>The alignments and sizes whose header \<^verbatim>\<open>free\<close> finds again.\<close>

definition heap_layout :: "layout \<Rightarrow> bool" where
  "heap_layout lay \<longleftrightarrow> (\<exists>j\<le>3. valid_layout j lay) \<and> lay_size lay \<noteq> 0"

lemma heap_inv_client_writes:
  assumes inv: "heap_inv st en (inner, m) L" and x: "x \<in> L"
    and w: "\<And>c. m' c \<noteq> m c \<Longrightarrow> unat c \<in> user_area x"
  shows "heap_inv st en (inner, m') L" and "live_kept (L - {x}) (inner, m) (inner, m')"
proof -
  obtain b F where s: "inner = Some b" and M: "machine_inv 5 st en (b, m) F (blk m ` fst ` L)"
    and F: "buddy_inv 5 (b, m) F (blk m ` fst ` L)" and inj: "inj_on fst L"
    and sz: "\<And>p n. (p, n) \<in> L \<Longrightarrow> 8 \<le> unat p \<and> unat n + 8 \<le> bsize 5 (snd (blk m p))"
    using inv by (rule heap_invE) auto
  obtain p n where pn: "x = (p, n)" by (cases x)
  have ua: "user_area (q, l) \<subseteq> extent 5 (blk m q) - {unat (q - 8)}" if "(q, l) \<in> L" for q l
    using sz [OF that] by (intro user_area_extent) auto
  have same: "m' c = m c" if "(q, l) \<in> L" "(q, l) \<noteq> x" "unat c \<in> extent 5 (blk m q)" for q l c
  proof -
    have "p \<noteq> q" using that(1,2) inj x pn by (metis fst_conv inj_onD)
    then have "extent 5 (blk m p) \<inter> extent 5 (blk m q) = {}"
      using heap_blocks_disjoint [OF F, of p n q l] x pn that by auto
    then have "unat c \<notin> user_area x" using ua [of p n] x pn that(3) by blast
    then show ?thesis using w by blast
  qed
  have hdr: "m' (q - 8) = m (q - 8)" if "(q, l) \<in> L" for q l
  proof (cases "(q, l) = x")
    case True
    then have "unat (q - 8) \<notin> user_area x" using ua [OF that] by auto
    then show ?thesis using w by blast
  next
    case False
    then show ?thesis using same [OF that] header_extent by blast
  qed
  then have blk: "blk m' q = blk m q" if "(q, l) \<in> L" for q l using that by (intro blk_cong) auto
  then have img: "blk m' ` fst ` L = blk m ` fst ` L" by (force simp: image_iff)
  have B: "buddy_inv 5 (b, m') F (blk m ` fst ` L)"
  proof (rule buddy_inv_client_writes [OF F, of "blk m p"])
    show "blk m p \<in> blk m ` fst ` L" using x pn by force
    show "unat c \<in> extent 5 (blk m p)" if "m' c \<noteq> m c" for c using w [OF that] ua [of p n] x pn by blast
  qed
  have "machine_inv 5 st en (b, m') F (blk m ` fst ` L)" using M B by (simp add: machine_inv_def)
  then show "heap_inv st en (inner, m') L"
    using inj sz blk unfolding heap_inv_def s by (intro exI [of _ b] exI [of _ m'] exI [of _ F]) (auto simp: img)
  show "live_kept (L - {x}) (inner, m) (inner, m')"
    unfolding live_kept_def using same ua by (auto simp: subset_iff)
qed

lemma buddy_inv_block_ok:
  assumes "buddy_inv k s F A" "x \<in> A"
  shows "\<exists>lo hi. block_ok k lo hi x \<and> hi < 2 ^ 32"
proof -
  obtain lo hi where "tiling k lo hi (frees F \<union> A)" "hi < 2 ^ 32"
    using assms(1) by (cases s) (auto simp: buddy_inv_def)
  then show ?thesis using assms(2) unfolding tiling_def by blast
qed

lemma heap_area_bound:
  assumes "heap_inv st en s L" "(p, n) \<in> L"
  shows "unat p + unat n < 2 ^ 32"
proof -
  obtain b m F where F: "buddy_inv 5 (b, m) F (blk m ` fst ` L)"
    and sz: "\<And>p n. (p, n) \<in> L \<Longrightarrow> 8 \<le> unat p \<and> unat n + 8 \<le> bsize 5 (snd (blk m p))"
    using assms(1) by (rule heap_invE) auto
  have "blk m p \<in> blk m ` fst ` L" using assms(2) by force
  then obtain lo hi where "block_ok 5 lo hi (blk m p)" "hi < 2 ^ 32"
    using buddy_inv_block_ok [OF F] by blast
  then show ?thesis
    using sz [OF assms(2)] unat_minus_8 [of p] unfolding block_ok_def blk_def by simp linarith
qed

lemma preserves_live_kept:
  assumes "preserves 5 (blk m ` fst ` L) (b, m) (b', m')" "L' \<subseteq> L"
    and sz: "\<And>p n. (p, n) \<in> L \<Longrightarrow> 8 \<le> unat p \<and> unat n + 8 \<le> bsize 5 (snd (blk m p))"
  shows "live_kept L' (inner, m) (inner', m')"
  unfolding live_kept_def
proof (intro ballI allI impI)
  fix x and c :: u32 assume x: "x \<in> L'" "unat c \<in> user_area x"
  obtain q l where ql: "x = (q, l)" by (cases x)
  with x assms(2) have qL: "(q, l) \<in> L" by blast
  then have c: "unat c \<in> extent 5 (blk m q)" using x ql sz user_area_extent [of q l m] by blast
  have "blk m q \<in> blk m ` fst ` L" using qL by force
  with c have "snd (b', m') c = snd (b, m) c" using assms(1) unfolding preserves_def by blast
  then show "snd (inner', m') c = snd (inner, m) c" by simp
qed

text \<open>
  Room for an allocation of at most that alignment: a run of unused bytes of the region that could
  be a block, large enough for the header and the allocation.  The blocks of the live allocations
  are in use as a whole.
\<close>

definition heap_room :: "u32 \<Rightarrow> u32 \<Rightarrow> hstate \<Rightarrow> live \<Rightarrow> layout \<Rightarrow> bool" where
  "heap_room st en s L lay \<longleftrightarrow> room 5 st en (blk (snd s) ` fst ` L) (unat (lay_size lay) + 8)"

lemma heap_alloc_cases:
  assumes inv: "heap_inv st en s L" and lay: "heap_layout lay"
  obtains (diverge) "heap_alloc s lay = Diverge" "2 ^ 31 < unat (lay_size lay) + 8"
  | (oom) "heap_alloc s lay = Panic" "unat (lay_size lay) + 8 \<le> 2 ^ 31" "\<not> heap_room st en s L lay"
  | (ok) p s' where "unat (lay_size lay) + 8 \<le> 2 ^ 31" "heap_room st en s L lay" "heap_alloc s lay = Ok (p, s')" "heap_inv st en s' (insert (p, lay_size lay) L)"
      "p \<notin> fst ` L" "live_kept L s s'" "unat (lay_align lay) dvd unat p" "p \<noteq> 0"
proof -
  obtain b m F where s: "s = (Some b, m)" and M: "machine_inv 5 st en (b, m) F (blk m ` fst ` L)"
    and F: "buddy_inv 5 (b, m) F (blk m ` fst ` L)" and inj: "inj_on fst L"
    and sz: "\<And>p n. (p, n) \<in> L \<Longrightarrow> 8 \<le> unat p \<and> unat n + 8 \<le> bsize 5 (snd (blk m p))"
    using inv by (rule heap_invE) auto
  obtain j where j: "valid_layout j lay" "j \<le> 3" "lay_size lay \<noteq> 0" using lay by (auto simp: heap_layout_def)
  have mx: "max j 3 = 3" using j(2) by simp
  have hs: "unat (header_size lay) = 8" using unat_header_size [OF j(1)] mx by simp
  then have h8: "header_size lay = 8" by (simp add: word_unat_eq_iff)
  show thesis
    using F j(1,3)
  proof (cases rule: buddy_alloc_cases)
    case diverge
    then show thesis using mx by (intro that(1)) (simp_all add: s heap_alloc_def)
  next
    case (oom i)
    then have "\<not> heap_room st en s L lay" using no_room [OF M oom(3,4)] by (simp add: heap_room_def s mx)
    then show thesis using oom mx by (intro that(2)) (simp_all add: s heap_alloc_def alloc_error_handler_def)
  next
    case (ok a i t F')
    obtain b' m' where t: "t = (b', m')" by (cases t)
    let ?p = "a + 8" and ?L = "insert (a + 8, lay_size lay) L"
    have out: "handed_out 5 lay ?p (a, i)" using ok(5) h8 by simp
    have i: "i \<le> MAX_ORDER" using buddy_inv_nonnull(2) [OF ok(7), of a i] by auto
    have M': "machine_inv 5 st en (b', m') F' (insert (a, i) (blk m ` fst ` L))"
      using machine_alloc_inv [OF M ok(7) ok(9-11)] t by simp
    have room: "heap_room st en s L lay"
      using handed_out_room [OF M M' ok(8)] ok(2) by (simp add: heap_room_def s mx)
    have up: "unat ?p = unat a + 8" using out hs by (auto simp: handed_out_def h8)
    have bp: "blk m' ?p = (a, i)"
      using ok(6) i by (simp add: blk_def t unat_of_nat MAX_ORDER_def)
    have old: "blk m' q = blk m q" if "(q, l) \<in> L" for q l
      using preserves_blk [OF ok(9) [unfolded t] order_refl that] .
    then have img: "blk m' ` fst ` ?L = insert (a, i) (blk m ` fst ` L)" using bp by (force simp: image_iff)
    have new: "?p \<notin> fst ` L"
    proof
      assume "?p \<in> fst ` L"
      then have "blk m' ?p \<in> blk m ` fst ` L" using old by (force simp: image_iff)
      then show False using ok(8) bp by simp
    qed
    then have inj': "inj_on fst ?L" using inj by auto
    have szp: "8 \<le> unat ?p \<and> unat (lay_size lay) + 8 \<le> bsize 5 (snd (blk m' ?p))"
      using out up by (auto simp: bp handed_out_def)
    have "heap_inv st en (Some b', m') ?L"
      unfolding heap_inv_def using M' img inj' szp sz old
      by (intro exI [of _ b'] exI [of _ m'] exI [of _ F']) auto
    moreover have "live_kept L s (Some b', m')"
      using preserves_live_kept [OF ok(9) [unfolded t] order_refl sz] by (simp add: s)
    moreover have "heap_alloc s lay = Ok (?p, Some b', m')" using ok(4) by (simp add: s heap_alloc_def t h8)
    moreover have "unat (lay_align lay) dvd unat ?p" using out unfolding handed_out_def by blast
    moreover have "?p \<noteq> 0" using up by (metis add_is_0 unat_0 zero_neq_numeral)
    ultimately show thesis using new room ok(1) mx by (intro that(3) [of ?p "(Some b', m')"]) simp_all
  qed
qed

lemma word_of_nat_unat_u8: "(x::u8) = of_nat (unat x)"
  by simp

lemma heap_dealloc_inv:
  assumes inv: "heap_inv st en s L" and mem: "(p, n) \<in> L"
  obtains s' where "heap_dealloc s p lay = Ok s'" "heap_inv st en s' (L - {(p, n)})" "live_kept (L - {(p, n)}) s s'"
proof -
  obtain b m F where s: "s = (Some b, m)" and M: "machine_inv 5 st en (b, m) F (blk m ` fst ` L)"
    and F: "buddy_inv 5 (b, m) F (blk m ` fst ` L)" and inj: "inj_on fst L"
    and sz: "\<And>p n. (p, n) \<in> L \<Longrightarrow> 8 \<le> unat p \<and> unat n + 8 \<le> bsize 5 (snd (blk m p))"
    using inv by (rule heap_invE) auto
  let ?L = "L - {(p, n)}"
  have bp: "blk m p \<in> blk m ` fst ` L" using mem by force
  have rest: "blk m ` fst ` L - {blk m p} = blk m ` fst ` ?L"
  proof -
    have "fst ` ?L = fst ` L - fst ` {(p, n)}" using inj mem by (intro inj_on_image_set_diff) auto
    then have "blk m ` fst ` ?L = blk m ` (fst ` L - {p})" by simp
    then show ?thesis using image_set_diff [OF blk_inj [of m], of "fst ` L" "{p}"] by simp
  qed
  obtain t F' where t: "buddy_free (b, m) (p - 8 + 8) = Some t"
    "machine_inv 5 st en t F' (blk m ` fst ` ?L)" "preserves 5 (blk m ` fst ` ?L) (b, m) t"
    using machine_free_inv [OF M bp [unfolded blk_def [of m p]]] unfolding rest [symmetric] blk_def [of m p]
    by (metis snd_conv word_of_nat_unat_u8)
  obtain b' m' where t': "t = (b', m')" by (cases t)
  have blk: "blk m' q = blk m q" if "(q, l) \<in> ?L" for q l
    using preserves_blk [OF t(3) [unfolded t'] order_refl that] .
  then have img: "blk m' ` fst ` ?L = blk m ` fst ` ?L" by (force simp: image_iff)
  have sz': "\<forall>(q, l)\<in>?L. 8 \<le> unat q \<and> unat l + 8 \<le> bsize 5 (snd (blk m' q))"
    using sz blk by (intro ballI) (clarsimp split: prod.splits)
  have "heap_inv st en (Some b', m') ?L"
    unfolding heap_inv_def using t(2) [unfolded t'] sz' inj
    by (intro exI [of _ b'] exI [of _ m'] exI [of _ F']) (simp add: img inj_on_diff)
  moreover have "live_kept ?L s (Some b', m')"
    unfolding s using sz by (intro preserves_live_kept [OF t(3) [unfolded t'] order_refl]) blast
  moreover have "heap_dealloc s p lay = Ok (Some b', m')"
    using t(1) by (simp add: s heap_dealloc_def t')
  ultimately show thesis using that by blast
qed

lemma copy_bytes_in: "unat i < unat n \<Longrightarrow> copy_bytes m src dst n (dst + i) = m (src + i)"
  by (simp add: copy_bytes_def word_less_nat_alt)

lemma copy_bytes_out:
  assumes "unat dst + unat n \<le> 2 ^ 32" "copy_bytes m src dst n c \<noteq> m c"
  shows "unat dst \<le> unat c \<and> unat c < unat dst + unat n"
proof -
  have lt: "unat (c - dst) < unat n" using assms(2) by (auto simp: copy_bytes_def word_less_nat_alt split: if_splits)
  have "unat c = unat dst + unat (c - dst)"
    using lt assms(1) unat_add_small [of dst "c - dst"] by simp
  with lt show ?thesis by simp
qed

text \<open>A successful \<^verbatim>\<open>realloc\<close> moves the allocation and copies the common prefix.\<close>

lemma heap_realloc_Ok:
  assumes inv: "heap_inv st en s L" and mem: "(p, n) \<in> L"
    and lay: "lay_size old = n" "heap_layout \<lparr>lay_size = new_size, lay_align = lay_align old\<rparr>"
    and res: "heap_realloc s p old new_size = Ok (q, s')"
  shows "heap_inv st en s' (insert (q, new_size) (L - {(p, n)}))" and "q \<notin> fst ` L"
    and "live_kept (L - {(p, n)}) s s'"
    and "unat i < unat (min n new_size) \<Longrightarrow> snd s' (q + i) = snd s (p + i)"
proof -
  let ?lay = "\<lparr>lay_size = new_size, lay_align = lay_align old\<rparr>" and ?k = "min n new_size"
  from inv lay(2) obtain inner m where al: "heap_alloc s ?lay = Ok (q, inner, m)"
    and q: "heap_inv st en (inner, m) (insert (q, new_size) L)" "q \<notin> fst ` L" "live_kept L s (inner, m)" "q \<noteq> 0"
    using res by (cases rule: heap_alloc_cases) (auto simp: heap_realloc_def split: if_splits)
  let ?m = "copy_bytes m p q ?k" and ?N = "insert (q, new_size) L"
  have de: "heap_dealloc (inner, ?m) p old = Ok s'" using res al q(4) lay(1) by (auto simp: heap_realloc_def)
  obtain b F where F: "inner = Some b" "buddy_inv 5 (b, m) F (blk m ` fst ` ?N)"
    and sz: "\<And>p n. (p, n) \<in> ?N \<Longrightarrow> 8 \<le> unat p \<and> unat n + 8 \<le> bsize 5 (snd (blk m p))"
    using q(1) by (rule heap_invE) auto
  have ap: "unat q + unat new_size \<le> 2 ^ 32" "unat p + unat n \<le> 2 ^ 32"
    using heap_area_bound [OF q(1), of q new_size] heap_area_bound [OF q(1), of p n] mem by auto
  have k: "unat ?k \<le> unat new_size" "unat ?k \<le> unat n" by (simp_all add: min_def word_le_nat_alt)
  have w: "unat c \<in> user_area (q, new_size)" if "?m c \<noteq> m c" for c
    using copy_bytes_out [where dst = q and n = ?k and m = m and src = p and c = c] that ap k by (simp add: user_area_def)
  have cw: "heap_inv st en (inner, ?m) ?N" "live_kept (?N - {(q, new_size)}) (inner, m) (inner, ?m)"
    using heap_inv_client_writes [OF q(1) insertI1, of ?m] w by blast+
  have pq: "(p, n) \<noteq> (q, new_size)" using mem q(2) by force
  obtain s1 where s1: "heap_dealloc (inner, ?m) p old = Ok s1" "heap_inv st en s1 (?N - {(p, n)})"
    "live_kept (?N - {(p, n)}) (inner, ?m) s1"
    using heap_dealloc_inv [OF cw(1), where p = p and n = n and lay = old] mem by blast
  with de have eq: "s' = s1" by simp
  have N: "?N - {(p, n)} = insert (q, new_size) (L - {(p, n)})" using pq by auto
  show "heap_inv st en s' (insert (q, new_size) (L - {(p, n)}))" using s1(2) eq N by simp
  show "q \<notin> fst ` L" by (rule q(2))
  show "live_kept (L - {(p, n)}) s s'"
  proof (rule live_kept_trans [OF live_kept_trans])
    show "live_kept (L - {(p, n)}) s (inner, m)" using q(3) by (rule live_kept_mono) blast
    show "live_kept (L - {(p, n)}) (inner, m) (inner, ?m)"
      using cw(2) q(2) by (elim live_kept_mono) (force simp: image_iff)
    show "live_kept (L - {(p, n)}) (inner, ?m) s'" using s1(3) unfolding eq N by (rule live_kept_mono) blast
  qed
  assume i: "unat i < unat ?k"
  have "unat (q + i) = unat q + unat i" "unat (p + i) = unat p + unat i"
    using i ap k unat_less [of "i"] by (simp_all add: unat_add_small less_le_trans)
  then have "unat (q + i) \<in> user_area (q, new_size)" "unat (p + i) \<in> user_area (p, n)"
    using i k by (simp_all add: user_area_def)
  then have "snd s' (q + i) = ?m (q + i)" "m (p + i) = snd s (p + i)"
    using s1(3) q(3) mem unfolding eq N live_kept_def by auto
  then show "snd s' (q + i) = snd s (p + i)" using i by (simp add: copy_bytes_in)
qed

section \<open>Reachable states\<close>

inductive heap_step :: "hstate \<times> live \<Rightarrow> hstate \<times> live \<Rightarrow> bool" where
  heap_step_alloc: "heap_layout lay \<Longrightarrow> heap_alloc s lay = Ok (p, s') \<Longrightarrow>
    heap_step (s, L) (s', insert (p, lay_size lay) L)"
| heap_step_dealloc: "(p, n) \<in> L \<Longrightarrow> heap_dealloc s p lay = Ok s' \<Longrightarrow> heap_step (s, L) (s', L - {(p, n)})"
| heap_step_realloc: "(p, lay_size old) \<in> L \<Longrightarrow>
    heap_layout \<lparr>lay_size = n, lay_align = lay_align old\<rparr> \<Longrightarrow> heap_realloc s p old n = Ok (q, s') \<Longrightarrow>
    heap_step (s, L) (s', insert (q, n) (L - {(p, lay_size old)}))"
| heap_step_write: "x \<in> L \<Longrightarrow> unat c \<in> user_area x \<Longrightarrow> heap_step ((inner, m), L) ((inner, m(c := v)), L)"

inductive heap_reach :: "u32 \<Rightarrow> u32 \<Rightarrow> hstate \<times> live \<Rightarrow> bool" for st en where
  heap_reach_init: "region_ok 5 st en \<Longrightarrow> heap_init (None, m) st en = Ok s \<Longrightarrow> heap_reach st en (s, {})"
| heap_reach_step: "heap_reach st en c \<Longrightarrow> heap_step c c' \<Longrightarrow> heap_reach st en c'"

lemma heap_init_inv:
  assumes "region_ok 5 st en"
  obtains s where "heap_init (None, m) st en = Ok s" "heap_inv st en s {}"
proof -
  obtain t where t: "buddy_init (buddy_new (2 ^ 5), m) st en = Some t" using buddy_init_establishes [OF assms] by metis
  obtain F where "machine_inv 5 st en t F {}" using reachable_inv [OF reach_init [OF assms t]] by auto
  moreover obtain b m' where "t = (b, m')" by (cases t)
  ultimately show thesis using t
    by (intro that [of "(Some b, m')"]) (auto simp: heap_init_def heap_inv_def MIN_BLOCK_SIZE_def)
qed

lemma heap_inv_step:
  assumes "heap_inv st en s L" "heap_step (s, L) (s', L')"
  shows "heap_inv st en s' L'"
  using assms(2)
proof (cases rule: heap_step.cases)
  case (heap_step_alloc lay p)
  then show ?thesis using assms(1) by (cases rule: heap_alloc_cases [OF assms(1) heap_step_alloc(2)]) auto
next
  case (heap_step_dealloc p n lay)
  then show ?thesis using heap_dealloc_inv [OF assms(1), of p n lay] by (metis outcome.inject(1))
next
  case (heap_step_realloc p old n q)
  then show ?thesis using heap_realloc_Ok(1) [OF assms(1) _ refl] by simp
next
  case (heap_step_write x c inner m v)
  then show ?thesis
    using assms(1) heap_inv_client_writes(1) [of st en inner m L x "m(c := v)"] by (auto split: if_splits)
qed

lemma heap_reach_inv: "heap_reach st en c \<Longrightarrow> heap_inv st en (fst c) (snd c)"
proof (induction rule: heap_reach.induct)
  case (heap_reach_init m s)
  then show ?case using heap_init_inv [OF heap_reach_init(1), of m] by (metis fst_conv snd_conv outcome.inject(1))
next
  case (heap_reach_step c c')
  then show ?case using heap_inv_step by (metis prod.collapse)
qed

section \<open>A concrete heap\<close>

text \<open>128 bytes at address 4096; a 16-byte allocation written to and then grown to 24 bytes.\<close>

definition demo_lay :: layout where
  "demo_lay = \<lparr>lay_size = 16, lay_align = 8\<rparr>"

definition demo_heap :: hstate where
  "demo_heap = the_ok (heap_init (None, \<lambda>_. 0) 4096 4224)"

definition demo_heap1 :: hstate where
  "demo_heap1 = snd (the_ok (heap_alloc demo_heap demo_lay))"

definition demo_heap2 :: hstate where
  "demo_heap2 = (fst demo_heap1, (snd demo_heap1)(4104 := 7))"

definition demo_heap3 :: hstate where
  "demo_heap3 = snd (the_ok (heap_realloc demo_heap2 4104 demo_lay 24))"

lemma demo_heap_init: "heap_init (None, \<lambda>_. 0) 4096 4224 = Ok demo_heap"
proof -
  have "is_ok (heap_init (None, \<lambda>_. 0) 4096 4224)" by code_simp
  then show ?thesis unfolding demo_heap_def by (rule is_okD)
qed

lemma demo_heap_alloc: "heap_alloc demo_heap demo_lay = Ok (4104, demo_heap1)"
proof -
  have "is_ok (heap_alloc demo_heap demo_lay)" "fst (the_ok (heap_alloc demo_heap demo_lay)) = 4104"
    by code_simp+
  then show ?thesis unfolding demo_heap1_def by (metis is_okD prod.collapse)
qed

lemma demo_heap_realloc: "heap_realloc demo_heap2 4104 demo_lay 24 = Ok (4136, demo_heap3)"
proof -
  have "is_ok (heap_realloc demo_heap2 4104 demo_lay 24)"
    "fst (the_ok (heap_realloc demo_heap2 4104 demo_lay 24)) = 4136"
    by code_simp+
  then show ?thesis unfolding demo_heap3_def by (metis is_okD prod.collapse)
qed

lemma demo_layouts: "heap_layout demo_lay" "heap_layout \<lparr>lay_size = 24, lay_align = lay_align demo_lay\<rparr>"
  by (auto simp: heap_layout_def valid_layout_def round_up_def demo_lay_def intro!: exI [of _ 3])

lemma demo_heap_reach: "heap_reach 4096 4224 (demo_heap, {})"
  using demo_heap_init by (intro heap_reach_init) (simp_all add: region_ok_def MAX_ORDER_def round_up_def round_down_def)

lemma demo_heap_reach1: "heap_reach 4096 4224 (demo_heap1, {(4104, 16)})"
  using heap_reach_step [OF demo_heap_reach heap_step_alloc [OF demo_layouts(1) demo_heap_alloc]]
  by (simp add: demo_lay_def)

lemma demo_heap_reach2: "heap_reach 4096 4224 (demo_heap2, {(4104, 16)})"
proof -
  have "heap_step ((fst demo_heap1, snd demo_heap1), {(4104, 16)}) (demo_heap2, {(4104, 16)})"
    unfolding demo_heap2_def by (rule heap_step_write [of "(4104, 16)"]) (simp_all add: user_area_def)
  then show ?thesis using heap_reach_step [OF demo_heap_reach1] by simp
qed

lemma demo_heap_two: "\<exists>s. heap_reach 4096 4224 (s, {(4136, 16), (4104, 16)})"
proof -
  have "is_ok (heap_alloc demo_heap1 demo_lay)" "fst (the_ok (heap_alloc demo_heap1 demo_lay)) = 4136"
    by code_simp+
  then have "heap_alloc demo_heap1 demo_lay = Ok (4136, snd (the_ok (heap_alloc demo_heap1 demo_lay)))"
    by (metis is_okD prod.collapse)
  from heap_reach_step [OF demo_heap_reach1 heap_step_alloc [OF demo_layouts(1) this]]
  show ?thesis by (intro exI) (simp add: demo_lay_def)
qed

section \<open>Properties\<close>

text \<open>
  C2. Memory safety of the heap: in every state its clients can reach with layouts of alignment at
  most 8, the user area of every live allocation lies inside the region the heap was given, without
  wrapping around the address space, and no two of them overlap.
\<close>

theorem heap_allocations_disjoint:
  assumes "heap_reach st en (s, L)"
  shows "(\<forall>x\<in>L. user_area x \<subseteq> {unat st..<unat en} \<and> unat (fst x) + unat (snd x) < 2 ^ 32) \<and>
    (\<forall>x\<in>L. \<forall>y\<in>L. x \<noteq> y \<longrightarrow> user_area x \<inter> user_area y = {})"
proof -
  have inv: "heap_inv st en s L" using heap_reach_inv [OF assms] by simp
  then obtain b m F where M: "machine_inv 5 st en (b, m) F (blk m ` fst ` L)"
    and F: "buddy_inv 5 (b, m) F (blk m ` fst ` L)" and inj: "inj_on fst L"
    and sz: "\<And>p n. (p, n) \<in> L \<Longrightarrow> 8 \<le> unat p \<and> unat n + 8 \<le> bsize 5 (snd (blk m p))"
    by (rule heap_invE) auto
  have area: "user_area (p, n) \<subseteq> extent 5 (blk m p)" if "(p, n) \<in> L" for p n
    using user_area_extent [of p n m] sz [OF that] by blast
  have "cover 5 (blk m ` fst ` L) \<subseteq> {round_up 5 (unat st)..<round_down 5 (unat en)}"
    using M by (auto simp: machine_inv_def cover_def)
  then have inside: "user_area x \<subseteq> {unat st..<unat en}" if "x \<in> L" for x
    using area [of "fst x" "snd x"] that round_up_ge [of "unat st" 5] round_down_le [of 5 "unat en"]
    by (fastforce simp: cover_def)
  have "user_area x \<inter> user_area y = {}" if xy: "x \<in> L" "y \<in> L" "x \<noteq> y" for x y
  proof -
    have "fst x \<noteq> fst y" using inj xy by (auto dest: inj_onD)
    then have "extent 5 (blk m (fst x)) \<inter> extent 5 (blk m (fst y)) = {}"
      using heap_blocks_disjoint [OF F] xy by (metis prod.collapse)
    then show ?thesis using area [of "fst x" "snd x"] area [of "fst y" "snd y"] xy by auto
  qed
  then show ?thesis using heap_area_bound [OF inv] inside by auto
qed

theorem heap_allocations_disjoint_witness:
  "user_area (4136, 16) \<inter> user_area (4104, 16) = {} \<and> user_area (4136, 16) \<subseteq> {4096..<4224}"
proof -
  obtain s where "heap_reach 4096 4224 (s, {(4136, 16), (4104, 16)})" using demo_heap_two by blast
  from heap_allocations_disjoint [OF this] show ?thesis by auto
qed

text \<open>
  C16. \<^verbatim>\<open>GlobalAlloc::alloc\<close> in a reachable state, for a non-empty layout of alignment at most 8.
  It runs forever exactly when the size and the header exceed half the address space, and otherwise
  panics (out of memory) exactly when the heap has no room: no aligned run of unused bytes of the
  region that could be a block and would hold header and allocation.  In all other cases it returns
  a new aligned pointer, not null, and leaves every live allocation's bytes alone.
\<close>

theorem heap_alloc_correct:
  assumes "heap_reach st en (s, L)" "heap_layout lay"
  shows "(heap_alloc s lay = Diverge \<longleftrightarrow> 2 ^ 31 < unat (lay_size lay) + 8) \<and>
    (heap_alloc s lay = Panic \<longleftrightarrow> unat (lay_size lay) + 8 \<le> 2 ^ 31 \<and> \<not> heap_room st en s L lay) \<and>
    (unat (lay_size lay) + 8 \<le> 2 ^ 31 \<and> heap_room st en s L lay \<longrightarrow>
      (\<exists>p s'. heap_alloc s lay = Ok (p, s') \<and> p \<noteq> 0 \<and> p \<notin> fst ` L \<and> unat (lay_align lay) dvd unat p \<and>
         heap_reach st en (s', insert (p, lay_size lay) L) \<and> live_kept L s s'))"
proof -
  have inv: "heap_inv st en s L" using heap_reach_inv [OF assms(1)] by simp
  show ?thesis
  proof (cases rule: heap_alloc_cases [OF inv assms(2)])
    case (3 p s')
    then show ?thesis using heap_reach_step [OF assms(1) heap_step_alloc [OF assms(2) 3(3)]] by simp
  qed simp_all
qed

theorem heap_alloc_correct_witness:
  "\<exists>p s'. heap_alloc demo_heap demo_lay = Ok (p, s') \<and> p \<noteq> 0 \<and> heap_reach 4096 4224 (s', {(p, lay_size demo_lay)})"
proof -
  have "room 5 4096 4224 {} 24"
    unfolding room_def
    by (intro exI [of _ 0] conjI exI [of _ 4096]) (auto simp: bsize_def cover_def round_up_def round_down_def)
  then have "heap_room 4096 4224 demo_heap {} demo_lay" by (simp add: heap_room_def demo_lay_def)
  then show ?thesis using heap_alloc_correct [OF demo_heap_reach demo_layouts(1)] by (auto simp: demo_lay_def)
qed

text \<open>
  C15. \<^verbatim>\<open>realloc\<close> of a live allocation that returns: the new pointer is fresh, the first
  \<^verbatim>\<open>min(old_size, new_size)\<close> bytes are those of the old allocation, every other live allocation
  keeps its bytes, and the old allocation is no longer live.
\<close>

theorem heap_realloc_correct:
  assumes "heap_reach st en (s, L)" "(p, lay_size old) \<in> L"
    and "heap_layout \<lparr>lay_size = n, lay_align = lay_align old\<rparr>" "heap_realloc s p old n = Ok (q, s')"
  shows "q \<notin> fst ` L \<and> heap_reach st en (s', insert (q, n) (L - {(p, lay_size old)})) \<and>
    live_kept (L - {(p, lay_size old)}) s s' \<and>
    (\<forall>i. unat i < unat (min (lay_size old) n) \<longrightarrow> snd s' (q + i) = snd s (p + i))"
proof -
  have inv: "heap_inv st en s L" using heap_reach_inv [OF assms(1)] by simp
  have "heap_reach st en (s', insert (q, n) (L - {(p, lay_size old)}))"
    by (rule heap_reach_step [OF assms(1) heap_step_realloc [OF assms(2-4)]])
  then show ?thesis using heap_realloc_Ok [OF inv assms(2) refl assms(3,4)] by blast
qed

theorem heap_realloc_correct_witness:
  "snd demo_heap3 (4136 + 9) = snd demo_heap2 (4104 + 9)"
proof -
  have "\<forall>i. unat i < 16 \<longrightarrow> snd demo_heap3 (4136 + i) = snd demo_heap2 (4104 + i)"
    using heap_realloc_correct [OF demo_heap_reach2 _ demo_layouts(2) demo_heap_realloc]
    by (simp add: demo_lay_def)
  then have "unat (9 :: u32) < 16 \<longrightarrow> snd demo_heap3 (4136 + 9) = snd demo_heap2 (4104 + 9)" by (rule spec)
  then show ?thesis by simp
qed

end
