(* ===== verification/Irq_Mutex.thy ===== *)
theory Irq_Mutex
  imports Prelude
begin

text \<open>
  Interrupt masking (\<^verbatim>\<open>common/src/sync/irq.rs\<close> with its implementations
  \<^verbatim>\<open>kernel/src/arch/x86/interrupt/mod.rs\<close> and \<^verbatim>\<open>kernel/src/arch/arm/interrupt/mod.rs\<close>) and the
  interrupt-safe mutex built on it (\<^verbatim>\<open>common/src/sync/irq_mutex.rs\<close>).  The CPU is its flags
  register; the mutex of the \<^verbatim>\<open>spin\<close> crate is a parameter.
\<close>

section \<open>Interrupt control\<close>

definition IF_BIT :: u16 where
  "IF_BIT = push_bit 9 1"

definition x86_disable :: "u16 \<Rightarrow> u16" where
  "x86_disable flags = flags AND NOT IF_BIT"

definition x86_enable :: "u16 \<Rightarrow> u16" where
  "x86_enable flags = flags OR IF_BIT"

definition x86_save_and_disable :: "u16 \<Rightarrow> bool \<times> u16" where
  "x86_save_and_disable flags = (let state = flags in (state AND IF_BIT \<noteq> 0, x86_disable flags))"

definition x86_restore :: "bool \<Rightarrow> u16 \<Rightarrow> u16" where
  "x86_restore state flags = (if state then x86_enable flags else flags)"

definition CPSR_I_BIT :: u32 where
  "CPSR_I_BIT = push_bit 7 1"

definition arm_disable :: "u32 \<Rightarrow> u32" where
  "arm_disable cpsr = cpsr OR CPSR_I_BIT"

definition arm_enable :: "u32 \<Rightarrow> u32" where
  "arm_enable cpsr = cpsr AND NOT CPSR_I_BIT"

definition arm_save_and_disable :: "u32 \<Rightarrow> bool \<times> u32" where
  "arm_save_and_disable cpsr = (cpsr AND CPSR_I_BIT = 0, arm_disable cpsr)"

definition arm_restore :: "bool \<Rightarrow> u32 \<Rightarrow> u32" where
  "arm_restore state cpsr = (if state then arm_enable cpsr else cpsr)"

text \<open>When the CPU takes interrupts.\<close>

definition x86_irqs_on :: "u16 \<Rightarrow> bool" where
  "x86_irqs_on flags = bit flags 9"

definition arm_irqs_on :: "u32 \<Rightarrow> bool" where
  "arm_irqs_on cpsr = (\<not> bit cpsr 7)"

text \<open>The contract of \<^verbatim>\<open>trait IrqControl\<close>.\<close>

locale irq_control =
  fixes irqs_on :: "'c \<Rightarrow> bool"
    and save_and_disable :: "'c \<Rightarrow> bool \<times> 'c"
    and restore :: "bool \<Rightarrow> 'c \<Rightarrow> 'c"
    and disable :: "'c \<Rightarrow> 'c"
    and enable :: "'c \<Rightarrow> 'c"
  assumes save_state: "fst (save_and_disable c) = irqs_on c"
    and save_disables: "\<not> irqs_on (snd (save_and_disable c))"
    and restore_save: "restore (irqs_on c) (snd (save_and_disable c)) = c"
    and restore_on: "irqs_on (restore st c) \<longleftrightarrow> st \<or> irqs_on c"
    and disable_off: "\<not> irqs_on (disable c)"
    and enable_on: "irqs_on (enable c)"
begin

text \<open>Nested critical sections: the inner one does not enable interrupts early.\<close>

lemma nested_sections:
  assumes "save_and_disable c = (s1, c1)" "save_and_disable c1 = (s2, c2)"
  shows "\<not> irqs_on (restore s2 c2)" and "restore s1 (restore s2 c2) = c"
proof -
  have s2: "s2 = irqs_on c1" "c2 = snd (save_and_disable c1)" using assms(2) save_state [of c1] by auto
  have off: "\<not> irqs_on c1" using save_disables [of c] assms(1) by simp
  have r2: "restore s2 c2 = c1" using restore_save [of c1] s2 by simp
  then show "\<not> irqs_on (restore s2 c2)" using off by simp
  have "s1 = irqs_on c" "c1 = snd (save_and_disable c)" using assms(1) save_state [of c] by auto
  then show "restore s1 (restore s2 c2) = c" using restore_save [of c] r2 by simp
qed

end

lemma and_single_bit:
  fixes x b :: "'a::len word"
  assumes "\<And>k. bit b k \<longleftrightarrow> k = n"
  shows "x AND b = 0 \<longleftrightarrow> \<not> bit x n"
proof
  assume "x AND b = 0"
  then have "\<not> bit (x AND b) n" by simp
  then show "\<not> bit x n" using assms by (simp add: bit_and_iff)
next
  assume "\<not> bit x n"
  then show "x AND b = 0" using assms by (intro bit_word_eqI) (auto simp: bit_and_iff)
qed

lemma bit_IF_BIT: "bit IF_BIT k \<longleftrightarrow> k = 9"
  unfolding IF_BIT_def push_bit_of_1 by (subst bit_exp_iff) auto

lemma bit_CPSR_I_BIT: "bit CPSR_I_BIT k \<longleftrightarrow> k = 7"
  unfolding CPSR_I_BIT_def push_bit_of_1 by (subst bit_exp_iff) auto

lemmas x86_irq_defs = x86_restore_def x86_save_and_disable_def x86_enable_def x86_disable_def x86_irqs_on_def
  Let_def and_single_bit [OF bit_IF_BIT]

lemmas arm_irq_defs = arm_restore_def arm_save_and_disable_def arm_enable_def arm_disable_def arm_irqs_on_def
  and_single_bit [OF bit_CPSR_I_BIT]

interpretation x86_irq: irq_control x86_irqs_on x86_save_and_disable x86_restore x86_disable x86_enable
proof
  show "x86_restore (x86_irqs_on c) (snd (x86_save_and_disable c)) = c" for c
    by (rule bit_word_eqI) (auto simp: x86_irq_defs bit_or_iff bit_and_iff bit_not_iff bit_IF_BIT)
qed (auto simp: x86_irq_defs bit_or_iff bit_and_iff bit_not_iff bit_IF_BIT)

interpretation arm_irq: irq_control arm_irqs_on arm_save_and_disable arm_restore arm_disable arm_enable
proof
  show "arm_restore (arm_irqs_on c) (snd (arm_save_and_disable c)) = c" for c
    by (rule bit_word_eqI) (auto simp: arm_irq_defs bit_or_iff bit_and_iff bit_not_iff bit_CPSR_I_BIT)
qed (auto simp: arm_irq_defs bit_or_iff bit_and_iff bit_not_iff bit_CPSR_I_BIT)

section \<open>The mutex\<close>

text \<open>What the code uses of \<^verbatim>\<open>spin::Mutex\<close>: taking the lock if it is free, and dropping a guard.\<close>

record 'm spin_ops =
  spin_try_lock :: "'m \<Rightarrow> 'm option"
  spin_unlock :: "'m \<Rightarrow> 'm"

text \<open>The documented behaviour: a lock is free or held, and only a free one can be taken.\<close>

definition spin_laws :: "'m spin_ops \<Rightarrow> ('m \<Rightarrow> bool) \<Rightarrow> bool" where
  "spin_laws sp held \<longleftrightarrow>
     (\<forall>m. held m \<longrightarrow> spin_try_lock sp m = None) \<and>
     (\<forall>m. \<not> held m \<longrightarrow> (\<exists>m'. spin_try_lock sp m = Some m' \<and> held m')) \<and>
     (\<forall>m. \<not> held (spin_unlock sp m))"

text \<open>\<^verbatim>\<open>IrqMutexGuard\<close> keeps the saved interrupt state.\<close>

record irq_mutex_guard =
  irq_state :: bool

definition irq_mutex_lock ::
  "('c \<Rightarrow> bool \<times> 'c) \<Rightarrow> 'm spin_ops \<Rightarrow> 'c \<times> 'm \<Rightarrow> (irq_mutex_guard \<times> 'c \<times> 'm) call" where
  "irq_mutex_lock save sp s =
     (case s of (c, m) \<Rightarrow>
        let (st, c') = save c in
        (case spin_try_lock sp m of
           Some m' \<Rightarrow> Ok (\<lparr>irq_state = st\<rparr>, c', m')
         | None \<Rightarrow> Diverge))"

definition irq_mutex_try_lock ::
  "('c \<Rightarrow> bool \<times> 'c) \<Rightarrow> (bool \<Rightarrow> 'c \<Rightarrow> 'c) \<Rightarrow> 'm spin_ops \<Rightarrow> 'c \<times> 'm \<Rightarrow>
   irq_mutex_guard option \<times> 'c \<times> 'm" where
  "irq_mutex_try_lock save rest sp s =
     (case s of (c, m) \<Rightarrow>
        let (st, c') = save c in
        (case spin_try_lock sp m of
           Some m' \<Rightarrow> (Some \<lparr>irq_state = st\<rparr>, c', m')
         | None \<Rightarrow> (None, rest st c', m)))"

text \<open>
  Dropping the guard, as the steps it is made of: the body of \<^verbatim>\<open>drop\<close> releases the lock with
  \<^verbatim>\<open>drop_in_place\<close> and restores the interrupt state; the compiler then drops the fields, of which
  \<^verbatim>\<open>guard\<close> is the only one with a destructor: it releases the lock again.
\<close>

datatype drop_step = DropGuard | RestoreIrqs

fun run_drop_step ::
  "(bool \<Rightarrow> 'c \<Rightarrow> 'c) \<Rightarrow> 'm spin_ops \<Rightarrow> irq_mutex_guard \<Rightarrow> drop_step \<Rightarrow> 'c \<times> 'm \<Rightarrow> 'c \<times> 'm" where
  "run_drop_step rest sp g DropGuard (c, m) = (c, spin_unlock sp m)"
| "run_drop_step rest sp g RestoreIrqs (c, m) = (rest (irq_state g) c, m)"

definition drop_body :: "drop_step list" where
  "drop_body = [DropGuard, RestoreIrqs]"

definition drop_fields :: "drop_step list" where
  "drop_fields = [DropGuard]"

definition irq_mutex_guard_drop ::
  "(bool \<Rightarrow> 'c \<Rightarrow> 'c) \<Rightarrow> 'm spin_ops \<Rightarrow> irq_mutex_guard \<Rightarrow> 'c \<times> 'm \<Rightarrow> 'c \<times> 'm" where
  "irq_mutex_guard_drop rest sp g s = fold (run_drop_step rest sp g) (drop_body @ drop_fields) s"

lemmas guard_drop_simps = irq_mutex_guard_drop_def drop_body_def drop_fields_def

context irq_control
begin

lemma section_ok:
  assumes "spin_laws sp held" "\<not> held m"
  shows "\<exists>g c' m'. irq_mutex_lock save_and_disable sp (c, m) = Ok (g, c', m') \<and> \<not> irqs_on c' \<and> held m' \<and>
    fst (irq_mutex_guard_drop restore sp g (c', m')) = c \<and>
    \<not> held (snd (irq_mutex_guard_drop restore sp g (c', m')))"
proof -
  obtain m' where m': "spin_try_lock sp m = Some m'" "held m'" using assms by (auto simp: spin_laws_def)
  obtain st c' where s: "save_and_disable c = (st, c')" by (cases "save_and_disable c")
  then have c': "st = irqs_on c" "c' = snd (save_and_disable c)" using save_state [of c] by auto
  have "irq_mutex_lock save_and_disable sp (c, m) = Ok (\<lparr>irq_state = st\<rparr>, c', m')"
    using s m'(1) by (simp add: irq_mutex_lock_def)
  moreover have "\<not> irqs_on c'" using c' save_disables by auto
  moreover have "fst (irq_mutex_guard_drop restore sp \<lparr>irq_state = st\<rparr> (c', m')) = c"
    using c' restore_save [of c] by (simp add: guard_drop_simps)
  moreover have "\<not> held (snd (irq_mutex_guard_drop restore sp \<lparr>irq_state = st\<rparr> (c', m')))"
    using assms(1) by (simp add: guard_drop_simps spin_laws_def)
  ultimately show ?thesis using m'(2) by blast
qed

lemma try_lock_held:
  assumes "spin_laws sp held" "held m"
  shows "irq_mutex_try_lock save_and_disable restore sp (c, m) = (None, c, m)"
  using assms save_state [of c] restore_save [of c]
  by (cases "save_and_disable c") (simp add: irq_mutex_try_lock_def spin_laws_def)

lemma lock_held_diverges:
  assumes "spin_laws sp held" "held m"
  shows "irq_mutex_lock save_and_disable sp (c, m) = Diverge"
  using assms by (cases "save_and_disable c") (simp add: irq_mutex_lock_def spin_laws_def)

end

section \<open>Contexts that share the mutex\<close>

text \<open>
  Several cores share the mutex.  Each has its own flags register and runs the code: it calls \<^verbatim>\<open>lock\<close>,
  and later drops the guard it got; the steps of the drop can be interleaved with what the other
  cores do.
\<close>

datatype core_state = Idle | Holds irq_mutex_guard | Drops irq_mutex_guard "drop_step list"

inductive core_step ::
  "('c \<Rightarrow> bool \<times> 'c) \<Rightarrow> (bool \<Rightarrow> 'c \<Rightarrow> 'c) \<Rightarrow> 'm spin_ops \<Rightarrow>
   (nat \<Rightarrow> core_state \<times> 'c) \<times> 'm \<Rightarrow> (nat \<Rightarrow> core_state \<times> 'c) \<times> 'm \<Rightarrow> bool" for save rest sp where
  core_lock: "w i = (Idle, c) \<Longrightarrow> irq_mutex_lock save sp (c, m) = Ok (g, c', m') \<Longrightarrow>
    core_step save rest sp (w, m) (w(i := (Holds g, c')), m')"
| core_drop: "w i = (Holds g, c) \<Longrightarrow> core_step save rest sp (w, m) (w(i := (Drops g (drop_body @ drop_fields), c)), m)"
| core_drop_step: "w i = (Drops g (x # xs), c) \<Longrightarrow> run_drop_step rest sp g x (c, m) = (c', m') \<Longrightarrow>
    core_step save rest sp (w, m) (w(i := (Drops g xs, c')), m')"
| core_done: "w i = (Drops g [], c) \<Longrightarrow> core_step save rest sp (w, m) (w(i := (Idle, c)), m)"

text \<open>A core whose drop is not interrupted runs \<^verbatim>\<open>irq_mutex_guard_drop\<close>.\<close>

lemma core_drops:
  "w i = (Drops g xs, c) \<Longrightarrow> fold (run_drop_step rest sp g) xs (c, m) = (c', m') \<Longrightarrow>
    (core_step save rest sp)\<^sup>*\<^sup>* (w, m) (w(i := (Idle, c')), m')"
proof (induction xs arbitrary: w c m)
  case Nil
  then have "c' = c" "m' = m" by simp_all
  moreover have "core_step save rest sp (w, m) (w(i := (Idle, c)), m)" using Nil(1) by (rule core_done)
  ultimately show ?case by (simp only: r_into_rtranclp [of "core_step save rest sp"])
next
  case (Cons x xs)
  obtain c1 m1 where x: "run_drop_step rest sp g x (c, m) = (c1, m1)" by fastforce
  let ?w = "w(i := (Drops g xs, c1))"
  have "core_step save rest sp (w, m) (?w, m1)" using Cons.prems(1) x by (rule core_drop_step)
  moreover have "(core_step save rest sp)\<^sup>*\<^sup>* (?w, m1) (?w(i := (Idle, c')), m')"
    using Cons.prems(2) x by (intro Cons.IH) simp_all
  ultimately show ?case unfolding fun_upd_upd by (rule converse_rtranclp_into_rtranclp)
qed

lemma core_drop_alone:
  assumes "w i = (Holds g, c)" "irq_mutex_guard_drop rest sp g (c, m) = (c', m')"
  shows "(core_step save rest sp)\<^sup>*\<^sup>* (w, m) (w(i := (Idle, c')), m')"
proof -
  let ?w = "w(i := (Drops g (drop_body @ drop_fields), c))"
  have "core_step save rest sp (w, m) (?w, m)" using assms(1) by (rule core_drop)
  moreover have "(core_step save rest sp)\<^sup>*\<^sup>* (?w, m) (?w(i := (Idle, c')), m')"
    by (rule core_drops [OF _ assms(2) [unfolded irq_mutex_guard_drop_def]]) simp
  ultimately show ?thesis by simp
qed

text \<open>A core can take the mutex whenever it is free.\<close>

lemma core_locks:
  assumes "spin_laws sp held" "\<not> held m" "w i = (Idle, c)"
  shows "\<exists>g c' m'. core_step save rest sp (w, m) (w(i := (Holds g, c')), m')"
proof -
  obtain m' where "spin_try_lock sp m = Some m'" using assms(1,2) by (auto simp: spin_laws_def)
  moreover obtain st c' where "save c = (st, c')" by fastforce
  ultimately have "irq_mutex_lock save sp (c, m) = Ok (\<lparr>irq_state = st\<rparr>, c', m')" by (simp add: irq_mutex_lock_def)
  then show ?thesis using core_lock [of w i c save sp m] assms(3) by blast
qed

lemma drop_step_frees:
  assumes "spin_laws sp held" "w i = (Drops g (DropGuard # xs), c)"
  shows "\<exists>m'. core_step save rest sp (w, m) (w(i := (Drops g xs, c)), m') \<and> \<not> held m'"
proof -
  have "core_step save rest sp (w, m) (w(i := (Drops g xs, c)), spin_unlock sp m)"
    using assms(2) by (rule core_drop_step) simp
  then show ?thesis using assms(1) by (auto simp: spin_laws_def)
qed

section \<open>Properties\<close>

text \<open>The spin mutex as a boolean, for concrete runs.\<close>

definition bool_spin :: "bool spin_ops" where
  "bool_spin = \<lparr>spin_try_lock = (\<lambda>m. if m then None else Some True), spin_unlock = (\<lambda>_. False)\<rparr>"

lemma bool_spin_laws: "spin_laws bool_spin id"
  by (auto simp: spin_laws_def bool_spin_def)

text \<open>
  C9. The critical section of an \<^verbatim>\<open>IrqMutex\<close>, on x86 and on ARM: taking a free mutex succeeds
  and leaves interrupts masked and the lock held; dropping the guard restores exactly the flags
  the caller had and leaves the lock free; \<^verbatim>\<open>try_lock\<close> on a held mutex changes nothing, neither
  the flags nor the lock.
\<close>

theorem irq_mutex_section:
  assumes "spin_laws sp held" "\<not> held m" "held h"
  shows "(\<exists>g c' m'. irq_mutex_lock x86_save_and_disable sp (c, m) = Ok (g, c', m') \<and> \<not> x86_irqs_on c' \<and>
      held m' \<and> fst (irq_mutex_guard_drop x86_restore sp g (c', m')) = c \<and>
      \<not> held (snd (irq_mutex_guard_drop x86_restore sp g (c', m')))) \<and>
    irq_mutex_try_lock x86_save_and_disable x86_restore sp (c, h) = (None, c, h) \<and>
    (\<exists>g d' m'. irq_mutex_lock arm_save_and_disable sp (d, m) = Ok (g, d', m') \<and> \<not> arm_irqs_on d' \<and>
      held m' \<and> fst (irq_mutex_guard_drop arm_restore sp g (d', m')) = d \<and>
      \<not> held (snd (irq_mutex_guard_drop arm_restore sp g (d', m')))) \<and>
    irq_mutex_try_lock arm_save_and_disable arm_restore sp (d, h) = (None, d, h)"
  using x86_irq.try_lock_held [OF assms(1,3), of c] arm_irq.try_lock_held [OF assms(1,3), of d]
    x86_irq.section_ok [OF assms(1,2), of c] arm_irq.section_ok [OF assms(1,2), of d]
  by blast

theorem irq_mutex_section_witness:
  "\<exists>g c' m'. irq_mutex_lock x86_save_and_disable bool_spin (0x202, False) = Ok (g, c', m') \<and> \<not> x86_irqs_on c' \<and>
    fst (irq_mutex_guard_drop x86_restore bool_spin g (c', m')) = 0x202"
  using irq_mutex_section [OF bool_spin_laws, of False True "0x202" 0] by auto

text \<open>
  C19. Because the guard's drop releases the lock twice, mutual exclusion fails.  Of any number of
  cores that lock and drop, two can hold the mutex at the same time: the first is interrupted in its
  drop after the first release, the second takes the mutex, the first goes on with the second
  release, which frees the mutex under the second, and takes it again.
\<close>

theorem irq_mutex_double_release:
  assumes L: "spin_laws sp held" and m: "\<not> held m" and ij: "i \<noteq> j"
  shows "\<exists>w' m' g h. (core_step x86_save_and_disable x86_restore sp)\<^sup>*\<^sup>* (\<lambda>n. (Idle, flags n), m) (w', m') \<and>
    fst (w' i) = Holds g \<and> fst (w' j) = Holds h"
proof -
  let ?S = "core_step x86_save_and_disable x86_restore sp" and ?w0 = "\<lambda>n. (Idle, flags n)"
  note lock = core_locks [OF L, where save = x86_save_and_disable and rest = x86_restore]
    and free = drop_step_frees [OF L, where save = x86_save_and_disable and rest = x86_restore]
  obtain g c m1 where 1: "?S (?w0, m) (?w0(i := (Holds g, c)), m1)" using lock [OF m, of ?w0 i] by blast
  let ?w2 = "?w0(i := (Drops g [DropGuard, RestoreIrqs, DropGuard], c))"
  have 2: "?S (?w0(i := (Holds g, c)), m1) (?w2, m1)"
    using core_drop [of "?w0(i := (Holds g, c))" i g c x86_save_and_disable x86_restore sp m1] by (simp add: drop_body_def drop_fields_def)
  let ?w3 = "?w0(i := (Drops g [RestoreIrqs, DropGuard], c))"
  obtain m3 where 3: "?S (?w2, m1) (?w3, m3)" "\<not> held m3" using free [of ?w2 i g _ c m1] by auto
  obtain h d m4 where 4: "?S (?w3, m3) (?w3(j := (Holds h, d)), m4)" using lock [OF 3(2), of ?w3 j] ij by auto
  let ?w5 = "?w0(i := (Drops g [DropGuard], x86_restore (irq_state g) c), j := (Holds h, d))"
  have 5: "?S (?w3(j := (Holds h, d)), m4) (?w5, m4)"
    using core_drop_step [of "?w3(j := (Holds h, d))" i g RestoreIrqs "[DropGuard]" c x86_restore sp m4] ij by (simp add: fun_upd_twist)
  let ?w6 = "?w0(i := (Drops g [], x86_restore (irq_state g) c), j := (Holds h, d))"
  obtain m6 where 6: "?S (?w5, m4) (?w6, m6)" "\<not> held m6"
    using free [of ?w5 i g _ "x86_restore (irq_state g) c" m4] ij by (auto simp: fun_upd_twist)
  let ?w7 = "?w0(i := (Idle, x86_restore (irq_state g) c), j := (Holds h, d))"
  have 7: "?S (?w6, m6) (?w7, m6)" using core_done [of ?w6 i g "x86_restore (irq_state g) c" x86_save_and_disable x86_restore sp m6] ij by (simp add: fun_upd_twist)
  obtain g' c' m8 where 8: "?S (?w7, m6) (?w7(i := (Holds g', c')), m8)" using lock [OF 6(2), of ?w7 i] ij by auto
  have "?S\<^sup>*\<^sup>* (?w0, m) (?w7(i := (Holds g', c')), m8)"
    using 1 2 3(1) 4 5 6(1) 7 8 by (meson converse_rtranclp_into_rtranclp rtranclp.rtrancl_refl)
  then show ?thesis using ij by (intro exI conjI) auto
qed

theorem irq_mutex_double_release_witness:
  "\<exists>w' m' g h. (core_step x86_save_and_disable x86_restore bool_spin)\<^sup>*\<^sup>* (\<lambda>n. (Idle, 0x202), False) (w', m') \<and>
    fst (w' 0) = Holds g \<and> fst (w' 1) = Holds h"
  using irq_mutex_double_release [OF bool_spin_laws, of False 0 1 "\<lambda>_. 0x202"] by simp

end
