(* ===== verification/Scheduler.thy ===== *)
theory Scheduler
  imports Prelude
begin

text \<open>
  The scheduler (\<^verbatim>\<open>kernel/src/process/sched/scheduler.rs\<close>): the ready queues of process ids and the
  choice of the next process.  A \<^verbatim>\<open>VecDeque\<close> is a list with its front first.
\<close>

section \<open>State and operations\<close>

definition HIGH_QUANTA :: u32 where
  "HIGH_QUANTA = 3"

definition MID_QUANTA :: u32 where
  "MID_QUANTA = 2"

definition LOW_QUANTA :: u32 where
  "LOW_QUANTA = 1"

datatype pid = Pid u32

record scheduler_inner =
  realtime_queue :: "pid list"
  high_queue :: "pid list"
  mid_queue :: "pid list"
  low_queue :: "pid list"
  schedule_cycle :: u32
  time_slice :: u32

definition pop_front :: "'a list \<Rightarrow> 'a option \<times> 'a list" where
  "pop_front q = (case q of [] \<Rightarrow> (None, []) | x # xs \<Rightarrow> (Some x, xs))"

definition fallback :: "scheduler_inner \<Rightarrow> pid option" where
  "fallback s = None"

definition schedule :: "scheduler_inner \<Rightarrow> pid option \<times> scheduler_inner" where
  "schedule s =
     (case pop_front (realtime_queue s) of
        (Some pid, q) \<Rightarrow> (Some pid, s\<lparr>realtime_queue := q\<rparr>)
      | (None, _) \<Rightarrow>
          let step = schedule_cycle s mod (HIGH_QUANTA + MID_QUANTA + LOW_QUANTA);
              s1 = s\<lparr>schedule_cycle := schedule_cycle s + 1\<rparr> in
          if step < HIGH_QUANTA then
            let (r, q) = pop_front (high_queue s); s2 = s1\<lparr>high_queue := q\<rparr> in (or_else r (fallback s2), s2)
          else if step < MID_QUANTA then
            let (r, q) = pop_front (mid_queue s); s2 = s1\<lparr>mid_queue := q\<rparr> in (or_else r (fallback s2), s2)
          else
            let (r, q) = pop_front (low_queue s); s2 = s1\<lparr>low_queue := q\<rparr> in (or_else r (fallback s2), s2))"

text \<open>A run of \<open>n\<close> scheduling decisions, with the processes chosen.\<close>

fun schedule_run :: "nat \<Rightarrow> scheduler_inner \<Rightarrow> pid option list \<times> scheduler_inner" where
  "schedule_run 0 s = ([], s)"
| "schedule_run (Suc n) s =
     (case schedule s of (r, s1) \<Rightarrow> case schedule_run n s1 of (rs, s2) \<Rightarrow> (r # rs, s2))"

section \<open>Lemmas\<close>

lemma pop_front_simps [simp]: "pop_front [] = (None, [])" "pop_front (x # xs) = (Some x, xs)"
  by (simp_all add: pop_front_def)

lemma pop_front_set: "pop_front q = (Some x, q') \<Longrightarrow> q = x # q'"
  by (cases q) auto

lemma quanta_sum [simp]: "HIGH_QUANTA + MID_QUANTA + LOW_QUANTA = 6"
  by (simp add: HIGH_QUANTA_def MID_QUANTA_def LOW_QUANTA_def)

lemma mid_branch_dead: "\<not> step < HIGH_QUANTA \<Longrightarrow> \<not> step < MID_QUANTA"
  by (simp add: HIGH_QUANTA_def MID_QUANTA_def word_less_nat_alt)

text \<open>Every queue except the middle one loses at most its front process.\<close>

lemma schedule_cases:
  obtains (rt) p q where "realtime_queue s = p # q" "schedule s = (Some p, s\<lparr>realtime_queue := q\<rparr>)"
  | (high) "realtime_queue s = []" "schedule_cycle s mod 6 < 3"
      "schedule s = (fst (pop_front (high_queue s)),
        s\<lparr>schedule_cycle := schedule_cycle s + 1, high_queue := snd (pop_front (high_queue s))\<rparr>)"
  | (low) "realtime_queue s = []" "\<not> schedule_cycle s mod 6 < 3"
      "schedule s = (fst (pop_front (low_queue s)),
        s\<lparr>schedule_cycle := schedule_cycle s + 1, low_queue := snd (pop_front (low_queue s))\<rparr>)"
proof -
  have oe: "or_else r (fallback s') = r" for r s' by (cases r) (simp_all add: or_else_def fallback_def)
  show thesis
  proof (cases "realtime_queue s")
    case (Cons p q)
    then show thesis by (intro rt) (simp_all add: schedule_def)
  next
    case Nil
    show thesis
    proof (cases "schedule_cycle s mod 6 < 3")
      case True
      then have "schedule_cycle s mod 6 < HIGH_QUANTA" by (simp add: HIGH_QUANTA_def)
      then show thesis using Nil True by (intro high) (simp_all add: schedule_def Let_def oe case_prod_beta)
    next
      case False
      then have "\<not> schedule_cycle s mod 6 < HIGH_QUANTA" by (simp add: HIGH_QUANTA_def)
      then show thesis using Nil False mid_branch_dead
        by (intro low) (simp_all add: schedule_def Let_def oe case_prod_beta)
    qed
  qed
qed

lemma pop_front_subset: "set (snd (pop_front q)) \<subseteq> set q" "fst (pop_front q) = Some x \<Longrightarrow> x \<in> set q"
  by (cases q; auto)+

text \<open>One decision keeps the middle queue and chooses from the other three.\<close>

lemma schedule_step:
  assumes "schedule s = (r, s')"
  defines "ready \<equiv> \<lambda>t. set (realtime_queue t) \<union> set (high_queue t) \<union> set (low_queue t)"
  shows "mid_queue s' = mid_queue s" and "ready s' \<subseteq> ready s" and "r = Some p \<Longrightarrow> p \<in> ready s"
  using assms(1) pop_front_subset [of "high_queue s"] pop_front_subset [of "low_queue s"]
  by (cases rule: schedule_cases [of s]; auto simp: ready_def)+

section \<open>Properties\<close>

definition demo_sched :: scheduler_inner where
  "demo_sched = \<lparr>realtime_queue = [], high_queue = [Pid 1], mid_queue = [Pid 2], low_queue = [Pid 3],
     schedule_cycle = 0, time_slice = 0\<rparr>"

text \<open>
  Real-time processes have strict priority: a run serves the whole real-time queue first, in
  its order, and meanwhile neither the other queues nor the cycle counter change.
\<close>

lemma realtime_served_first:
  "schedule_run (length (realtime_queue s)) s = (map Some (realtime_queue s), s\<lparr>realtime_queue := []\<rparr>)"
proof (induction "realtime_queue s" arbitrary: s)
  case Nil
  then show ?case by (cases s) simp
next
  case (Cons p q)
  let ?s = "s\<lparr>realtime_queue := q\<rparr>"
  have "schedule s = (Some p, ?s)" using Cons.hyps(2) by (simp add: schedule_def flip: Cons.hyps(2))
  moreover have "schedule_run (length q) ?s = (map Some q, ?s\<lparr>realtime_queue := []\<rparr>)"
    using Cons.hyps(1) [of ?s] by simp
  ultimately show ?case by (simp flip: Cons.hyps(2))
qed

text \<open>
  C20. The middle queue starves: however long the scheduler runs and whatever the queues hold,
  it never takes a process from \<^verbatim>\<open>mid_queue\<close>, and every process it chooses comes from the other
  three queues (the intended share is 3:2:1).
\<close>

theorem mid_queue_starves:
  "mid_queue (snd (schedule_run n s)) = mid_queue s \<and>
   (\<forall>p. Some p \<in> set (fst (schedule_run n s)) \<longrightarrow>
      p \<in> set (realtime_queue s) \<union> set (high_queue s) \<union> set (low_queue s))"
proof (induction n arbitrary: s)
  case (Suc n)
  obtain r s1 where 1: "schedule s = (r, s1)" by (cases "schedule s")
  obtain rs s2 where 2: "schedule_run n s1 = (rs, s2)" by (cases "schedule_run n s1")
  note st = schedule_step [OF 1]
  from Suc.IH [of s1] 2 have IH: "mid_queue s2 = mid_queue s1"
    "\<And>p. Some p \<in> set rs \<Longrightarrow> p \<in> set (realtime_queue s1) \<union> set (high_queue s1) \<union> set (low_queue s1)"
    by auto
  have "p \<in> set (realtime_queue s) \<union> set (high_queue s) \<union> set (low_queue s)" if "Some p \<in> set (r # rs)" for p
    using that st(2) st(3) [of p] IH(2) [of p] by auto
  then show ?case using 1 2 IH(1) st(1) by simp
qed simp

theorem mid_queue_starves_witness:
  "mid_queue (snd (schedule_run 60 demo_sched)) = [Pid 2] \<and> Some (Pid 2) \<notin> set (fst (schedule_run 60 demo_sched))"
  using mid_queue_starves [of 60 demo_sched] by (auto simp: demo_sched_def)

end
