(* ===== verification/Fs_File.thy ===== *)
theory Fs_File
  imports Prelude
begin

text \<open>
  Files and open flags (\<^verbatim>\<open>kernel/src/fs/file.rs\<close>), the errors of the file layer
  (\<^verbatim>\<open>kernel/src/fs/mod.rs\<close>, \<^verbatim>\<open>kernel/src/fs/fd.rs\<close>) and file descriptors with their table
  (\<^verbatim>\<open>kernel/src/fs/fd.rs\<close>).  A \<^verbatim>\<open>dyn File\<close> is a record of its methods over the state \<open>'w\<close> of the
  devices behind it; a buffer is the list of its bytes and a read returns the buffer it leaves.
\<close>

section \<open>Files\<close>

datatype fd_error = BadFd | TooManyFiles | FdIoError | InvalidSeek | FdNotSupported | FdPermissionDenied | FdOther string

datatype fs_error = NotFound | AlreadyExists | NotADirectory | IsADirectory | PermissionDenied | NotSupported | IoError | Unknown

fun fs_error_from :: "fd_error \<Rightarrow> fs_error" where
  "fs_error_from BadFd = NotFound"
| "fs_error_from FdIoError = IoError"
| "fs_error_from FdNotSupported = NotSupported"
| "fs_error_from FdPermissionDenied = PermissionDenied"
| "fs_error_from _ = Unknown"

fun fd_error_display :: "fd_error \<Rightarrow> string" where
  "fd_error_display BadFd = ''bad file descriptor''"
| "fd_error_display TooManyFiles = ''too many open files''"
| "fd_error_display FdIoError = ''I/O error''"
| "fd_error_display InvalidSeek = ''invalid seek''"
| "fd_error_display FdNotSupported = ''operation not supported''"
| "fd_error_display FdPermissionDenied = ''permission denied''"
| "fd_error_display (FdOther code) = ''unknown error: '' @ code"

datatype file_type = Regular | Directory | CharDevice | BlockDevice | Symlink | Pipe | Socket

definition is_regular :: "file_type \<Rightarrow> bool" where
  "is_regular t = (case t of Regular \<Rightarrow> True | _ \<Rightarrow> False)"

definition is_dir :: "file_type \<Rightarrow> bool" where
  "is_dir t = (case t of Directory \<Rightarrow> True | _ \<Rightarrow> False)"

definition is_device :: "file_type \<Rightarrow> bool" where
  "is_device t = (case t of CharDevice \<Rightarrow> True | BlockDevice \<Rightarrow> True | _ \<Rightarrow> False)"

definition is_char_device :: "file_type \<Rightarrow> bool" where
  "is_char_device t = (case t of CharDevice \<Rightarrow> True | _ \<Rightarrow> False)"

definition is_block_device :: "file_type \<Rightarrow> bool" where
  "is_block_device t = (case t of BlockDevice \<Rightarrow> True | _ \<Rightarrow> False)"

fun file_type_to_char :: "file_type \<Rightarrow> char" where
  "file_type_to_char Regular = CHR ''-''"
| "file_type_to_char Directory = CHR ''d''"
| "file_type_to_char CharDevice = CHR ''c''"
| "file_type_to_char BlockDevice = CHR ''b''"
| "file_type_to_char Symlink = CHR ''l''"
| "file_type_to_char Pipe = CHR ''p''"
| "file_type_to_char Socket = CHR ''s''"

fun file_type_display :: "file_type \<Rightarrow> string" where
  "file_type_display Regular = ''regular file''"
| "file_type_display Directory = ''directory''"
| "file_type_display CharDevice = ''character device''"
| "file_type_display BlockDevice = ''block device''"
| "file_type_display Symlink = ''symbolic link''"
| "file_type_display Pipe = ''named pipe''"
| "file_type_display Socket = ''socket''"

datatype seek_whence = Start | Current | End

record file_stat =
  st_size :: u32
  st_type :: file_type
  st_name :: string

record 'w file_ops =
  fo_read :: "u8 list \<Rightarrow> u32 \<Rightarrow> 'w \<Rightarrow> (u32 \<times> u8 list, fd_error) outcome \<times> 'w"
  fo_write :: "u8 list \<Rightarrow> u32 \<Rightarrow> 'w \<Rightarrow> (u32, fd_error) outcome \<times> 'w"
  fo_stat :: "'w \<Rightarrow> (file_stat, fd_error) outcome"

text \<open>The trait's default \<^verbatim>\<open>stat\<close>.\<close>

definition default_stat :: "'w \<Rightarrow> (file_stat, fd_error) outcome" where
  "default_stat w = Err FdNotSupported"

section \<open>File descriptors\<close>

definition CLOEXEC :: u32 where "CLOEXEC = 1"

definition ACC_READ :: u32 where "ACC_READ = 1"
definition ACC_WRITE :: u32 where "ACC_WRITE = 2"
definition ACC_APPEND :: u32 where "ACC_APPEND = 4"

definition RDONLY :: u32 where "RDONLY = ACC_READ"
definition WRONLY :: u32 where "WRONLY = ACC_WRITE"
definition RDWR :: u32 where "RDWR = ACC_READ OR ACC_WRITE"
definition APPEND_MODE :: u32 where "APPEND_MODE = ACC_WRITE OR ACC_APPEND"

text \<open>\<^verbatim>\<open>contains\<close> of a \<^verbatim>\<open>bitflags\<close> type.\<close>

definition has_flags :: "u32 \<Rightarrow> u32 \<Rightarrow> bool" where
  "has_flags x f \<longleftrightarrow> x AND f = f"

datatype fd = Fd (fd_num: u32)

definition STDIN :: fd where "STDIN = Fd 0"
definition STDOUT :: fd where "STDOUT = Fd 1"
definition STDERR :: fd where "STDERR = Fd 2"

definition is_standard :: "fd \<Rightarrow> bool" where
  "is_standard f \<longleftrightarrow> f = STDIN \<or> f = STDOUT \<or> f = STDERR"

record 'w file_descriptor =
  fde_file :: "'w file_ops"
  fde_flags :: u32
  fde_access :: u32
  fde_offset :: u32

definition file_descriptor_new :: "'w file_ops \<Rightarrow> u32 \<Rightarrow> u32 \<Rightarrow> 'w file_descriptor" where
  "file_descriptor_new f flags access =
     \<lparr>fde_file = f, fde_flags = flags, fde_access = access, fde_offset = 0\<rparr>"

text \<open>A method of a descriptor returns its result, the descriptor and the devices.\<close>

definition fd_read ::
  "'w file_descriptor \<Rightarrow> u8 list \<Rightarrow> 'w \<Rightarrow> (u32 \<times> u8 list, fd_error) outcome \<times> 'w file_descriptor \<times> 'w" where
  "fd_read d buf w =
     (if \<not> has_flags (fde_access d) ACC_READ then (Err FdPermissionDenied, d, w)
      else
        case fo_read (fde_file d) buf (fde_offset d) w of
          (Ok (n, buf'), w') \<Rightarrow> (Ok (n, buf'), d\<lparr>fde_offset := fde_offset d + n\<rparr>, w')
        | (r, w') \<Rightarrow> (r, d, w'))"

definition fd_write ::
  "'w file_descriptor \<Rightarrow> u8 list \<Rightarrow> 'w \<Rightarrow> (u32, fd_error) outcome \<times> 'w file_descriptor \<times> 'w" where
  "fd_write d buf w =
     (if \<not> has_flags (fde_access d) ACC_WRITE then (Err FdPermissionDenied, d, w)
      else
        let go = (\<lambda>d. case fo_write (fde_file d) buf (fde_offset d) w of
                        (Ok n, w') \<Rightarrow> (Ok n, d\<lparr>fde_offset := fde_offset d + n\<rparr>, w')
                      | (r, w') \<Rightarrow> (r, d, w')) in
        if has_flags (fde_access d) ACC_APPEND then
          (case fo_stat (fde_file d) w of
             Ok st \<Rightarrow> go (d\<lparr>fde_offset := st_size st\<rparr>)
           | Err e \<Rightarrow> (Err e, d, w)
           | Panic \<Rightarrow> (Panic, d, w)
           | Diverge \<Rightarrow> (Diverge, d, w))
        else go d)"

text \<open>\<^verbatim>\<open>x.max(0) as usize\<close> for an \<^verbatim>\<open>isize\<close>.\<close>

definition max0 :: "u32 \<Rightarrow> u32" where
  "max0 x = (if sint x < 0 then 0 else x)"

definition fd_seek ::
  "'w file_descriptor \<Rightarrow> seek_whence \<Rightarrow> u32 \<Rightarrow> 'w \<Rightarrow> (u32, fd_error) outcome \<times> 'w file_descriptor" where
  "fd_seek d whence offset w =
     (let new_offset =
        (case whence of
           Start \<Rightarrow> Ok (max0 offset)
         | Current \<Rightarrow> Ok (max0 (fde_offset d + offset))
         | End \<Rightarrow> obind (fo_stat (fde_file d) w) (\<lambda>st. Ok (max0 (st_size st + offset)))) in
      case new_offset of
        Ok n \<Rightarrow> (Ok n, d\<lparr>fde_offset := n\<rparr>)
      | Err e \<Rightarrow> (Err e, d)
      | Panic \<Rightarrow> (Panic, d)
      | Diverge \<Rightarrow> (Diverge, d))"

definition set_cloexec :: "'w file_descriptor \<Rightarrow> bool \<Rightarrow> 'w file_descriptor" where
  "set_cloexec d enabled =
     d\<lparr>fde_flags := (if enabled then fde_flags d OR CLOEXEC else fde_flags d AND NOT CLOEXEC)\<rparr>"

section \<open>The descriptor table\<close>

type_synonym 'w fd_table = "'w file_descriptor option list"

text \<open>The new table of a process, given its console file.\<close>

definition fd_table_new :: "'w file_ops \<Rightarrow> 'w fd_table" where
  "fd_table_new stdio =
     [Some (file_descriptor_new stdio 0 RDONLY), Some (file_descriptor_new stdio 0 WRONLY),
      Some (file_descriptor_new stdio 0 WRONLY)]"

fun first_free :: "'a option list \<Rightarrow> nat option" where
  "first_free [] = None"
| "first_free (None # xs) = Some 0"
| "first_free (Some x # xs) = map_option Suc (first_free xs)"

definition fd_alloc ::
  "'w fd_table \<Rightarrow> 'w file_ops \<Rightarrow> u32 \<Rightarrow> u32 \<Rightarrow> (fd, fd_error) outcome \<times> 'w fd_table" where
  "fd_alloc t f flags access =
     (let entry = Some (file_descriptor_new f flags access) in
      case first_free t of
        Some i \<Rightarrow> (Ok (Fd (of_nat i)), t[i := entry])
      | None \<Rightarrow> (Ok (Fd (of_nat (length t))), t @ [entry]))"

definition fd_get :: "'w fd_table \<Rightarrow> fd \<Rightarrow> ('w file_descriptor, fd_error) outcome" where
  "fd_get t f =
     (let i = unat (fd_num f) in ok_or BadFd (if i < length t then t ! i else None))"

text \<open>Writing through \<^verbatim>\<open>get_mut\<close>.\<close>

definition fd_put :: "'w fd_table \<Rightarrow> fd \<Rightarrow> 'w file_descriptor \<Rightarrow> 'w fd_table" where
  "fd_put t f d = t[unat (fd_num f) := Some d]"

definition fd_close :: "'w fd_table \<Rightarrow> fd \<Rightarrow> (unit, fd_error) outcome \<times> 'w fd_table" where
  "fd_close t f =
     (let i = unat (fd_num f) in
      if length t \<le> i \<or> Option.is_none (t ! i) then (Err BadFd, t) else (Ok (), t[i := None]))"

definition fd_dup :: "'w fd_table \<Rightarrow> fd \<Rightarrow> (fd, fd_error) outcome \<times> 'w fd_table" where
  "fd_dup t oldfd =
     (case fd_get t oldfd of
        Ok e \<Rightarrow> fd_alloc t (fde_file e) (fde_flags e) (fde_access e)
      | Err x \<Rightarrow> (Err x, t)
      | Panic \<Rightarrow> (Panic, t)
      | Diverge \<Rightarrow> (Diverge, t))"

text \<open>The loop \<^verbatim>\<open>while self.fds.len() <= newfd.0 { self.fds.push(None) }\<close>.\<close>

definition pad_to :: "nat \<Rightarrow> 'a option list \<Rightarrow> 'a option list" where
  "pad_to n t = t @ replicate (Suc n - length t) None"

definition fd_dup2 :: "'w fd_table \<Rightarrow> fd \<Rightarrow> fd \<Rightarrow> (fd, fd_error) outcome \<times> 'w fd_table" where
  "fd_dup2 t oldfd newfd =
     (if oldfd = newfd then (Ok newfd, t)
      else
        case fd_get t oldfd of
          Ok e \<Rightarrow>
            (let i = unat (fd_num newfd);
                 t1 = (if i < length t \<and> \<not> Option.is_none (t ! i) then snd (fd_close t newfd) else t);
                 t2 = pad_to i t1 in
             (Ok newfd, t2[i := Some (file_descriptor_new (fde_file e) (fde_flags e) (fde_access e))]))
        | Err x \<Rightarrow> (Err x, t)
        | Panic \<Rightarrow> (Panic, t)
        | Diverge \<Rightarrow> (Diverge, t))"

definition close_on_exec :: "'w fd_table \<Rightarrow> 'w fd_table" where
  "close_on_exec t =
     map (\<lambda>slot. case slot of
            Some d \<Rightarrow> (if has_flags (fde_flags d) CLOEXEC then None else Some d)
          | None \<Rightarrow> None) t"

definition fd_count :: "'w fd_table \<Rightarrow> nat" where
  "fd_count t = length (filter (\<lambda>s. \<not> Option.is_none s) t)"

end
