(* ===== verification/Fs_Fd.thy ===== *)
theory Fs_Fd
  imports Fs_File
begin

text \<open>
  Correctness of the file-descriptor layer: the table implements a finite map from descriptor
  numbers to open files, descriptors read a file in sequence, and seeking computes the offset
  it is asked for.
\<close>

section \<open>The table as a map\<close>

definition open_fds :: "'w fd_table \<Rightarrow> nat \<rightharpoonup> 'w file_descriptor" where
  "open_fds t = (\<lambda>i. if i < length t then t ! i else None)"

lemma first_free_Some:
  "first_free t = Some i \<longleftrightarrow> i < length t \<and> t ! i = None \<and> (\<forall>j<i. t ! j \<noteq> None)"
proof (induction t arbitrary: i rule: first_free.induct)
  case (3 x xs)
  show ?case
  proof (cases i)
    case (Suc k)
    then show ?thesis using 3 [of k] by (auto simp: less_Suc_eq_0_disj)
  qed auto
next
  case (2 xs)
  show ?case by (cases i) auto
qed simp

lemma first_free_None: "first_free t = None \<longleftrightarrow> (\<forall>j<length t. t ! j \<noteq> None)"
  by (induction t rule: first_free.induct) (auto simp: less_Suc_eq_0_disj)

lemma open_fds_upd: "i < length t \<Longrightarrow> open_fds (t[i := x]) = (open_fds t)(i := x)"
  by (auto simp: open_fds_def fun_eq_iff)

lemma open_fds_append: "open_fds (t @ [x]) = (open_fds t)(length t := x)"
  by (auto simp: open_fds_def fun_eq_iff nth_append)

lemma open_fds_pad: "open_fds (pad_to n t) = open_fds t"
  by (auto simp: open_fds_def pad_to_def fun_eq_iff nth_append)

lemma fd_get_open: "fd_get t f = ok_or BadFd (open_fds t (unat (fd_num f)))"
  by (simp add: fd_get_def open_fds_def Let_def)

lemma fd_alloc_open:
  assumes "length t < 2 ^ 32" "fd_alloc t f flags access = (r, t')"
  obtains i where "r = Ok (Fd (of_nat i))" "unat (of_nat i :: u32) = i" "open_fds t i = None"
    and "\<forall>j<i. open_fds t j \<noteq> None" "open_fds t' = (open_fds t)(i \<mapsto> file_descriptor_new f flags access)"
    and "length t' \<le> length t + 1"
proof (cases "first_free t")
  case None
  then show thesis
    using assms first_free_None [of t] open_fds_append [of t "Some (file_descriptor_new f flags access)"]
    by (intro that [of "length t"]) (auto simp: fd_alloc_def Let_def unat_of_nat open_fds_def)
next
  case (Some i)
  then have i: "i < length t" "t ! i = None" "\<forall>j<i. t ! j \<noteq> None" by (auto simp: first_free_Some)
  then show thesis
    using assms Some
    by (intro that [of i]) (auto simp: fd_alloc_def Let_def open_fds_upd unat_of_nat open_fds_def)
qed

lemma fd_close_open:
  "open_fds t (unat (fd_num f)) = None \<Longrightarrow> fd_close t f = (Err BadFd, t)"
  "open_fds t (unat (fd_num f)) \<noteq> None \<Longrightarrow>
     fst (fd_close t f) = Ok () \<and> open_fds (snd (fd_close t f)) = (open_fds t)(unat (fd_num f) := None)"
  by (auto simp: open_fds_def fd_close_def Let_def fun_eq_iff Option.is_none_def split: if_splits)

text \<open>The contract of a descriptor table, as its clients see it.\<close>

locale descriptor_table =
  fixes lookup :: "'t \<Rightarrow> nat \<rightharpoonup> 'd"
    and alloc :: "'t \<Rightarrow> 'a \<Rightarrow> nat \<times> 't"
    and close :: "'t \<Rightarrow> nat \<Rightarrow> bool \<times> 't"
    and entry :: "'a \<Rightarrow> 'd"
    and room :: "'t \<Rightarrow> bool"
  assumes alloc_new: "room t \<Longrightarrow> alloc t a = (n, t') \<Longrightarrow> lookup t n = None"
    and alloc_least: "room t \<Longrightarrow> alloc t a = (n, t') \<Longrightarrow> m < n \<Longrightarrow> lookup t m \<noteq> None"
    and alloc_lookup: "room t \<Longrightarrow> alloc t a = (n, t') \<Longrightarrow> lookup t' = (lookup t)(n \<mapsto> entry a)"
    and close_open: "room t \<Longrightarrow> lookup t n \<noteq> None \<Longrightarrow> close t n = (ok, t') \<Longrightarrow> ok \<and> lookup t' = (lookup t)(n := None)"
    and close_bad: "room t \<Longrightarrow> lookup t n = None \<Longrightarrow> close t n = (False, t)"
begin

text \<open>A number given back is the next one handed out, if it is the lowest free one.\<close>

lemma close_alloc_reuse:
  assumes "room t" "lookup t n \<noteq> None" "close t n = (ok, t1)" "room t1" "alloc t1 a = (k, t2)"
  shows "k \<le> n"
proof (rule ccontr)
  assume "\<not> k \<le> n"
  then have "lookup t1 n \<noteq> None" using alloc_least [OF assms(4,5)] by simp
  then show False using close_open [OF assms(1-3)] by simp
qed

lemma alloc_close:
  assumes "room t" "alloc t a = (n, t1)" "room t1" "close t1 n = (ok, t2)"
  shows "ok \<and> lookup t2 = lookup t"
proof -
  have "lookup t1 n \<noteq> None" "(lookup t1)(n := None) = lookup t"
    using alloc_lookup [OF assms(1,2)] alloc_new [OF assms(1,2)] by auto
  then show ?thesis using close_open [OF assms(3) _ assms(4)] by simp
qed

end

definition table_alloc :: "'w fd_table \<Rightarrow> 'w file_ops \<times> u32 \<times> u32 \<Rightarrow> nat \<times> 'w fd_table" where
  "table_alloc t a =
     (case a of (f, flags, access) \<Rightarrow>
        case fd_alloc t f flags access of (r, t') \<Rightarrow> (unat (fd_num (the_ok r)), t'))"

definition table_close :: "'w fd_table \<Rightarrow> nat \<Rightarrow> bool \<times> 'w fd_table" where
  "table_close t n =
     (if n < length t then case fd_close t (Fd (of_nat n)) of (r, t') \<Rightarrow> (is_ok r, t') else (False, t))"

interpretation fd_tab: descriptor_table open_fds table_alloc table_close
  "\<lambda>(f, flags, access). file_descriptor_new f flags access" "\<lambda>t. length t < 2 ^ 32"
proof
  fix t :: "'a fd_table" and a n t' m
  assume room: "length t < 2 ^ 32" and al: "table_alloc t a = (n, t')"
  obtain f flags access where a: "a = (f, flags, access)" by (cases a)
  obtain r t1 where r: "fd_alloc t f flags access = (r, t1)" by (cases "fd_alloc t f flags access")
  obtain i where i: "r = Ok (Fd (of_nat i))" "unat (of_nat i :: u32) = i" "open_fds t i = None"
    "\<forall>j<i. open_fds t j \<noteq> None" "open_fds t1 = (open_fds t)(i \<mapsto> file_descriptor_new f flags access)"
    using fd_alloc_open [OF room r] by metis
  have n: "n = i" "t' = t1" using al i r by (auto simp: table_alloc_def a)
  show "open_fds t n = None" using i n by simp
  show "m < n \<Longrightarrow> open_fds t m \<noteq> None" using i n by simp
  show "open_fds t' = (open_fds t)(n \<mapsto> (case a of (f, flags, access) \<Rightarrow> file_descriptor_new f flags access))"
    using i n a by simp
next
  fix t :: "'a fd_table" and n ok t'
  assume room: "length t < 2 ^ 32" and op: "open_fds t n \<noteq> None" and cl: "table_close t n = (ok, t')"
  have n: "n < length t" using op by (auto simp: open_fds_def split: if_splits)
  then have u: "unat (fd_num (Fd (of_nat n))) = n" using room by (simp add: unat_of_nat)
  show "ok \<and> open_fds t' = (open_fds t)(n := None)"
    using fd_close_open(2) [of t "Fd (of_nat n)", unfolded u, OF op] cl n
    by (auto simp: table_close_def split: prod.splits)
next
  fix t :: "'a fd_table" and n
  assume room: "length t < 2 ^ 32" and cl: "open_fds t n = None"
  show "table_close t n = (False, t)"
  proof (cases "n < length t")
    case True
    then have "unat (fd_num (Fd (of_nat n))) = n" using room by (simp add: unat_of_nat)
    then show ?thesis using fd_close_open(1) [of t "Fd (of_nat n)"] cl by (simp add: table_close_def)
  qed (simp add: table_close_def)
qed

section \<open>Reading in sequence\<close>

text \<open>
  A file whose contents are a byte sequence: a read at an offset inside it returns the bytes that
  are there, up to the length of the buffer, and leaves the contents as they are.
\<close>

definition read_result :: "u8 list \<Rightarrow> u8 list \<Rightarrow> nat \<Rightarrow> u32 \<times> u8 list" where
  "read_result content buf off =
     (let n = min (length buf) (length content - off) in
      (of_nat n, take n (drop off content) @ drop n buf))"

locale content_file =
  fixes fops :: "'w file_ops"
    and content :: "'w \<Rightarrow> u8 list"
    and ready :: "'w \<Rightarrow> bool"
  assumes content_small: "ready w \<Longrightarrow> length (content w) < 2 ^ 32"
    and content_read: "ready w \<Longrightarrow> unat off \<le> length (content w) \<Longrightarrow> length buf < 2 ^ 32 \<Longrightarrow>
      \<exists>w'. fo_read fops buf off w = (Ok (read_result (content w) buf (unat off)), w') \<and> ready w' \<and> content w' = content w"
begin

lemma fd_read_content:
  assumes "ready w" "fde_file d = fops" "has_flags (fde_access d) ACC_READ"
    and "unat (fde_offset d) \<le> length (content w)" "length buf < 2 ^ 32"
  obtains w' where "fd_read d buf w = (Ok (read_result (content w) buf (unat (fde_offset d))),
      d\<lparr>fde_offset := fde_offset d + of_nat (min (length buf) (length (content w) - unat (fde_offset d)))\<rparr>, w')"
    and "ready w'" "content w' = content w"
  using content_read [OF assms(1,4,5)] assms(2,3) by (auto simp: fd_read_def read_result_def Let_def)

text \<open>Two reads in a row see what one read of the joint length sees.\<close>

lemma fd_read_twice:
  assumes r: "ready w" "fde_file d = fops" "has_flags (fde_access d) ACC_READ"
    and off: "unat (fde_offset d) \<le> length (content w)" and len: "length b1 + length b2 < 2 ^ 32"
  obtains n1 n2 c1 c2 d1 d2 w1 w2 where "fd_read d b1 w = (Ok (n1, c1), d1, w1)" "fd_read d1 b2 w1 = (Ok (n2, c2), d2, w2)"
    and "ready w2" "content w2 = content w"
    and "take (unat n1) c1 @ take (unat n2) c2 =
      take (length b1 + length b2) (drop (unat (fde_offset d)) (content w))"
    and "fde_offset d2 = fde_offset d + n1 + n2"
proof -
  let ?c = "content w" and ?o = "unat (fde_offset d)"
  define k1 where "k1 = min (length b1) (length ?c - ?o)"
  define d1 where "d1 = d\<lparr>fde_offset := fde_offset d + of_nat k1\<rparr>"
  have L: "length ?c < 2 ^ 32" using content_small r(1) .
  have k1: "?o + k1 \<le> length ?c" "k1 < 2 ^ 32" using off L by (auto simp: k1_def)
  then have u1: "unat (of_nat k1 :: u32) = k1" by (simp add: unat_of_nat)
  then have o1: "unat (fde_offset d1) = ?o + k1" using k1 L by (simp add: d1_def unat_add_small)
  define k2 where "k2 = min (length b2) (length ?c - (?o + k1))"
  have u2: "unat (of_nat k2 :: u32) = k2" using L by (simp add: unat_of_nat k2_def)
  have len1: "length b1 < 2 ^ 32" and len2: "length b2 < 2 ^ 32" using len by simp_all
  obtain w1 where 1: "fd_read d b1 w = (Ok (read_result ?c b1 ?o), d1, w1)" and w1: "ready w1" "content w1 = ?c"
    using fd_read_content [OF r off len1] by (auto simp: d1_def k1_def)
  have d1: "fde_file d1 = fops" "has_flags (fde_access d1) ACC_READ" "unat (fde_offset d1) \<le> length (content w1)"
    using r o1 k1(1) w1(2) by (simp_all add: d1_def)
  obtain w2 where 2: "fd_read d1 b2 w1 = (Ok (read_result ?c b2 (?o + k1)), d1\<lparr>fde_offset := fde_offset d1 + of_nat k2\<rparr>, w2)"
    and w2: "ready w2" "content w2 = ?c"
    using fd_read_content [OF w1(1) d1 len2] w1(2) o1 by (auto simp: k2_def)
  have t1: "take k1 (take k1 (drop ?o ?c) @ drop k1 b1) = take k1 (drop ?o ?c)" using k1 by simp
  have t2: "take k2 (take k2 (drop (?o + k1) ?c) @ drop k2 b2) = take k2 (drop (?o + k1) ?c)" by (simp add: k2_def)
  have "take k1 (drop ?o ?c) @ take k2 (drop (?o + k1) ?c) = take (k1 + k2) (drop ?o ?c)"
    by (simp add: take_add add.commute)
  also have "\<dots> = take (length b1 + length b2) (drop ?o ?c)"
  proof (cases "k1 = length b1")
    case True
    then show ?thesis by (cases "k2 = length b2") (simp_all add: k2_def min_def split: if_splits)
  next
    case False
    then show ?thesis by (simp add: k1_def k2_def min_def split: if_splits)
  qed
  finally have cat: "take k1 (drop ?o ?c) @ take k2 (drop (?o + k1) ?c) = take (length b1 + length b2) (drop ?o ?c)" .
  let ?c1 = "take k1 (drop ?o ?c) @ drop k1 b1" and ?c2 = "take k2 (drop (?o + k1) ?c) @ drop k2 b2"
  let ?d2 = "d1\<lparr>fde_offset := fde_offset d1 + of_nat k2\<rparr>"
  have "fd_read d b1 w = (Ok (of_nat k1, ?c1), d1, w1)"
    unfolding 1 read_result_def Let_def k1_def ..
  moreover have "fd_read d1 b2 w1 = (Ok (of_nat k2, ?c2), ?d2, w2)"
    unfolding 2 read_result_def Let_def k2_def ..
  ultimately show thesis
  proof (rule that [OF _ _ w2])
    show "take (unat (of_nat k1 :: u32)) ?c1 @ take (unat (of_nat k2 :: u32)) ?c2 =
        take (length b1 + length b2) (drop ?o ?c)"
      unfolding u1 u2 t1 t2 by (rule cat)
    show "fde_offset ?d2 = fde_offset d + of_nat k1 + of_nat k2" by (simp add: d1_def)
  qed
qed

end

section \<open>Properties\<close>

text \<open>A file that accepts everything, for concrete runs.\<close>

definition null_file :: "unit file_ops" where
  "null_file = \<lparr>fo_read = (\<lambda>buf off w. (Ok (0, buf), w)), fo_write = (\<lambda>buf off w. (Ok (of_nat (length buf)), w)),
     fo_stat = (\<lambda>w. Ok \<lparr>st_size = 100, st_type = Regular, st_name = ''null''\<rparr>)\<rparr>"

text \<open>
  C5. \<^verbatim>\<open>FileDescriptorTable\<close> implements a map from numbers to open files: \<^verbatim>\<open>alloc\<close> always
  succeeds, takes the lowest number that is not open and changes no other; \<^verbatim>\<open>close\<close> of that
  number then gives back the map from before.
\<close>

theorem fd_alloc_lowest:
  assumes "length t + 1 < 2 ^ 32"
  shows "\<exists>i t1 t2. fd_alloc t f flags access = (Ok (Fd (of_nat i)), t1) \<and> unat (of_nat i :: u32) = i \<and>
    open_fds t i = None \<and> (\<forall>j<i. open_fds t j \<noteq> None) \<and>
    open_fds t1 = (open_fds t)(i \<mapsto> file_descriptor_new f flags access) \<and>
    fd_close t1 (Fd (of_nat i)) = (Ok (), t2) \<and> open_fds t2 = open_fds t"
proof -
  obtain r t1 where r: "fd_alloc t f flags access = (r, t1)" by (cases "fd_alloc t f flags access")
  obtain i where i: "r = Ok (Fd (of_nat i))" "unat (of_nat i :: u32) = i" "open_fds t i = None"
    "\<forall>j<i. open_fds t j \<noteq> None" "open_fds t1 = (open_fds t)(i \<mapsto> file_descriptor_new f flags access)"
    using fd_alloc_open [OF _ r] assms by (metis add_lessD1)
  obtain u t2 where cl: "fd_close t1 (Fd (of_nat i)) = (u, t2)" by (cases "fd_close t1 (Fd (of_nat i))")
  have "open_fds t1 (unat (fd_num (Fd (of_nat i)))) \<noteq> None" using i by simp
  from fd_close_open(2) [OF this] have "u = Ok ()" "open_fds t2 = (open_fds t1)(i := None)"
    using cl i(2) by simp_all
  moreover have "(open_fds t1)(i := None) = open_fds t" using i(3,5) by auto
  ultimately show ?thesis using r i cl by auto
qed

theorem fd_alloc_lowest_witness:
  "\<exists>i t1 t2. fd_alloc (fd_table_new null_file) null_file 0 RDWR = (Ok (Fd (of_nat i)), t1) \<and>
    (\<forall>j<i. open_fds (fd_table_new null_file) j \<noteq> None) \<and> open_fds t2 = open_fds (fd_table_new null_file)"
  using fd_alloc_lowest [of "fd_table_new null_file" null_file 0 RDWR]
  by (auto simp: fd_table_new_def)

text \<open>
  \<^verbatim>\<open>dup2\<close> between different numbers: it fails with \<^verbatim>\<open>BadFd\<close>, changing nothing, exactly when the
  old number is not open; otherwise the new number refers to the same file with the same flags and
  access mode, at offset 0, whatever it was before, and every other number is as it was.
\<close>

lemma fd_dup2_correct:
  assumes "oldfd \<noteq> newfd"
  shows "case open_fds t (unat (fd_num oldfd)) of
      None \<Rightarrow> fd_dup2 t oldfd newfd = (Err BadFd, t)
    | Some e \<Rightarrow> fst (fd_dup2 t oldfd newfd) = Ok newfd \<and>
        open_fds (snd (fd_dup2 t oldfd newfd)) =
          (open_fds t)(unat (fd_num newfd) \<mapsto> file_descriptor_new (fde_file e) (fde_flags e) (fde_access e))"
proof (cases "open_fds t (unat (fd_num oldfd))")
  case None
  then show ?thesis using assms by (simp add: fd_dup2_def fd_get_open)
next
  case (Some e)
  let ?i = "unat (fd_num newfd)" and ?x = "file_descriptor_new (fde_file e) (fde_flags e) (fde_access e)"
  let ?t1 = "if ?i < length t \<and> \<not> Option.is_none (t ! ?i) then snd (fd_close t newfd) else t"
  have t1: "(open_fds ?t1)(?i \<mapsto> ?x) = (open_fds t)(?i \<mapsto> ?x)"
    using fd_close_open(2) [of t newfd] by (auto simp: open_fds_def Option.is_none_def)
  have "?i < length (pad_to ?i ?t1)" by (simp add: pad_to_def)
  then have "open_fds ((pad_to ?i ?t1)[?i := Some ?x]) = (open_fds t)(?i \<mapsto> ?x)"
    by (simp only: open_fds_upd open_fds_pad t1)
  then show ?thesis using Some assms by (simp add: fd_dup2_def fd_get_open Let_def)
qed

lemma fd_dup2_correct_witness:
  "fst (fd_dup2 (fd_table_new null_file) (Fd 1) (Fd 7)) = Ok (Fd 7) \<and>
   open_fds (snd (fd_dup2 (fd_table_new null_file) (Fd 1) (Fd 7))) 7 = Some (file_descriptor_new null_file 0 WRONLY)"
  using fd_dup2_correct [of "Fd 1" "Fd 7" "fd_table_new null_file"]
  by (simp add: open_fds_def fd_table_new_def file_descriptor_new_def)

text \<open>
  \<^verbatim>\<open>close_on_exec\<close> closes exactly the descriptors marked \<^verbatim>\<open>CLOEXEC\<close>; the mark is what
  \<^verbatim>\<open>set_cloexec\<close> last set.
\<close>

lemma close_on_exec_exact:
  "open_fds (close_on_exec t) i =
     (case open_fds t i of None \<Rightarrow> None | Some d \<Rightarrow> if has_flags (fde_flags d) CLOEXEC then None else Some d) \<and>
   (has_flags (fde_flags (set_cloexec d b)) CLOEXEC \<longleftrightarrow> b)"
proof
  show "open_fds (close_on_exec t) i =
     (case open_fds t i of None \<Rightarrow> None | Some d \<Rightarrow> if has_flags (fde_flags d) CLOEXEC then None else Some d)"
    by (auto simp: open_fds_def close_on_exec_def split: option.splits)
  have "(x OR 1) AND 1 = 1" "(x AND NOT 1) AND 1 = 0" for x :: u32
    by (rule bit_word_eqI; auto simp: bit_simps)+
  then show "has_flags (fde_flags (set_cloexec d b)) CLOEXEC \<longleftrightarrow> b"
    by (simp add: has_flags_def set_cloexec_def CLOEXEC_def)
qed

definition seek_base :: "'w file_descriptor \<Rightarrow> seek_whence \<Rightarrow> u32 \<Rightarrow> u32" where
  "seek_base d whence sz = (case whence of Start \<Rightarrow> 0 | Current \<Rightarrow> fde_offset d | End \<Rightarrow> sz)"

lemma uint_small: "unat (x::u32) < 2 ^ 31 \<Longrightarrow> uint x < 2 ^ 31"
proof -
  assume "unat x < 2 ^ 31"
  then have "int (unat x) < int (2 ^ 31)" by (simp only: of_nat_less_iff)
  then show ?thesis by simp
qed

lemma sint_small:
  assumes "unat (x::u32) < 2 ^ 31"
  shows "sint x = int (unat x)"
proof -
  have "- (2 ^ 31) \<le> uint x" by (rule order_trans [of _ 0]) simp_all
  then have "signed_take_bit 31 (uint x) = uint x"
    using uint_small [OF assms] by (intro signed_take_bit_int_eq_self) simp_all
  then show ?thesis by (simp add: sint_uint)
qed

lemma max0_nonneg: "0 \<le> sint x \<Longrightarrow> uint (max0 x) = sint x"
  using sint_lt [of x] by (simp add: max0_def uint_sint take_bit_int_eq_self)

lemma max0_add:
  fixes b delta :: u32
  assumes "unat b < 2 ^ 31"
  defines "s \<equiv> int (unat b) + sint delta"
  shows "if s < 2 ^ 31 then uint (max0 (b + delta)) = max 0 s else max0 (b + delta) = 0"
proof -
  have sb: "sint b = int (unat b)" using assms(1) by (rule sint_small)
  have "- (2 ^ 31) \<le> sint delta" "sint delta < 2 ^ 31" "0 \<le> uint b"
    using sint_ge [of delta] sint_lt [of delta] by simp_all
  moreover from this have "- (2 ^ 31) \<le> s" unfolding s_def of_nat_unat by linarith
  moreover have "s < 2 ^ 32" unfolding s_def of_nat_unat using calculation uint_small [OF assms(1)] by auto
  ultimately have rng: "- (2 ^ 31) \<le> s" "s < 2 ^ 32" by blast+
  have st: "sint (b + delta) = signed_take_bit 31 s" by (simp add: sint_word_add sb s_def)
  show ?thesis
  proof (cases "s < 2 ^ 31")
    case True
    then have eq: "sint (b + delta) = s" using rng st by (simp add: signed_take_bit_int_eq_self)
    show ?thesis
    proof (cases "s < 0")
      case True
      then show ?thesis using eq rng by (simp add: max0_def)
    next
      case False
      then show ?thesis using eq True max0_nonneg [of "b + delta"] by simp
    qed
  next
    case False
    have "(s + 2 ^ 31) mod 2 ^ 32 = (s + 2 ^ 31 - 2 ^ 32) mod 2 ^ 32" by (simp only: minus_mod_self2)
    also have "\<dots> = s + 2 ^ 31 - 2 ^ 32" using False rng by (intro mod_pos_pos_trivial) simp_all
    finally have "take_bit 32 (s + 2 ^ 31) = s + 2 ^ 31 - 2 ^ 32" by (simp only: take_bit_eq_mod)
    then have "signed_take_bit 31 s = s - 2 ^ 32" by (simp add: signed_take_bit_eq_take_bit_shift)
    then show ?thesis using False rng st by (simp add: max0_def)
  qed
qed

text \<open>
  \<^verbatim>\<open>seek\<close> computes the offset it is asked for: with the base (0, the current offset or the
  file size) below \<open>2 ^ 31\<close> and the sum in the range of \<^verbatim>\<open>isize\<close>, the new offset is the sum cut off
  at 0; a relative seek that leaves that range goes to 0 instead.
\<close>

lemma fd_seek_exact:
  assumes "fo_stat (fde_file d) w = Ok st" "unat (seek_base d whence (st_size st)) < 2 ^ 31"
  shows "\<exists>n. fd_seek d whence delta w = (Ok n, d\<lparr>fde_offset := n\<rparr>) \<and>
    (let s = int (unat (seek_base d whence (st_size st))) + sint delta in
     if s < 2 ^ 31 then uint n = max 0 s else n = 0)"
proof -
  let ?b = "seek_base d whence (st_size st)"
  have "fd_seek d whence delta w = (Ok (max0 (?b + delta)), d\<lparr>fde_offset := max0 (?b + delta)\<rparr>)"
    using assms(1) by (cases whence) (simp_all add: fd_seek_def seek_base_def)
  then show ?thesis using max0_add [OF assms(2), of delta] by (simp add: Let_def)
qed

lemma fd_seek_exact_witness:
  "\<exists>n. fst (fd_seek (file_descriptor_new null_file 0 RDWR) End (- 40) ()) = Ok n \<and> uint n = 60"
  using fd_seek_exact [of "file_descriptor_new null_file 0 RDWR" "()" _ End "- 40"]
  by (auto simp: file_descriptor_new_def null_file_def seek_base_def)

end
