(* ===== verification/BTree_Map.thy ===== *)
theory BTree_Map
  imports Prelude "HOL-Library.List_Lexorder" "HOL-Library.Char_ord"
begin

text \<open>
  What the code uses of \<^verbatim>\<open>alloc::collections::BTreeMap<String, V>\<close>: a list of entries in ascending
  byte order of the keys.  The laws its clients rely on are a locale.
\<close>

type_synonym 'v btree_map = "(string \<times> 'v) list"

fun bt_insert :: "string \<Rightarrow> 'v \<Rightarrow> 'v btree_map \<Rightarrow> 'v btree_map" where
  "bt_insert k v [] = [(k, v)]"
| "bt_insert k v ((k', v') # xs) =
     (if k < k' then (k, v) # (k', v') # xs
      else if k = k' then (k, v) # xs
      else (k', v') # bt_insert k v xs)"

fun bt_get :: "'v btree_map \<Rightarrow> string \<Rightarrow> 'v option" where
  "bt_get [] k = None"
| "bt_get ((k', v') # xs) k = (if k = k' then Some v' else bt_get xs k)"

definition bt_keys :: "'v btree_map \<Rightarrow> string list" where
  "bt_keys xs = map fst xs"

definition bt_values :: "'v btree_map \<Rightarrow> 'v list" where
  "bt_values xs = map snd xs"

definition bt_ok :: "'v btree_map \<Rightarrow> bool" where
  "bt_ok xs \<longleftrightarrow> sorted_wrt (<) (bt_keys xs)"

locale ordered_map =
  fixes empty :: "'m"
    and ins :: "string \<Rightarrow> 'v \<Rightarrow> 'm \<Rightarrow> 'm"
    and lookup :: "'m \<Rightarrow> string \<rightharpoonup> 'v"
    and keys :: "'m \<Rightarrow> string list"
    and invar :: "'m \<Rightarrow> bool"
  assumes invar_empty: "invar empty"
    and lookup_empty: "lookup empty = Map.empty"
    and invar_ins: "invar m \<Longrightarrow> invar (ins k v m)"
    and lookup_ins: "invar m \<Longrightarrow> lookup (ins k v m) = (lookup m)(k \<mapsto> v)"
    and keys_sorted: "invar m \<Longrightarrow> sorted_wrt (<) (keys m)"
    and keys_dom: "invar m \<Longrightarrow> set (keys m) = dom (lookup m)"
begin

definition build :: "(string \<times> 'v) list \<Rightarrow> 'm" where
  "build xs = fold (\<lambda>(k, v) m. ins k v m) xs empty"

lemma build_invar: "invar (build xs)"
  and build_lookup: "lookup (build xs) = map_of (rev xs)"
proof -
  have "invar m \<Longrightarrow> invar (fold (\<lambda>(k, v) m. ins k v m) xs m) \<and>
      lookup (fold (\<lambda>(k, v) m. ins k v m) xs m) = lookup m ++ map_of (rev xs)" for m
  proof (induction xs arbitrary: m)
    case (Cons x xs)
    then show ?case using Cons.IH [of "ins (fst x) (snd x) m"]
      by (cases x) (auto simp: invar_ins lookup_ins map_add_def fun_eq_iff split: option.splits)
  qed simp
  from this [OF invar_empty] show "invar (build xs)" "lookup (build xs) = map_of (rev xs)"
    by (simp_all add: build_def lookup_empty)
qed

text \<open>The keys of a built map are the inserted keys, each once, in order.\<close>

lemma build_keys: "keys (build xs) = sorted_list_of_set (fst ` set xs)"
proof -
  have s: "sorted_wrt (<) (keys (build xs))" "set (keys (build xs)) = fst ` set xs"
    using keys_sorted [OF build_invar] keys_dom [OF build_invar] build_lookup [of xs] by (simp_all add: dom_map_of_conv_image_fst)
  then show ?thesis by (metis finite_imageI finite_set sorted_list_of_set.idem_if_sorted_distinct strict_sorted_iff)
qed

end

lemma bt_keys_insert: "set (bt_keys (bt_insert k v xs)) = insert k (set (bt_keys xs))"
  by (induction k v xs rule: bt_insert.induct) (auto simp: bt_keys_def)

lemma bt_ok_insert: "bt_ok xs \<Longrightarrow> bt_ok (bt_insert k v xs)"
proof (induction k v xs rule: bt_insert.induct)
  case (2 k v k' v' xs)
  then show ?case
    using bt_keys_insert [of k v xs] by (auto simp: bt_ok_def bt_keys_def dest: less_trans)
qed (simp add: bt_ok_def bt_keys_def)

lemma bt_get_insert: "bt_ok xs \<Longrightarrow> bt_get (bt_insert k v xs) = (bt_get xs)(k \<mapsto> v)"
proof (induction k v xs rule: bt_insert.induct)
  case (2 k v k' v' xs)
  then have "bt_ok xs" by (simp add: bt_ok_def bt_keys_def)
  with 2 show ?case by (auto simp: fun_eq_iff)
qed auto

lemma bt_get_map_of: "bt_get xs = map_of xs"
  by (induction xs) (auto simp: fun_eq_iff)

interpretation btree: ordered_map "[]" bt_insert bt_get bt_keys bt_ok
proof
  fix xs :: "'a btree_map" assume ok: "bt_ok xs"
  show "sorted_wrt (<) (bt_keys xs)" using ok by (simp add: bt_ok_def)
  show "set (bt_keys xs) = dom (bt_get xs)" by (simp add: bt_get_map_of bt_keys_def dom_map_of_conv_image_fst)
qed (auto simp: bt_ok_insert bt_get_insert, simp_all add: bt_ok_def bt_keys_def fun_eq_iff)

end
