(* ===== verification/Vfs.thy ===== *)
theory Vfs
  imports Fs_File BTree_Map
begin

text \<open>
  The virtual file system (\<^verbatim>\<open>kernel/src/fs/vfs.rs\<close>), the trait \<^verbatim>\<open>FileSystem\<close> (\<^verbatim>\<open>kernel/src/fs/mod.rs\<close>)
  and the device file system (\<^verbatim>\<open>kernel/src/fs/dev/mod.rs\<close>).  A \<^verbatim>\<open>dyn FileSystem\<close> is a record of its
  methods over the state \<open>'w\<close> of the devices; a path is the list of its bytes.
\<close>

section \<open>File systems and mounts\<close>

type_synonym ('w, 'a) fs_call = "'w \<Rightarrow> ('a, fs_error) outcome \<times> 'w"

record 'w fs_ops =
  fs_open :: "string \<Rightarrow> ('w, 'w file_ops) fs_call"
  fs_create :: "string \<Rightarrow> ('w, 'w file_ops) fs_call"
  fs_delete :: "string \<Rightarrow> ('w, unit) fs_call"
  fs_stat :: "string \<Rightarrow> ('w, file_stat) fs_call"
  fs_ls :: "string \<Rightarrow> ('w, string list) fs_call"
  fs_mkdir :: "string \<Rightarrow> ('w, unit) fs_call"
  fs_rmdir :: "string \<Rightarrow> ('w, unit) fs_call"

record 'w mount =
  mnt_prefix :: string
  mnt_fs :: "'w fs_ops"

type_synonym 'w virt_fs = "'w mount list"

definition virt_fs_new :: "'w virt_fs" where
  "virt_fs_new = []"

definition virt_fs_init :: "'w virt_fs \<Rightarrow> 'w fs_ops \<Rightarrow> 'w virt_fs" where
  "virt_fs_init mounts rootfs = [\<lparr>mnt_prefix = ''/'', mnt_fs = rootfs\<rparr>]"

definition mount_fs :: "'w virt_fs \<Rightarrow> string \<Rightarrow> 'w fs_ops \<Rightarrow> (unit, fs_error) outcome \<times> 'w virt_fs" where
  "mount_fs mounts prefix fs =
     (if \<exists>m\<in>set mounts. mnt_prefix m = prefix then (Err AlreadyExists, mounts)
      else (Ok (), mounts @ [\<lparr>mnt_prefix = prefix, mnt_fs = fs\<rparr>]))"

fun position :: "('a \<Rightarrow> bool) \<Rightarrow> 'a list \<Rightarrow> nat option" where
  "position P [] = None"
| "position P (x # xs) = (if P x then Some 0 else map_option Suc (position P xs))"

definition umount :: "'w virt_fs \<Rightarrow> string \<Rightarrow> (unit, fs_error) outcome \<times> 'w virt_fs" where
  "umount mounts prefix =
     (case position (\<lambda>m. mnt_prefix m = prefix) mounts of
        None \<Rightarrow> (Err NotFound, mounts)
      | Some idx \<Rightarrow> (Ok (), take idx mounts @ drop (Suc idx) mounts))"

fun strip_prefix :: "string \<Rightarrow> string \<Rightarrow> string option" where
  "strip_prefix s [] = Some s"
| "strip_prefix [] (c # p) = None"
| "strip_prefix (d # s) (c # p) = (if c = d then strip_prefix s p else None)"

text \<open>\<^verbatim>\<open>rest.strip_prefix('/').unwrap_or(rest)\<close>.\<close>

definition strip_slash :: "string \<Rightarrow> string" where
  "strip_slash rest = (case strip_prefix rest ''/'' of Some r \<Rightarrow> r | None \<Rightarrow> rest)"

fun best_mount :: "string \<Rightarrow> ('w mount \<times> string) option \<Rightarrow> 'w virt_fs \<Rightarrow> ('w mount \<times> string) option" where
  "best_mount path best [] = best"
| "best_mount path best (m # ms) =
     best_mount path
       (case strip_prefix path (mnt_prefix m) of
          None \<Rightarrow> best
        | Some rest \<Rightarrow>
            (case best of
               None \<Rightarrow> Some (m, strip_slash rest)
             | Some (prev, r) \<Rightarrow>
                 if length (mnt_prefix m) > length (mnt_prefix prev) then Some (m, strip_slash rest) else best)) ms"

definition dispatch :: "'w virt_fs \<Rightarrow> string \<Rightarrow> ('w mount \<Rightarrow> string \<Rightarrow> ('w, 'a) fs_call) \<Rightarrow> ('w, 'a) fs_call" where
  "dispatch mounts path f w =
     (case best_mount path None mounts of
        None \<Rightarrow> (Err NotFound, w)
      | Some (m, rest) \<Rightarrow> f m rest w)"

definition virt_fs_ops :: "'w virt_fs \<Rightarrow> 'w fs_ops" where
  "virt_fs_ops mounts =
     \<lparr>fs_open = (\<lambda>path. dispatch mounts path (\<lambda>m rest. fs_open (mnt_fs m) rest)),
      fs_create = (\<lambda>path. dispatch mounts path (\<lambda>m rest. fs_create (mnt_fs m) rest)),
      fs_delete = (\<lambda>path. dispatch mounts path (\<lambda>m rest. fs_delete (mnt_fs m) rest)),
      fs_stat = (\<lambda>path. dispatch mounts path (\<lambda>m rest. fs_stat (mnt_fs m) rest)),
      fs_ls = (\<lambda>path. dispatch mounts path (\<lambda>m rest. fs_ls (mnt_fs m) rest)),
      fs_mkdir = (\<lambda>path. dispatch mounts path (\<lambda>m rest. fs_mkdir (mnt_fs m) rest)),
      fs_rmdir = (\<lambda>path. dispatch mounts path (\<lambda>m rest. fs_rmdir (mnt_fs m) rest))\<rparr>"

section \<open>The device file system\<close>

type_synonym 'w dev_fs = "'w file_ops btree_map"

definition dev_fs_new :: "'w dev_fs" where
  "dev_fs_new = []"

definition register_device :: "'w dev_fs \<Rightarrow> string \<Rightarrow> 'w file_ops \<Rightarrow> 'w dev_fs" where
  "register_device d name dev = bt_insert name dev d"

text \<open>\<^verbatim>\<open>path.trim_start_matches('/')\<close>.\<close>

definition trim_start_slash :: "string \<Rightarrow> string" where
  "trim_start_slash path = dropWhile (\<lambda>c. c = CHR ''/'') path"

definition dev_open :: "'w dev_fs \<Rightarrow> string \<Rightarrow> ('w file_ops, fs_error) outcome" where
  "dev_open d path = ok_or NotFound (bt_get d (trim_start_slash path))"

definition dev_ls :: "'w dev_fs \<Rightarrow> string \<Rightarrow> (string list, fs_error) outcome" where
  "dev_ls d path = (if path = ''/'' \<or> path = [] then Ok (bt_keys d) else Err NotADirectory)"

definition dev_stat :: "'w dev_fs \<Rightarrow> string \<Rightarrow> 'w \<Rightarrow> (file_stat, fs_error) outcome" where
  "dev_stat d path w =
     obind (ok_or NotFound (bt_get d (trim_start_slash path)))
       (\<lambda>dev. map_err fs_error_from (fo_stat dev w))"

definition dev_fs_ops :: "'w dev_fs \<Rightarrow> 'w fs_ops" where
  "dev_fs_ops d =
     \<lparr>fs_open = (\<lambda>path w. (dev_open d path, w)),
      fs_create = (\<lambda>path w. (Err PermissionDenied, w)),
      fs_delete = (\<lambda>path w. (Err PermissionDenied, w)),
      fs_stat = (\<lambda>path w. (dev_stat d path w, w)),
      fs_ls = (\<lambda>path w. (dev_ls d path, w)),
      fs_mkdir = (\<lambda>path w. (Err PermissionDenied, w)),
      fs_rmdir = (\<lambda>path w. (Err PermissionDenied, w))\<rparr>"

section \<open>Lemmas\<close>

lemma strip_prefix_Some: "strip_prefix s p = Some r \<longleftrightarrow> s = p @ r"
  by (induction s p rule: strip_prefix.induct) auto

lemma strip_prefix_append [simp]: "strip_prefix (p @ r) p = Some r"
  by (simp add: strip_prefix_Some)

text \<open>The mount a path is dispatched to, as a specification: the longest mounted prefix of the path.\<close>

definition serves :: "'w virt_fs \<Rightarrow> string \<Rightarrow> 'w mount \<Rightarrow> string \<Rightarrow> bool" where
  "serves mounts path m rest \<longleftrightarrow>
     m \<in> set mounts \<and> strip_prefix path (mnt_prefix m) = Some rest \<and>
     (\<forall>m'\<in>set mounts. strip_prefix path (mnt_prefix m') \<noteq> None \<longrightarrow>
        length (mnt_prefix m') \<le> length (mnt_prefix m))"

definition mounts_ok :: "'w virt_fs \<Rightarrow> bool" where
  "mounts_ok mounts \<longleftrightarrow> distinct (map mnt_prefix mounts)"

lemma serves_unique:
  assumes "mounts_ok mounts" "serves mounts path m r" "serves mounts path m' r'"
  shows "m' = m \<and> r' = r"
proof -
  have in_set: "m \<in> set mounts" "m' \<in> set mounts"
    and sp: "strip_prefix path (mnt_prefix m) = Some r" "strip_prefix path (mnt_prefix m') = Some r'"
    using assms(2,3) by (simp_all add: serves_def)
  then have nn: "strip_prefix path (mnt_prefix m) \<noteq> None" "strip_prefix path (mnt_prefix m') \<noteq> None" by simp_all
  have "length (mnt_prefix m') \<le> length (mnt_prefix m)" "length (mnt_prefix m) \<le> length (mnt_prefix m')"
    using assms(2,3) in_set nn unfolding serves_def by blast+
  then have "length (mnt_prefix m) = length (mnt_prefix m')" by simp
  moreover have "mnt_prefix m @ r = mnt_prefix m' @ r'" using sp unfolding strip_prefix_Some by metis
  ultimately have "mnt_prefix m = mnt_prefix m'" "r = r'" by (simp_all add: append_eq_append_conv)
  then show ?thesis using assms(1) in_set unfolding mounts_ok_def distinct_map by (metis inj_onD)
qed

text \<open>The loop of \<^verbatim>\<open>dispatch\<close> keeps the first longest match among the mounts it has seen.\<close>

definition best_of :: "'w virt_fs \<Rightarrow> string \<Rightarrow> ('w mount \<times> string) option \<Rightarrow> bool" where
  "best_of seen path b =
     (case b of
        None \<Rightarrow> (\<forall>m\<in>set seen. strip_prefix path (mnt_prefix m) = None)
      | Some (m, r) \<Rightarrow> (\<exists>rest. r = strip_slash rest \<and> serves seen path m rest))"

definition better :: "string \<Rightarrow> ('w mount \<times> string) option \<Rightarrow> 'w mount \<Rightarrow> ('w mount \<times> string) option" where
  "better path best m =
     (case strip_prefix path (mnt_prefix m) of
        None \<Rightarrow> best
      | Some rest \<Rightarrow>
          (case best of
             None \<Rightarrow> Some (m, strip_slash rest)
           | Some (prev, r) \<Rightarrow>
               if length (mnt_prefix m) > length (mnt_prefix prev) then Some (m, strip_slash rest) else best))"

lemma best_of_better:
  assumes "best_of seen path b"
  shows "best_of (seen @ [m]) path (better path b m)"
proof (cases "strip_prefix path (mnt_prefix m)")
  case None
  then show ?thesis using assms by (auto simp: best_of_def serves_def better_def split: option.splits)
next
  case sp: (Some rest)
  show ?thesis
  proof (cases b)
    case None
    then show ?thesis using assms sp by (auto simp: best_of_def serves_def better_def)
  next
    case (Some x)
    obtain prev r where x: "x = (prev, r)" by (cases x)
    obtain rest' where pr: "r = strip_slash rest'" "serves seen path prev rest'"
      using assms Some x by (auto simp: best_of_def)
    then have longest: "\<And>m'. m' \<in> set seen \<Longrightarrow> strip_prefix path (mnt_prefix m') \<noteq> None \<Longrightarrow>
        length (mnt_prefix m') \<le> length (mnt_prefix prev)" by (simp add: serves_def)
    show ?thesis
    proof (cases "length (mnt_prefix m) > length (mnt_prefix prev)")
      case True
      then have "serves (seen @ [m]) path m rest" using sp longest by (fastforce simp: serves_def)
      then show ?thesis using True Some x sp by (auto simp: best_of_def better_def)
    next
      case False
      then have "serves (seen @ [m]) path prev rest'" using pr(2) by (auto simp: serves_def)
      then show ?thesis using False Some x sp pr(1) by (auto simp: best_of_def better_def)
    qed
  qed
qed

lemma best_mount_best: "best_of mounts path (best_mount path None mounts)"
proof -
  have "best_of seen path b \<Longrightarrow> best_of (seen @ ms) path (best_mount path b ms)" for seen ms b
  proof (induction ms arbitrary: seen b)
    case (Cons m ms)
    show ?case
      using Cons.IH [OF best_of_better [OF Cons.prems, of m]] by (simp add: better_def)
  qed simp
  from this [of "[]" None mounts] show ?thesis by (simp add: best_of_def)
qed

lemma best_mount_serves:
  assumes "mounts_ok mounts" "serves mounts path m rest"
  shows "best_mount path None mounts = Some (m, strip_slash rest)"
proof (cases "best_mount path None mounts")
  case None
  then show ?thesis using best_mount_best [of mounts path] assms(2) by (auto simp: best_of_def serves_def)
next
  case (Some x)
  then obtain m' rest' where "x = (m', strip_slash rest')" "serves mounts path m' rest'"
    using best_mount_best [of mounts path] by (cases x) (auto simp: best_of_def)
  then show ?thesis using serves_unique [OF assms(1,2)] Some by auto
qed

lemma best_mount_None:
  "best_mount path None mounts = None \<longleftrightarrow> (\<forall>m\<in>set mounts. strip_prefix path (mnt_prefix m) = None)"
  using best_mount_best [of mounts path]
  by (cases "best_mount path None mounts") (auto simp: best_of_def serves_def)

text \<open>Mounting and unmounting.\<close>

lemma position_Some: "position P xs = Some i \<longleftrightarrow> i < length xs \<and> P (xs ! i) \<and> (\<forall>j<i. \<not> P (xs ! j))"
proof (induction xs arbitrary: i)
  case (Cons x xs)
  show ?case using Cons.IH by (cases i) (auto simp: less_Suc_eq_0_disj)
qed simp

lemma position_None: "position P xs = None \<longleftrightarrow> (\<forall>x\<in>set xs. \<not> P x)"
  by (induction xs) auto

lemma position_append: "\<forall>x\<in>set xs. \<not> P x \<Longrightarrow> position P (xs @ y # ys) = map_option ((+) (length xs)) (position P (y # ys))"
  by (induction xs) (auto simp: option.map_comp comp_def)

lemma mount_fs_ok: "mounts_ok mounts \<Longrightarrow> mounts_ok (snd (mount_fs mounts prefix fs))"
  by (auto simp: mounts_ok_def mount_fs_def)

lemma umount_ok: "mounts_ok mounts \<Longrightarrow> mounts_ok (snd (umount mounts prefix))"
proof -
  assume ok: "mounts_ok mounts"
  have "distinct (map mnt_prefix (take i mounts @ drop (Suc i) mounts))" for i
  proof -
    have "distinct (take i (map mnt_prefix mounts) @ drop (Suc i) (map mnt_prefix mounts))"
      using ok by (simp add: mounts_ok_def set_take_disj_set_drop_if_distinct)
    then show ?thesis by (simp add: take_map drop_map)
  qed
  then show ?thesis using ok by (auto simp: umount_def mounts_ok_def split: option.splits)
qed

end
