(* ===== verification/Vfs_Properties.thy ===== *)
theory Vfs_Properties
  imports Vfs
begin

text \<open>
  Properties of the virtual file system: the mount tables it can have, dispatch by the longest
  mounted prefix, and the device file system seen through it.
\<close>

section \<open>Reachable mount tables\<close>

inductive vfs_reach :: "'w virt_fs \<Rightarrow> bool" where
  vfs_start: "vfs_reach virt_fs_new"
| vfs_init: "vfs_reach ms \<Longrightarrow> vfs_reach (virt_fs_init ms rootfs)"
| vfs_mount: "vfs_reach ms \<Longrightarrow> vfs_reach (snd (mount_fs ms prefix fs))"
| vfs_umount: "vfs_reach ms \<Longrightarrow> vfs_reach (snd (umount ms prefix))"

lemma vfs_reach_ok: "vfs_reach ms \<Longrightarrow> mounts_ok ms"
  by (induction rule: vfs_reach.induct)
    (auto simp: mount_fs_ok umount_ok, simp_all add: mounts_ok_def virt_fs_new_def virt_fs_init_def)

definition no_fs :: "unit fs_ops" where
  "no_fs = dev_fs_ops dev_fs_new"

definition null_dev :: "unit file_ops" where
  "null_dev = \<lparr>fo_read = (\<lambda>buf off w. (Ok (0, buf), w)), fo_write = (\<lambda>buf off w. (Ok 0, w)), fo_stat = default_stat\<rparr>"

definition demo_mounts :: "unit virt_fs" where
  "demo_mounts = snd (mount_fs (virt_fs_init virt_fs_new no_fs) ''/dev''
     (dev_fs_ops (register_device dev_fs_new ''uart0'' null_dev)))"

lemma demo_mounts_reach: "vfs_reach demo_mounts"
  unfolding demo_mounts_def by (intro vfs_mount vfs_init vfs_start)

lemma demo_mounts_unfold:
  "demo_mounts = [\<lparr>mnt_prefix = ''/'', mnt_fs = no_fs\<rparr>,
     \<lparr>mnt_prefix = ''/dev'', mnt_fs = dev_fs_ops (register_device dev_fs_new ''uart0'' null_dev)\<rparr>]"
  by (simp add: demo_mounts_def mount_fs_def virt_fs_init_def)

section \<open>Properties\<close>

text \<open>
  C4. Dispatch implements longest-prefix lookup: in every mount table that init, mount and umount
  can produce, a path is handed to the mounted file system whose prefix is the longest prefix of
  the path, with the prefix and one following slash removed, and the call fails with
  \<^verbatim>\<open>NotFound\<close> exactly when no mounted prefix fits.
\<close>

theorem dispatch_longest_prefix:
  assumes "vfs_reach ms"
  shows "(serves ms path m rest \<longrightarrow> dispatch ms path f w = f m (strip_slash rest) w) \<and>
    ((\<forall>m\<in>set ms. strip_prefix path (mnt_prefix m) = None) \<longrightarrow> dispatch ms path f w = (Err NotFound, w)) \<and>
    ((\<exists>m\<in>set ms. strip_prefix path (mnt_prefix m) \<noteq> None) \<longrightarrow> (\<exists>m rest. serves ms path m rest))"
proof (intro conjI impI)
  assume "serves ms path m rest"
  then show "dispatch ms path f w = f m (strip_slash rest) w"
    using best_mount_serves [OF vfs_reach_ok [OF assms]] by (simp add: dispatch_def)
next
  assume "\<forall>m\<in>set ms. strip_prefix path (mnt_prefix m) = None"
  then show "dispatch ms path f w = (Err NotFound, w)"
    using best_mount_None [of path ms] by (simp add: dispatch_def)
next
  assume "\<exists>m\<in>set ms. strip_prefix path (mnt_prefix m) \<noteq> None"
  then have "best_mount path None ms \<noteq> None" using best_mount_None [of path ms] by auto
  then obtain a r where "best_mount path None ms = Some (a, r)" by (cases "best_mount path None ms") auto
  then show "\<exists>m rest. serves ms path m rest"
    using best_mount_best [of ms path] unfolding best_of_def by (simp only: option.case prod.case) blast
qed

theorem dispatch_longest_prefix_witness:
  "dispatch demo_mounts ''/dev/uart0'' (\<lambda>m rest. fs_ls (mnt_fs m) rest) () = (Err NotADirectory, ())"
proof -
  let ?m = "\<lparr>mnt_prefix = ''/dev'', mnt_fs = dev_fs_ops (register_device dev_fs_new ''uart0'' null_dev)\<rparr>"
  have "serves demo_mounts ''/dev/uart0'' ?m ''/uart0''" by (simp add: serves_def demo_mounts_unfold)
  then have "dispatch demo_mounts ''/dev/uart0'' (\<lambda>m rest. fs_ls (mnt_fs m) rest) () =
      fs_ls (mnt_fs ?m) (strip_slash ''/uart0'') ()"
    using dispatch_longest_prefix [OF demo_mounts_reach] by blast
  then show ?thesis by (simp add: dev_fs_ops_def dev_ls_def strip_slash_def)
qed

text \<open>
  Unmounting undoes mounting: after a successful \<^verbatim>\<open>mount_fs\<close> at a prefix, \<^verbatim>\<open>umount\<close> of that prefix
  succeeds and gives back the mount table from before; a second \<^verbatim>\<open>mount_fs\<close> at the same prefix is
  refused and changes nothing.
\<close>

lemma mount_umount_roundtrip:
  assumes "mount_fs ms prefix fs = (Ok (), ms')"
  shows "umount ms' prefix = (Ok (), ms) \<and> mount_fs ms' prefix fs2 = (Err AlreadyExists, ms')"
proof -
  have new: "\<forall>m\<in>set ms. mnt_prefix m \<noteq> prefix" and ms': "ms' = ms @ [\<lparr>mnt_prefix = prefix, mnt_fs = fs\<rparr>]"
    using assms by (auto simp: mount_fs_def split: if_splits)
  have "position (\<lambda>m. mnt_prefix m = prefix) ms' = Some (length ms)"
    unfolding ms' using new by (subst position_append) auto
  then show ?thesis by (simp add: umount_def mount_fs_def ms')
qed

lemma mount_umount_roundtrip_witness:
  "umount (snd (mount_fs virt_fs_new ''/dev'' no_fs)) ''/dev'' = (Ok (), virt_fs_new)"
  using mount_umount_roundtrip [of virt_fs_new "''/dev''" no_fs] by (simp add: mount_fs_def virt_fs_new_def)

text \<open>
  The device file system through the virtual one: with a root file system and a device file
  system mounted at \<^verbatim>\<open>/dev\<close>, opening \<^verbatim>\<open>/dev/name\<close> returns the file registered last under that
  name, fails with \<^verbatim>\<open>NotFound\<close> when there is none, and listing \<^verbatim>\<open>/dev\<close> gives the registered names,
  each once, in byte order.
\<close>

lemma devfs_through_vfs:
  fixes devs :: "(string \<times> 'w file_ops) list" and rootfs :: "'w fs_ops"
  assumes "\<forall>s. name \<noteq> CHR ''/'' # s" "name \<noteq> []"
  defines "d \<equiv> fold (\<lambda>(k, f) d. register_device d k f) devs dev_fs_new"
  defines "ms \<equiv> snd (mount_fs (virt_fs_init virt_fs_new rootfs) ''/dev'' (dev_fs_ops d))"
  shows "fs_open (virt_fs_ops ms) (''/dev/'' @ name) w =
      (case map_of (rev devs) name of Some f \<Rightarrow> (Ok f, w) | None \<Rightarrow> (Err NotFound, w)) \<and>
    fs_ls (virt_fs_ops ms) ''/dev'' w = (Ok (sorted_list_of_set (fst ` set devs)), w)"
proof -
  have d: "d = btree.build devs"
    unfolding d_def btree.build_def by (simp add: register_device_def dev_fs_new_def case_prod_unfold)
  have ms: "ms = [\<lparr>mnt_prefix = ''/'', mnt_fs = rootfs\<rparr>, \<lparr>mnt_prefix = ''/dev'', mnt_fs = dev_fs_ops d\<rparr>]"
    by (simp add: ms_def mount_fs_def virt_fs_init_def)
  have trim: "trim_start_slash name = name"
    using assms(1,2) by (cases name) (auto simp: trim_start_slash_def)
  have "fs_open (virt_fs_ops ms) (''/dev/'' @ name) w = (dev_open d name, w)"
    by (simp add: ms virt_fs_ops_def dispatch_def strip_slash_def dev_fs_ops_def)
  moreover have "dev_open d name = ok_or NotFound (map_of (rev devs) name)"
    by (simp add: dev_open_def trim d btree.build_lookup)
  moreover have "fs_ls (virt_fs_ops ms) ''/dev'' w = (Ok (bt_keys d), w)"
    by (simp add: ms virt_fs_ops_def dispatch_def strip_slash_def dev_fs_ops_def dev_ls_def)
  ultimately show ?thesis by (simp add: d btree.build_keys split: option.splits)
qed

lemma devfs_through_vfs_witness:
  "fs_open (virt_fs_ops demo_mounts) ''/dev/uart0'' () = (Ok null_dev, ())"
  using devfs_through_vfs [where name = "''uart0''" and devs = "[(''uart0'', null_dev)]" and rootfs = no_fs and w = "()"]
  by (simp add: demo_mounts_def)

text \<open>
  The prefix match does not stop at a path component: with the device file system mounted at
  \<^verbatim>\<open>/dev\<close>, the path \<^verbatim>\<open>/device\<close>, which belongs to the root file system, is handed to the device file
  system as \<^verbatim>\<open>ice\<close>.
\<close>

lemma dispatch_ignores_components:
  "dispatch [\<lparr>mnt_prefix = ''/'', mnt_fs = rootfs\<rparr>, \<lparr>mnt_prefix = ''/dev'', mnt_fs = devfs\<rparr>] ''/device'' f w =
   f \<lparr>mnt_prefix = ''/dev'', mnt_fs = devfs\<rparr> ''ice'' w"
  by (simp add: dispatch_def strip_slash_def)

end
