(* ===== verification/Device_Manager.thy ===== *)
theory Device_Manager
  imports BTree_Map
begin

text \<open>
  The registry of devices (\<^verbatim>\<open>drivers/src/device_manager.rs\<close>).  A shared handle
  (\<^verbatim>\<open>Arc<Mutex<dyn ...>>\<close>) is a value of a type \<open>'h\<close>; the static \<^verbatim>\<open>SYS_TIMER_CHANNEL\<close> is a field of the
  state.
\<close>

section \<open>State and operations\<close>

datatype 'h device = Serial 'h | Block 'h | FrameBuffer 'h | Timer 'h | InterruptController 'h

definition new_serial :: "'h \<Rightarrow> 'h device" where "new_serial h = Serial h"
definition new_block :: "'h \<Rightarrow> 'h device" where "new_block h = Block h"
definition new_framebuffer :: "'h \<Rightarrow> 'h device" where "new_framebuffer h = FrameBuffer h"
definition new_timer :: "'h \<Rightarrow> 'h device" where "new_timer h = Timer h"
definition new_interrupt_controller :: "'h \<Rightarrow> 'h device" where "new_interrupt_controller h = InterruptController h"

record 'h device_manager =
  dm_devices :: "'h device btree_map"
  dm_sys_timer_channel :: "u32 option"

definition device_manager_new :: "'h device_manager" where
  "device_manager_new = \<lparr>dm_devices = [], dm_sys_timer_channel = None\<rparr>"

definition dm_register :: "'h device_manager \<Rightarrow> string \<Rightarrow> 'h device \<Rightarrow> 'h device_manager" where
  "dm_register dm name dev = dm\<lparr>dm_devices := bt_insert name dev (dm_devices dm)\<rparr>"

definition dm_get :: "'h device_manager \<Rightarrow> string \<Rightarrow> 'h device option" where
  "dm_get dm name = bt_get (dm_devices dm) name"

definition dm_list :: "'h device_manager \<Rightarrow> string list" where
  "dm_list dm = bt_keys (dm_devices dm)"

fun as_serial :: "'h device \<Rightarrow> 'h option" where
  "as_serial (Serial h) = Some h" | "as_serial _ = None"

fun as_block :: "'h device \<Rightarrow> 'h option" where
  "as_block (Block h) = Some h" | "as_block _ = None"

fun as_framebuffer :: "'h device \<Rightarrow> 'h option" where
  "as_framebuffer (FrameBuffer h) = Some h" | "as_framebuffer _ = None"

fun as_timer :: "'h device \<Rightarrow> 'h option" where
  "as_timer (Timer h) = Some h" | "as_timer _ = None"

fun as_interrupt_controller :: "'h device \<Rightarrow> 'h option" where
  "as_interrupt_controller (InterruptController h) = Some h" | "as_interrupt_controller _ = None"

definition dm_serial :: "'h device_manager \<Rightarrow> string \<Rightarrow> 'h option" where
  "dm_serial dm name = Option.bind (dm_get dm name) as_serial"

definition dm_block :: "'h device_manager \<Rightarrow> string \<Rightarrow> 'h option" where
  "dm_block dm name = Option.bind (dm_get dm name) as_block"

definition dm_framebuffer :: "'h device_manager \<Rightarrow> string \<Rightarrow> 'h option" where
  "dm_framebuffer dm name = Option.bind (dm_get dm name) as_framebuffer"

definition dm_timer :: "'h device_manager \<Rightarrow> string \<Rightarrow> 'h option" where
  "dm_timer dm name = Option.bind (dm_get dm name) as_timer"

definition dm_interrupt_controller :: "'h device_manager \<Rightarrow> string \<Rightarrow> 'h option" where
  "dm_interrupt_controller dm name = Option.bind (dm_get dm name) as_interrupt_controller"

text \<open>The loops over \<^verbatim>\<open>&self.devices\<close> that return the first device of a kind.\<close>

fun first_device :: "('h device \<Rightarrow> 'h option) \<Rightarrow> 'h device list \<Rightarrow> 'h option" where
  "first_device kind [] = None"
| "first_device kind (d # ds) = (case kind d of Some h \<Rightarrow> Some h | None \<Rightarrow> first_device kind ds)"

definition serial_console :: "'h device_manager \<Rightarrow> 'h option" where
  "serial_console dm =
     (case dm_serial dm ''console'' of
        Some console \<Rightarrow> Some console
      | None \<Rightarrow>
          (case dm_serial dm ''serial0'' of
             Some serial0 \<Rightarrow> Some serial0
           | None \<Rightarrow> first_device as_serial (bt_values (dm_devices dm))))"

definition system_timer :: "'h device_manager \<Rightarrow> 'h option" where
  "system_timer dm =
     or_else (or_else (dm_timer dm ''system_timer'') (dm_timer dm ''timer''))
       (first_device as_timer (bt_values (dm_devices dm)))"

definition sys_timer_channel :: "'h device_manager \<Rightarrow> u32 option" where
  "sys_timer_channel dm = dm_sys_timer_channel dm"

definition irq_controller :: "'h device_manager \<Rightarrow> 'h option" where
  "irq_controller dm =
     or_else (or_else (or_else (dm_interrupt_controller dm ''intc'') (dm_interrupt_controller dm ''pic''))
       (dm_interrupt_controller dm ''gic'')) (first_device as_interrupt_controller (bt_values (dm_devices dm)))"

definition register_serial :: "'h device_manager \<Rightarrow> string \<Rightarrow> 'h \<Rightarrow> (unit, string) outcome \<times> 'h device_manager" where
  "register_serial dm name h = (Ok (), dm_register dm name (new_serial h))"

definition register_block :: "'h device_manager \<Rightarrow> string \<Rightarrow> 'h \<Rightarrow> (unit, string) outcome \<times> 'h device_manager" where
  "register_block dm name h = (Ok (), dm_register dm name (new_block h))"

definition register_framebuffer :: "'h device_manager \<Rightarrow> string \<Rightarrow> 'h \<Rightarrow> (unit, string) outcome \<times> 'h device_manager" where
  "register_framebuffer dm name h = (Ok (), dm_register dm name (new_framebuffer h))"

definition register_timer ::
  "'h device_manager \<Rightarrow> string \<Rightarrow> 'h \<Rightarrow> u32 option \<Rightarrow> (unit, string) outcome \<times> 'h device_manager" where
  "register_timer dm name h sys_channel =
     (case sys_channel of
        None \<Rightarrow> (Ok (), dm_register dm name (new_timer h))
      | Some channel \<Rightarrow>
          (case dm_sys_timer_channel dm of
             Some _ \<Rightarrow> (Err ''System timer channel already set'', dm)
           | None \<Rightarrow> (Ok (), dm_register (dm\<lparr>dm_sys_timer_channel := Some channel\<rparr>) name (new_timer h))))"

definition register_interrupt_controller ::
  "'h device_manager \<Rightarrow> string \<Rightarrow> 'h \<Rightarrow> (unit, string) outcome \<times> 'h device_manager" where
  "register_interrupt_controller dm name h = (Ok (), dm_register dm name (new_interrupt_controller h))"

definition count_kind :: "('h device \<Rightarrow> 'h option) \<Rightarrow> 'h device_manager \<Rightarrow> nat" where
  "count_kind kind dm = length (filter (\<lambda>d. \<not> Option.is_none (kind d)) (bt_values (dm_devices dm)))"

definition count_serial :: "'h device_manager \<Rightarrow> nat" where "count_serial dm = count_kind as_serial dm"
definition count_block :: "'h device_manager \<Rightarrow> nat" where "count_block dm = count_kind as_block dm"
definition count_timer :: "'h device_manager \<Rightarrow> nat" where "count_timer dm = count_kind as_timer dm"

definition dm_is_empty :: "'h device_manager \<Rightarrow> bool" where "dm_is_empty dm \<longleftrightarrow> dm_devices dm = []"
definition dm_count :: "'h device_manager \<Rightarrow> nat" where "dm_count dm = length (dm_devices dm)"

definition serial_devices :: "'h device_manager \<Rightarrow> 'h list" where
  "serial_devices dm = List.map_filter as_serial (bt_values (dm_devices dm))"

section \<open>Lemmas\<close>

definition dm_ok :: "'h device_manager \<Rightarrow> bool" where
  "dm_ok dm \<longleftrightarrow> bt_ok (dm_devices dm)"

lemma dm_register_ok: "dm_ok dm \<Longrightarrow> dm_ok (dm_register dm name d)"
  by (simp add: dm_ok_def dm_register_def btree.invar_ins)

lemma dm_get_register: "dm_ok dm \<Longrightarrow> dm_get (dm_register dm name d) = (dm_get dm)(name \<mapsto> d)"
  by (simp add: dm_get_def dm_register_def dm_ok_def btree.lookup_ins fun_eq_iff)

lemma first_device_None: "first_device kind ds = None \<longleftrightarrow> (\<forall>d\<in>set ds. kind d = None)"
  by (induction ds) (auto split: option.splits)

lemma first_device_entry:
  fixes xs :: "(string \<times> 'h device) list"
  assumes "first_device kind (map snd xs) = Some h" "sorted_wrt (<) (map fst xs)"
  shows "\<exists>name d. map_of xs name = Some d \<and> kind d = Some h \<and>
    (\<forall>name' d'. map_of xs name' = Some d' \<longrightarrow> kind d' \<noteq> None \<longrightarrow> name \<le> name')"
  using assms
proof (induction xs)
  case (Cons x xs)
  obtain n d where x: "x = (n, d)" by (cases x)
  show ?case
  proof (cases "kind d")
    case (Some g)
    have le: "n \<le> name'" if "map_of (x # xs) name' = Some d'" for name' d'
      using that Cons.prems(2) x by (auto dest!: map_of_SomeD split: if_splits)
    then show ?thesis using Some Cons.prems(1) x by (intro exI [of _ n] exI [of _ d]) auto
  next
    case None
    then obtain name e where IH: "map_of xs name = Some e" "kind e = Some h"
      "\<forall>name' d'. map_of xs name' = Some d' \<longrightarrow> kind d' \<noteq> None \<longrightarrow> name \<le> name'"
      using Cons x by auto
    have "name \<noteq> n" using IH(1) Cons.prems(2) x by (auto dest!: map_of_SomeD)
    then show ?thesis using IH None x by (intro exI [of _ name] exI [of _ e]) auto
  qed
qed simp

lemma dm_kind_values:
  assumes "dm_ok dm"
  shows "(\<exists>d\<in>set (bt_values (dm_devices dm)). kind d = Some h) \<longleftrightarrow> (\<exists>name d. dm_get dm name = Some d \<and> kind d = Some h)"
proof -
  have "distinct (map fst (dm_devices dm))"
    using assms by (auto simp: dm_ok_def bt_ok_def bt_keys_def strict_sorted_iff)
  then have *: "\<And>name d. dm_get dm name = Some d \<longleftrightarrow> (name, d) \<in> set (dm_devices dm)"
    by (simp add: dm_get_def bt_get_map_of)
  show ?thesis unfolding * by (force simp: bt_values_def)
qed

text \<open>The registry after a sequence of registrations.\<close>

definition dm_built :: "(string \<times> 'h device) list \<Rightarrow> 'h device_manager" where
  "dm_built regs = fold (\<lambda>(name, d) dm. dm_register dm name d) regs device_manager_new"

lemma dm_built_devices: "dm_devices (dm_built regs) = btree.build regs"
proof -
  have "dm_devices (fold (\<lambda>(name, d) dm. dm_register dm name d) regs dm) =
      fold (\<lambda>(k, v) m. bt_insert k v m) regs (dm_devices dm)" for dm :: "'a device_manager"
    by (induction regs arbitrary: dm) (auto simp: dm_register_def)
  then show ?thesis by (simp add: dm_built_def btree.build_def device_manager_new_def)
qed

lemma dm_built_ok: "dm_ok (dm_built regs)"
  by (simp add: dm_ok_def dm_built_devices btree.build_invar)

lemma dm_built_get: "dm_get (dm_built regs) = map_of (rev regs)"
  by (simp add: dm_get_def fun_eq_iff dm_built_devices btree.build_lookup)

lemma as_serial_Some: "as_serial d = Some h \<longleftrightarrow> d = Serial h"
  by (cases d) auto

lemma first_device_dm:
  assumes "dm_ok dm" "first_device kind (bt_values (dm_devices dm)) = Some h"
  shows "\<exists>name d. dm_get dm name = Some d \<and> kind d = Some h \<and>
    (\<forall>name' d'. dm_get dm name' = Some d' \<longrightarrow> kind d' \<noteq> None \<longrightarrow> name \<le> name')"
  using first_device_entry [of kind "dm_devices dm" h] assms
  by (simp add: dm_get_def bt_get_map_of bt_values_def dm_ok_def bt_ok_def bt_keys_def)

section \<open>Properties\<close>

definition demo_regs :: "(string \<times> nat device) list" where
  "demo_regs = [(''uart1'', Serial 1), (''serial0'', Serial 0), (''fb0'', FrameBuffer 2)]"

lemma demo_console: "serial_console (dm_built demo_regs) = Some 0"
  by code_simp

text \<open>
  \<^verbatim>\<open>serial_console\<close> after any sequence of registrations: there is a console exactly when some
  serial port is registered, and it is the one named \<^verbatim>\<open>console\<close>, else the one named \<^verbatim>\<open>serial0\<close>, else
  the serial port with the least name.
\<close>

lemma serial_console_choice:
  defines "reg \<equiv> \<lambda>regs :: (string \<times> 'h device) list. map_of (rev regs)"
  shows "(serial_console (dm_built regs) = None \<longleftrightarrow> (\<forall>name h. reg regs name \<noteq> Some (Serial h))) \<and>
    (\<forall>h. serial_console (dm_built regs) = Some h \<longrightarrow>
      (\<exists>name. reg regs name = Some (Serial h) \<and>
        (name = ''console'' \<or> (\<forall>g. reg regs ''console'' \<noteq> Some (Serial g)) \<and>
         (name = ''serial0'' \<or> (\<forall>g. reg regs ''serial0'' \<noteq> Some (Serial g)) \<and>
          (\<forall>name' g. reg regs name' = Some (Serial g) \<longrightarrow> name \<le> name')))))"
proof -
  let ?dm = "dm_built regs" and ?r = "reg regs"
  have get: "dm_get ?dm = ?r" by (simp add: dm_built_get reg_def)
  have ser: "dm_serial ?dm n = Some h \<longleftrightarrow> ?r n = Some (Serial h)" for n h
    by (auto simp: dm_serial_def get bind_eq_Some_conv as_serial_Some)
  then have serN: "dm_serial ?dm n = None \<longleftrightarrow> (\<forall>h. ?r n \<noteq> Some (Serial h))" for n
    by (metis not_Some_eq)
  let ?f = "first_device as_serial (bt_values (dm_devices ?dm))"
  have fN: "?f = None \<longleftrightarrow> (\<forall>name h. ?r name \<noteq> Some (Serial h))"
    using dm_kind_values [OF dm_built_ok, of regs as_serial]
    unfolding first_device_None get as_serial_Some [symmetric] by (metis as_serial_Some not_Some_eq)
  have fS: "\<exists>name. ?r name = Some (Serial h) \<and> (\<forall>name' g. ?r name' = Some (Serial g) \<longrightarrow> name \<le> name')"
    if "?f = Some h" for h
    using first_device_dm [OF dm_built_ok that] by (auto simp: get as_serial_Some)
  show ?thesis
  proof (cases "dm_serial ?dm ''console''")
    case (Some c)
    then have "serial_console ?dm = Some c" by (simp add: serial_console_def)
    moreover have "?r ''console'' = Some (Serial c)" using Some by (rule ser [THEN iffD1])
    ultimately show ?thesis by auto
  next
    case c: None
    show ?thesis
    proof (cases "dm_serial ?dm ''serial0''")
      case (Some c0)
      then have "serial_console ?dm = Some c0" using c by (simp add: serial_console_def)
      moreover have "?r ''serial0'' = Some (Serial c0)" using Some by (rule ser [THEN iffD1])
      ultimately show ?thesis using serN [of "''console''"] c by auto
    next
      case None
      then have "serial_console ?dm = ?f" using c by (simp add: serial_console_def)
      then show ?thesis using c None fN fS serN [of "''console''"] serN [of "''serial0''"] by metis
    qed
  qed
qed

lemma serial_console_choice_witness:
  "\<exists>name. map_of (rev demo_regs) name = Some (Serial 0)"
  using serial_console_choice [of demo_regs] demo_console by blast

end
