(* ===== verification/Device_Io.thy ===== *)
theory Device_Io
  imports Prelude "HOL-Library.State_Monad"
begin

text \<open>
  Device access.  A driver is a state transformer over the state \<open>'d\<close> of the hardware it drives;
  a register read may change that state (a FIFO is drained, a flag is cleared), so it is a
  transformer too.  What the hardware does on an access is a parameter of the drivers, a \<open>bus\<close>;
  a driver function that can fail returns an \<open>outcome\<close>.  A polling loop that never sees the flag
  it waits for does not return.
\<close>

named_theorems io_simps \<open>running a driver\<close>

section \<open>Buses\<close>

text \<open>Volatile accesses of width \<open>'v\<close>: what a read returns and what it does to the device.\<close>

record ('v, 'd) bus =
  bus_read :: "u32 \<Rightarrow> 'd \<Rightarrow> 'v \<times> 'd"
  bus_write :: "u32 \<Rightarrow> 'v \<Rightarrow> 'd \<Rightarrow> 'd"

definition load :: "('v, 'd) bus \<Rightarrow> u32 \<Rightarrow> ('d, 'v) state" where
  "load b a = State (bus_read b a)"

definition store :: "('v, 'd) bus \<Rightarrow> u32 \<Rightarrow> 'v \<Rightarrow> ('d, unit) state" where
  "store b a v = State (\<lambda>d. ((), bus_write b a v d))"

section \<open>Calls that can fail\<close>

type_synonym ('d, 'a, 'e) io = "('d, ('a, 'e) outcome) state"

definition ok :: "'a \<Rightarrow> ('d, 'a, 'e) io" where
  "ok x = State_Monad.return (Ok x)"

definition fail :: "'e \<Rightarrow> ('d, 'a, 'e) io" where
  "fail e = State_Monad.return (Err e)"

definition panic :: "('d, 'a, 'e) io" where
  "panic = State_Monad.return Panic"

text \<open>\<^verbatim>\<open>let x = m?; k(x)\<close>.\<close>

definition io_bind :: "('d, 'a, 'e) io \<Rightarrow> ('a \<Rightarrow> ('d, 'b, 'e) io) \<Rightarrow> ('d, 'b, 'e) io" where
  "io_bind m k = do {
     r \<leftarrow> m;
     case r of Ok x \<Rightarrow> k x | Err e \<Rightarrow> State_Monad.return (Err e) | Panic \<Rightarrow> State_Monad.return Panic
     | Diverge \<Rightarrow> State_Monad.return Diverge
   }"

definition io_map_err :: "('e \<Rightarrow> 'f) \<Rightarrow> ('d, 'a, 'e) io \<Rightarrow> ('d, 'a, 'f) io" where
  "io_map_err g m = do { r \<leftarrow> m; State_Monad.return (map_err g r) }"

text \<open>A computed result inside a driver: \<^verbatim>\<open>let x = f()?\<close> for a function that touches no device.\<close>

definition of_result :: "('a, 'e) outcome \<Rightarrow> ('d, 'a, 'e) io" where
  "of_result r = State_Monad.return r"

text \<open>\<^verbatim>\<open>for x in xs { f(x)?; }\<close>.\<close>

fun each :: "('a \<Rightarrow> ('d, unit, 'e) io) \<Rightarrow> 'a list \<Rightarrow> ('d, unit, 'e) io" where
  "each f [] = ok ()"
| "each f (x # xs) = io_bind (f x) (\<lambda>_. each f xs)"

text \<open>\<^verbatim>\<open>for slot in buf.iter_mut() { *slot = f()?; }\<close>: the new contents of the buffer.\<close>

fun fill :: "('d, 'a, 'e) io \<Rightarrow> 'a list \<Rightarrow> ('d, 'a list, 'e) io" where
  "fill f [] = ok []"
| "fill f (_ # xs) = io_bind f (\<lambda>y. io_bind (fill f xs) (\<lambda>ys. ok (y # ys)))"

section \<open>Polling\<close>

text \<open>\<^verbatim>\<open>loop { let v = rd(); if !again(v) { break v } }\<close>.\<close>

partial_function (option) poll :: "('d \<Rightarrow> 'v \<times> 'd) \<Rightarrow> ('v \<Rightarrow> bool) \<Rightarrow> 'd \<Rightarrow> ('v \<times> 'd) option" where
  "poll rd again d = (case rd d of (v, d') \<Rightarrow> if again v then poll rd again d' else Some (v, d'))"

declare poll.simps [code]

definition spin_while :: "('d, 'v) state \<Rightarrow> ('v \<Rightarrow> bool) \<Rightarrow> ('d, 'v, 'e) io" where
  "spin_while rd again =
     State (\<lambda>d. case poll (run_state rd) again d of None \<Rightarrow> (Diverge, d) | Some (v, d') \<Rightarrow> (Ok v, d'))"

section \<open>Running\<close>

lemma run_load [io_simps]: "run_state (load b a) d = bus_read b a d"
  by (simp add: load_def)

lemma run_store [io_simps]: "run_state (store b a v) d = ((), bus_write b a v d)"
  by (simp add: store_def)

lemma run_ok [io_simps]: "run_state (ok x) d = (Ok x, d)"
  by (simp add: ok_def)

lemma run_fail [io_simps]: "run_state (fail e) d = (Err e, d)"
  by (simp add: fail_def)

lemma run_panic [io_simps]: "run_state panic d = (Panic, d)"
  by (simp add: panic_def)

lemma run_of_result [io_simps]: "run_state (of_result r) d = (r, d)"
  by (simp add: of_result_def)

lemma run_io_bind_Ok [io_simps]: "run_state m d = (Ok x, d') \<Longrightarrow> run_state (io_bind m k) d = run_state (k x) d'"
  by (simp add: io_bind_def)

lemma run_io_bind_Err [io_simps]: "run_state m d = (Err e, d') \<Longrightarrow> run_state (io_bind m k) d = (Err e, d')"
  by (simp add: io_bind_def)

lemma run_io_bind:
  "run_state (io_bind m k) d =
     (case run_state m d of (Ok x, d') \<Rightarrow> run_state (k x) d' | (Err e, d') \<Rightarrow> (Err e, d')
      | (Panic, d') \<Rightarrow> (Panic, d') | (Diverge, d') \<Rightarrow> (Diverge, d'))"
  by (simp add: io_bind_def split: prod.split outcome.split)

lemma run_io_bind_eq_Ok:
  "run_state (io_bind m k) d = (Ok y, d2) \<longleftrightarrow>
     (\<exists>x d1. run_state m d = (Ok x, d1) \<and> run_state (k x) d1 = (Ok y, d2))"
  by (auto simp: run_io_bind split: prod.splits outcome.splits)

lemma run_io_map_err [io_simps]:
  "run_state (io_map_err g m) d = (case run_state m d of (r, d') \<Rightarrow> (map_err g r, d'))"
  by (simp add: io_map_err_def split: prod.split)

lemma io_bind_ok [simp]: "io_bind (ok x) k = k x"
  by (simp add: io_bind_def ok_def)

lemma io_bind_fail [simp]: "io_bind (fail e) k = fail e"
  by (simp add: io_bind_def fail_def)

lemma io_bind_ok_right [simp]: "io_bind m ok = m"
  by (rule state_ext) (simp add: run_io_bind run_ok split: prod.split outcome.split)

lemma io_bind_assoc: "io_bind (io_bind m f) g = io_bind m (\<lambda>x. io_bind (f x) g)"
  by (rule state_ext) (simp add: run_io_bind split: prod.split outcome.split)

lemma io_map_err_bind:
  "io_map_err h (io_bind m k) = io_bind (io_map_err h m) (\<lambda>x. io_map_err h (k x))"
  by (rule state_ext) (simp add: run_io_bind run_io_map_err split: prod.split outcome.split)

lemma io_map_err_ok [simp]: "io_map_err h (ok x) = ok x"
  by (simp add: io_map_err_def ok_def)

lemma each_append: "each f (xs @ ys) = io_bind (each f xs) (\<lambda>_. each f ys)"
  by (induction xs) (simp_all add: io_bind_assoc)

lemma each_concat: "each f (concat (map g xs)) = each (\<lambda>x. each f (g x)) xs"
  by (induction xs) (simp_all add: each_append)

lemma each_map_err: "io_map_err h (each f xs) = each (\<lambda>x. io_map_err h (f x)) xs"
  by (induction xs) (simp_all add: io_map_err_bind)

lemma run_spin_now [io_simps]:
  "run_state rd d = (v, d') \<Longrightarrow> \<not> again v \<Longrightarrow> run_state (spin_while rd again) d = (Ok v, d')"
  by (simp add: spin_while_def poll.simps)

text \<open>
  Polling ends: with a natural number that every unsuccessful read decreases, the loop returns a
  value that satisfies the exit condition, and an invariant of the reads holds there.
\<close>

lemma poll_ends:
  assumes "I d" and step: "\<And>d v d'. I d \<Longrightarrow> rd d = (v, d') \<Longrightarrow> again v \<Longrightarrow> I d' \<and> lat d' < (lat d :: nat)"
  shows "\<exists>d0 v d1. I d0 \<and> rd d0 = (v, d1) \<and> \<not> again v \<and> poll rd again d = Some (v, d1)"
  using assms(1)
proof (induction "lat d" arbitrary: d rule: less_induct)
  case less
  obtain v d' where r: "rd d = (v, d')" by (cases "rd d")
  show ?case
  proof (cases "again v")
    case True
    then have "I d'" "lat d' < lat d" using step [OF less.prems r] by auto
    from less.hyps [OF this(2,1)] show ?thesis using r True by (subst poll.simps) simp
  next
    case False
    then show ?thesis using r less.prems by (subst poll.simps) auto
  qed
qed

lemma spin_ends:
  assumes "I d" "\<And>d v d'. I d \<Longrightarrow> run_state rd d = (v, d') \<Longrightarrow> again v \<Longrightarrow> I d' \<and> lat d' < (lat d :: nat)"
  obtains d0 v d1 where "I d0" "run_state rd d0 = (v, d1)" "\<not> again v"
    "run_state (spin_while rd again) d = (Ok v, d1)"
  using poll_ends [of I d "run_state rd" again lat] assms by (auto simp: spin_while_def)

end
