(* ===== verification/Serial_Port.thy ===== *)
theory Serial_Port
  imports Device_Io
begin

text \<open>
  The serial abstraction (\<^verbatim>\<open>drivers/src/hal/serial.rs\<close>): configurations, errors, the traits of a
  blocking and a non-blocking port with their default loops, the type-erased port that the kernel
  stores, and text output with line-ending conversion.
\<close>

section \<open>Configuration and errors\<close>

datatype data_bits = Five | Six | Seven | Eight

datatype parity = NoParity | OddParity | EvenParity

datatype stop_bits = OneStop | TwoStop

record serial_config =
  baud_rate :: u32
  cfg_data_bits :: data_bits
  cfg_parity :: parity
  cfg_stop_bits :: stop_bits

definition new_8n1 :: "u32 \<Rightarrow> serial_config" where
  "new_8n1 baud = \<lparr>baud_rate = baud, cfg_data_bits = Eight, cfg_parity = NoParity, cfg_stop_bits = OneStop\<rparr>"

definition default_config :: serial_config where
  "default_config = new_8n1 115200"

datatype serial_error =
  SerialFraming | SerialParity | SerialOverrun | SerialBreak | SerialWouldBlock | SerialInvalidConfig | SerialOther

section \<open>Ports\<close>

text \<open>
  A port with its state \<open>'p\<close> and its error type \<open>'e\<close>.  The trait's default \<^verbatim>\<open>write\<close> and \<^verbatim>\<open>read\<close> loop
  over the bytes; no port of the repository overrides them.  A \<^verbatim>\<open>read\<close> returns the count and the
  new contents of the buffer.
\<close>

record ('p, 'e) serial_port =
  sp_configure :: "serial_config \<Rightarrow> ('p, unit, 'e) io"
  sp_write_byte :: "u8 \<Rightarrow> ('p, unit, 'e) io"
  sp_read_byte :: "('p, u8, 'e) io"
  sp_flush :: "('p, unit, 'e) io"
  sp_is_busy :: "('p, bool) state"

definition sp_write :: "('p, 'e) serial_port \<Rightarrow> u8 list \<Rightarrow> ('p, u32, 'e) io" where
  "sp_write p bytes = io_bind (each (sp_write_byte p) bytes) (\<lambda>_. ok (of_nat (length bytes)))"

definition sp_read :: "('p, 'e) serial_port \<Rightarrow> u8 list \<Rightarrow> ('p, u32 \<times> u8 list, 'e) io" where
  "sp_read p buf = io_bind (fill (sp_read_byte p) buf) (\<lambda>buf'. ok (of_nat (length buf'), buf'))"

record ('p, 'e) nonblocking_serial =
  nb_write_byte :: "u8 \<Rightarrow> ('p, unit, 'e) io"
  nb_read_byte :: "('p, u8, 'e) io"

definition try_write :: "('p, 'e) nonblocking_serial \<Rightarrow> u8 list \<Rightarrow> ('p, u32, 'e) io" where
  "try_write p bytes = io_bind (each (nb_write_byte p) bytes) (\<lambda>_. ok (of_nat (length bytes)))"

definition try_read :: "('p, 'e) nonblocking_serial \<Rightarrow> u8 list \<Rightarrow> ('p, u32 \<times> u8 list, 'e) io" where
  "try_read p buf = io_bind (fill (nb_read_byte p) buf) (\<lambda>buf'. ok (of_nat (length buf'), buf'))"

section \<open>Type-erased ports\<close>

record 'p dyn_nonblocking_serial =
  dnb_try_write_byte :: "u8 \<Rightarrow> ('p, unit, serial_error) io"
  dnb_try_read_byte :: "('p, u8, serial_error) io"
  dnb_try_write :: "u8 list \<Rightarrow> ('p, u32, serial_error) io"
  dnb_try_read :: "u8 list \<Rightarrow> ('p, u32 \<times> u8 list, serial_error) io"

record 'p dyn_serial_port =
  ds_configure :: "serial_config \<Rightarrow> ('p, unit, serial_error) io"
  ds_write_byte :: "u8 \<Rightarrow> ('p, unit, serial_error) io"
  ds_write :: "u8 list \<Rightarrow> ('p, u32, serial_error) io"
  ds_read_byte :: "('p, u8, serial_error) io"
  ds_read :: "u8 list \<Rightarrow> ('p, u32 \<times> u8 list, serial_error) io"
  ds_flush :: "('p, unit, serial_error) io"
  ds_is_busy :: "('p, bool) state"
  ds_as_nonblocking :: "'p dyn_nonblocking_serial option"

text \<open>
  The blanket implementation for every \<^verbatim>\<open>SerialPort\<close>; it leaves \<^verbatim>\<open>as_nonblocking\<close> at the trait's
  default, which is \<^verbatim>\<open>None\<close>, also for the ports that have the non-blocking operations.
\<close>

definition dyn_serial :: "('e \<Rightarrow> serial_error) \<Rightarrow> ('p, 'e) serial_port \<Rightarrow> 'p dyn_serial_port" where
  "dyn_serial into p =
     \<lparr>ds_configure = (\<lambda>c. io_map_err into (sp_configure p c)),
      ds_write_byte = (\<lambda>b. io_map_err into (sp_write_byte p b)),
      ds_write = (\<lambda>bs. io_map_err into (sp_write p bs)),
      ds_read_byte = io_map_err into (sp_read_byte p),
      ds_read = (\<lambda>buf. io_map_err into (sp_read p buf)),
      ds_flush = io_map_err into (sp_flush p),
      ds_is_busy = sp_is_busy p,
      ds_as_nonblocking = None\<rparr>"

definition dyn_nonblocking :: "('e \<Rightarrow> serial_error) \<Rightarrow> ('p, 'e) nonblocking_serial \<Rightarrow> 'p dyn_nonblocking_serial" where
  "dyn_nonblocking into p =
     \<lparr>dnb_try_write_byte = (\<lambda>b. io_map_err into (nb_write_byte p b)),
      dnb_try_read_byte = io_map_err into (nb_read_byte p),
      dnb_try_write = (\<lambda>bs. io_map_err into (try_write p bs)),
      dnb_try_read = (\<lambda>buf. io_map_err into (try_read p buf))\<rparr>"

section \<open>Text output\<close>

text \<open>\<^verbatim>\<open>fmt::Write\<close>: the only error is \<^verbatim>\<open>fmt::Error\<close>.  Strings are their UTF-8 bytes.\<close>

definition LF :: u8 where "LF = 10"
definition CR :: u8 where "CR = 13"

definition write_text_byte :: "(u8 \<Rightarrow> ('p, unit, 'e) io) \<Rightarrow> u8 \<Rightarrow> ('p, unit, unit) io" where
  "write_text_byte wb byte =
     io_bind (if byte = LF then io_map_err (\<lambda>_. ()) (wb CR) else ok ())
       (\<lambda>_. io_map_err (\<lambda>_. ()) (wb byte))"

definition dyn_write_str :: "'p dyn_serial_port \<Rightarrow> u8 list \<Rightarrow> ('p, unit, unit) io" where
  "dyn_write_str p s = each (write_text_byte (ds_write_byte p)) s"

definition serial_writer_write_str :: "('p, 'e) serial_port \<Rightarrow> u8 list \<Rightarrow> ('p, unit, unit) io" where
  "serial_writer_write_str p s = each (write_text_byte (sp_write_byte p)) s"

section \<open>Line-ending conversion\<close>

text \<open>The bytes on the wire for a text.\<close>

definition crlf :: "u8 list \<Rightarrow> u8 list" where
  "crlf s = concat (map (\<lambda>b. if b = LF then [CR, LF] else [b]) s)"

lemma write_text_byte_each:
  "write_text_byte wb = (\<lambda>b. io_map_err (\<lambda>_. ()) (each wb (if b = LF then [CR, LF] else [b])))"
  by (rule ext) (simp add: write_text_byte_def io_map_err_bind)

lemma write_text_each: "each (write_text_byte wb) s = io_map_err (\<lambda>_. ()) (each wb (crlf s))"
  by (simp add: crlf_def each_concat write_text_byte_each each_map_err)

lemma io_map_err_comp:
  fixes m :: "('p, 'a, 'e) io"
  shows "io_map_err g (io_map_err h m) = io_map_err (\<lambda>e. g (h e)) m"
proof -
  have "map_err g (map_err h r) = map_err (\<lambda>e. g (h e)) r" for r :: "('a, 'e) outcome" by (cases r) auto
  then show ?thesis by (intro state_ext) (simp add: run_io_map_err split: prod.split)
qed

section \<open>The contract of a transmitter\<close>

text \<open>
  A byte sink: writing a byte succeeds and appends it to what has been sent.  What the default
  loops and the text output send follows from that alone.
\<close>

locale byte_sink =
  fixes write_byte :: "u8 \<Rightarrow> ('p, unit, 'e) io"
    and sent :: "'p \<Rightarrow> u8 list"
    and up :: "'p \<Rightarrow> bool"
  assumes write_byte_sends:
    "up d \<Longrightarrow> \<exists>d'. run_state (write_byte b) d = (Ok (), d') \<and> sent d' = sent d @ [b] \<and> up d'"
begin

lemma each_sends:
  "up d \<Longrightarrow> \<exists>d'. run_state (each write_byte bs) d = (Ok (), d') \<and> sent d' = sent d @ bs \<and> up d'"
proof (induction bs arbitrary: d)
  case Nil
  then show ?case by (simp add: run_ok)
next
  case (Cons b bs)
  obtain d1 where d1: "run_state (write_byte b) d = (Ok (), d1)" "sent d1 = sent d @ [b]" "up d1"
    using write_byte_sends [OF Cons.prems] by blast
  then show ?case using Cons.IH [OF d1(3)] by (auto simp: run_io_bind_Ok)
qed

lemma write_sends:
  assumes "up d" "sp_write_byte p = write_byte"
  obtains d' where "run_state (ds_write (dyn_serial into p) bs) d = (Ok (of_nat (length bs)), d')"
    "sent d' = sent d @ bs" "up d'"
  using each_sends [OF assms(1), of bs] assms(2)
  by (auto simp: dyn_serial_def sp_write_def run_io_map_err run_io_bind_Ok run_ok)

lemma write_str_sends:
  assumes "up d" "sp_write_byte p = write_byte"
  obtains d' where "run_state (dyn_write_str (dyn_serial into p) s) d = (Ok (), d')"
    "sent d' = sent d @ crlf s" "up d'"
  using each_sends [OF assms(1), of "crlf s"] assms(2)
  by (auto simp: dyn_serial_def dyn_write_str_def write_text_each run_io_map_err simp flip: each_map_err)

end

section \<open>The contract of a receiver\<close>

text \<open>Reading a byte takes the next one of those that have arrived.\<close>

locale byte_source =
  fixes read_byte :: "('p, u8, 'e) io"
    and arrived :: "'p \<Rightarrow> u8 list"
    and live :: "'p \<Rightarrow> bool"
  assumes read_byte_takes:
    "live d \<Longrightarrow> arrived d = b # bs \<Longrightarrow> \<exists>d'. run_state read_byte d = (Ok b, d') \<and> arrived d' = bs \<and> live d'"
begin

lemma fill_takes:
  "live d \<Longrightarrow> length buf \<le> length (arrived d) \<Longrightarrow>
    \<exists>d'. run_state (fill read_byte buf) d = (Ok (take (length buf) (arrived d)), d') \<and>
      arrived d' = drop (length buf) (arrived d) \<and> live d'"
proof (induction buf arbitrary: d)
  case Nil
  then show ?case by (simp add: run_ok)
next
  case (Cons x buf)
  obtain b bs where a: "arrived d = b # bs" using Cons.prems(2) by (cases "arrived d") auto
  obtain d1 where d1: "run_state read_byte d = (Ok b, d1)" "arrived d1 = bs" "live d1"
    using read_byte_takes [OF Cons.prems(1) a] by blast
  have "length buf \<le> length (arrived d1)" using Cons.prems(2) a d1(2) by simp
  from Cons.IH [OF d1(3) this] show ?case using d1 a by (auto simp: run_io_bind_Ok run_ok)
qed

lemma read_takes:
  assumes "live d" "length buf \<le> length (arrived d)" "sp_read_byte p = read_byte"
  obtains d' where "run_state (ds_read (dyn_serial into p) buf) d =
      (Ok (of_nat (length buf), take (length buf) (arrived d)), d')"
    "arrived d' = drop (length buf) (arrived d)" "live d'"
  using fill_takes [OF assms(1,2)] assms(2,3)
  by (auto simp: dyn_serial_def sp_read_def run_io_map_err run_io_bind_Ok run_ok)

end

end
