(* ===== verification/Uart_Drivers.thy ===== *)
theory Uart_Drivers
  imports Serial_Port
begin

text \<open>
  The two serial drivers: the 16550 UART of the PC (\<^verbatim>\<open>drivers/src/peripheral/x86/uart16550.rs\<close>) and
  the PL011 of the ARM boards (\<^verbatim>\<open>drivers/src/peripheral/arm/pl011.rs\<close>).  A driver is a base address;
  the registers behind it are a bus, so the drivers are proved for every device whose transmitter
  and receiver behave as the data sheets say.
\<close>

section \<open>16550: registers\<close>

text \<open>
  \<^verbatim>\<open>Mmio\<close> accesses memory at the address; \<^verbatim>\<open>Pio\<close> accesses the port whose number is the address
  cut to 16 bits.
\<close>

definition Mmio :: "(u8, 'd) bus \<Rightarrow> (u8, 'd) bus" where
  "Mmio memory_bus = \<lparr>bus_read = (\<lambda>addr. bus_read memory_bus addr), bus_write = (\<lambda>addr. bus_write memory_bus addr)\<rparr>"

definition Pio :: "(u16 \<Rightarrow> 'd \<Rightarrow> u8 \<times> 'd) \<Rightarrow> (u16 \<Rightarrow> u8 \<Rightarrow> 'd \<Rightarrow> 'd) \<Rightarrow> (u8, 'd) bus" where
  "Pio inb outb = \<lparr>bus_read = (\<lambda>addr. inb (ucast addr)), bus_write = (\<lambda>addr. outb (ucast addr))\<rparr>"

definition UART_CLOCK_HZ :: u32 where "UART_CLOCK_HZ = 1843200"

definition RBR :: u32 where "RBR = 0"
definition THR :: u32 where "THR = 0"
definition DLL :: u32 where "DLL = 0"
definition DLM :: u32 where "DLM = 1"
definition IER :: u32 where "IER = 1"
definition FCR :: u32 where "FCR = 2"
definition LCR :: u32 where "LCR = 3"
definition MCR :: u32 where "MCR = 4"
definition LSR :: u32 where "LSR = 5"

definition LCR_DLAB :: u8 where "LCR_DLAB = 0x80"
definition FCR_ENABLE :: u8 where "FCR_ENABLE = 1"
definition FCR_CLEAR_RX :: u8 where "FCR_CLEAR_RX = 2"
definition FCR_CLEAR_TX :: u8 where "FCR_CLEAR_TX = 4"
definition MCR_DTR :: u8 where "MCR_DTR = 1"
definition MCR_RTS :: u8 where "MCR_RTS = 2"
definition MCR_OUT2 :: u8 where "MCR_OUT2 = 8"
definition LSR_DR :: u8 where "LSR_DR = 1"
definition LSR_OE :: u8 where "LSR_OE = 2"
definition LSR_PE :: u8 where "LSR_PE = 4"
definition LSR_FE :: u8 where "LSR_FE = 8"
definition LSR_BI :: u8 where "LSR_BI = 16"
definition LSR_THRE :: u8 where "LSR_THRE = 32"
definition LSR_TEMT :: u8 where "LSR_TEMT = 64"

datatype uart16550_error = U16Framing | U16Parity | U16Overrun | U16Break | U16WouldBlock | U16InvalidConfig

fun uart16550_into :: "uart16550_error \<Rightarrow> serial_error" where
  "uart16550_into U16Framing = SerialFraming"
| "uart16550_into U16Parity = SerialParity"
| "uart16550_into U16Overrun = SerialOverrun"
| "uart16550_into U16Break = SerialBreak"
| "uart16550_into U16WouldBlock = SerialWouldBlock"
| "uart16550_into U16InvalidConfig = SerialInvalidConfig"

record uart16550 =
  u16_base :: u32

definition uart16550_new :: "u32 \<Rightarrow> uart16550" where
  "uart16550_new base = \<lparr>u16_base = base\<rparr>"

definition u16_read_reg :: "(u8, 'd) bus \<Rightarrow> uart16550 \<Rightarrow> u32 \<Rightarrow> ('d, u8) state" where
  "u16_read_reg io u offset = load io (u16_base u + offset)"

definition u16_write_reg :: "(u8, 'd) bus \<Rightarrow> uart16550 \<Rightarrow> u32 \<Rightarrow> u8 \<Rightarrow> ('d, unit) state" where
  "u16_write_reg io u offset v = store io (u16_base u + offset) v"

section \<open>16550: operations\<close>

text \<open>\<^verbatim>\<open>16 * baud\<close> wraps around; when it wraps to 0 the division panics.\<close>

definition set_baud :: "(u8, 'd) bus \<Rightarrow> uart16550 \<Rightarrow> u32 \<Rightarrow> ('d, unit, uart16550_error) io" where
  "set_baud io u baud =
     (if baud = 0 then fail U16InvalidConfig
      else if 16 * baud = 0 then panic
      else
        let divisor = UART_CLOCK_HZ div (16 * baud) in
        if divisor = 0 \<or> divisor > 0xFFFF then fail U16InvalidConfig
        else do {
          lcr \<leftarrow> u16_read_reg io u LCR;
          u16_write_reg io u LCR (lcr OR LCR_DLAB);
          u16_write_reg io u DLL (ucast (divisor AND 0xFF));
          u16_write_reg io u DLM (ucast (drop_bit 8 divisor));
          u16_write_reg io u LCR (lcr AND NOT LCR_DLAB);
          ok ()
        })"

definition check_errors :: "u8 \<Rightarrow> (unit, uart16550_error) outcome" where
  "check_errors lsr =
     (if lsr AND LSR_OE \<noteq> 0 then Err U16Overrun
      else if lsr AND LSR_PE \<noteq> 0 then Err U16Parity
      else if lsr AND LSR_FE \<noteq> 0 then Err U16Framing
      else if lsr AND LSR_BI \<noteq> 0 then Err U16Break
      else Ok ())"

definition u16_configure :: "(u8, 'd) bus \<Rightarrow> uart16550 \<Rightarrow> serial_config \<Rightarrow> ('d, unit, uart16550_error) io" where
  "u16_configure io u config =
     (if cfg_data_bits config \<noteq> Eight \<or> cfg_parity config \<noteq> NoParity \<or> cfg_stop_bits config \<noteq> OneStop
      then fail U16InvalidConfig
      else do {
        u16_write_reg io u IER 0;
        u16_write_reg io u LCR 3;
        io_bind (set_baud io u (baud_rate config)) (\<lambda>_. do {
          u16_write_reg io u FCR (FCR_ENABLE OR FCR_CLEAR_RX OR FCR_CLEAR_TX);
          u16_write_reg io u MCR (MCR_DTR OR MCR_RTS OR MCR_OUT2);
          ok ()
        })
      })"

definition u16_write_byte :: "(u8, 'd) bus \<Rightarrow> uart16550 \<Rightarrow> u8 \<Rightarrow> ('d, unit, uart16550_error) io" where
  "u16_write_byte io u byte =
     io_bind (spin_while (u16_read_reg io u LSR) (\<lambda>lsr. lsr AND LSR_THRE = 0)) (\<lambda>_. do {
       u16_write_reg io u THR byte;
       ok ()
     })"

definition u16_read_byte :: "(u8, 'd) bus \<Rightarrow> uart16550 \<Rightarrow> ('d, u8, uart16550_error) io" where
  "u16_read_byte io u =
     io_bind (spin_while (u16_read_reg io u LSR) (\<lambda>lsr. lsr AND LSR_DR = 0)) (\<lambda>lsr.
       io_bind (of_result (check_errors lsr)) (\<lambda>_. do {
         b \<leftarrow> u16_read_reg io u RBR;
         ok b
       }))"

definition u16_flush :: "(u8, 'd) bus \<Rightarrow> uart16550 \<Rightarrow> ('d, unit, uart16550_error) io" where
  "u16_flush io u =
     io_bind (spin_while (u16_read_reg io u LSR) (\<lambda>lsr. lsr AND LSR_TEMT = 0)) (\<lambda>_. ok ())"

definition u16_is_busy :: "(u8, 'd) bus \<Rightarrow> uart16550 \<Rightarrow> ('d, bool) state" where
  "u16_is_busy io u = do { lsr \<leftarrow> u16_read_reg io u LSR; State_Monad.return (lsr AND LSR_TEMT = 0) }"

definition u16_try_write_byte :: "(u8, 'd) bus \<Rightarrow> uart16550 \<Rightarrow> u8 \<Rightarrow> ('d, unit, uart16550_error) io" where
  "u16_try_write_byte io u byte = do {
     lsr \<leftarrow> u16_read_reg io u LSR;
     if lsr AND LSR_THRE = 0 then fail U16WouldBlock
     else do { u16_write_reg io u THR byte; ok () }
   }"

definition u16_try_read_byte :: "(u8, 'd) bus \<Rightarrow> uart16550 \<Rightarrow> ('d, u8, uart16550_error) io" where
  "u16_try_read_byte io u = do {
     lsr \<leftarrow> u16_read_reg io u LSR;
     if lsr AND LSR_DR = 0 then fail U16WouldBlock
     else io_bind (of_result (check_errors lsr)) (\<lambda>_. do { b \<leftarrow> u16_read_reg io u RBR; ok b })
   }"

definition u16_port :: "(u8, 'd) bus \<Rightarrow> uart16550 \<Rightarrow> ('d, uart16550_error) serial_port" where
  "u16_port io u =
     \<lparr>sp_configure = u16_configure io u, sp_write_byte = u16_write_byte io u, sp_read_byte = u16_read_byte io u,
      sp_flush = u16_flush io u, sp_is_busy = u16_is_busy io u\<rparr>"

definition u16_nonblocking :: "(u8, 'd) bus \<Rightarrow> uart16550 \<Rightarrow> ('d, uart16550_error) nonblocking_serial" where
  "u16_nonblocking io u = \<lparr>nb_write_byte = u16_try_write_byte io u, nb_read_byte = u16_try_read_byte io u\<rparr>"

section \<open>PL011: registers\<close>

definition PL011_CLOCK_HZ :: u32 where "PL011_CLOCK_HZ = 48000000"

definition FR_OFFSET :: u32 where "FR_OFFSET = 0x18"
definition IBRD_OFFSET :: u32 where "IBRD_OFFSET = 0x24"
definition FBRD_OFFSET :: u32 where "FBRD_OFFSET = 0x28"
definition LCRH_OFFSET :: u32 where "LCRH_OFFSET = 0x2C"
definition CR_OFFSET :: u32 where "CR_OFFSET = 0x30"
definition IMSC_OFFSET :: u32 where "IMSC_OFFSET = 0x38"
definition ICR_OFFSET :: u32 where "ICR_OFFSET = 0x44"

definition FR_BUSY :: u32 where "FR_BUSY = 8"
definition FR_RXFE :: u32 where "FR_RXFE = 16"
definition FR_TXFF :: u32 where "FR_TXFF = 32"
definition CR_UARTEN :: u32 where "CR_UARTEN = 1"
definition CR_TXE :: u32 where "CR_TXE = 0x100"
definition CR_RXE :: u32 where "CR_RXE = 0x200"
definition LCRH_WLEN_8 :: u32 where "LCRH_WLEN_8 = 0x60"
definition LCRH_FEN :: u32 where "LCRH_FEN = 0x10"

datatype pl011_error =
  PLFraming | PLParity | PLOverrun | PLBreak | PLWouldBlock | PLInvalidConfig | PLUnsupportedBaudRate | PLTimeout

fun pl011_into :: "pl011_error \<Rightarrow> serial_error" where
  "pl011_into PLFraming = SerialFraming"
| "pl011_into PLParity = SerialParity"
| "pl011_into PLOverrun = SerialOverrun"
| "pl011_into PLBreak = SerialBreak"
| "pl011_into PLWouldBlock = SerialWouldBlock"
| "pl011_into PLInvalidConfig = SerialInvalidConfig"
| "pl011_into PLUnsupportedBaudRate = SerialInvalidConfig"
| "pl011_into PLTimeout = SerialOther"

record pl011 =
  pl_base :: u32

definition pl011_new :: "u32 \<Rightarrow> pl011" where
  "pl011_new base = \<lparr>pl_base = base\<rparr>"

definition pl_read_reg :: "(u32, 'd) bus \<Rightarrow> pl011 \<Rightarrow> u32 \<Rightarrow> ('d, u32) state" where
  "pl_read_reg io u offset = load io (pl_base u + offset)"

definition pl_write_reg :: "(u32, 'd) bus \<Rightarrow> pl011 \<Rightarrow> u32 \<Rightarrow> u32 \<Rightarrow> ('d, unit) state" where
  "pl_write_reg io u offset v = store io (pl_base u + offset) v"

section \<open>PL011: operations\<close>

definition wait_idle :: "(u32, 'd) bus \<Rightarrow> pl011 \<Rightarrow> ('d, unit, pl011_error) io" where
  "wait_idle io u = io_bind (spin_while (pl_read_reg io u FR_OFFSET) (\<lambda>fr. fr AND FR_BUSY \<noteq> 0)) (\<lambda>_. ok ())"

definition calculate_divisors :: "u32 \<Rightarrow> (u32 \<times> u32, pl011_error) outcome" where
  "calculate_divisors baud =
     (if baud = 0 then Err PLInvalidConfig
      else
        let divisor = push_bit 6 (ucast PL011_CLOCK_HZ :: u64) div (16 * ucast baud);
            integer = ucast (drop_bit 6 divisor) :: u32;
            fractional = ucast (divisor AND 0x3F) :: u32 in
        if integer = 0 \<or> integer > 0xFFFF then Err PLUnsupportedBaudRate
        else Ok (integer, fractional))"

definition pl_configure :: "(u32, 'd) bus \<Rightarrow> pl011 \<Rightarrow> serial_config \<Rightarrow> ('d, unit, pl011_error) io" where
  "pl_configure io u config =
     (if cfg_data_bits config \<noteq> Eight then fail PLInvalidConfig
      else if cfg_parity config \<noteq> NoParity then fail PLInvalidConfig
      else if cfg_stop_bits config \<noteq> OneStop then fail PLInvalidConfig
      else do {
        cr \<leftarrow> pl_read_reg io u CR_OFFSET;
        pl_write_reg io u CR_OFFSET (cr AND NOT CR_UARTEN);
        io_bind (wait_idle io u) (\<lambda>_. do {
          lcrh \<leftarrow> pl_read_reg io u LCRH_OFFSET;
          pl_write_reg io u LCRH_OFFSET (lcrh AND NOT LCRH_FEN);
          io_bind (of_result (calculate_divisors (baud_rate config))) (\<lambda>(ibrd, fbrd). do {
            pl_write_reg io u IBRD_OFFSET ibrd;
            pl_write_reg io u FBRD_OFFSET fbrd;
            pl_write_reg io u LCRH_OFFSET (LCRH_WLEN_8 OR LCRH_FEN);
            pl_write_reg io u ICR_OFFSET 0x07FF;
            pl_write_reg io u IMSC_OFFSET 0;
            pl_write_reg io u CR_OFFSET (CR_UARTEN OR CR_TXE OR CR_RXE);
            ok ()
          })
        })
      })"

definition pl_write_byte :: "(u32, 'd) bus \<Rightarrow> pl011 \<Rightarrow> u8 \<Rightarrow> ('d, unit, pl011_error) io" where
  "pl_write_byte io u byte =
     io_bind (spin_while (pl_read_reg io u FR_OFFSET) (\<lambda>fr. fr AND FR_TXFF \<noteq> 0)) (\<lambda>_. do {
       pl_write_reg io u 0 (ucast byte);
       ok ()
     })"

definition pl_read_byte :: "(u32, 'd) bus \<Rightarrow> pl011 \<Rightarrow> ('d, u8, pl011_error) io" where
  "pl_read_byte io u =
     io_bind (spin_while (pl_read_reg io u FR_OFFSET) (\<lambda>fr. fr AND FR_RXFE \<noteq> 0)) (\<lambda>_. do {
       v \<leftarrow> pl_read_reg io u 0;
       ok (ucast (v AND 0xFF))
     })"

definition pl_flush :: "(u32, 'd) bus \<Rightarrow> pl011 \<Rightarrow> ('d, unit, pl011_error) io" where
  "pl_flush io u = io_bind (wait_idle io u) (\<lambda>_. ok ())"

definition pl_is_busy :: "(u32, 'd) bus \<Rightarrow> pl011 \<Rightarrow> ('d, bool) state" where
  "pl_is_busy io u = do { fr \<leftarrow> pl_read_reg io u FR_OFFSET; State_Monad.return (fr AND FR_BUSY \<noteq> 0) }"

definition pl_try_write_byte :: "(u32, 'd) bus \<Rightarrow> pl011 \<Rightarrow> u8 \<Rightarrow> ('d, unit, pl011_error) io" where
  "pl_try_write_byte io u byte = do {
     fr \<leftarrow> pl_read_reg io u FR_OFFSET;
     if fr AND FR_TXFF \<noteq> 0 then fail PLWouldBlock
     else do { pl_write_reg io u 0 (ucast byte); ok () }
   }"

definition pl_try_read_byte :: "(u32, 'd) bus \<Rightarrow> pl011 \<Rightarrow> ('d, u8, pl011_error) io" where
  "pl_try_read_byte io u = do {
     fr \<leftarrow> pl_read_reg io u FR_OFFSET;
     if fr AND FR_RXFE \<noteq> 0 then fail PLWouldBlock
     else do { v \<leftarrow> pl_read_reg io u 0; ok (ucast (v AND 0xFF)) }
   }"

definition pl_port :: "(u32, 'd) bus \<Rightarrow> pl011 \<Rightarrow> ('d, pl011_error) serial_port" where
  "pl_port io u =
     \<lparr>sp_configure = pl_configure io u, sp_write_byte = pl_write_byte io u, sp_read_byte = pl_read_byte io u,
      sp_flush = pl_flush io u, sp_is_busy = pl_is_busy io u\<rparr>"

definition pl_nonblocking :: "(u32, 'd) bus \<Rightarrow> pl011 \<Rightarrow> ('d, pl011_error) nonblocking_serial" where
  "pl_nonblocking io u = \<lparr>nb_write_byte = pl_try_write_byte io u, nb_read_byte = pl_try_read_byte io u\<rparr>"

end
