(* ===== verification/Uart_Properties.thy ===== *)
theory Uart_Properties
  imports Uart_Drivers
begin

text \<open>
  Correctness of the serial drivers: what text output puts on the wire, what a blocking read
  returns, and which baud rates a port accepts.
\<close>

section \<open>What the data sheets promise\<close>

text \<open>
  A transmitter: reading the status register changes nothing of what has been sent, a status that
  is not ready comes only finitely often in a row, and after a ready status a byte written to the
  data register is sent.
\<close>

definition tx_laws ::
  "('d \<Rightarrow> 'v \<times> 'd) \<Rightarrow> ('v \<Rightarrow> bool) \<Rightarrow> (u8 \<Rightarrow> 'd \<Rightarrow> 'd) \<Rightarrow> ('d \<Rightarrow> u8 list) \<Rightarrow> ('d \<Rightarrow> bool) \<Rightarrow> ('d \<Rightarrow> nat) \<Rightarrow> bool" where
  "tx_laws status full put sent up lat \<longleftrightarrow>
     (\<forall>d v d'. up d \<longrightarrow> status d = (v, d') \<longrightarrow>
        up d' \<and> sent d' = sent d \<and>
        (if full v then lat d' < lat d else \<forall>b. up (put b d') \<and> sent (put b d') = sent d @ [b]))"

text \<open>
  A receiver: while bytes have arrived, a status without data comes only finitely often in a row;
  a status with data shows no line error and the data register then yields the next byte.
\<close>

definition rx_laws ::
  "('d \<Rightarrow> 'v \<times> 'd) \<Rightarrow> ('v \<Rightarrow> bool) \<Rightarrow> ('v \<Rightarrow> bool) \<Rightarrow> ('d \<Rightarrow> u8 \<times> 'd) \<Rightarrow> ('d \<Rightarrow> u8 list) \<Rightarrow> ('d \<Rightarrow> bool) \<Rightarrow> ('d \<Rightarrow> nat) \<Rightarrow> bool" where
  "rx_laws status none_yet clean take_byte arrived live lat \<longleftrightarrow>
     (\<forall>d v d'. live d \<longrightarrow> arrived d \<noteq> [] \<longrightarrow> status d = (v, d') \<longrightarrow>
        live d' \<and> arrived d' = arrived d \<and>
        (if none_yet v then lat d' < lat d
         else clean v \<and> fst (take_byte d') = hd (arrived d) \<and> live (snd (take_byte d')) \<and>
              arrived (snd (take_byte d')) = tl (arrived d)))"

lemma tx_spin:
  assumes "tx_laws (run_state rd) full put sent up lat" "up d"
  obtains v d1 where "run_state (spin_while rd full :: (_, _, 'e) io) d = (Ok v, d1)"
    "up (put b d1)" "sent (put b d1) = sent d @ [b]"
proof -
  have L: "up d' \<and> sent d' = sent d \<and> (if full v then lat d' < lat d else \<forall>b. up (put b d') \<and> sent (put b d') = sent d @ [b])"
    if "up d" "run_state rd d = (v, d')" for d v d'
    using assms(1) that unfolding tx_laws_def by blast
  obtain d0 v d1 where *: "up d0 \<and> sent d0 = sent d" "run_state rd d0 = (v, d1)" "\<not> full v"
    "run_state (spin_while rd full :: (_, _, 'e) io) d = (Ok v, d1)"
  proof (rule spin_ends [of "\<lambda>x. up x \<and> sent x = sent d" d rd full lat])
    fix x v x' assume "up x \<and> sent x = sent d" "run_state rd x = (v, x')" "full v"
    then show "(up x' \<and> sent x' = sent d) \<and> lat x' < lat x" using L [of x v x'] by simp
  qed (use assms(2) in blast)+
  show thesis using L [of d0 v d1] * by (intro that [OF *(4)]) simp_all
qed

lemma rx_spin:
  assumes "rx_laws (run_state rd) none_yet clean get arrived live lat" "live d" "arrived d = b # bs"
  obtains v d1 where "run_state (spin_while rd none_yet :: (_, _, 'e) io) d = (Ok v, d1)" "clean v" "fst (get d1) = b"
    "live (snd (get d1))" "arrived (snd (get d1)) = bs"
proof -
  have L: "live d' \<and> arrived d' = b # bs \<and> (if none_yet v then lat d' < lat d
      else clean v \<and> fst (get d') = b \<and> live (snd (get d')) \<and> arrived (snd (get d')) = bs)"
    if "live d" "arrived d = b # bs" "run_state rd d = (v, d')" for d v d'
    using assms(1) [unfolded rx_laws_def, THEN spec, THEN spec, THEN spec, of d v d'] that
    by (simp split: if_split_asm)
  obtain d0 v d1 where *: "live d0 \<and> arrived d0 = b # bs" "run_state rd d0 = (v, d1)" "\<not> none_yet v"
    "run_state (spin_while rd none_yet :: (_, _, 'e) io) d = (Ok v, d1)"
  proof (rule spin_ends [of "\<lambda>x. live x \<and> arrived x = b # bs" d rd none_yet lat])
    fix x v x' assume "live x \<and> arrived x = b # bs" "run_state rd x = (v, x')" "none_yet v"
    then show "(live x' \<and> arrived x' = b # bs) \<and> lat x' < lat x" using L [of x v x'] by simp
  qed (use assms(2,3) in blast)+
  show thesis using L [of d0 v d1] * by (intro that [OF *(4)]) simp_all
qed

section \<open>The drivers as byte sinks and sources\<close>

definition u16_tx :: "(u8, 'd) bus \<Rightarrow> uart16550 \<Rightarrow> ('d \<Rightarrow> u8 list) \<Rightarrow> ('d \<Rightarrow> bool) \<Rightarrow> ('d \<Rightarrow> nat) \<Rightarrow> bool" where
  "u16_tx io u sent up lat \<longleftrightarrow>
     tx_laws (bus_read io (u16_base u + LSR)) (\<lambda>lsr. lsr AND LSR_THRE = 0) (bus_write io (u16_base u + THR)) sent up lat"

definition u16_rx :: "(u8, 'd) bus \<Rightarrow> uart16550 \<Rightarrow> ('d \<Rightarrow> u8 list) \<Rightarrow> ('d \<Rightarrow> bool) \<Rightarrow> ('d \<Rightarrow> nat) \<Rightarrow> bool" where
  "u16_rx io u arrived live lat \<longleftrightarrow>
     rx_laws (bus_read io (u16_base u + LSR)) (\<lambda>lsr. lsr AND LSR_DR = 0)
       (\<lambda>lsr. lsr AND (LSR_OE OR LSR_PE OR LSR_FE OR LSR_BI) = 0) (bus_read io (u16_base u + RBR)) arrived live lat"

definition pl_tx :: "(u32, 'd) bus \<Rightarrow> pl011 \<Rightarrow> ('d \<Rightarrow> u8 list) \<Rightarrow> ('d \<Rightarrow> bool) \<Rightarrow> ('d \<Rightarrow> nat) \<Rightarrow> bool" where
  "pl_tx io u sent up lat \<longleftrightarrow>
     tx_laws (bus_read io (pl_base u + FR_OFFSET)) (\<lambda>fr. fr AND FR_TXFF \<noteq> 0)
       (\<lambda>b. bus_write io (pl_base u) (ucast b)) sent up lat"

definition pl_rx :: "(u32, 'd) bus \<Rightarrow> pl011 \<Rightarrow> ('d \<Rightarrow> u8 list) \<Rightarrow> ('d \<Rightarrow> bool) \<Rightarrow> ('d \<Rightarrow> nat) \<Rightarrow> bool" where
  "pl_rx io u arrived live lat \<longleftrightarrow>
     rx_laws (bus_read io (pl_base u + FR_OFFSET)) (\<lambda>fr. fr AND FR_RXFE \<noteq> 0) (\<lambda>_. True)
       (\<lambda>d. map_prod (\<lambda>v. ucast (v AND 0xFF)) id (bus_read io (pl_base u) d)) arrived live lat"

lemma clean_check_errors:
  assumes "lsr AND (LSR_OE OR LSR_PE OR LSR_FE OR LSR_BI) = 0"
  shows "check_errors lsr = Ok ()"
  using assms by (simp add: check_errors_def bit.conj_disj_distrib or_eq_0_iff)

interpretation u16_sink: byte_sink "u16_write_byte io u" sent "\<lambda>d. u16_tx io u sent up lat \<and> up d"
  for io u sent up lat
proof
  fix d b assume up: "u16_tx io u sent up lat \<and> up d"
  have "run_state (u16_read_reg io u LSR) = bus_read io (u16_base u + LSR)"
    by (simp add: u16_read_reg_def load_def)
  from tx_spin [of "u16_read_reg io u LSR", unfolded this, OF up [THEN conjunct1, unfolded u16_tx_def], of d b]
  obtain v d1 where s: "run_state (spin_while (u16_read_reg io u LSR) (\<lambda>lsr. lsr AND LSR_THRE = 0) :: (_, _, uart16550_error) io) d = (Ok v, d1)"
    and r: "up (bus_write io (u16_base u + THR) b d1)" "sent (bus_write io (u16_base u + THR) b d1) = sent d @ [b]"
    using up by blast
  show "\<exists>d'. run_state (u16_write_byte io u b) d = (Ok (), d') \<and> sent d' = sent d @ [b] \<and>
      u16_tx io u sent up lat \<and> up d'"
    unfolding u16_write_byte_def run_io_bind_Ok [OF s] using up r by (simp add: u16_write_reg_def run_store run_ok)
qed

interpretation pl_sink: byte_sink "pl_write_byte io u" sent "\<lambda>d. pl_tx io u sent up lat \<and> up d"
  for io u sent up lat
proof
  fix d b assume up: "pl_tx io u sent up lat \<and> up d"
  have "run_state (pl_read_reg io u FR_OFFSET) = bus_read io (pl_base u + FR_OFFSET)"
    by (simp add: pl_read_reg_def load_def)
  from tx_spin [of "pl_read_reg io u FR_OFFSET", unfolded this, OF up [THEN conjunct1, unfolded pl_tx_def], of d b]
  obtain v d1 where s: "run_state (spin_while (pl_read_reg io u FR_OFFSET) (\<lambda>fr. fr AND FR_TXFF \<noteq> 0) :: (_, _, pl011_error) io) d = (Ok v, d1)"
    and r: "up (bus_write io (pl_base u) (ucast b) d1)" "sent (bus_write io (pl_base u) (ucast b) d1) = sent d @ [b]"
    using up by blast
  show "\<exists>d'. run_state (pl_write_byte io u b) d = (Ok (), d') \<and> sent d' = sent d @ [b] \<and>
      pl_tx io u sent up lat \<and> up d'"
    unfolding pl_write_byte_def run_io_bind_Ok [OF s] using up r by (simp add: pl_write_reg_def run_store run_ok)
qed

interpretation u16_source: byte_source "u16_read_byte io u" arrived "\<lambda>d. u16_rx io u arrived live lat \<and> live d"
  for io u arrived live lat
proof
  fix d b bs assume live: "u16_rx io u arrived live lat \<and> live d" and a: "arrived d = b # bs"
  have "run_state (u16_read_reg io u LSR) = bus_read io (u16_base u + LSR)"
    by (simp add: u16_read_reg_def load_def)
  from rx_spin [of "u16_read_reg io u LSR", unfolded this, OF live [THEN conjunct1, unfolded u16_rx_def] _ a]
  obtain v d1 where s: "run_state (spin_while (u16_read_reg io u LSR) (\<lambda>lsr. lsr AND LSR_DR = 0) :: (_, _, uart16550_error) io) d = (Ok v, d1)"
    and c: "check_errors v = Ok ()" and r: "fst (bus_read io (u16_base u + RBR) d1) = b"
    "live (snd (bus_read io (u16_base u + RBR) d1))" "arrived (snd (bus_read io (u16_base u + RBR) d1)) = bs"
    using live clean_check_errors by metis
  show "\<exists>d'. run_state (u16_read_byte io u) d = (Ok b, d') \<and> arrived d' = bs \<and>
      u16_rx io u arrived live lat \<and> live d'"
    unfolding u16_read_byte_def run_io_bind_Ok [OF s] using live r
    by (simp add: c run_io_bind run_of_result u16_read_reg_def run_load run_ok case_prod_beta)
qed

interpretation pl_source: byte_source "pl_read_byte io u" arrived "\<lambda>d. pl_rx io u arrived live lat \<and> live d"
  for io u arrived live lat
proof
  fix d b bs assume live: "pl_rx io u arrived live lat \<and> live d" and a: "arrived d = b # bs"
  have "run_state (pl_read_reg io u FR_OFFSET) = bus_read io (pl_base u + FR_OFFSET)"
    by (simp add: pl_read_reg_def load_def)
  from rx_spin [of "pl_read_reg io u FR_OFFSET", unfolded this, OF live [THEN conjunct1, unfolded pl_rx_def] _ a]
  obtain v d1 where s: "run_state (spin_while (pl_read_reg io u FR_OFFSET) (\<lambda>fr. fr AND FR_RXFE \<noteq> 0) :: (_, _, pl011_error) io) d = (Ok v, d1)"
    and r: "ucast (fst (bus_read io (pl_base u) d1) AND 0xFF) = b"
    "live (snd (bus_read io (pl_base u) d1))" "arrived (snd (bus_read io (pl_base u) d1)) = bs"
    using live by (simp add: fst_map_prod snd_map_prod) blast
  show "\<exists>d'. run_state (pl_read_byte io u) d = (Ok b, d') \<and> arrived d' = bs \<and>
      pl_rx io u arrived live lat \<and> live d'"
    unfolding pl_read_byte_def run_io_bind_Ok [OF s] using live r
    by (simp add: pl_read_reg_def run_load run_ok case_prod_beta)
qed

section \<open>Baud rates\<close>

lemma u16_divisor:
  assumes "baud \<noteq> 0" "unat baud < 2 ^ 28"
  shows "(16 :: u32) * baud \<noteq> 0" "unat (UART_CLOCK_HZ div (16 * baud)) = 115200 div unat baud"
proof -
  have u: "unat (16 * baud) = 16 * unat baud"
    using assms(2) by (simp add: unat_word_ariths)
  show "(16 :: u32) * baud \<noteq> 0" using assms(1) u by (metis mult_eq_0_iff unat_eq_zero zero_neq_numeral)
  have "unat (UART_CLOCK_HZ div (16 * baud)) = 16 * 115200 div (16 * unat baud)"
    by (simp add: unat_div u UART_CLOCK_HZ_def)
  then show "unat (UART_CLOCK_HZ div (16 * baud)) = 115200 div unat baud"
    by simp
qed

lemma two_bytes:
  fixes x :: u32
  assumes "unat x \<le> 0xFFFF"
  shows "unat (ucast (x AND 0xFF) :: u8) + 256 * unat (ucast (drop_bit 8 x) :: u8) = unat x"
proof -
  have "unat (ucast (x AND mask 8) :: u8) = unat x mod 256"
    by (simp only: unat_ucast_mod unat_and_mask) simp
  moreover have "unat (ucast (drop_bit 8 x) :: u8) = unat x div 256"
    using assms by (simp only: unat_ucast_mod unat_drop_bit) simp
  ultimately show ?thesis by (simp add: mask_eq_exp_minus_1)
qed

lemma set_baud_cases:
  assumes "unat baud < 2 ^ 28"
  shows "unat baud < 2 \<or> 115200 < unat baud \<Longrightarrow> run_state (set_baud io u baud) d = (Err U16InvalidConfig, d)"
    and "2 \<le> unat baud \<Longrightarrow> unat baud \<le> 115200 \<Longrightarrow>
      \<exists>lo hi. unat lo + 256 * unat hi = 115200 div unat baud \<and>
        run_state (set_baud io u baud) d =
          (case bus_read io (u16_base u + LCR) d of (lcr, d1) \<Rightarrow>
             (Ok (), bus_write io (u16_base u + LCR) (lcr AND NOT LCR_DLAB)
                (bus_write io (u16_base u + DLM) hi (bus_write io (u16_base u + DLL) lo
                  (bus_write io (u16_base u + LCR) (lcr OR LCR_DLAB) d1)))))"
proof -
  let ?v = "UART_CLOCK_HZ div (16 * baud)"
  have F: "?v = 0 \<longleftrightarrow> 115200 div unat baud = 0" "?v > 0xFFFF \<longleftrightarrow> 115200 div unat baud > 0xFFFF" if "baud \<noteq> 0"
    using u16_divisor [OF that assms] by (simp_all add: word_less_nat_alt flip: unat_eq_zero)
  show "run_state (set_baud io u baud) d = (Err U16InvalidConfig, d)" if r: "unat baud < 2 \<or> 115200 < unat baud"
  proof (cases "baud = 0")
    case False
    have "115200 div unat baud = 0 \<or> 115200 div unat baud > 0xFFFF"
    proof (cases "unat baud = 1")
      case ne: False
      then have "115200 < unat baud" using r False by (auto simp: unat_eq_zero less_2_cases_iff)
      then show ?thesis by simp
    qed simp
    then show ?thesis
      using F [OF False] u16_divisor(1) [OF False assms] False by (auto simp: set_baud_def Let_def run_fail)
  qed (simp add: set_baud_def run_fail)
  assume r: "2 \<le> unat baud" "unat baud \<le> 115200"
  then have nz: "baud \<noteq> 0" by auto
  have q: "1 \<le> 115200 div unat baud" "115200 div unat baud \<le> 57600"
    using r div_le_mono2 [of 2 "unat baud" 115200] by (simp_all add: Suc_le_eq div_greater_zero_iff)
  then have "\<not> (?v = 0 \<or> ?v > 0xFFFF)" using F [OF nz] by simp
  moreover have "unat ?v \<le> 0xFFFF" using q u16_divisor(2) [OF nz assms] by simp
  ultimately show "\<exists>lo hi. unat lo + 256 * unat hi = 115200 div unat baud \<and>
        run_state (set_baud io u baud) d =
          (case bus_read io (u16_base u + LCR) d of (lcr, d1) \<Rightarrow>
             (Ok (), bus_write io (u16_base u + LCR) (lcr AND NOT LCR_DLAB)
                (bus_write io (u16_base u + DLM) hi (bus_write io (u16_base u + DLL) lo
                  (bus_write io (u16_base u + LCR) (lcr OR LCR_DLAB) d1)))))"
    using nz u16_divisor [OF nz assms] two_bytes [of ?v]
    by (intro exI [of _ "ucast (?v AND 0xFF)"] exI [of _ "ucast (drop_bit 8 ?v)"])
       (simp add: set_baud_def Let_def u16_read_reg_def u16_write_reg_def run_load run_store run_ok case_prod_beta)
qed

lemma pl_divisor:
  fixes baud :: u32
  assumes "baud \<noteq> 0"
  shows "unat (push_bit 6 (ucast PL011_CLOCK_HZ :: u64) div (16 * ucast baud)) = 192000000 div unat baud"
proof -
  have "unat (ucast baud :: u64) = unat baud"
    by (rule unat_ucast_up) simp
  moreover have "unat baud < 2 ^ 32" using unat_less [of baud] by simp
  ultimately have u: "unat (16 * ucast baud :: u64) = 16 * unat baud"
    by (simp add: unat_word_ariths)
  have c: "unat (push_bit 6 (ucast PL011_CLOCK_HZ :: u64)) = 16 * 192000000"
    by (simp add: PL011_CLOCK_HZ_def)
  have "unat (push_bit 6 (ucast PL011_CLOCK_HZ :: u64) div (16 * ucast baud)) = 16 * 192000000 div (16 * unat baud)"
    by (simp only: unat_div u c)
  then show ?thesis by simp
qed

lemma small_quotient: "64 \<le> q \<and> q \<le> 4173913 \<Longrightarrow> \<not> (q div 64 = 0 \<or> q div 64 > 0xFFFF)" for q :: nat
  using div_le_mono [of 64 q 64] div_le_mono [of q 4173913 64] by simp

lemma calculate_divisors_cases:
  shows "46 \<le> unat baud \<Longrightarrow> unat baud \<le> 3000000 \<Longrightarrow>
      \<exists>i f. calculate_divisors baud = Ok (i, f) \<and> 64 * unat i + unat f = 192000000 div unat baud \<and> unat f < 64"
    and "unat baud < 46 \<or> 3000000 < unat baud \<Longrightarrow> \<exists>e. calculate_divisors baud = Err e"
proof -
  define D where "D = push_bit 6 (ucast PL011_CLOCK_HZ :: u64) div (16 * ucast baud)"
  let ?q = "192000000 div unat baud"
  have D: "unat D = ?q" if "baud \<noteq> 0" using pl_divisor [OF that] by (simp add: D_def)
  have lt: "192000000 div n < 2 ^ 32" for n :: nat
    by (rule le_less_trans [OF div_le_dividend]) simp
  have i: "unat (ucast (drop_bit 6 D) :: u32) = ?q div 64" if "baud \<noteq> 0"
  proof -
    have "?q div 64 \<le> ?q" by (rule div_le_dividend)
    then show ?thesis using D [OF that] lt [of "unat baud"] by (subst unat_ucast_small) (simp_all add: unat_drop_bit)
  qed
  have f: "unat (ucast (D AND 0x3F) :: u32) = ?q mod 64" if "baud \<noteq> 0"
  proof -
    have "unat (D AND mask 6) = ?q mod 64" using D [OF that] by (simp only: unat_and_mask) simp
    then have "unat (D AND 0x3F) = ?q mod 64" by (simp add: mask_eq_exp_minus_1)
    moreover have "?q mod 64 < 2 ^ 32" by (rule less_trans [OF mod_less_divisor]) simp_all
    ultimately show ?thesis by (subst unat_ucast_small) simp_all
  qed
  have bad: "(ucast (drop_bit 6 D) :: u32) = 0 \<or> (ucast (drop_bit 6 D) :: u32) > 0xFFFF \<longleftrightarrow>
      ?q div 64 = 0 \<or> ?q div 64 > 0xFFFF" if "baud \<noteq> 0"
    using i [OF that] by (simp add: word_less_nat_alt flip: unat_eq_zero)
  show "\<exists>i f. calculate_divisors baud = Ok (i, f) \<and> 64 * unat i + unat f = ?q \<and> unat f < 64"
    if r: "46 \<le> unat baud" "unat baud \<le> 3000000"
  proof -
    have nz: "baud \<noteq> 0" using r by auto
    have "?q \<le> 192000000 div 46" using r(1) by (rule div_le_mono2 [rotated]) simp
    moreover have "192000000 div 3000000 \<le> ?q" using r(2) by (rule div_le_mono2 [rotated]) (use r in simp)
    ultimately have "64 \<le> ?q \<and> ?q \<le> 4173913" by simp
    then have "\<not> (?q div 64 = 0 \<or> ?q div 64 > 0xFFFF)" using small_quotient by blast
    then show ?thesis using nz bad [OF nz] i [OF nz] f [OF nz] by (simp add: calculate_divisors_def Let_def flip: D_def)
  qed
  show "\<exists>e. calculate_divisors baud = Err e" if r: "unat baud < 46 \<or> 3000000 < unat baud"
  proof (cases "baud = 0")
    case False
    have "?q div 64 = 0 \<or> ?q div 64 > 0xFFFF"
    proof (cases "unat baud < 46")
      case True
      have "192000000 div 45 \<le> ?q" using True False by (intro div_le_mono2) (auto simp: unat_gt_0)
      then have "192000000 div 45 div 64 \<le> ?q div 64" by (rule div_le_mono)
      then show ?thesis by simp
    next
      case b: False
      have "?q div 64 = 192000000 div (unat baud * 64)" by (simp only: div_mult2_eq)
      also have "\<dots> = 0" using b r by (intro div_less) linarith
      finally show ?thesis by blast
    qed
    then show ?thesis using False bad [OF False] by (simp add: calculate_divisors_def Let_def flip: D_def)
  qed (simp add: calculate_divisors_def)
qed

section \<open>A UART for concrete runs\<close>

text \<open>A 16550 at port 0x3F8 that is busy for two status reads after each byte it sends.\<close>

record demo_uart =
  du_wait :: nat
  du_sent :: "u8 list"
  du_arrived :: "u8 list"

definition demo_bus :: "(u8, demo_uart) bus" where
  "demo_bus =
     \<lparr>bus_read = (\<lambda>a d.
        if a = 0x3FD then
          ((if du_wait d = 0 then LSR_THRE else 0) OR (if du_arrived d = [] then 0 else LSR_DR), d\<lparr>du_wait := du_wait d - 1\<rparr>)
        else if a = 0x3F8 then
          (case du_arrived d of [] \<Rightarrow> (0, d) | b # bs \<Rightarrow> (b, d\<lparr>du_arrived := bs\<rparr>))
        else (0, d)),
      bus_write = (\<lambda>a b d. if a = 0x3F8 then d\<lparr>du_sent := du_sent d @ [b], du_wait := 2\<rparr> else d)\<rparr>"

definition demo_port :: uart16550 where
  "demo_port = uart16550_new 0x3F8"

definition demo_idle :: demo_uart where
  "demo_idle = \<lparr>du_wait = 0, du_sent = [], du_arrived = []\<rparr>"

lemmas demo_uart_defs = demo_bus_def demo_port_def uart16550_new_def LSR_def THR_def RBR_def LSR_THRE_def LSR_DR_def
  LSR_OE_def LSR_PE_def LSR_FE_def LSR_BI_def

lemma demo_tx: "u16_tx demo_bus demo_port du_sent (\<lambda>_. True) du_wait"
  by (auto simp: u16_tx_def tx_laws_def demo_uart_defs)

lemma demo_rx: "u16_rx demo_bus demo_port du_arrived (\<lambda>_. True) (\<lambda>_. 0)"
  by (auto simp: u16_rx_def rx_laws_def demo_uart_defs split: list.split)

text \<open>A PL011 that is always ready.\<close>

definition demo_pl_bus :: "(u32, u8 list) bus" where
  "demo_pl_bus = \<lparr>bus_read = (\<lambda>a d. (0, d)), bus_write = (\<lambda>a v d. if a = 0x20201000 then d @ [ucast v] else d)\<rparr>"

lemma demo_pl_tx: "pl_tx demo_pl_bus (pl011_new 0x20201000) id (\<lambda>_. True) (\<lambda>_. 0)"
proof -
  have "ucast (ucast b :: u32) = b" for b :: u8 by (rule bit_word_eqI) (simp add: bit_simps)
  then show ?thesis by (simp add: pl_tx_def tx_laws_def demo_pl_bus_def pl011_new_def)
qed

section \<open>Properties\<close>

text \<open>
  C6. Text output on a serial port: on a 16550 and on a PL011 whose transmitter becomes ready again
  and again, \<^verbatim>\<open>write_str\<close> on the type-erased port returns successfully and the wire carries exactly
  the bytes of the text in order, each line feed preceded by a carriage return.
\<close>

theorem serial_text_output:
  assumes "u16_tx io u sent up lat" "up d" "pl_tx io' v sent' up' lat'" "up' e"
  shows "(\<exists>d'. run_state (dyn_write_str (dyn_serial uart16550_into (u16_port io u)) s) d = (Ok (), d') \<and>
      sent d' = sent d @ crlf s) \<and>
    (\<exists>e'. run_state (dyn_write_str (dyn_serial pl011_into (pl_port io' v)) s) e = (Ok (), e') \<and>
      sent' e' = sent' e @ crlf s)"
  using u16_sink.write_str_sends [of io u sent up lat d "u16_port io u" uart16550_into s]
    pl_sink.write_str_sends [of io' v sent' up' lat' e "pl_port io' v" pl011_into s] assms
  by (simp add: u16_port_def pl_port_def) metis

theorem serial_text_output_witness:
  "\<exists>d'. run_state (dyn_write_str (dyn_serial uart16550_into (u16_port demo_bus demo_port)) [79, 75, 10])
      \<lparr>du_wait = 1, du_sent = [], du_arrived = []\<rparr> = (Ok (), d') \<and> du_sent d' = [79, 75, 13, 10]"
  using serial_text_output [OF demo_tx TrueI demo_pl_tx TrueI, where d = "\<lparr>du_wait = 1, du_sent = [], du_arrived = []\<rparr>" and s = "[79, 75, 10]"]
  by (simp add: crlf_def LF_def CR_def)

text \<open>
  A blocking read returns once enough bytes have arrived: the buffer then holds the next bytes
  in their order of arrival, and exactly those are taken from the receiver.
\<close>

lemma serial_read_in_order:
  assumes "u16_rx io u arrived live lat" "live d" "length buf \<le> length (arrived d)"
  shows "\<exists>d'. run_state (ds_read (dyn_serial uart16550_into (u16_port io u)) buf) d =
      (Ok (of_nat (length buf), take (length buf) (arrived d)), d') \<and> arrived d' = drop (length buf) (arrived d)"
  using u16_source.read_takes [of io u arrived live lat d buf "u16_port io u" uart16550_into] assms
  by (simp add: u16_port_def) metis

lemma serial_read_in_order_witness:
  "\<exists>d'. run_state (ds_read (dyn_serial uart16550_into (u16_port demo_bus demo_port)) [0, 0])
      \<lparr>du_wait = 0, du_sent = [], du_arrived = [1, 2, 3]\<rparr> = (Ok (2, [1, 2]), d') \<and> du_arrived d' = [3]"
  using serial_read_in_order [OF demo_rx TrueI, of "[0, 0]" "\<lparr>du_wait = 0, du_sent = [], du_arrived = [1, 2, 3]\<rparr>"]
  by simp

text \<open>
  C23. Baud rates.  The PL011 accepts exactly 46 to 3,000,000 baud, with the divisor (integer part
  and 64ths) rounded down from the clock over 16 times the rate.  The 16550 accepts, below
  \<open>2 ^ 28\<close>, exactly 2 to 115,200 baud and programs the divisor latch with 115,200 over the rate;
  a non-zero multiple of \<open>2 ^ 28\<close> makes the driver divide by zero.
\<close>

theorem baud_rate_ranges:
  "((\<exists>i f. calculate_divisors b = Ok (i, f)) \<longleftrightarrow> 46 \<le> unat b \<and> unat b \<le> 3000000) \<and>
   (calculate_divisors b = Ok (i, f) \<longrightarrow> 64 * unat i + unat f = 192000000 div unat b \<and> unat f < 64) \<and>
   (unat c < 2 ^ 28 \<longrightarrow> (fst (run_state (set_baud io u c) d) = Ok () \<longleftrightarrow> 2 \<le> unat c \<and> unat c \<le> 115200)) \<and>
   (2 \<le> unat c \<and> unat c \<le> 115200 \<longrightarrow>
     (\<exists>lo hi. unat lo + 256 * unat hi = 115200 div unat c \<and>
        snd (run_state (set_baud io u c) d) =
          (case bus_read io (u16_base u + LCR) d of (lcr, d1) \<Rightarrow>
             bus_write io (u16_base u + LCR) (lcr AND NOT LCR_DLAB)
               (bus_write io (u16_base u + DLM) hi (bus_write io (u16_base u + DLL) lo
                  (bus_write io (u16_base u + LCR) (lcr OR LCR_DLAB) d1)))))) \<and>
   (c \<noteq> 0 \<and> 16 * c = 0 \<longrightarrow> run_state (set_baud io u c) d = (Panic, d))"
proof (intro conjI impI)
  show "(\<exists>i f. calculate_divisors b = Ok (i, f)) \<longleftrightarrow> 46 \<le> unat b \<and> unat b \<le> 3000000"
    using calculate_divisors_cases [of b] by (metis not_less outcome.distinct(1))
  assume "calculate_divisors b = Ok (i, f)"
  then show "64 * unat i + unat f = 192000000 div unat b" "unat f < 64"
    using calculate_divisors_cases [of b] by (metis not_less outcome.distinct(1) outcome.inject(1) prod.inject)+
next
  assume c: "unat c < 2 ^ 28"
  show "fst (run_state (set_baud io u c) d) = Ok () \<longleftrightarrow> 2 \<le> unat c \<and> unat c \<le> 115200"
    using set_baud_cases [OF c, of io u d] by (cases "2 \<le> unat c \<and> unat c \<le> 115200") (auto simp: case_prod_beta)
next
  assume c: "2 \<le> unat c \<and> unat c \<le> 115200"
  then have "unat c < 2 ^ 28" by simp
  from set_baud_cases(2) [OF this, of io u d] c
  obtain lo hi where *: "unat lo + 256 * unat hi = 115200 div unat c" "run_state (set_baud io u c) d =
          (case bus_read io (u16_base u + LCR) d of (lcr, d1) \<Rightarrow>
             (Ok (), bus_write io (u16_base u + LCR) (lcr AND NOT LCR_DLAB)
                (bus_write io (u16_base u + DLM) hi (bus_write io (u16_base u + DLL) lo
                  (bus_write io (u16_base u + LCR) (lcr OR LCR_DLAB) d1)))))" by blast
  show "\<exists>lo hi. unat lo + 256 * unat hi = 115200 div unat c \<and>
        snd (run_state (set_baud io u c) d) =
          (case bus_read io (u16_base u + LCR) d of (lcr, d1) \<Rightarrow>
             bus_write io (u16_base u + LCR) (lcr AND NOT LCR_DLAB)
               (bus_write io (u16_base u + DLM) hi (bus_write io (u16_base u + DLL) lo
                  (bus_write io (u16_base u + LCR) (lcr OR LCR_DLAB) d1))))"
    by (rule exI [of _ lo], rule exI [of _ hi]) (simp add: * case_prod_beta)
next
  assume "c \<noteq> 0 \<and> 16 * c = 0"
  then show "run_state (set_baud io u c) d = (Panic, d)" by (simp add: set_baud_def run_panic)
qed

theorem baud_rate_ranges_witness:
  "(\<exists>i f. calculate_divisors 115200 = Ok (i, f)) \<and> fst (run_state (set_baud demo_bus demo_port 9600) demo_idle) = Ok () \<and>
   run_state (set_baud demo_bus demo_port 0x10000000) demo_idle = (Panic, demo_idle)"
  using baud_rate_ranges [of 115200 _ _ 9600 demo_bus demo_port demo_idle]
    baud_rate_ranges [of 115200 _ _ "0x10000000" demo_bus demo_port demo_idle]
  by simp

end
