(* ===== verification/Frame_Buffer.thy ===== *)
theory Frame_Buffer
  imports Prelude
begin

text \<open>
  The framebuffer abstraction (\<^verbatim>\<open>drivers/src/hal/fb.rs\<close>): the trait's operations as a record over the
  state \<open>'f\<close> of the display, the drawing routines the trait provides on top of them, and the
  colour helpers.  An \<^verbatim>\<open>i32\<close> is a 32-bit word whose comparisons are signed.
\<close>

section \<open>Loops\<close>

text \<open>\<^verbatim>\<open>for x in xs { f(x) }\<close> over a state, and the range \<^verbatim>\<open>a..b\<close> of a 32-bit integer.\<close>

fun for_each :: "('a \<Rightarrow> 's \<Rightarrow> 's call) \<Rightarrow> 'a list \<Rightarrow> 's \<Rightarrow> 's call" where
  "for_each f [] s = Ok s"
| "for_each f (x # xs) s = obind (f x s) (for_each f xs)"

definition u32_range :: "u32 \<Rightarrow> u32 \<Rightarrow> u32 list" where
  "u32_range a b = map of_nat [unat a ..< unat b]"

definition u32_range_incl :: "u32 \<Rightarrow> u32 \<Rightarrow> u32 list" where
  "u32_range_incl a b = map of_nat [unat a ..< Suc (unat b)]"

definition saturating_add :: "u32 \<Rightarrow> u32 \<Rightarrow> u32" where
  "saturating_add a b = (if unat a + unat b < 2 ^ 32 then a + b else - 1)"

section \<open>Data\<close>

datatype pixel_format = Rgb | Bgr | Rgba | Bgra

record frame_buffer_info =
  fi_width :: u32
  fi_height :: u32
  fi_pitch :: u32
  fi_depth :: u32
  fi_pixel_format :: pixel_format
  fi_address :: u32
  fi_size :: u32

record frame_buffer_config =
  fc_width :: u32
  fc_height :: u32
  fc_virtual_width :: u32
  fc_virtual_height :: u32
  fc_depth :: u32

definition default_fb_config :: frame_buffer_config where
  "default_fb_config =
     \<lparr>fc_width = 1920, fc_height = 1080, fc_virtual_width = 1920, fc_virtual_height = 1080, fc_depth = 32\<rparr>"

datatype frame_buffer_error = MailboxFailed | AllocationFailed | FbInvalidConfig | FbNotSupported

section \<open>The trait\<close>

record 'f frame_buffer =
  fb_width :: u32
  fb_height :: u32
  fb_bytes_per_pixel :: u32
  fb_pitch :: u32
  fb_size :: u32
  fb_buffer_ptr :: u32
  fb_pixel_format :: pixel_format
  fb_clear :: "u32 \<Rightarrow> 'f \<Rightarrow> 'f call"
  fb_set_pixel :: "u32 \<Rightarrow> u32 \<Rightarrow> u32 \<Rightarrow> 'f \<Rightarrow> (bool \<times> 'f) call"
  fb_get_pixel :: "u32 \<Rightarrow> u32 \<Rightarrow> 'f \<Rightarrow> u32 option call"
  fb_draw_hline :: "u32 \<Rightarrow> u32 \<Rightarrow> u32 \<Rightarrow> u32 \<Rightarrow> 'f \<Rightarrow> 'f call"
  fb_draw_vline :: "u32 \<Rightarrow> u32 \<Rightarrow> u32 \<Rightarrow> u32 \<Rightarrow> 'f \<Rightarrow> 'f call"
  fb_draw_rect :: "u32 \<Rightarrow> u32 \<Rightarrow> u32 \<Rightarrow> u32 \<Rightarrow> u32 \<Rightarrow> 'f \<Rightarrow> 'f call"

text \<open>The trait's default \<^verbatim>\<open>pitch\<close>, \<^verbatim>\<open>size\<close> and \<^verbatim>\<open>pixel_format\<close>.\<close>

definition default_pitch :: "u32 \<Rightarrow> u32 \<Rightarrow> u32" where
  "default_pitch width bytes_per_pixel = width * bytes_per_pixel"

definition default_size :: "u32 \<Rightarrow> u32 \<Rightarrow> u32" where
  "default_size pitch height = pitch * height"

definition default_pixel_format :: pixel_format where
  "default_pixel_format = Rgb"

text \<open>\<^verbatim>\<open>set_pixel\<close> with its result ignored.\<close>

definition plot :: "'f frame_buffer \<Rightarrow> u32 \<Rightarrow> u32 \<times> u32 \<Rightarrow> 'f \<Rightarrow> 'f call" where
  "plot fb color p s = obind (fb_set_pixel fb (fst p) (snd p) color s) (\<lambda>r. Ok (snd r))"

section \<open>Lines\<close>

definition i32_abs :: "u32 \<Rightarrow> u32" where
  "i32_abs x = (if sint x < 0 then - x else x)"

text \<open>The loop of \<^verbatim>\<open>draw_line\<close>; \<open>None\<close> when it does not end.\<close>

partial_function (option) line_loop ::
  "'f frame_buffer \<Rightarrow> u32 \<Rightarrow> u32 \<Rightarrow> u32 \<Rightarrow> u32 \<Rightarrow> u32 \<Rightarrow> u32 \<Rightarrow> u32 \<Rightarrow> u32 \<Rightarrow> u32 \<Rightarrow> u32 \<Rightarrow> 'f \<Rightarrow> 'f call option" where
  "line_loop fb color dx dy sx sy x2 y2 err x1 y1 s =
     (case plot fb color (x1, y1) s of
        Ok s \<Rightarrow>
          if x1 = x2 \<and> y1 = y2 then Some (Ok s)
          else
            let e2 = 2 * err;
                (err, x1) = (if sint dy \<le> sint e2 then (err + dy, x1 + sx) else (err, x1));
                (err, y1) = (if sint e2 \<le> sint dx then (err + dx, y1 + sy) else (err, y1)) in
            line_loop fb color dx dy sx sy x2 y2 err x1 y1 s
      | Err e \<Rightarrow> Some (Err e) | Panic \<Rightarrow> Some Panic | Diverge \<Rightarrow> Some Diverge)"

declare line_loop.simps [code]

definition draw_line :: "'f frame_buffer \<Rightarrow> u32 \<Rightarrow> u32 \<Rightarrow> u32 \<Rightarrow> u32 \<Rightarrow> u32 \<Rightarrow> 'f \<Rightarrow> 'f call" where
  "draw_line fb x1 y1 x2 y2 color s =
     (let dx = i32_abs (x2 - x1);
          dy = - i32_abs (y2 - y1);
          sx = (if sint x1 < sint x2 then 1 else - 1);
          sy = (if sint y1 < sint y2 then 1 else - 1) in
      obind (of_loop (line_loop fb color dx dy sx sy x2 y2 (dx + dy) x1 y1 s)) (\<lambda>r. r))"

definition draw_rect_outline :: "'f frame_buffer \<Rightarrow> u32 \<Rightarrow> u32 \<Rightarrow> u32 \<Rightarrow> u32 \<Rightarrow> u32 \<Rightarrow> 'f \<Rightarrow> 'f call" where
  "draw_rect_outline fb x y width height color s =
     (if width = 0 \<or> height = 0 then Ok s
      else
        let x2 = min (saturating_add x (width - 1)) (fb_width fb - 1);
            y2 = min (saturating_add y (height - 1)) (fb_height fb - 1) in
        obind (fb_draw_hline fb x x2 y color s) (\<lambda>s.
        obind (fb_draw_hline fb x x2 y2 color s) (\<lambda>s.
        obind (fb_draw_vline fb x y y2 color s) (\<lambda>s.
        fb_draw_vline fb x2 y y2 color s))))"

section \<open>Circles\<close>

text \<open>
  The loop that \<^verbatim>\<open>draw_circle\<close> and \<^verbatim>\<open>fill_circle\<close> share, with what an iteration draws at \<open>(x, y)\<close>
  as a parameter; \<open>None\<close> when it does not end.
\<close>

partial_function (option) circle_loop :: "(u32 \<Rightarrow> u32 \<Rightarrow> 'f \<Rightarrow> 'f call) \<Rightarrow> u32 \<Rightarrow> u32 \<Rightarrow> u32 \<Rightarrow> 'f \<Rightarrow> 'f call option" where
  "circle_loop draw x y err s =
     (if sint y \<le> sint x then
        case draw x y s of
          Ok s \<Rightarrow>
            let y = y + 1;
                err = (if sint err \<le> 0 then err + (2 * y + 1) else err);
                (x, err) = (if 0 < sint err then (x - 1, err - (2 * (x - 1) + 1)) else (x, err)) in
            circle_loop draw x y err s
        | Err e \<Rightarrow> Some (Err e) | Panic \<Rightarrow> Some Panic | Diverge \<Rightarrow> Some Diverge
      else Some (Ok s))"

declare circle_loop.simps [code]

definition octants :: "u32 \<Rightarrow> u32 \<Rightarrow> u32 \<Rightarrow> u32 \<Rightarrow> (u32 \<times> u32) list" where
  "octants cx cy x y =
     [(cx + x, cy + y), (cx + y, cy + x), (cx - y, cy + x), (cx - x, cy + y),
      (cx - x, cy - y), (cx - y, cy - x), (cx + y, cy - x), (cx + x, cy - y)]"

definition draw_circle :: "'f frame_buffer \<Rightarrow> u32 \<Rightarrow> u32 \<Rightarrow> u32 \<Rightarrow> u32 \<Rightarrow> 'f \<Rightarrow> 'f call" where
  "draw_circle fb cx cy radius color s =
     obind (of_loop (circle_loop (\<lambda>x y. for_each (plot fb color) (octants cx cy x y)) radius 0 0 s)) (\<lambda>r. r)"

definition fill_octants :: "'f frame_buffer \<Rightarrow> u32 \<Rightarrow> u32 \<Rightarrow> u32 \<Rightarrow> u32 \<Rightarrow> u32 \<Rightarrow> 'f \<Rightarrow> 'f call" where
  "fill_octants fb cx cy color x y s =
     obind (fb_draw_hline fb (cx - x) (cx + x) (cy + y) color s) (\<lambda>s.
     obind (fb_draw_hline fb (cx - x) (cx + x) (cy - y) color s) (\<lambda>s.
     obind (fb_draw_hline fb (cx - y) (cx + y) (cy + x) color s) (\<lambda>s.
     fb_draw_hline fb (cx - y) (cx + y) (cy - x) color s)))"

definition fill_circle :: "'f frame_buffer \<Rightarrow> u32 \<Rightarrow> u32 \<Rightarrow> u32 \<Rightarrow> u32 \<Rightarrow> 'f \<Rightarrow> 'f call" where
  "fill_circle fb cx cy radius color s =
     obind (of_loop (circle_loop (fill_octants fb cx cy color) radius 0 0 s)) (\<lambda>r. r)"

section \<open>Copying\<close>

definition copy_pixel :: "'f frame_buffer \<Rightarrow> u32 \<times> u32 \<Rightarrow> u32 \<times> u32 \<Rightarrow> 'f \<Rightarrow> 'f call" where
  "copy_pixel fb src dst s =
     obind (fb_get_pixel fb (fst src) (snd src) s) (\<lambda>r.
       case r of None \<Rightarrow> Ok s | Some color \<Rightarrow> plot fb color dst s)"

definition default_copy_region ::
  "'f frame_buffer \<Rightarrow> u32 \<Rightarrow> u32 \<Rightarrow> u32 \<Rightarrow> u32 \<Rightarrow> u32 \<Rightarrow> u32 \<Rightarrow> 'f \<Rightarrow> 'f call" where
  "default_copy_region fb src_x src_y dst_x dst_y width height s =
     for_each (\<lambda>y. for_each (\<lambda>x. copy_pixel fb (src_x + x, src_y + y) (dst_x + x, dst_y + y)) (u32_range 0 width))
       (u32_range 0 height) s"

section \<open>Colours\<close>

definition argb :: "u8 \<Rightarrow> u8 \<Rightarrow> u8 \<Rightarrow> u8 \<Rightarrow> u32" where
  "argb a r g b = push_bit 24 (ucast a) OR push_bit 16 (ucast r) OR push_bit 8 (ucast g) OR ucast b"

definition rgb :: "u8 \<Rightarrow> u8 \<Rightarrow> u8 \<Rightarrow> u32" where
  "rgb r g b = argb 255 r g b"

definition components :: "u32 \<Rightarrow> u8 \<times> u8 \<times> u8 \<times> u8" where
  "components color =
     (ucast (drop_bit 24 color AND 0xFF), ucast (drop_bit 16 color AND 0xFF),
      ucast (drop_bit 8 color AND 0xFF), ucast (color AND 0xFF))"

definition BLACK :: u32 where "BLACK = rgb 0 0 0"
definition WHITE :: u32 where "WHITE = rgb 255 255 255"
definition RED :: u32 where "RED = rgb 255 0 0"
definition GREEN :: u32 where "GREEN = rgb 0 255 0"
definition BLUE :: u32 where "BLUE = rgb 0 0 255"
definition YELLOW :: u32 where "YELLOW = rgb 255 255 0"
definition CYAN :: u32 where "CYAN = rgb 0 255 255"
definition MAGENTA :: u32 where "MAGENTA = rgb 255 0 255"
definition GRAY :: u32 where "GRAY = rgb 128 128 128"
definition DARK_GRAY :: u32 where "DARK_GRAY = rgb 64 64 64"
definition LIGHT_GRAY :: u32 where "LIGHT_GRAY = rgb 192 192 192"
definition ORANGE :: u32 where "ORANGE = rgb 255 165 0"
definition PURPLE :: u32 where "PURPLE = rgb 128 0 128"
definition BROWN :: u32 where "BROWN = rgb 165 42 42"

lemma components_argb: "components (argb a r g b) = (a, r, g, b)"
proof -
  have m: "(0xFF :: u32) = mask 8" by (simp add: mask_eq_exp_minus_1)
  show ?thesis
    unfolding components_def argb_def m prod.inject
    by (intro conjI bit_word_eqI; auto simp: bit_simps dest: bit_imp_le_length)
qed

section \<open>Loops over states\<close>

lemma for_each_append: "for_each f (xs @ ys) = (\<lambda>s. obind (for_each f xs s) (for_each f ys))"
  by (induction xs) (rule ext, simp add: obind_assoc)+

lemma for_each_total:
  assumes "\<And>x s. x \<in> set xs \<Longrightarrow> f x s = Ok (g x s)"
  shows "for_each f xs s = Ok (fold g xs s)"
  using assms by (induction xs arbitrary: s) simp_all

end
