(* ===== verification/Line_Drawing.thy ===== *)
theory Line_Drawing
  imports Frame_Buffer
begin

text \<open>
  Correctness of the line drawing of the framebuffer trait: Bresenham's loop ends, and the points it
  plots form a connected path from one end to the other inside the rectangle the ends span.
\<close>

section \<open>Signed words\<close>

lemma sint_word_of_int_small:
  assumes "- (2 ^ 31) \<le> k" "k < 2 ^ 31"
  shows "sint (word_of_int k :: u32) = k"
proof -
  have "sint (word_of_int k :: u32) = signed_take_bit 31 k" by (simp add: signed_of_int)
  then show ?thesis using assms by (simp add: signed_take_bit_int_eq_self)
qed

lemma uint_less_of_unat:
  assumes "unat (x :: 'a::len word) < 2 ^ n"
  shows "uint x < 2 ^ n"
proof -
  have "int (unat x) < int (2 ^ n)" using assms by (simp only: of_nat_less_iff)
  then show ?thesis by simp
qed

lemma sint_eq_uint_small: "uint (x :: u32) < 2 ^ 31 \<Longrightarrow> sint x = uint x"
  using sint_word_of_int_small [of "uint x"] order_trans [of "- (2 ^ 31)" 0 "uint x"] by simp

lemma word_of_int_inj_small:
  assumes "0 \<le> a" "a < 2 ^ 31" "0 \<le> b" "b < 2 ^ 31"
  shows "(word_of_int a :: u32) = word_of_int b \<longleftrightarrow> a = b"
  using sint_word_of_int_small [of a] sint_word_of_int_small [of b] assms by (metis order_trans neg_le_0_iff_le zero_le_numeral zero_le_power)

section \<open>Paths\<close>

text \<open>Consecutive points differ by at most one in each coordinate.\<close>

fun connected :: "(u32 \<times> u32) list \<Rightarrow> bool" where
  "connected ((x, y) # (x', y') # ps) \<longleftrightarrow>
     \<bar>uint x - uint x'\<bar> \<le> 1 \<and> \<bar>uint y - uint y'\<bar> \<le> 1 \<and> connected ((x', y') # ps)"
| "connected ps \<longleftrightarrow> True"

definition between :: "u32 \<Rightarrow> u32 \<Rightarrow> u32 \<Rightarrow> bool" where
  "between a b x \<longleftrightarrow> min a b \<le> x \<and> x \<le> max a b"

section \<open>The loop\<close>

text \<open>
  The error term after \<open>i\<close> steps in x and \<open>j\<close> steps in y, for a line of extent \<open>DX\<close> and \<open>DY\<close>.
\<close>

definition err_at :: "int \<Rightarrow> int \<Rightarrow> int \<Rightarrow> int \<Rightarrow> int" where
  "err_at DX DY i j = DX * (1 + j) - DY * (1 + i)"

definition line_inv :: "int \<Rightarrow> int \<Rightarrow> int \<Rightarrow> int \<Rightarrow> bool" where
  "line_inv DX DY i j \<longleftrightarrow> 0 \<le> i \<and> i \<le> DX \<and> 0 \<le> j \<and> j \<le> DY \<and>
     - (3 * DY) \<le> 2 * err_at DX DY i j \<and> 2 * err_at DX DY i j \<le> 3 * DX"

lemma err_at_x_end:
  assumes "j < DY" "0 \<le> DX"
  shows "2 * err_at DX DY DX j \<le> - (2 * DY)"
proof -
  have "DX * (1 + j) \<le> DX * DY" using assms by (intro mult_left_mono) auto
  then show ?thesis by (simp add: err_at_def algebra_simps)
qed

lemma err_at_y_end:
  assumes "i < DX" "0 \<le> DY"
  shows "2 * DX \<le> 2 * err_at DX DY i DY"
proof -
  have "DY * (1 + i) \<le> DY * DX" using assms by (intro mult_left_mono) auto
  then show ?thesis by (simp add: err_at_def algebra_simps)
qed

text \<open>One iteration before the end point: it makes a step, stays inside, and keeps the bounds.\<close>

lemma line_step:
  assumes inv: "line_inv DX DY i j" and more: "\<not> (i = DX \<and> j = DY)"
  defines "e \<equiv> 2 * err_at DX DY i j"
  defines "i' \<equiv> if - DY \<le> e then i + 1 else i" and "j' \<equiv> if e \<le> DX then j + 1 else j"
  shows "line_inv DX DY i' j'" "i' + j' > i + j"
    "err_at DX DY i' j' =
      (let e1 = (if - DY \<le> e then err_at DX DY i j + - DY else err_at DX DY i j) in if e \<le> DX then e1 + DX else e1)"
proof -
  have b: "0 \<le> i" "i \<le> DX" "0 \<le> j" "j \<le> DY" "- (3 * DY) \<le> e" "e \<le> 3 * DX"
    using inv by (auto simp: line_inv_def e_def)
  show up: "err_at DX DY i' j' =
      (let e1 = (if - DY \<le> e then err_at DX DY i j + - DY else err_at DX DY i j) in if e \<le> DX then e1 + DX else e1)"
    by (simp add: err_at_def i'_def j'_def algebra_simps)
  show "i' + j' > i + j" using b by (auto simp: i'_def j'_def)
  have "i' \<le> DX"
  proof (cases "i = DX")
    case True
    then have "e \<le> - (2 * DY)" "0 < DY" using err_at_x_end [of j DY DX] more b by (auto simp: e_def)
    then show ?thesis using True by (simp add: i'_def)
  qed (use b in \<open>auto simp: i'_def\<close>)
  moreover have "j' \<le> DY"
  proof (cases "j = DY")
    case True
    then have "2 * DX \<le> e" "0 < DX" using err_at_y_end [of i DX DY] more b by (auto simp: e_def)
    then show ?thesis using True by (simp add: j'_def)
  qed (use b in \<open>auto simp: j'_def\<close>)
  moreover have "- (3 * DY) \<le> 2 * err_at DX DY i' j' \<and> 2 * err_at DX DY i' j' \<le> 3 * DX"
    unfolding up Let_def using b by (auto simp: e_def)
  ultimately show "line_inv DX DY i' j'" using b by (auto simp: line_inv_def i'_def j'_def)
qed

text \<open>What the loop does to the word-valued variables, as long as nothing overflows.\<close>

abbreviation wi :: "int \<Rightarrow> u32" where
  "wi \<equiv> word_of_int"

lemma line_loop_unfold:
  assumes inv: "line_inv DX DY i j" and small: "DX < 2 ^ 29" "DY < 2 ^ 29"
    and ends: "(wi X = wi X2 \<and> wi Y = wi Y2) \<longleftrightarrow> i = DX \<and> j = DY"
  defines "e \<equiv> 2 * err_at DX DY i j"
  defines "i' \<equiv> if - DY \<le> e then i + 1 else i" and "j' \<equiv> if e \<le> DX then j + 1 else j"
  shows "line_loop fb color (wi DX) (wi (- DY)) (wi sx) (wi sy) (wi X2) (wi Y2) (wi (err_at DX DY i j)) (wi X) (wi Y) s =
    (case plot fb color (wi X, wi Y) s of
       Ok s \<Rightarrow> if i = DX \<and> j = DY then Some (Ok s)
         else line_loop fb color (wi DX) (wi (- DY)) (wi sx) (wi sy) (wi X2) (wi Y2) (wi (err_at DX DY i' j'))
           (wi (X + sx * (i' - i))) (wi (Y + sy * (j' - j))) s
     | Err e \<Rightarrow> Some (Err e) | Panic \<Rightarrow> Some Panic | Diverge \<Rightarrow> Some Diverge)"
proof -
  have b: "- (3 * DY) \<le> e" "e \<le> 3 * DX" "0 \<le> DX" "0 \<le> DY" using inv by (auto simp: line_inv_def e_def)
  have e: "2 * wi (err_at DX DY i j) = wi e" by (simp add: e_def)
  have s: "sint (wi e) = e" "sint (wi DX) = DX" "sint (wi (- DY)) = - DY"
    using b small by (intro sint_word_of_int_small; simp)+
  have up: "wi (err_at DX DY i' j') =
      (let e1 = (if - DY \<le> e then wi (err_at DX DY i j) + wi (- DY) else wi (err_at DX DY i j)) in if e \<le> DX then e1 + wi DX else e1)"
    if "\<not> (i = DX \<and> j = DY)"
    unfolding e_def i'_def j'_def line_step(3) [OF inv that] by (simp add: Let_def)
  show ?thesis
  proof (cases "plot fb color (wi X, wi Y) s")
    case (Ok s1)
    note unf = line_loop.simps [of fb color "wi DX" "wi (- DY)" "wi sx" "wi sy" "wi X2" "wi Y2"
        "wi (err_at DX DY i j)" "wi X" "wi Y" s, unfolded Ok outcome.case ends e s Let_def]
    show ?thesis
    proof (cases "i = DX \<and> j = DY")
      case True
      then show ?thesis unfolding unf Ok by simp
    next
      case False
      note up = up [OF False, unfolded Let_def]
      consider "- DY \<le> e" "e \<le> DX" | "- DY \<le> e" "\<not> e \<le> DX" | "\<not> - DY \<le> e" "e \<le> DX" using b by linarith
      then show ?thesis
        unfolding unf Ok outcome.case if_not_P [OF False] up by cases (simp_all only: i'_def j'_def if_True if_False
          prod.case add_diff_cancel_left' mult_1_right of_int_add cancel_comm_monoid_add_class.diff_cancel
          mult_zero_right add_0_right)
    qed
  qed (subst line_loop.simps, simp)+
qed

section \<open>The path\<close>

text \<open>Points of the grid the line walks on: \<open>i\<close> steps of \<open>sx\<close> from \<open>a\<close>, \<open>j\<close> steps of \<open>sy\<close> from \<open>b\<close>.\<close>

definition grid :: "int \<Rightarrow> int \<Rightarrow> int \<Rightarrow> int \<Rightarrow> int \<Rightarrow> int \<Rightarrow> u32 \<times> u32" where
  "grid a sx b sy i j = (wi (a + sx * i), wi (b + sy * j))"

text \<open>An axis of the line: all its coordinates are small, so the words stand for the integers.\<close>

definition axis :: "int \<Rightarrow> int \<Rightarrow> int \<Rightarrow> bool" where
  "axis a s D \<longleftrightarrow> (s = 1 \<or> s = - 1) \<and> 0 \<le> D \<and> D < 2 ^ 29 \<and> 0 \<le> a \<and> a < 2 ^ 29 \<and> 0 \<le> a + s * D \<and> a + s * D < 2 ^ 29"

lemma axis_coord:
  assumes "axis a s D" "0 \<le> i" "i \<le> D"
  shows "0 \<le> a + s * i" "a + s * i < 2 ^ 29" "uint (wi (a + s * i)) = a + s * i"
proof -
  show c: "0 \<le> a + s * i" "a + s * i < 2 ^ 29" using assms by (auto simp: axis_def)
  then show "uint (wi (a + s * i)) = a + s * i" by (simp only: uint_word_of_int) simp
qed

lemma axis_eq:
  assumes "axis a s D" "0 \<le> i" "i \<le> D"
  shows "wi (a + s * i) = wi (a + s * D) \<longleftrightarrow> i = D"
proof -
  have "wi (a + s * i) = wi (a + s * D) \<longleftrightarrow> a + s * i = a + s * D"
    using axis_coord(3) [OF assms] axis_coord(3) [OF assms(1), of D] assms by (metis order_refl order_trans)
  also have "\<dots> \<longleftrightarrow> i = D" using assms(1) by (auto simp: axis_def)
  finally show ?thesis .
qed

lemma axis_near:
  assumes "axis a s D" "0 \<le> i" "i \<le> i'" "i' \<le> D" "i' \<le> i + 1"
  shows "\<bar>uint (wi (a + s * i)) - uint (wi (a + s * i'))\<bar> \<le> 1"
  using axis_coord(3) [OF assms(1), of i] axis_coord(3) [OF assms(1), of i'] assms by (auto simp: axis_def)

lemma line_loop_path:
  assumes ax: "axis a sx DX" and ay: "axis b sy DY" and inv: "line_inv DX DY i j"
  shows "\<exists>ps. (\<forall>color s. line_loop fb color (wi DX) (wi (- DY)) (wi sx) (wi sy) (wi (a + sx * DX)) (wi (b + sy * DY))
        (wi (err_at DX DY i j)) (wi (a + sx * i)) (wi (b + sy * j)) s = Some (for_each (plot fb color) ps s)) \<and>
      ps \<noteq> [] \<and> hd ps = grid a sx b sy i j \<and> last ps = grid a sx b sy DX DY \<and> connected ps \<and>
      (\<forall>p\<in>set ps. \<exists>k l. 0 \<le> k \<and> k \<le> DX \<and> 0 \<le> l \<and> l \<le> DY \<and> p = grid a sx b sy k l)"
  using inv
proof (induction "nat (DX - i + (DY - j))" arbitrary: i j rule: less_induct)
  case less
  have small: "DX < 2 ^ 29" "DY < 2 ^ 29" using ax ay by (auto simp: axis_def)
  have ij: "0 \<le> i" "i \<le> DX" "0 \<le> j" "j \<le> DY" using less.prems by (auto simp: line_inv_def)
  have ends: "(wi (a + sx * i) = wi (a + sx * DX) \<and> wi (b + sy * j) = wi (b + sy * DY)) \<longleftrightarrow> i = DX \<and> j = DY"
    using axis_eq [OF ax ij(1,2)] axis_eq [OF ay ij(3,4)] by simp
  note unf = line_loop_unfold [OF less.prems small ends]
  have here: "\<exists>k l. 0 \<le> k \<and> k \<le> DX \<and> 0 \<le> l \<and> l \<le> DY \<and> grid a sx b sy i j = grid a sx b sy k l" using ij by blast
  show ?case
  proof (cases "i = DX \<and> j = DY")
    case True
    have "line_loop fb color (wi DX) (wi (- DY)) (wi sx) (wi sy) (wi (a + sx * DX)) (wi (b + sy * DY))
        (wi (err_at DX DY i j)) (wi (a + sx * i)) (wi (b + sy * j)) s =
        Some (for_each (plot fb color) [grid a sx b sy i j] s)" for color s
      unfolding unf using True by (simp add: grid_def split: outcome.split)
    then show ?thesis using here True by (intro exI [of _ "[grid a sx b sy i j]"]) (simp add: grid_def)
  next
    case False
    define i' where "i' = (if - DY \<le> 2 * err_at DX DY i j then i + 1 else i)"
    define j' where "j' = (if 2 * err_at DX DY i j \<le> DX then j + 1 else j)"
    note st = line_step [OF less.prems False, folded i'_def j'_def]
    have ij': "0 \<le> i'" "i' \<le> DX" "0 \<le> j'" "j' \<le> DY" using st(1) by (auto simp: line_inv_def)
    have le: "i \<le> i'" "i' \<le> i + 1" "j \<le> j'" "j' \<le> j + 1" by (auto simp: i'_def j'_def)
    have "nat (DX - i' + (DY - j')) < nat (DX - i + (DY - j))" using st(2) ij' ij by linarith
    from less.hyps [OF this st(1)] obtain ps where
      run: "line_loop fb color (wi DX) (wi (- DY)) (wi sx) (wi sy) (wi (a + sx * DX)) (wi (b + sy * DY))
        (wi (err_at DX DY i' j')) (wi (a + sx * i')) (wi (b + sy * j')) s = Some (for_each (plot fb color) ps s)"
      and ps: "ps \<noteq> []" "hd ps = grid a sx b sy i' j'" "last ps = grid a sx b sy DX DY" "connected ps"
        "\<forall>p\<in>set ps. \<exists>k l. 0 \<le> k \<and> k \<le> DX \<and> 0 \<le> l \<and> l \<le> DY \<and> p = grid a sx b sy k l" for color s
      by blast
    have mv: "a + sx * i + sx * (i' - i) = a + sx * i'" "b + sy * j + sy * (j' - j) = b + sy * j'"
      by (simp_all add: algebra_simps)
    have "line_loop fb color (wi DX) (wi (- DY)) (wi sx) (wi sy) (wi (a + sx * DX)) (wi (b + sy * DY))
        (wi (err_at DX DY i j)) (wi (a + sx * i)) (wi (b + sy * j)) s =
        Some (for_each (plot fb color) (grid a sx b sy i j # ps) s)" for color s
      unfolding unf [folded i'_def j'_def] mv run if_not_P [OF False] by (simp add: grid_def split: outcome.split)
    moreover have "connected (grid a sx b sy i j # ps)"
      using ps axis_near [OF ax ij(1) le(1) ij'(2) le(2)] axis_near [OF ay ij(3) le(3) ij'(4) le(4)]
      by (cases ps) (auto simp: grid_def)
    ultimately show ?thesis using ps here by (intro exI [of _ "grid a sx b sy i j # ps"]) simp
  qed
qed

section \<open>Properties\<close>

lemma axis_of_ends:
  assumes "unat p < 2 ^ 29" "unat q < 2 ^ 29"
  defines "D \<equiv> \<bar>uint q - uint p\<bar>" and "s \<equiv> if uint p < uint q then 1 else - 1"
  shows "axis (uint p) s D" "uint p + s * D = uint q" "i32_abs (q - p) = wi D"
    "(if sint p < sint q then 1 else - 1) = wi s"
proof -
  have u: "uint p < 2 ^ 29" "uint q < 2 ^ 29" "0 \<le> uint p" "0 \<le> uint q"
    using uint_less_of_unat [OF assms(1)] uint_less_of_unat [OF assms(2)] by simp_all
  show e: "uint p + s * D = uint q" by (simp add: D_def s_def)
  have "0 \<le> D" "D < 2 ^ 29" unfolding D_def abs_less_iff using u by (simp, linarith)
  then show "axis (uint p) s D" unfolding axis_def e using u by (simp add: s_def)
  have d: "q - p = wi (uint q - uint p)" by simp
  have "sint (q - p) = uint q - uint p"
  proof (unfold d, rule sint_word_of_int_small)
    have "(2 :: int) ^ 29 \<le> 2 ^ 31" by simp
    then show "- (2 ^ 31) \<le> uint q - uint p" "uint q - uint p < 2 ^ 31" using u by linarith+
  qed
  then show "i32_abs (q - p) = wi D" by (simp add: i32_abs_def D_def)
  show "(if sint p < sint q then 1 else - 1) = wi s"
    using u by (simp add: s_def sint_eq_uint_small)
qed

lemma axis_between:
  assumes "axis (uint p) s D" "uint p + s * D = uint q" "0 \<le> i" "i \<le> D"
  shows "between p q (wi (uint p + s * i))"
  using axis_coord(3) [OF assms(1,3,4)] assms
  by (auto simp: between_def axis_def word_le_def min_def max_def simp del: of_int_add of_int_diff)

text \<open>
  C22. Line drawing ends and is connected: for end points with coordinates below \<open>2 ^ 29\<close>,
  \<^verbatim>\<open>draw_line\<close> plots, in order, the points of a path that starts at one end, finishes at the other,
  never moves by more than one pixel in either direction, and stays inside the rectangle spanned
  by the ends.
\<close>

theorem draw_line_path:
  assumes "unat x1 < 2 ^ 29" "unat y1 < 2 ^ 29" "unat x2 < 2 ^ 29" "unat y2 < 2 ^ 29"
  shows "\<exists>ps. (\<forall>color s. draw_line fb x1 y1 x2 y2 color s = for_each (plot fb color) ps s) \<and>
    ps \<noteq> [] \<and> hd ps = (x1, y1) \<and> last ps = (x2, y2) \<and> connected ps \<and>
    (\<forall>(x, y)\<in>set ps. between x1 x2 x \<and> between y1 y2 y)"
proof -
  define DX DY where "DX = \<bar>uint x2 - uint x1\<bar>" and "DY = \<bar>uint y2 - uint y1\<bar>"
  define sx sy :: int where "sx = (if uint x1 < uint x2 then 1 else - 1)" and "sy = (if uint y1 < uint y2 then 1 else - 1)"
  note X = axis_of_ends [OF assms(1,3), folded DX_def sx_def] and Y = axis_of_ends [OF assms(2,4), folded DY_def sy_def]
  have "0 \<le> DX" "0 \<le> DY" by (simp_all add: DX_def DY_def)
  then have "line_inv DX DY 0 0" by (simp add: line_inv_def err_at_def)
  from line_loop_path [OF X(1) Y(1) this, of fb] obtain ps where
    run: "\<And>color s. line_loop fb color (wi DX) (wi (- DY)) (wi sx) (wi sy) x2 y2 (wi DX + wi (- DY)) x1 y1 s =
      Some (for_each (plot fb color) ps s)"
    and ps: "ps \<noteq> []" "hd ps = grid (uint x1) sx (uint y1) sy 0 0" "last ps = grid (uint x1) sx (uint y1) sy DX DY"
      "connected ps" "\<forall>p\<in>set ps. \<exists>k l. 0 \<le> k \<and> k \<le> DX \<and> 0 \<le> l \<and> l \<le> DY \<and> p = grid (uint x1) sx (uint y1) sy k l"
    unfolding X(2) Y(2) by (auto simp: err_at_def)
  have "draw_line fb x1 y1 x2 y2 color s = for_each (plot fb color) ps s" for color s
    using run [of color s] unfolding draw_line_def Let_def X(3,4) Y(3,4) by simp
  moreover have "\<forall>(x, y)\<in>set ps. between x1 x2 x \<and> between y1 y2 y"
    using ps(5) axis_between [OF X(1,2)] axis_between [OF Y(1,2)] by (fastforce simp: grid_def simp del: of_int_add)
  ultimately show ?thesis using ps by (intro exI [of _ ps]) (simp add: grid_def X(2) Y(2) del: of_int_add)
qed

text \<open>A display of four by three pixels that remembers what was plotted, for a concrete run.\<close>

definition demo_fb :: "(u32 \<times> u32) list frame_buffer" where
  "demo_fb =
     \<lparr>fb_width = 4, fb_height = 3, fb_bytes_per_pixel = 4, fb_pitch = 16, fb_size = 48, fb_buffer_ptr = 0,
      fb_pixel_format = Rgb, fb_clear = (\<lambda>_. Ok),
      fb_set_pixel = (\<lambda>x y _ s. Ok (x < 4 \<and> y < 3, if x < 4 \<and> y < 3 then (x, y) # s else s)),
      fb_get_pixel = (\<lambda>_ _ _. Ok None), fb_draw_hline = (\<lambda>_ _ _ _. Ok), fb_draw_vline = (\<lambda>_ _ _ _. Ok),
      fb_draw_rect = (\<lambda>_ _ _ _ _. Ok)\<rparr>"

theorem draw_line_path_witness:
  "\<exists>ps. draw_line demo_fb 0 0 3 2 BLACK [] = for_each (plot demo_fb BLACK) ps [] \<and> hd ps = (0, 0) \<and> last ps = (3, 2) \<and>
    connected ps"
  using draw_line_path [of 0 0 3 2 demo_fb] by auto

end
