(* ===== verification/Mb2_Fb.thy ===== *)
theory Mb2_Fb
  imports Frame_Buffer
begin

text \<open>
  The linear framebuffer of the PC (\<^verbatim>\<open>drivers/src/peripheral/x86/mb2fb.rs\<close>): the multiboot2 tag, the
  packing of colours into pixels, and the pixel operations as volatile accesses to memory.  The
  driver's fields never change after \<^verbatim>\<open>new\<close>; the state of the display is the memory.
\<close>

section \<open>Data\<close>

record channel_desc =
  field_pos :: u8
  mask_size :: u8

record mb2_fb_tag =
  tag_addr :: u64
  tag_pitch :: u32
  tag_width :: u32
  tag_height :: u32
  tag_bpp :: u8
  tag_fb_type :: u8
  tag_red :: channel_desc
  tag_green :: channel_desc
  tag_blue :: channel_desc

record channel =
  ch_shift :: u8
  ch_mask :: u32

definition from_desc :: "channel_desc \<Rightarrow> channel" where
  "from_desc d =
     \<lparr>ch_shift = field_pos d, ch_mask = shl (shl 1 (unat (mask_size d)) - 1) (unat (field_pos d))\<rparr>"

definition count_ones :: "u32 \<Rightarrow> u8" where
  "count_ones x = of_nat (length (filter (bit x) [0..<32]))"

definition channel_extract :: "channel \<Rightarrow> u32 \<Rightarrow> u8" where
  "channel_extract c pixel =
     (let raw = shr (pixel AND ch_mask c) (unat (ch_shift c));
          bits = count_ones (ch_mask c) in
      if 8 \<le> bits then ucast (shr raw (unat (bits - 8))) else ucast (shl raw (unat (8 - bits))))"

definition channel_pack :: "channel \<Rightarrow> u8 \<Rightarrow> u32" where
  "channel_pack c v =
     (let bits = count_ones (ch_mask c);
          scaled = (if 8 \<le> bits then shl (ucast v) (unat (bits - 8)) else shr (ucast v) (unat (8 - bits))) in
      shl scaled (unat (ch_shift c)) AND ch_mask c)"

record mb2_fb =
  mb_base :: u32
  mb_width :: u32
  mb_height :: u32
  mb_pitch :: u32
  mb_bpp :: u8
  mb_bytes_per_pixel :: u32
  mb_r :: channel
  mb_g :: channel
  mb_b :: channel
  mb_pixel_format :: pixel_format

section \<open>Construction\<close>

definition detect_pixel_format :: "mb2_fb_tag \<Rightarrow> u32 \<Rightarrow> pixel_format" where
  "detect_pixel_format tag bpp_bytes =
     (let rp = field_pos (tag_red tag); gp = field_pos (tag_green tag); bp = field_pos (tag_blue tag) in
      if bpp_bytes = 3 then (if bp = 0 \<and> gp = 8 \<and> rp = 16 then Bgr else Rgb)
      else if bpp_bytes = 4 then
        (if (rp, gp, bp) = (16, 8, 0) then Bgra else if (rp, gp, bp) = (0, 8, 16) then Rgba else Rgb)
      else Rgb)"

definition mb2_fb_new :: "mb2_fb_tag \<Rightarrow> (mb2_fb, frame_buffer_error) outcome" where
  "mb2_fb_new tag =
     (if tag_fb_type tag \<noteq> 1 then Err FbNotSupported
      else
        obind (if tag_bpp tag = 15 \<or> tag_bpp tag = 16 then Ok 2
               else if tag_bpp tag = 24 then Ok 3
               else if tag_bpp tag = 32 then Ok 4
               else Err FbInvalidConfig) (\<lambda>bytes_per_pixel.
          Ok \<lparr>mb_base = ucast (tag_addr tag), mb_width = tag_width tag, mb_height = tag_height tag,
              mb_pitch = tag_pitch tag, mb_bpp = tag_bpp tag, mb_bytes_per_pixel = bytes_per_pixel,
              mb_r = from_desc (tag_red tag), mb_g = from_desc (tag_green tag), mb_b = from_desc (tag_blue tag),
              mb_pixel_format = detect_pixel_format tag bytes_per_pixel\<rparr>))"

definition mb2_info :: "mb2_fb \<Rightarrow> frame_buffer_info" where
  "mb2_info fb =
     \<lparr>fi_width = mb_width fb, fi_height = mb_height fb, fi_pitch = mb_pitch fb, fi_depth = ucast (mb_bpp fb),
      fi_pixel_format = mb_pixel_format fb, fi_address = mb_base fb, fi_size = mb_pitch fb * mb_height fb\<rparr>"

section \<open>Pixels\<close>

definition mb2_offset :: "mb2_fb \<Rightarrow> u32 \<Rightarrow> u32 \<Rightarrow> u32" where
  "mb2_offset fb x y = y * mb_pitch fb + x * mb_bytes_per_pixel fb"

definition write_pixel_raw :: "mb2_fb \<Rightarrow> u32 \<Rightarrow> u32 \<Rightarrow> u32 \<Rightarrow> memory \<Rightarrow> memory call" where
  "write_pixel_raw fb x y packed m =
     (let p = mb_base fb + mb2_offset fb x y in
      if mb_bytes_per_pixel fb = 2 then Ok (m(p := le_byte 0 packed, p + 1 := le_byte 1 packed))
      else if mb_bytes_per_pixel fb = 3 then
        Ok (m(p := le_byte 0 packed, p + 1 := le_byte 1 packed, p + 2 := le_byte 2 packed))
      else if mb_bytes_per_pixel fb = 4 then Ok (write_u32 m p packed)
      else Panic)"

definition read_pixel_raw :: "mb2_fb \<Rightarrow> u32 \<Rightarrow> u32 \<Rightarrow> memory \<Rightarrow> u32 call" where
  "read_pixel_raw fb x y m =
     (let p = mb_base fb + mb2_offset fb x y in
      if mb_bytes_per_pixel fb = 2 then Ok (ucast (from_le16 (m p) (m (p + 1))))
      else if mb_bytes_per_pixel fb = 3 then
        Ok (ucast (m p) OR push_bit 8 (ucast (m (p + 1))) OR push_bit 16 (ucast (m (p + 2))))
      else if mb_bytes_per_pixel fb = 4 then Ok (read_u32 m p)
      else Panic)"

definition pack_color :: "mb2_fb \<Rightarrow> u32 \<Rightarrow> u32" where
  "pack_color fb color =
     (let r = ucast (drop_bit 16 color AND 0xFF); g = ucast (drop_bit 8 color AND 0xFF); b = ucast (color AND 0xFF) in
      channel_pack (mb_r fb) r OR channel_pack (mb_g fb) g OR channel_pack (mb_b fb) b)"

definition unpack_color :: "mb2_fb \<Rightarrow> u32 \<Rightarrow> u32" where
  "unpack_color fb packed =
     (let r = ucast (channel_extract (mb_r fb) packed); g = ucast (channel_extract (mb_g fb) packed);
          b = ucast (channel_extract (mb_b fb) packed) in
      0xFF000000 OR push_bit 16 r OR push_bit 8 g OR b)"

section \<open>The trait\<close>

text \<open>\<^verbatim>\<open>for i in 0..n { write_volatile(ptr.add(i), v) }\<close> for a pointer to \<^verbatim>\<open>u32\<close>.\<close>

definition fill_words :: "u32 \<Rightarrow> u32 \<Rightarrow> u32 list \<Rightarrow> memory \<Rightarrow> memory call" where
  "fill_words ptr v = for_each (\<lambda>i m. Ok (write_u32 m (ptr + 4 * i) v))"

definition mb2_clear :: "mb2_fb \<Rightarrow> u32 \<Rightarrow> memory \<Rightarrow> memory call" where
  "mb2_clear fb color m =
     (let packed = pack_color fb color in
      if mb_bytes_per_pixel fb = 4 \<and> mb_pitch fb = mb_width fb * 4 then
        fill_words (mb_base fb) packed (u32_range 0 (mb_pitch fb * mb_height fb div 4)) m
      else
        for_each (\<lambda>y. for_each (\<lambda>x. write_pixel_raw fb x y packed) (u32_range 0 (mb_width fb)))
          (u32_range 0 (mb_height fb)) m)"

definition mb2_set_pixel :: "mb2_fb \<Rightarrow> u32 \<Rightarrow> u32 \<Rightarrow> u32 \<Rightarrow> memory \<Rightarrow> (bool \<times> memory) call" where
  "mb2_set_pixel fb x y color m =
     (if mb_width fb \<le> x \<or> mb_height fb \<le> y then Ok (False, m)
      else obind (write_pixel_raw fb x y (pack_color fb color) m) (\<lambda>m. Ok (True, m)))"

definition mb2_get_pixel :: "mb2_fb \<Rightarrow> u32 \<Rightarrow> u32 \<Rightarrow> memory \<Rightarrow> u32 option call" where
  "mb2_get_pixel fb x y m =
     (if mb_width fb \<le> x \<or> mb_height fb \<le> y then Ok None
      else obind (read_pixel_raw fb x y m) (\<lambda>p. Ok (Some (unpack_color fb p))))"

definition mb2_draw_hline :: "mb2_fb \<Rightarrow> u32 \<Rightarrow> u32 \<Rightarrow> u32 \<Rightarrow> u32 \<Rightarrow> memory \<Rightarrow> memory call" where
  "mb2_draw_hline fb x1 x2 y color m =
     (if mb_height fb \<le> y then Ok m
      else
        let x_start = min x1 (mb_width fb - 1); x_end = min x2 (mb_width fb - 1); packed = pack_color fb color in
        if mb_bytes_per_pixel fb = 4 then
          fill_words (mb_base fb + mb2_offset fb x_start y) packed (u32_range_incl 0 (x_end - x_start)) m
        else for_each (\<lambda>x. write_pixel_raw fb x y packed) (u32_range_incl x_start x_end) m)"

definition mb2_draw_vline :: "mb2_fb \<Rightarrow> u32 \<Rightarrow> u32 \<Rightarrow> u32 \<Rightarrow> u32 \<Rightarrow> memory \<Rightarrow> memory call" where
  "mb2_draw_vline fb x y1 y2 color m =
     (if mb_width fb \<le> x then Ok m
      else
        let y_start = min y1 (mb_height fb - 1); y_end = min y2 (mb_height fb - 1); packed = pack_color fb color in
        for_each (\<lambda>y. write_pixel_raw fb x y packed) (u32_range_incl y_start y_end) m)"

definition mb2_draw_rect :: "mb2_fb \<Rightarrow> u32 \<Rightarrow> u32 \<Rightarrow> u32 \<Rightarrow> u32 \<Rightarrow> u32 \<Rightarrow> memory \<Rightarrow> memory call" where
  "mb2_draw_rect fb x y width height color m =
     (let packed = pack_color fb color;
          x_end = min (x + width) (mb_width fb); y_end = min (y + height) (mb_height fb) in
      for_each (\<lambda>row.
          if mb_bytes_per_pixel fb = 4 then
            fill_words (mb_base fb + mb2_offset fb x row) packed (u32_range 0 (x_end - x))
          else for_each (\<lambda>col. write_pixel_raw fb col row packed) (u32_range x x_end))
        (u32_range y y_end) m)"

definition copy_byte :: "mb2_fb \<Rightarrow> u32 \<Rightarrow> u32 \<Rightarrow> u32 \<Rightarrow> memory \<Rightarrow> memory call" where
  "copy_byte fb src_off dst_off b m = Ok (m(mb_base fb + (dst_off + b) := m (mb_base fb + (src_off + b))))"

definition mb2_copy_region :: "mb2_fb \<Rightarrow> u32 \<Rightarrow> u32 \<Rightarrow> u32 \<Rightarrow> u32 \<Rightarrow> u32 \<Rightarrow> u32 \<Rightarrow> memory \<Rightarrow> memory call" where
  "mb2_copy_region fb src_x src_y dst_x dst_y width height m =
     (let row_bytes = width * mb_bytes_per_pixel fb;
          rows = (\<lambda>i. if dst_y \<le> src_y then i else height - 1 - i) in
      for_each (\<lambda>i.
          let src_off = mb2_offset fb src_x (src_y + rows i); dst_off = mb2_offset fb dst_x (dst_y + rows i) in
          if dst_off \<le> src_off then for_each (copy_byte fb src_off dst_off) (u32_range 0 row_bytes)
          else for_each (copy_byte fb src_off dst_off) (rev (u32_range 0 row_bytes)))
        (u32_range 0 height) m)"

definition mb2_frame_buffer :: "mb2_fb \<Rightarrow> memory frame_buffer" where
  "mb2_frame_buffer fb =
     \<lparr>fb_width = mb_width fb, fb_height = mb_height fb, fb_bytes_per_pixel = mb_bytes_per_pixel fb,
      fb_pitch = mb_pitch fb, fb_size = mb_pitch fb * mb_height fb, fb_buffer_ptr = mb_base fb,
      fb_pixel_format = mb_pixel_format fb, fb_clear = mb2_clear fb, fb_set_pixel = mb2_set_pixel fb,
      fb_get_pixel = mb2_get_pixel fb, fb_draw_hline = mb2_draw_hline fb, fb_draw_vline = mb2_draw_vline fb,
      fb_draw_rect = mb2_draw_rect fb\<rparr>"

section \<open>The tag\<close>

definition read_u64 :: "memory \<Rightarrow> u32 \<Rightarrow> u64" where
  "read_u64 m a = ucast (read_u32 m a) OR push_bit 32 (ucast (read_u32 m (a + 4)))"

definition parse_mb2_fb_tag :: "memory \<Rightarrow> u32 \<Rightarrow> mb2_fb_tag" where
  "parse_mb2_fb_tag m ptr =
     \<lparr>tag_addr = read_u64 m ptr, tag_pitch = read_u32 m (ptr + 8), tag_width = read_u32 m (ptr + 12),
      tag_height = read_u32 m (ptr + 16), tag_bpp = m (ptr + 20), tag_fb_type = m (ptr + 21),
      tag_red = \<lparr>field_pos = m (ptr + 23), mask_size = m (ptr + 24)\<rparr>,
      tag_green = \<lparr>field_pos = m (ptr + 25), mask_size = m (ptr + 26)\<rparr>,
      tag_blue = \<lparr>field_pos = m (ptr + 27), mask_size = m (ptr + 28)\<rparr>\<rparr>"

text \<open>The cell \<^verbatim>\<open>MB2_FB_TAG\<close> is written once; later calls change nothing.\<close>

definition set_mb2_fb_tag :: "mb2_fb_tag \<Rightarrow> mb2_fb_tag option \<Rightarrow> mb2_fb_tag option" where
  "set_mb2_fb_tag tag cell = (case cell of None \<Rightarrow> Some tag | Some t \<Rightarrow> Some t)"

end
