(* ===== verification/Mb2_Fb_Properties.thy ===== *)
theory Mb2_Fb_Properties
  imports Mb2_Fb
begin

text \<open>
  Correctness of the pixel operations of the linear framebuffer: a colour written is the colour
  read back, and no other pixel changes.
\<close>

section \<open>Eight-bit channels\<close>

definition channel8 :: "channel \<Rightarrow> bool" where
  "channel8 c \<longleftrightarrow> unat (ch_shift c) \<le> 24 \<and> ch_mask c = push_bit (unat (ch_shift c)) (mask 8)"

lemma count_ones_byte:
  assumes "k \<le> 24"
  shows "count_ones (push_bit k (mask 8)) = 8"
proof -
  have "{i. i < length [0..<32] \<and> bit (push_bit k (mask 8) :: u32) ([0..<32] ! i)} = {k..<k + 8}"
    using assms by (auto simp: bit_simps)
  then show ?thesis unfolding count_ones_def length_filter_conv_card by simp
qed

lemma channel8_pack: "channel8 c \<Longrightarrow> channel_pack c v = push_bit (unat (ch_shift c)) (ucast v)"
  by (rule bit_word_eqI)
     (auto simp: channel8_def channel_pack_def count_ones_byte shl_def Let_def bit_simps dest: bit_imp_le_length)

lemma channel8_extract: "channel8 c \<Longrightarrow> channel_extract c p = ucast (drop_bit (unat (ch_shift c)) p)"
  by (rule bit_word_eqI) (auto simp: channel8_def channel_extract_def count_ones_byte shr_def Let_def bit_simps)

text \<open>Three channels of eight bits that do not overlap and lie inside the pixel.\<close>

definition true_colour :: "mb2_fb \<Rightarrow> bool" where
  "true_colour fb \<longleftrightarrow>
     (mb_bytes_per_pixel fb = 3 \<or> mb_bytes_per_pixel fb = 4) \<and>
     channel8 (mb_r fb) \<and> channel8 (mb_g fb) \<and> channel8 (mb_b fb) \<and>
     (let r = unat (ch_shift (mb_r fb)); g = unat (ch_shift (mb_g fb)); b = unat (ch_shift (mb_b fb));
          w = 8 * unat (mb_bytes_per_pixel fb) in
      r + 8 \<le> w \<and> g + 8 \<le> w \<and> b + 8 \<le> w \<and>
      (r + 8 \<le> g \<or> g + 8 \<le> r) \<and> (r + 8 \<le> b \<or> b + 8 \<le> r) \<and> (g + 8 \<le> b \<or> b + 8 \<le> g))"

lemma extract_packed:
  fixes v u w :: u8
  assumes "k + 8 \<le> i \<or> i + 8 \<le> k" "k + 8 \<le> j \<or> j + 8 \<le> k" "k \<le> 24"
  shows "(ucast (drop_bit k (push_bit k (ucast v) OR push_bit i (ucast u) OR push_bit j (ucast w) :: u32)) :: u8) = v"
  using assms by (intro bit_word_eqI) (auto simp: bit_simps dest: bit_imp_le_length)

text \<open>Reassembling a word from its bytes, range by range.\<close>

lemma byte_ranges:
  assumes "n < LENGTH(32)"
  obtains "n < 8" | "8 \<le> n" "n < 16" | "16 \<le> n" "n < 24" | "24 \<le> n" "n < 32"
  using assms by (cases "n < 8"; cases "n < 16"; cases "n < 24") auto

lemma opaque_colour:
  fixes c :: u32
  shows "0xFF000000 OR push_bit 16 (ucast (ucast (drop_bit 16 c AND 0xFF) :: u8)) OR
    push_bit 8 (ucast (ucast (drop_bit 8 c AND 0xFF) :: u8)) OR ucast (ucast (c AND 0xFF) :: u8) = c OR 0xFF000000"
proof (rule bit_word_eqI)
  fix n assume n: "n < LENGTH(32)"
  have m: "(0xFF :: u32) = mask 8" "(0xFF000000 :: u32) = push_bit 24 (mask 8)"
    by (simp_all add: mask_eq_exp_minus_1)
  show "bit (0xFF000000 OR push_bit 16 (ucast (ucast (drop_bit 16 c AND 0xFF) :: u8)) OR
    push_bit 8 (ucast (ucast (drop_bit 8 c AND 0xFF) :: u8)) OR ucast (ucast (c AND 0xFF) :: u8) :: u32) n = bit (c OR 0xFF000000) n"
    unfolding m using n by (cases rule: byte_ranges) (auto simp: bit_simps)
qed

lemma three_bytes:
  fixes v :: u32
  shows "ucast (le_byte 0 v) OR push_bit 8 (ucast (le_byte 1 v)) OR push_bit 16 (ucast (le_byte 2 v)) = (take_bit 24 v :: u32)"
proof (rule bit_word_eqI)
  fix n assume n: "n < LENGTH(32)"
  then show "bit (ucast (le_byte 0 v) OR push_bit 8 (ucast (le_byte 1 v)) OR push_bit 16 (ucast (le_byte 2 v)) :: u32) n =
      bit (take_bit 24 v) n"
    by (cases rule: byte_ranges) (auto simp: le_byte_def bit_simps dest: bit_imp_le_length)
qed

lemma unpack_pack:
  assumes "true_colour fb"
  shows "unpack_color fb (pack_color fb c) = c OR 0xFF000000"
proof -
  let ?r = "unat (ch_shift (mb_r fb))" and ?g = "unat (ch_shift (mb_g fb))" and ?b = "unat (ch_shift (mb_b fb))"
  let ?cr = "ucast (drop_bit 16 c AND 0xFF) :: u8" and ?cg = "ucast (drop_bit 8 c AND 0xFF) :: u8"
    and ?cb = "ucast (c AND 0xFF) :: u8"
  have ch: "channel8 (mb_r fb)" "channel8 (mb_g fb)" "channel8 (mb_b fb)"
    and sep: "?r + 8 \<le> ?g \<or> ?g + 8 \<le> ?r" "?r + 8 \<le> ?b \<or> ?b + 8 \<le> ?r" "?g + 8 \<le> ?b \<or> ?b + 8 \<le> ?g"
    and le: "?r \<le> 24" "?g \<le> 24" "?b \<le> 24"
    using assms by (auto simp: true_colour_def channel8_def Let_def)
  have p: "pack_color fb c = push_bit ?r (ucast ?cr) OR push_bit ?g (ucast ?cg) OR push_bit ?b (ucast ?cb)"
    using ch by (simp add: pack_color_def channel8_pack Let_def)
  have p3: "pack_color fb c = push_bit ?b (ucast ?cb) OR push_bit ?r (ucast ?cr) OR push_bit ?g (ucast ?cg)"
    unfolding p by (simp only: ac_simps)
  have "channel_extract (mb_r fb) (pack_color fb c) = ?cr"
    unfolding p channel8_extract [OF ch(1)] using sep le(1) by (intro extract_packed) auto
  moreover have "channel_extract (mb_g fb) (pack_color fb c) = ?cg"
    unfolding p channel8_extract [OF ch(2)] or.left_commute [of "push_bit ?r _"]
    using sep le(2) by (intro extract_packed) auto
  moreover have "channel_extract (mb_b fb) (pack_color fb c) = ?cb"
    unfolding p3 channel8_extract [OF ch(3)]
    using sep le(3) by (intro extract_packed) auto
  ultimately have "unpack_color fb (pack_color fb c) =
      0xFF000000 OR push_bit 16 (ucast ?cr) OR push_bit 8 (ucast ?cg) OR ucast ?cb"
    by (simp add: unpack_color_def Let_def)
  then show ?thesis by (simp only: opaque_colour)
qed

lemma pack_fits:
  assumes "true_colour fb" "8 * unat (mb_bytes_per_pixel fb) \<le> n"
  shows "\<not> bit (pack_color fb c) n"
  using assms by (auto simp: true_colour_def channel8_pack pack_color_def Let_def bit_simps dest: bit_imp_le_length)

section \<open>Geometry\<close>

text \<open>The rows fit into the pitch and the buffer into the address space.\<close>

definition fits :: "mb2_fb \<Rightarrow> bool" where
  "fits fb \<longleftrightarrow>
     unat (mb_width fb) * unat (mb_bytes_per_pixel fb) \<le> unat (mb_pitch fb) \<and>
     unat (mb_base fb) + unat (mb_pitch fb) * unat (mb_height fb) \<le> 2 ^ 32"

definition pixel_addr :: "mb2_fb \<Rightarrow> u32 \<Rightarrow> u32 \<Rightarrow> nat" where
  "pixel_addr fb x y = unat (mb_base fb) + (unat y * unat (mb_pitch fb) + unat x * unat (mb_bytes_per_pixel fb))"

lemma pixel_row:
  assumes "fits fb" "x < mb_width fb"
  shows "unat x * unat (mb_bytes_per_pixel fb) + unat (mb_bytes_per_pixel fb) \<le> unat (mb_pitch fb)"
proof -
  have "Suc (unat x) * unat (mb_bytes_per_pixel fb) \<le> unat (mb_width fb) * unat (mb_bytes_per_pixel fb)"
    using assms(2) by (intro mult_le_mono1) (simp add: word_less_nat_alt)
  then show ?thesis using assms(1) by (simp add: fits_def)
qed

lemma pixel_end:
  assumes "fits fb" "x < mb_width fb" "y < mb_height fb"
  shows "pixel_addr fb x y + unat (mb_bytes_per_pixel fb) \<le> 2 ^ 32"
proof -
  have "Suc (unat y) * unat (mb_pitch fb) \<le> unat (mb_height fb) * unat (mb_pitch fb)"
    using assms(3) by (intro mult_le_mono1) (simp add: word_less_nat_alt)
  then show ?thesis
    using assms(1) pixel_row [OF assms(1,2)] by (simp add: fits_def pixel_addr_def mult.commute [of "unat (mb_height fb)"])
qed

lemma unat_pixel:
  assumes "fits fb" "x < mb_width fb" "y < mb_height fb" "0 < unat (mb_bytes_per_pixel fb)"
  shows "unat (mb_base fb + mb2_offset fb x y) = pixel_addr fb x y"
proof -
  have lt: "pixel_addr fb x y < 2 ^ 32" using pixel_end [OF assms(1-3)] assms(4) by simp
  have "unat (mb_base fb + mb2_offset fb x y) = pixel_addr fb x y mod 2 ^ 32"
    by (simp add: unat_word_ariths mb2_offset_def pixel_addr_def mod_simps)
  then show ?thesis using lt by simp
qed

lemma pixels_apart:
  assumes "fits fb" "x < mb_width fb" "x' < mb_width fb" "(x, y) \<noteq> (x', y')"
  shows "pixel_addr fb x y + unat (mb_bytes_per_pixel fb) \<le> pixel_addr fb x' y' \<or>
    pixel_addr fb x' y' + unat (mb_bytes_per_pixel fb) \<le> pixel_addr fb x y"
proof -
  let ?B = "unat (mb_bytes_per_pixel fb)" and ?P = "unat (mb_pitch fb)"
  have row: "unat a * ?B + ?B \<le> ?P" if "a < mb_width fb" for a using pixel_row [OF assms(1) that] .
  have up: "i * ?P + ?P \<le> j * ?P" if "i < j" for i j
  proof -
    have "Suc i * ?P \<le> j * ?P" using that by (intro mult_le_mono1) simp
    then show ?thesis by simp
  qed
  have right: "i * ?B + ?B \<le> j * ?B" if "i < j" for i j
  proof -
    have "Suc i * ?B \<le> j * ?B" using that by (intro mult_le_mono1) simp
    then show ?thesis by simp
  qed
  consider "unat y < unat y'" | "unat y' < unat y" | "y = y'" "unat x < unat x'" | "y = y'" "unat x' < unat x"
    using assms(4) by (metis linorder_neqE_nat prod.inject word_unat_eq_iff)
  then show ?thesis
  proof cases
    case 1
    then show ?thesis using up [OF 1] row [OF assms(2)] by (simp add: pixel_addr_def)
  next
    case 2
    then show ?thesis using up [OF 2] row [OF assms(3)] by (simp add: pixel_addr_def)
  next
    case 3
    then show ?thesis using right [OF 3(2)] by (simp add: pixel_addr_def)
  next
    case 4
    then show ?thesis using right [OF 4(2)] by (simp add: pixel_addr_def)
  qed
qed

section \<open>Raw accesses\<close>

lemma near_unat:
  assumes "unat (p :: u32) + B \<le> 2 ^ 32" "i < B" "B \<le> 4"
  shows "unat (p + of_nat i) = unat p + i"
  using assms by (subst unat_add_small) (auto simp: unat_of_nat)

lemma raw_write:
  assumes "fits fb" "x < mb_width fb" "y < mb_height fb" "mb_bytes_per_pixel fb = 3 \<or> mb_bytes_per_pixel fb = 4"
  obtains m' where "write_pixel_raw fb x y v m = Ok m'"
    "\<And>a. unat a < pixel_addr fb x y \<or> pixel_addr fb x y + unat (mb_bytes_per_pixel fb) \<le> unat a \<Longrightarrow> m' a = m a"
    "\<exists>w. read_pixel_raw fb x y m' = Ok w \<and> (\<forall>n < 8 * unat (mb_bytes_per_pixel fb). bit w n = bit v n) \<and>
      (\<forall>n \<ge> 8 * unat (mb_bytes_per_pixel fb). \<not> bit w n)"
proof -
  let ?p = "mb_base fb + mb2_offset fb x y" and ?B = "unat (mb_bytes_per_pixel fb)"
  have B: "0 < ?B" "?B \<le> 4" using assms(4) by auto
  have u: "unat ?p = pixel_addr fb x y" using unat_pixel [OF assms(1-3) B(1)] .
  have e: "unat ?p + ?B \<le> 2 ^ 32" using pixel_end [OF assms(1-3)] u by simp
  have n: "unat (?p + of_nat i) = unat ?p + i" if "i < ?B" for i using near_unat [OF e that B(2)] .
  show thesis
  proof (cases "mb_bytes_per_pixel fb = 4")
    case True
    then have "cells ?p \<subseteq> span (unat ?p) ?B" using e by (intro cells_span) auto
    then have "a \<notin> cells ?p" if "unat a < pixel_addr fb x y \<or> pixel_addr fb x y + ?B \<le> unat a" for a
      using that u by (auto simp: span_def)
    then have "write_u32 m ?p v a = m a" if "unat a < pixel_addr fb x y \<or> pixel_addr fb x y + ?B \<le> unat a" for a
      using that by (simp add: write_u32_other)
    moreover have "\<not> bit v k" if "32 \<le> k" for k using that bit_imp_le_length [of v k] by auto
    ultimately show thesis using True
      by (intro that [of "write_u32 m ?p v"]) (simp_all add: write_pixel_raw_def read_pixel_raw_def Let_def read_write_u32_same)
  next
    case False
    then have 3: "mb_bytes_per_pixel fb = 3" using assms(4) by simp
    let ?m = "m(?p := le_byte 0 v, ?p + 1 := le_byte 1 v, ?p + 2 := le_byte 2 v)"
    have a: "unat (?p + 1) = unat ?p + 1" "unat (?p + 2) = unat ?p + 2" using n [of 1] n [of 2] 3 by simp_all
    then have ne: "?p + 1 \<noteq> ?p" "?p + 2 \<noteq> ?p" "?p + 2 \<noteq> ?p + 1" by auto
    have "?m a = m a" if "unat a < pixel_addr fb x y \<or> pixel_addr fb x y + ?B \<le> unat a" for a
    proof -
      have "a \<noteq> ?p" "a \<noteq> ?p + 1" "a \<noteq> ?p + 2" using that 3 a u by auto
      then show ?thesis by simp
    qed
    moreover have "\<exists>w. read_pixel_raw fb x y ?m = Ok w \<and> (\<forall>n < 8 * ?B. bit w n = bit v n) \<and> (\<forall>n \<ge> 8 * ?B. \<not> bit w n)"
      using 3 ne three_bytes [of v] by (simp add: read_pixel_raw_def Let_def bit_take_bit_iff del: One_nat_def)
    ultimately show thesis using 3 by (intro that [of ?m]) (simp_all add: write_pixel_raw_def Let_def)
  qed
qed

lemma raw_read_cong:
  assumes "fits fb" "x < mb_width fb" "y < mb_height fb" "mb_bytes_per_pixel fb = 3 \<or> mb_bytes_per_pixel fb = 4"
    and "\<And>a. pixel_addr fb x y \<le> unat a \<Longrightarrow> unat a < pixel_addr fb x y + unat (mb_bytes_per_pixel fb) \<Longrightarrow> m' a = m a"
  shows "read_pixel_raw fb x y m' = read_pixel_raw fb x y m"
proof -
  let ?p = "mb_base fb + mb2_offset fb x y" and ?B = "unat (mb_bytes_per_pixel fb)"
  have B: "0 < ?B" "?B \<le> 4" using assms(4) by auto
  have u: "unat ?p = pixel_addr fb x y" using unat_pixel [OF assms(1-3) B(1)] .
  have e: "unat ?p + ?B \<le> 2 ^ 32" using pixel_end [OF assms(1-3)] u by simp
  have "m' (?p + of_nat i) = m (?p + of_nat i)" if "i < ?B" for i
    using near_unat [OF e that B(2)] that u by (intro assms(5)) auto
  from this [of 0] this [of 1] this [of 2] this [of 3] show ?thesis
    using assms(4) by (auto simp: read_pixel_raw_def Let_def read_u32_def)
qed

section \<open>Properties\<close>

text \<open>
  C8. Pixels round-trip: on a framebuffer with three separate eight-bit channels whose rows fit into
  the pitch, \<^verbatim>\<open>set_pixel\<close> inside the screen succeeds, \<^verbatim>\<open>get_pixel\<close> then returns the colour with opaque
  alpha, every other pixel keeps its colour and no byte outside the pixel changes; outside the
  screen \<^verbatim>\<open>set_pixel\<close> reports failure and changes nothing.
\<close>

theorem pixel_roundtrip:
  assumes "true_colour fb" "fits fb"
  shows "(x < mb_width fb \<and> y < mb_height fb \<longrightarrow>
      (\<exists>m'. mb2_set_pixel fb x y c m = Ok (True, m') \<and> mb2_get_pixel fb x y m' = Ok (Some (c OR 0xFF000000)) \<and>
        (\<forall>x' y'. (x', y') \<noteq> (x, y) \<longrightarrow> mb2_get_pixel fb x' y' m' = mb2_get_pixel fb x' y' m) \<and>
        (\<forall>a. unat a < pixel_addr fb x y \<or> pixel_addr fb x y + unat (mb_bytes_per_pixel fb) \<le> unat a \<longrightarrow> m' a = m a))) \<and>
    (\<not> (x < mb_width fb \<and> y < mb_height fb) \<longrightarrow> mb2_set_pixel fb x y c m = Ok (False, m))"
proof (intro conjI impI)
  assume "\<not> (x < mb_width fb \<and> y < mb_height fb)"
  then show "mb2_set_pixel fb x y c m = Ok (False, m)" by (auto simp: mb2_set_pixel_def not_less)
next
  assume xy: "x < mb_width fb \<and> y < mb_height fb"
  have B: "mb_bytes_per_pixel fb = 3 \<or> mb_bytes_per_pixel fb = 4" using assms(1) by (simp add: true_colour_def)
  let ?n = "8 * unat (mb_bytes_per_pixel fb)"
  obtain m' where w: "write_pixel_raw fb x y (pack_color fb c) m = Ok m'"
    and keep: "\<And>a. unat a < pixel_addr fb x y \<or> pixel_addr fb x y + unat (mb_bytes_per_pixel fb) \<le> unat a \<Longrightarrow> m' a = m a"
    and "\<exists>w. read_pixel_raw fb x y m' = Ok w \<and> (\<forall>n < ?n. bit w n = bit (pack_color fb c) n) \<and> (\<forall>n \<ge> ?n. \<not> bit w n)"
    by (rule raw_write [OF assms(2) xy [THEN conjunct1] xy [THEN conjunct2] B, of "pack_color fb c" m]) (rule that)
  then obtain w where r: "read_pixel_raw fb x y m' = Ok w" "\<forall>n < ?n. bit w n = bit (pack_color fb c) n" "\<forall>n \<ge> ?n. \<not> bit w n"
    by blast
  have "w = pack_color fb c"
    using r(2,3) pack_fits [OF assms(1)] by (intro bit_word_eqI) (metis not_less)
  then have "mb2_get_pixel fb x y m' = Ok (Some (c OR 0xFF000000))"
    using xy r(1) unpack_pack [OF assms(1)] by (simp add: mb2_get_pixel_def not_le)
  moreover have "mb2_get_pixel fb x' y' m' = mb2_get_pixel fb x' y' m" if ne: "(x', y') \<noteq> (x, y)" for x' y'
  proof (cases "x' < mb_width fb \<and> y' < mb_height fb")
    case True
    have "read_pixel_raw fb x' y' m' = read_pixel_raw fb x' y' m"
      using True B assms(2) pixels_apart [OF assms(2) xy [THEN conjunct1] _ ne [symmetric]]
      by (intro raw_read_cong keep) auto
    then show ?thesis by (simp add: mb2_get_pixel_def)
  qed (auto simp: mb2_get_pixel_def not_less)
  ultimately show "\<exists>m'. mb2_set_pixel fb x y c m = Ok (True, m') \<and> mb2_get_pixel fb x y m' = Ok (Some (c OR 0xFF000000)) \<and>
        (\<forall>x' y'. (x', y') \<noteq> (x, y) \<longrightarrow> mb2_get_pixel fb x' y' m' = mb2_get_pixel fb x' y' m) \<and>
        (\<forall>a. unat a < pixel_addr fb x y \<or> pixel_addr fb x y + unat (mb_bytes_per_pixel fb) \<le> unat a \<longrightarrow> m' a = m a)"
    using w xy keep by (intro exI [of _ m']) (simp add: mb2_set_pixel_def not_le)
qed

text \<open>A screen of 640 by 480 with 32 bits per pixel at \<^verbatim>\<open>0xFD000000\<close>, as QEMU reports it.\<close>

definition demo_tag :: mb2_fb_tag where
  "demo_tag =
     \<lparr>tag_addr = 0xFD000000, tag_pitch = 2560, tag_width = 640, tag_height = 480, tag_bpp = 32, tag_fb_type = 1,
      tag_red = \<lparr>field_pos = 16, mask_size = 8\<rparr>, tag_green = \<lparr>field_pos = 8, mask_size = 8\<rparr>,
      tag_blue = \<lparr>field_pos = 0, mask_size = 8\<rparr>\<rparr>"

definition demo_mb2 :: mb2_fb where
  "demo_mb2 = the_ok (mb2_fb_new demo_tag)"

lemma demo_mb2_ok: "true_colour demo_mb2" "fits demo_mb2"
  by (simp_all add: demo_mb2_def demo_tag_def mb2_fb_new_def true_colour_def fits_def channel8_def from_desc_def shl_def
      mask_eq_exp_minus_1)

theorem pixel_roundtrip_witness:
  "\<exists>m'. mb2_set_pixel demo_mb2 639 479 0x123456 (\<lambda>_. 0) = Ok (True, m') \<and>
    mb2_get_pixel demo_mb2 639 479 m' = Ok (Some 0xFF123456)"
proof -
  have "639 < mb_width demo_mb2 \<and> 479 < mb_height demo_mb2"
    by (simp add: demo_mb2_def demo_tag_def mb2_fb_new_def)
  then show ?thesis using pixel_roundtrip [OF demo_mb2_ok, of 639 479 "0x123456" "\<lambda>_. 0"] by auto
qed

end
