(* ===== verification/Dev_Files.thy ===== *)
theory Dev_Files
  imports Fs_Fd Device_Manager Uart_Properties Mb2_Fb_Properties
begin

text \<open>
  The device files (\<^verbatim>\<open>kernel/src/fs/dev/uart_file.rs\<close> and \<^verbatim>\<open>framebuffer_file.rs\<close>): serial ports and
  framebuffers of the device manager seen as files.  The world they act on holds the device
  manager, the states of the serial ports by handle, and the memory; the code behind a handle is a
  parameter (\<open>ports\<close>, \<open>fbs\<close>), one type-erased port or framebuffer for each.
\<close>

record ('h, 'p) dev_world =
  dw_dm :: "'h device_manager"
  dw_port :: "'h \<Rightarrow> 'p"
  dw_mem :: memory

text \<open>Running a call of the port with handle \<open>h\<close>.\<close>

definition on_port :: "'h \<Rightarrow> ('p, 'a, 'e) io \<Rightarrow> ('h, 'p) dev_world \<Rightarrow> ('a, 'e) outcome \<times> ('h, 'p) dev_world" where
  "on_port h call w = (case run_state call (dw_port w h) of (r, p) \<Rightarrow> (r, w\<lparr>dw_port := (dw_port w)(h := p)\<rparr>))"

section \<open>Serial ports as files\<close>

record uart_file =
  uf_index :: u32

definition uart_file_new :: "u32 \<Rightarrow> uart_file" where
  "uart_file_new index = \<lparr>uf_index = index\<rparr>"

definition uart_device_name :: "uart_file \<Rightarrow> string" where
  "uart_device_name f = (if uf_index f = 0 then ''console'' else ''uart'' @ dec_digits (unat (uf_index f)))"

definition uart_read ::
  "('h \<Rightarrow> 'p dyn_serial_port) \<Rightarrow> uart_file \<Rightarrow> u8 list \<Rightarrow> u32 \<Rightarrow> ('h, 'p) dev_world \<Rightarrow> (u32 \<times> u8 list, fd_error) outcome \<times> ('h, 'p) dev_world" where
  "uart_read ports f buf offset w =
     (case dm_serial (dw_dm w) (uart_device_name f) of
        None \<Rightarrow> (Err FdIoError, w)
      | Some h \<Rightarrow>
          (case ds_as_nonblocking (ports h) of
             Some nb \<Rightarrow> on_port h (io_map_err (\<lambda>_. FdIoError) (dnb_try_read nb buf)) w
           | None \<Rightarrow> on_port h (io_map_err (\<lambda>_. FdIoError) (ds_read (ports h) buf)) w))"

definition uart_write ::
  "('h \<Rightarrow> 'p dyn_serial_port) \<Rightarrow> uart_file \<Rightarrow> u8 list \<Rightarrow> u32 \<Rightarrow> ('h, 'p) dev_world \<Rightarrow> (u32, fd_error) outcome \<times> ('h, 'p) dev_world" where
  "uart_write ports f buf offset w =
     (case dm_serial (dw_dm w) (uart_device_name f) of
        None \<Rightarrow> (Err FdIoError, w)
      | Some h \<Rightarrow>
          on_port h (io_bind (io_map_err (\<lambda>_. FdIoError) (ds_write (ports h) buf)) (\<lambda>_. ok (of_nat (length buf)))) w)"

definition uart_stat :: "uart_file \<Rightarrow> ('h, 'p) dev_world \<Rightarrow> (file_stat, fd_error) outcome" where
  "uart_stat f w = Ok \<lparr>st_size = 0, st_type = CharDevice, st_name = uart_device_name f\<rparr>"

definition uart_file_ops :: "('h \<Rightarrow> 'p dyn_serial_port) \<Rightarrow> uart_file \<Rightarrow> ('h, 'p) dev_world file_ops" where
  "uart_file_ops ports f = \<lparr>fo_read = uart_read ports f, fo_write = uart_write ports f, fo_stat = uart_stat f\<rparr>"

section \<open>Framebuffers as files\<close>

record frame_buffer_file =
  ff_index :: u32
  ff_width :: u32
  ff_height :: u32
  ff_pitch :: u32
  ff_bpp :: u32

definition fb_device_name :: "u32 \<Rightarrow> string" where
  "fb_device_name index = ''fb'' @ dec_digits (unat index)"

definition NO_DEVICE :: fd_error where
  "NO_DEVICE = FdOther ''No such device''"

definition fb_file_new :: "('h \<Rightarrow> 'f frame_buffer) \<Rightarrow> u32 \<Rightarrow> ('h, 'p) dev_world \<Rightarrow> (frame_buffer_file, fd_error) outcome" where
  "fb_file_new fbs index w =
     obind (ok_or NO_DEVICE (dm_framebuffer (dw_dm w) (fb_device_name index))) (\<lambda>h.
       Ok \<lparr>ff_index = index, ff_width = fb_width (fbs h), ff_height = fb_height (fbs h), ff_pitch = fb_pitch (fbs h),
           ff_bpp = fb_bytes_per_pixel (fbs h)\<rparr>)"

definition fb_file_size :: "frame_buffer_file \<Rightarrow> u32" where
  "fb_file_size f = ff_pitch f * ff_height f"

definition validate_offset :: "frame_buffer_file \<Rightarrow> u32 \<Rightarrow> (unit, fd_error) outcome" where
  "validate_offset f offset = (if offset > fb_file_size f then Err InvalidSeek else Ok ())"

text \<open>\<^verbatim>\<open>copy_nonoverlapping\<close> out of memory and into it.\<close>

definition load_bytes :: "memory \<Rightarrow> u32 \<Rightarrow> nat \<Rightarrow> u8 list" where
  "load_bytes m a n = map (\<lambda>i. m (a + of_nat i)) [0..<n]"

definition store_bytes :: "memory \<Rightarrow> u32 \<Rightarrow> u8 list \<Rightarrow> memory" where
  "store_bytes m a bs = (\<lambda>x. if unat (x - a) < length bs then bs ! unat (x - a) else m x)"

definition fb_file_read ::
  "('h \<Rightarrow> 'f frame_buffer) \<Rightarrow> frame_buffer_file \<Rightarrow> u8 list \<Rightarrow> u32 \<Rightarrow> ('h, 'p) dev_world \<Rightarrow> (u32 \<times> u8 list, fd_error) outcome \<times> ('h, 'p) dev_world" where
  "fb_file_read fbs f buf offset w =
     (obind (validate_offset f offset) (\<lambda>_.
      obind (ok_or NO_DEVICE (dm_framebuffer (dw_dm w) (fb_device_name (ff_index f)))) (\<lambda>h.
        let available = saturating_sub (fb_file_size f) offset;
            to_read = min (of_nat (length buf)) available in
        if to_read = 0 then Ok (0, buf)
        else Ok (to_read, load_bytes (dw_mem w) (fb_buffer_ptr (fbs h) + offset) (unat to_read) @ drop (unat to_read) buf))), w)"

definition fb_file_write ::
  "('h \<Rightarrow> 'f frame_buffer) \<Rightarrow> frame_buffer_file \<Rightarrow> u8 list \<Rightarrow> u32 \<Rightarrow> ('h, 'p) dev_world \<Rightarrow> (u32, fd_error) outcome \<times> ('h, 'p) dev_world" where
  "fb_file_write fbs f buf offset w =
     (case obind (validate_offset f offset) (\<lambda>_.
           obind (ok_or NO_DEVICE (dm_framebuffer (dw_dm w) (fb_device_name (ff_index f)))) (\<lambda>h.
             let available = saturating_sub (fb_file_size f) offset;
                 to_write = min (of_nat (length buf)) available in
             if to_write = 0 then Ok (0, dw_mem w)
             else Ok (to_write, store_bytes (dw_mem w) (fb_buffer_ptr (fbs h) + offset) (take (unat to_write) buf)))) of
        Ok (n, m) \<Rightarrow> (Ok n, w\<lparr>dw_mem := m\<rparr>)
      | Err e \<Rightarrow> (Err e, w) | Panic \<Rightarrow> (Panic, w) | Diverge \<Rightarrow> (Diverge, w))"

definition fb_file_stat :: "frame_buffer_file \<Rightarrow> ('h, 'p) dev_world \<Rightarrow> (file_stat, fd_error) outcome" where
  "fb_file_stat f w = Ok \<lparr>st_size = fb_file_size f, st_type = CharDevice, st_name = fb_device_name (ff_index f)\<rparr>"

definition fb_file_ops :: "('h \<Rightarrow> 'f frame_buffer) \<Rightarrow> frame_buffer_file \<Rightarrow> ('h, 'p) dev_world file_ops" where
  "fb_file_ops fbs f = \<lparr>fo_read = fb_file_read fbs f, fo_write = fb_file_write fbs f, fo_stat = fb_file_stat f\<rparr>"

section \<open>Framebuffer contents\<close>

text \<open>The bytes the file shows, while its device is registered and the buffer lies in memory.\<close>

definition fb_handle :: "frame_buffer_file \<Rightarrow> ('h, 'p) dev_world \<Rightarrow> 'h option" where
  "fb_handle f w = dm_framebuffer (dw_dm w) (fb_device_name (ff_index f))"

definition fb_content :: "('h \<Rightarrow> 'f frame_buffer) \<Rightarrow> frame_buffer_file \<Rightarrow> ('h, 'p) dev_world \<Rightarrow> u8 list" where
  "fb_content fbs f w =
     (case fb_handle f w of None \<Rightarrow> []
      | Some h \<Rightarrow> load_bytes (dw_mem w) (fb_buffer_ptr (fbs h)) (unat (fb_file_size f)))"

definition fb_ready :: "frame_buffer_file \<Rightarrow> ('h, 'p) dev_world \<Rightarrow> bool" where
  "fb_ready f w \<longleftrightarrow> fb_handle f w \<noteq> None"

lemma length_load_bytes [simp]: "length (load_bytes m a n) = n"
  by (simp add: load_bytes_def)

lemma nth_load_bytes: "i < n \<Longrightarrow> load_bytes m a n ! i = m (a + of_nat i)"
  by (simp add: load_bytes_def)

lemma load_bytes_part:
  assumes "off + k \<le> n"
  shows "load_bytes m (a + of_nat off) k = take k (drop off (load_bytes m a n))"
  using assms by (intro nth_equalityI) (auto simp: nth_load_bytes add.assoc)

text \<open>The number of bytes a transfer moves.\<close>

lemma transfer_size:
  fixes off size :: u32
  assumes "off \<le> size" "len < 2 ^ 32"
  shows "unat (min (of_nat len) (saturating_sub size off)) = min len (unat size - unat off)"
proof -
  have "unat (saturating_sub size off) = unat size - unat off"
    using assms(1) by (auto simp: saturating_sub_def unat_sub_le antisym)
  moreover have "unat (of_nat len :: u32) = len" using assms(2) by (simp add: unat_of_nat)
  ultimately show ?thesis by (simp add: min_def word_le_nat_alt)
qed

interpretation fb_file: content_file "fb_file_ops fbs f" "fb_content fbs f" "fb_ready f"
  for fbs f
proof
  fix w :: "('a, 'c) dev_world" assume r: "fb_ready f w"
  then obtain h where h: "fb_handle f w = Some h" by (auto simp: fb_ready_def)
  show "length (fb_content fbs f w) < 2 ^ 32"
    using unat_less [of "fb_file_size f"] by (simp add: fb_content_def h)
  fix off :: u32 and buf :: "u8 list"
  assume off: "unat off \<le> length (fb_content fbs f w)" and buf: "length buf < 2 ^ 32"
  have le: "off \<le> fb_file_size f" using off by (simp add: fb_content_def h word_le_nat_alt)
  let ?n = "min (of_nat (length buf)) (saturating_sub (fb_file_size f) off)"
  let ?k = "min (length buf) (unat (fb_file_size f) - unat off)"
  have k: "unat ?n = ?k" by (rule transfer_size [OF le buf])
  have n: "?n = of_nat ?k" unfolding k [symmetric] by simp
  have zero: "(of_nat ?k :: u32) = 0 \<Longrightarrow> ?k = 0" using k n by (metis unat_0)
  have "load_bytes (dw_mem w) (fb_buffer_ptr (fbs h) + off) ?k = take ?k (drop (unat off) (fb_content fbs f w))"
    using load_bytes_part [of "unat off" ?k "unat (fb_file_size f)" "dw_mem w" "fb_buffer_ptr (fbs h)"] le
    by (simp add: fb_content_def h word_le_nat_alt)
  note part = this
  have "fo_read (fb_file_ops fbs f) buf off w = (Ok (read_result (fb_content fbs f w) buf (unat off)), w)"
  proof (cases "?k = 0")
    case True
    then show ?thesis using le n h
      by (simp add: True not_less fb_file_ops_def fb_file_read_def validate_offset_def Let_def read_result_def
          fb_content_def fb_handle_def)
  next
    case False
    then show ?thesis using le k n h part zero
      by (auto simp: not_less fb_file_ops_def fb_file_read_def validate_offset_def Let_def read_result_def
          fb_content_def fb_handle_def)
  qed
  then show "\<exists>w'. fo_read (fb_file_ops fbs f) buf off w = (Ok (read_result (fb_content fbs f w) buf (unat off)), w') \<and>
      fb_ready f w' \<and> fb_content fbs f w' = fb_content fbs f w"
    using r by blast
qed

lemma load_store_bytes:
  assumes "off + length bs \<le> n" "n < 2 ^ 32"
  shows "load_bytes (store_bytes m (a + of_nat off) bs) a n =
    take off (load_bytes m a n) @ bs @ drop (off + length bs) (load_bytes m a n)"
proof (rule nth_equalityI)
  fix i assume "i < length (load_bytes (store_bytes m (a + of_nat off) bs) a n)"
  then have i: "i < n" by simp
  have "unat (of_nat i - of_nat off :: u32) = (if off \<le> i then i - off else 2 ^ 32 + i - off)"
  proof (cases "off \<le> i")
    case True
    then have "of_nat i - of_nat off = (of_nat (i - off) :: u32)" by simp
    then show ?thesis using True i assms(2) by (simp only: unat_of_nat) simp
  next
    case False
    have "of_nat i - of_nat off = (of_nat (2 ^ 32 + i - off) :: u32)"
      using False assms i by (simp add: of_nat_diff)
    then show ?thesis using False assms i by (simp only: unat_of_nat) simp
  qed
  then show "load_bytes (store_bytes m (a + of_nat off) bs) a n ! i =
      (take off (load_bytes m a n) @ bs @ drop (off + length bs) (load_bytes m a n)) ! i"
    using i assms by (auto simp: nth_load_bytes store_bytes_def nth_append algebra_simps)
qed (use assms in simp)

lemma fb_write_content:
  assumes "fb_ready f w" "unat off + length buf \<le> unat (fb_file_size f)"
  obtains w' where "fo_write (fb_file_ops fbs f) buf off w = (Ok (of_nat (length buf)), w')" "fb_ready f w'"
    "fb_content fbs f w' = take (unat off) (fb_content fbs f w) @ buf @ drop (unat off + length buf) (fb_content fbs f w)"
proof -
  obtain h where h: "fb_handle f w = Some h" using assms(1) by (auto simp: fb_ready_def)
  have le: "off \<le> fb_file_size f" using assms(2) by (simp add: word_le_nat_alt)
  have lt: "unat (fb_file_size f) < 2 ^ 32" using unat_less [of "fb_file_size f"] by simp
  have len: "length buf < 2 ^ 32" using assms(2) lt by linarith
  let ?n = "min (of_nat (length buf)) (saturating_sub (fb_file_size f) off) :: u32"
  have k: "unat ?n = length buf" using transfer_size [OF le len] assms(2) by simp
  have n: "?n = of_nat (length buf)" using arg_cong [OF k, of "of_nat :: nat \<Rightarrow> u32"] by simp
  let ?w = "w\<lparr>dw_mem := store_bytes (dw_mem w) (fb_buffer_ptr (fbs h) + off) buf\<rparr>"
  have nil: "store_bytes m a [] = m" for m a by (simp add: store_bytes_def)
  have zero: "(of_nat (length buf) :: u32) = 0 \<longleftrightarrow> buf = []" 
    using len by (simp add: unat_of_nat flip: unat_eq_zero)
  have "fo_write (fb_file_ops fbs f) buf off w = (Ok (of_nat (length buf)), ?w)"
    using le h k n zero nil
    by (cases "buf = []") (simp_all add: not_less fb_file_ops_def fb_file_write_def validate_offset_def Let_def fb_handle_def)
  moreover have "fb_content fbs f ?w = take (unat off) (fb_content fbs f w) @ buf @ drop (unat off + length buf) (fb_content fbs f w)"
    using load_store_bytes [OF assms(2) lt, of "dw_mem w" "fb_buffer_ptr (fbs h)"] h by (simp add: fb_content_def fb_handle_def)
  ultimately show thesis using assms(1) by (intro that) (simp_all add: fb_ready_def fb_handle_def)
qed

section \<open>Properties\<close>

text \<open>
  The framebuffer file behaves like a file: a write that fits succeeds and replaces exactly the
  bytes at its offset; reading through a descriptor from that offset, in two pieces, then returns
  the bytes written, in order.
\<close>

lemma fb_file_roundtrip:
  assumes "fb_ready f w" "unat off + length buf \<le> unat (fb_file_size f)"
    and d: "fde_file d = fb_file_ops fbs f" "has_flags (fde_access d) ACC_READ" "fde_offset d = off"
    and pieces: "length lo_buf + length hi_buf = length buf"
  shows "\<exists>w'. fo_write (fb_file_ops fbs f) buf off w = (Ok (of_nat (length buf)), w') \<and>
    fb_content fbs f w' = take (unat off) (fb_content fbs f w) @ buf @ drop (unat off + length buf) (fb_content fbs f w) \<and>
    (\<exists>n1 c1 d1 w1 n2 c2 d2 w2. fd_read d lo_buf w' = (Ok (n1, c1), d1, w1) \<and> fd_read d1 hi_buf w1 = (Ok (n2, c2), d2, w2) \<and>
      fb_content fbs f w2 = fb_content fbs f w' \<and> take (unat n1) c1 @ take (unat n2) c2 = buf)"
proof -
  obtain w' where w': "fo_write (fb_file_ops fbs f) buf off w = (Ok (of_nat (length buf)), w')" "fb_ready f w'"
    and c: "fb_content fbs f w' = take (unat off) (fb_content fbs f w) @ buf @ drop (unat off + length buf) (fb_content fbs f w)"
    by (rule fb_write_content [OF assms(1,2)])
  have L: "length (fb_content fbs f w) = unat (fb_file_size f)" "length (fb_content fbs f w') = unat (fb_file_size f)"
    using assms(1) w'(2) by (auto simp: fb_ready_def fb_content_def)
  have o: "unat (fde_offset d) \<le> length (fb_content fbs f w')" using assms(2) L d(3) by simp
  have len: "length lo_buf + length hi_buf < 2 ^ 32" using pieces assms(2) unat_less [of "fb_file_size f"] by simp
  have "take (length lo_buf + length hi_buf) (drop (unat (fde_offset d)) (fb_content fbs f w')) = buf"
    using assms(2) L d(3) pieces by (simp add: c)
  moreover obtain n1 n2 c1 c2 d1 d2 w1 w2 where "fd_read d lo_buf w' = (Ok (n1, c1), d1, w1)"
    "fd_read d1 hi_buf w1 = (Ok (n2, c2), d2, w2)" "fb_content fbs f w2 = fb_content fbs f w'"
    "take (unat n1) c1 @ take (unat n2) c2 = take (length lo_buf + length hi_buf) (drop (unat (fde_offset d)) (fb_content fbs f w'))"
    by (rule fb_file.fd_read_twice [OF w'(2) d(1,2) o len])
  ultimately show ?thesis using w'(1) c by auto
qed

text \<open>
  Standard output reaches the console: in a fresh descriptor table, writing through descriptor 1
  while a 16550 is registered as \<^verbatim>\<open>console\<close> returns the length of the data and puts exactly those
  bytes on the wire, whatever the offset; reading from descriptor 1 is refused.
\<close>

lemma stdout_reaches_console:
  assumes "dm_serial (dw_dm w) ''console'' = Some h" "ports h = dyn_serial uart16550_into (u16_port io u)"
    and "u16_tx io u sent up lat" "up (dw_port w h)"
  shows "\<exists>d w'. fd_get (fd_table_new (uart_file_ops ports (uart_file_new 0))) STDOUT = Ok d \<and>
    fd_write d buf w = (Ok (of_nat (length buf)), d\<lparr>fde_offset := of_nat (length buf)\<rparr>, w') \<and>
    sent (dw_port w' h) = sent (dw_port w h) @ buf \<and> dw_mem w' = dw_mem w \<and> dw_dm w' = dw_dm w \<and>
    fst (fd_read d buf w) = Err FdPermissionDenied"
proof -
  let ?f = "uart_file_ops ports (uart_file_new 0)" and ?d = "file_descriptor_new (uart_file_ops ports (uart_file_new 0)) 0 WRONLY"
  obtain p where p: "run_state (ds_write (ports h) buf) (dw_port w h) = (Ok (of_nat (length buf)), p)"
    "sent p = sent (dw_port w h) @ buf"
    using u16_sink.write_sends [of io u sent up lat "dw_port w h" "u16_port io u" uart16550_into buf] assms(2-4)
    by (metis (no_types, lifting) serial_port.select_convs(2) u16_port_def)
  let ?w = "w\<lparr>dw_port := (dw_port w)(h := p)\<rparr>"
  have "uart_write ports (uart_file_new 0) buf 0 w = (Ok (of_nat (length buf)), ?w)"
    using assms(1) p by (simp add: uart_write_def uart_device_name_def uart_file_new_def on_port_def run_io_bind
        run_io_map_err run_ok)
  then have "fd_write ?d buf w = (Ok (of_nat (length buf)), ?d\<lparr>fde_offset := of_nat (length buf)\<rparr>, ?w)"
    by (simp add: fd_write_def file_descriptor_new_def uart_file_ops_def has_flags_def WRONLY_def ACC_WRITE_def ACC_APPEND_def)
  moreover have "fd_get (fd_table_new ?f) STDOUT = Ok ?d"
    by (simp add: fd_get_def fd_table_new_def STDOUT_def)
  moreover have "fst (fd_read ?d buf w) = Err FdPermissionDenied"
    by (simp add: fd_read_def file_descriptor_new_def has_flags_def WRONLY_def ACC_WRITE_def ACC_READ_def)
  ultimately show ?thesis using p(2) by (intro exI [of _ ?d] exI [of _ ?w]) simp
qed

text \<open>A machine with the console of the serial demonstration and the screen of the framebuffer one.\<close>

definition demo_world :: "(nat, demo_uart) dev_world" where
  "demo_world =
     \<lparr>dw_dm = dm_register (dm_register device_manager_new ''console'' (Serial 0)) ''fb0'' (FrameBuffer 1),
      dw_port = (\<lambda>_. demo_idle), dw_mem = (\<lambda>_. 0)\<rparr>"

definition demo_ports :: "nat \<Rightarrow> demo_uart dyn_serial_port" where
  "demo_ports h = dyn_serial uart16550_into (u16_port demo_bus demo_port)"

definition demo_fbs :: "nat \<Rightarrow> memory frame_buffer" where
  "demo_fbs h = mb2_frame_buffer demo_mb2"

definition demo_fb_file :: frame_buffer_file where
  "demo_fb_file = the_ok (fb_file_new demo_fbs 0 demo_world)"

lemma demo_world_devices:
  "dm_serial (dw_dm demo_world) ''console'' = Some 0" "fb_ready demo_fb_file demo_world" "fb_file_size demo_fb_file = 1228800"
  by code_simp+

lemma stdout_reaches_console_witness:
  "\<exists>d w'. fd_get (fd_table_new (uart_file_ops demo_ports (uart_file_new 0))) STDOUT = Ok d \<and>
    fd_write d [104, 105] demo_world = (Ok 2, d\<lparr>fde_offset := 2\<rparr>, w') \<and> du_sent (dw_port w' 0) = [104, 105]"
proof -
  have "du_sent (dw_port demo_world 0) = []" by (simp add: demo_world_def demo_idle_def)
  then show ?thesis
    using stdout_reaches_console [where ports = demo_ports and buf = "[104, 105]",
        OF demo_world_devices(1) demo_ports_def demo_tx TrueI] by auto
qed

lemma fb_file_roundtrip_witness:
  "\<exists>w'. fo_write (fb_file_ops demo_fbs demo_fb_file) [1, 2, 3] 1228797 demo_world = (Ok 3, w') \<and>
    (\<exists>n1 c1 d1 w1 n2 c2 d2 w2.
      fd_read (file_descriptor_new (fb_file_ops demo_fbs demo_fb_file) 0 RDONLY\<lparr>fde_offset := 1228797\<rparr>) [0] w' = (Ok (n1, c1), d1, w1) \<and>
      fd_read d1 [0, 0] w1 = (Ok (n2, c2), d2, w2) \<and> take (unat n1) c1 @ take (unat n2) c2 = [1, 2, 3])"
  using fb_file_roundtrip [OF demo_world_devices(2), where off = 1228797 and buf = "[1, 2, 3]" and fbs = demo_fbs and
      d = "file_descriptor_new (fb_file_ops demo_fbs demo_fb_file) 0 RDONLY\<lparr>fde_offset := 1228797\<rparr>" and lo_buf = "[0]" and hi_buf = "[0, 0]"]
  by (simp add: demo_world_devices(3) file_descriptor_new_def has_flags_def RDONLY_def) metis

end
