(* ===== verification/Emmc_Regs.thy ===== *)
theory Emmc_Regs
  imports Device_Io
begin

text \<open>
  The registers, flags and commands of the SD card controller of the BCM2835
  (\<^verbatim>\<open>drivers/src/peripheral/bcm2835/emmc.rs\<close>).
\<close>

section \<open>Registers\<close>

definition EMMC_BASE :: u32 where "EMMC_BASE = 0x20300000"
definition REG_ARG2 :: u32 where "REG_ARG2 = 0x00"
definition REG_BLKSIZECNT :: u32 where "REG_BLKSIZECNT = 0x04"
definition REG_ARG1 :: u32 where "REG_ARG1 = 0x08"
definition REG_CMDTM :: u32 where "REG_CMDTM = 0x0C"
definition REG_RESP0 :: u32 where "REG_RESP0 = 0x10"
definition REG_RESP1 :: u32 where "REG_RESP1 = 0x14"
definition REG_RESP2 :: u32 where "REG_RESP2 = 0x18"
definition REG_RESP3 :: u32 where "REG_RESP3 = 0x1C"
definition REG_DATA :: u32 where "REG_DATA = 0x20"
definition REG_STATUS :: u32 where "REG_STATUS = 0x24"
definition REG_CONTROL0 :: u32 where "REG_CONTROL0 = 0x28"
definition REG_CONTROL1 :: u32 where "REG_CONTROL1 = 0x2C"
definition REG_INTERRUPT :: u32 where "REG_INTERRUPT = 0x30"
definition REG_IRPT_MASK :: u32 where "REG_IRPT_MASK = 0x34"
definition REG_IRPT_EN :: u32 where "REG_IRPT_EN = 0x38"
definition REG_CONTROL2 :: u32 where "REG_CONTROL2 = 0x3C"
definition REG_FORCE_IRPT :: u32 where "REG_FORCE_IRPT = 0x50"
definition REG_BOOT_TIMEOUT :: u32 where "REG_BOOT_TIMEOUT = 0x70"
definition REG_DBG_SEL :: u32 where "REG_DBG_SEL = 0x74"
definition REG_EXRDFIFO_CFG :: u32 where "REG_EXRDFIFO_CFG = 0x80"
definition REG_EXRDFIFO_EN :: u32 where "REG_EXRDFIFO_EN = 0x84"
definition REG_TUNE_STEP :: u32 where "REG_TUNE_STEP = 0x88"
definition REG_TUNE_STEPS_STD :: u32 where "REG_TUNE_STEPS_STD = 0x8C"
definition REG_TUNE_STEPS_DDR :: u32 where "REG_TUNE_STEPS_DDR = 0x90"
definition REG_SPI_INT_SPT :: u32 where "REG_SPI_INT_SPT = 0xF0"
definition REG_SLOTISR_VER :: u32 where "REG_SLOTISR_VER = 0xFC"

section \<open>Status and interrupt bits\<close>

definition STATUS_CMD_INHIBIT :: u32 where "STATUS_CMD_INHIBIT = 0x1"
definition STATUS_DAT_INHIBIT :: u32 where "STATUS_DAT_INHIBIT = 0x2"
definition STATUS_DAT_ACTIVE :: u32 where "STATUS_DAT_ACTIVE = 0x4"
definition STATUS_WRITE_TRANSFER :: u32 where "STATUS_WRITE_TRANSFER = 0x100"
definition STATUS_READ_TRANSFER :: u32 where "STATUS_READ_TRANSFER = 0x200"
definition STATUS_BUFFER_WRITE_READY :: u32 where "STATUS_BUFFER_WRITE_READY = 0x400"
definition STATUS_BUFFER_READ_READY :: u32 where "STATUS_BUFFER_READ_READY = 0x800"
definition STATUS_CARD_INSERTED :: u32 where "STATUS_CARD_INSERTED = 0x10000"
definition STATUS_CARD_STATE_STABLE :: u32 where "STATUS_CARD_STATE_STABLE = 0x20000"
definition STATUS_DAT_LEVEL0 :: u32 where "STATUS_DAT_LEVEL0 = 0x100000"
definition INT_CMD_DONE :: u32 where "INT_CMD_DONE = 0x1"
definition INT_DATA_DONE :: u32 where "INT_DATA_DONE = 0x2"
definition INT_BLOCK_GAP :: u32 where "INT_BLOCK_GAP = 0x4"
definition INT_WRITE_READY :: u32 where "INT_WRITE_READY = 0x10"
definition INT_READ_READY :: u32 where "INT_READ_READY = 0x20"
definition INT_ERROR :: u32 where "INT_ERROR = 0x8000"
definition INT_TIMEOUT :: u32 where "INT_TIMEOUT = 0x10000"
definition INT_CRC :: u32 where "INT_CRC = 0x20000"
definition INT_END_BIT :: u32 where "INT_END_BIT = 0x40000"
definition INT_INDEX :: u32 where "INT_INDEX = 0x80000"
definition INT_DATA_TIMEOUT :: u32 where "INT_DATA_TIMEOUT = 0x100000"
definition INT_DATA_CRC :: u32 where "INT_DATA_CRC = 0x200000"
definition INT_DATA_END_BIT :: u32 where "INT_DATA_END_BIT = 0x400000"
definition INT_ACMD_ERR :: u32 where "INT_ACMD_ERR = 0x1000000"

section \<open>Command, clock and transfer bits\<close>

definition CMD_RESPONSE_NONE :: u32 where "CMD_RESPONSE_NONE = 0x0"
definition CMD_RESPONSE_136 :: u32 where "CMD_RESPONSE_136 = 0x10000"
definition CMD_RESPONSE_48 :: u32 where "CMD_RESPONSE_48 = 0x20000"
definition CMD_RESPONSE_48_BUSY :: u32 where "CMD_RESPONSE_48_BUSY = 0x30000"
definition CMD_CRCCHK_EN :: u32 where "CMD_CRCCHK_EN = 0x80000"
definition CMD_IXCHK_EN :: u32 where "CMD_IXCHK_EN = 0x100000"
definition CMD_ISDATA :: u32 where "CMD_ISDATA = 0x200000"
definition CMD_TYPE_NORMAL :: u32 where "CMD_TYPE_NORMAL = 0x0"
definition CMD_TYPE_SUSPEND :: u32 where "CMD_TYPE_SUSPEND = 0x400000"
definition CMD_TYPE_RESUME :: u32 where "CMD_TYPE_RESUME = 0x800000"
definition CMD_TYPE_ABORT :: u32 where "CMD_TYPE_ABORT = 0xc00000"
definition CLK_INTLEN :: u32 where "CLK_INTLEN = 0x1"
definition CLK_STABLE :: u32 where "CLK_STABLE = 0x2"
definition CLK_EN :: u32 where "CLK_EN = 0x4"
definition CLK_GENSEL :: u32 where "CLK_GENSEL = 0x20"
definition SRST_HC :: u32 where "SRST_HC = 0x1000000"
definition SRST_CMD :: u32 where "SRST_CMD = 0x2000000"
definition SRST_DATA :: u32 where "SRST_DATA = 0x4000000"
definition TM_MULTI_BLOCK :: u32 where "TM_MULTI_BLOCK = 0x20"
definition TM_DAT_DIR_READ :: u32 where "TM_DAT_DIR_READ = 0x10"
definition TM_AUTO_CMD_EN_NONE :: u32 where "TM_AUTO_CMD_EN_NONE = 0x0"
definition TM_AUTO_CMD_EN_CMD12 :: u32 where "TM_AUTO_CMD_EN_CMD12 = 0x4"
definition TM_AUTO_CMD_EN_CMD23 :: u32 where "TM_AUTO_CMD_EN_CMD23 = 0x8"
definition TM_BLKCNT_EN :: u32 where "TM_BLKCNT_EN = 0x2"
definition TM_DMA_EN :: u32 where "TM_DMA_EN = 0x1"
definition CMD_INDEX_SHIFT :: u32 where "CMD_INDEX_SHIFT = 24"

section \<open>Commands\<close>

definition CMD0 :: u32 where "CMD0 = 0"
definition CMD1 :: u32 where "CMD1 = 1"
definition CMD2 :: u32 where "CMD2 = 2"
definition CMD3 :: u32 where "CMD3 = 3"
definition CMD6 :: u32 where "CMD6 = 6"
definition CMD7 :: u32 where "CMD7 = 7"
definition CMD8 :: u32 where "CMD8 = 8"
definition CMD9 :: u32 where "CMD9 = 9"
definition CMD12 :: u32 where "CMD12 = 12"
definition CMD13 :: u32 where "CMD13 = 13"
definition CMD16 :: u32 where "CMD16 = 16"
definition CMD17 :: u32 where "CMD17 = 17"
definition CMD18 :: u32 where "CMD18 = 18"
definition CMD24 :: u32 where "CMD24 = 24"
definition CMD25 :: u32 where "CMD25 = 25"
definition CMD55 :: u32 where "CMD55 = 55"
definition ACMD6 :: u32 where "ACMD6 = 6"
definition ACMD41 :: u32 where "ACMD41 = 41"
definition ACMD51 :: u32 where "ACMD51 = 51"
definition BLOCK_SIZE :: u32 where "BLOCK_SIZE = 512"

lemmas sd_regs =
  REG_ARG2_def REG_BLKSIZECNT_def REG_ARG1_def REG_CMDTM_def REG_RESP0_def REG_RESP1_def REG_RESP2_def REG_RESP3_def
  REG_DATA_def REG_STATUS_def REG_CONTROL0_def REG_CONTROL1_def REG_INTERRUPT_def REG_IRPT_MASK_def

end
