(* ===== verification/Block_Device.thy ===== *)
theory Block_Device
  imports Device_Io
begin

text \<open>
  Block storage (\<^verbatim>\<open>drivers/src/hal/block_device.rs\<close>): device information, errors, the generic and the
  type-erased device traits, and the identification registers of SD cards.  A device is a record of
  its operations over its state \<open>'d\<close>; a read returns the new contents of the buffers.
\<close>

section \<open>Information and errors\<close>

record block_device_info =
  bi_block_size :: u32
  bi_block_count :: u64
  bi_capacity :: u64
  bi_read_only :: bool
  bi_removable :: bool

definition block_device_info_new :: "u64 \<Rightarrow> block_device_info" where
  "block_device_info_new block_count =
     \<lparr>bi_block_size = 512, bi_block_count = block_count, bi_capacity = block_count * 512, bi_read_only = False,
      bi_removable = False\<rparr>"

definition with_block_size :: "u32 \<Rightarrow> u64 \<Rightarrow> block_device_info" where
  "with_block_size block_size block_count =
     \<lparr>bi_block_size = block_size, bi_block_count = block_count,
      bi_capacity = ucast ((ucast block_count :: u32) * block_size), bi_read_only = False, bi_removable = False\<rparr>"

definition info_read_only :: "block_device_info \<Rightarrow> block_device_info" where
  "info_read_only i = i\<lparr>bi_read_only := True\<rparr>"

definition info_removable :: "block_device_info \<Rightarrow> block_device_info" where
  "info_removable i = i\<lparr>bi_removable := True\<rparr>"

datatype block_device_error =
  BdNotReady | BdInvalidAddress | BdReadError | BdWriteError | BdWriteProtected | BdInvalidBuffer | BdTimeout
  | BdDataError | BdDeviceRemoved | BdIoError | BdUnsupportedDevice | BdOther

section \<open>Devices\<close>

record ('d, 'e) block_device =
  bd_info :: "'d \<Rightarrow> block_device_info"
  bd_read_blocks :: "u64 \<Rightarrow> u8 list list \<Rightarrow> ('d, u8 list list, 'e) io"
  bd_write_blocks :: "u64 \<Rightarrow> u8 list list \<Rightarrow> ('d, unit, 'e) io"
  bd_flush :: "('d, unit, 'e) io"
  bd_is_ready :: "'d \<Rightarrow> bool"

text \<open>The trait's single-block operations, and its defaults for \<^verbatim>\<open>flush\<close> and \<^verbatim>\<open>is_ready\<close>.\<close>

definition bd_read_block :: "('d, 'e) block_device \<Rightarrow> u64 \<Rightarrow> u8 list \<Rightarrow> ('d, u8 list, 'e) io" where
  "bd_read_block dev block buffer = io_bind (bd_read_blocks dev block [buffer]) (\<lambda>bufs. ok (hd bufs))"

definition bd_write_block :: "('d, 'e) block_device \<Rightarrow> u64 \<Rightarrow> u8 list \<Rightarrow> ('d, unit, 'e) io" where
  "bd_write_block dev block buffer = bd_write_blocks dev block [buffer]"

definition default_flush :: "('d, unit, 'e) io" where
  "default_flush = ok ()"

definition default_is_ready :: "'d \<Rightarrow> bool" where
  "default_is_ready d = True"

record 'd dyn_block_device =
  dbd_info :: "'d \<Rightarrow> block_device_info"
  dbd_read_blocks :: "u64 \<Rightarrow> u8 list list \<Rightarrow> ('d, u8 list list, block_device_error) io"
  dbd_write_blocks :: "u64 \<Rightarrow> u8 list list \<Rightarrow> ('d, unit, block_device_error) io"
  dbd_read_block :: "u64 \<Rightarrow> u8 list \<Rightarrow> ('d, u8 list, block_device_error) io"
  dbd_write_block :: "u64 \<Rightarrow> u8 list \<Rightarrow> ('d, unit, block_device_error) io"
  dbd_flush :: "('d, unit, block_device_error) io"
  dbd_is_ready :: "'d \<Rightarrow> bool"

definition dyn_block :: "('e \<Rightarrow> block_device_error) \<Rightarrow> ('d, 'e) block_device \<Rightarrow> 'd dyn_block_device" where
  "dyn_block into dev =
     \<lparr>dbd_info = bd_info dev,
      dbd_read_blocks = (\<lambda>b bufs. io_map_err into (bd_read_blocks dev b bufs)),
      dbd_write_blocks = (\<lambda>b bufs. io_map_err into (bd_write_blocks dev b bufs)),
      dbd_read_block = (\<lambda>b buf. io_map_err into (bd_read_block dev b buf)),
      dbd_write_block = (\<lambda>b buf. io_map_err into (bd_write_block dev b buf)),
      dbd_flush = io_map_err into (bd_flush dev),
      dbd_is_ready = bd_is_ready dev\<rparr>"

record device_status =
  ds_healthy :: bool
  ds_read_errors :: u64
  ds_write_errors :: u64
  ds_temperature :: "u32 option"
  ds_wear_level :: "u8 option"

definition default_device_status :: device_status where
  "default_device_status =
     \<lparr>ds_healthy = True, ds_read_errors = 0, ds_write_errors = 0, ds_temperature = None, ds_wear_level = None\<rparr>"

record ('d, 'e) block_device_ext =
  bx_erase_blocks :: "u64 \<Rightarrow> u64 \<Rightarrow> ('d, unit, 'e) io"
  bx_trim_blocks :: "u64 \<Rightarrow> u64 \<Rightarrow> ('d, unit, 'e) io"
  bx_status :: "'d \<Rightarrow> device_status"

record 'd dyn_block_device_ext =
  dbx_erase_blocks :: "u64 \<Rightarrow> u64 \<Rightarrow> ('d, unit, block_device_error) io"
  dbx_trim_blocks :: "u64 \<Rightarrow> u64 \<Rightarrow> ('d, unit, block_device_error) io"
  dbx_status :: "'d \<Rightarrow> device_status"

definition dyn_block_ext :: "('e \<Rightarrow> block_device_error) \<Rightarrow> ('d, 'e) block_device_ext \<Rightarrow> 'd dyn_block_device_ext" where
  "dyn_block_ext into x =
     \<lparr>dbx_erase_blocks = (\<lambda>s n. io_map_err into (bx_erase_blocks x s n)),
      dbx_trim_blocks = (\<lambda>s n. io_map_err into (bx_trim_blocks x s n)),
      dbx_status = bx_status x\<rparr>"

text \<open>A partition of a device, and a cache in front of one with its counters.\<close>

record 'd partition =
  pt_device :: "'d dyn_block_device"
  pt_offset :: u64
  pt_size :: u64

record cache_stats =
  cs_hits :: u64
  cs_misses :: u64
  cs_dirty_blocks :: u32
  cs_cache_size :: u32

record 'd block_cache =
  bc_invalidate :: "u64 \<Rightarrow> u64 \<Rightarrow> 'd \<Rightarrow> 'd"
  bc_cache_stats :: "'d \<Rightarrow> cache_stats"

section \<open>Card identification\<close>

definition be16 :: "u8 \<Rightarrow> u8 \<Rightarrow> u16" where
  "be16 a b = from_le16 b a"

definition be32 :: "u8 \<Rightarrow> u8 \<Rightarrow> u8 \<Rightarrow> u8 \<Rightarrow> u32" where
  "be32 a b c d = from_le32 d c b a"

record cid =
  manufacturer_id :: u8
  oem_id :: "u8 list"
  product_name :: "u8 list"
  product_revision :: "u8 \<times> u8"
  serial_number :: u32
  manufacturing_date :: "u16 \<times> u8"

definition parse_mdt :: "u8 \<Rightarrow> u8 \<Rightarrow> u16 \<times> u8" where
  "parse_mdt byte13 byte14 =
     (let mdt = be16 byte13 byte14 in (2000 + (drop_bit 4 mdt AND 0xFF), ucast (mdt AND 0x0F)))"

definition cid_parse :: "u8 list \<Rightarrow> cid" where
  "cid_parse raw =
     \<lparr>manufacturer_id = raw ! 0, oem_id = [raw ! 1, raw ! 2],
      product_name = [raw ! 3, raw ! 4, raw ! 5, raw ! 6, raw ! 7],
      product_revision = (drop_bit 4 (raw ! 8), raw ! 8 AND 0x0F),
      serial_number = be32 (raw ! 9) (raw ! 10) (raw ! 11) (raw ! 12),
      manufacturing_date = parse_mdt (raw ! 13) (raw ! 14)\<rparr>"

definition cid_default :: cid where
  "cid_default =
     \<lparr>manufacturer_id = 0, oem_id = replicate 2 0, product_name = replicate 5 0, product_revision = (0, 0),
      serial_number = 0, manufacturing_date = (0, 0)\<rparr>"

definition product_name_str :: "cid \<Rightarrow> string option" where
  "product_name_str c = (if utf8_valid (product_name c) then Some (to_string (product_name c)) else None)"

definition oem_id_str :: "cid \<Rightarrow> string option" where
  "oem_id_str c = (if utf8_valid (oem_id c) then Some (to_string (oem_id c)) else None)"

datatype card_type = UnknownCard | SDv1 | SDv2 | MMC

datatype csd_version = V1_0 | V2_0 | V3_0

datatype csd_parse_error = UnknownVersion | InvalidData

record csd =
  csd_ver :: csd_version
  csd_capacity :: u64
  max_transfer_rate :: u32
  read_block_len :: u16
  write_block_len :: u16
  card_command_classes :: u16

definition tran_time_value :: "u8 \<Rightarrow> u32" where
  "tran_time_value n =
     [0, 10, 12, 13, 15, 20, 25, 30, 35, 40, 45, 50, 55, 60, 70, 80] ! unat n"

definition tran_rate_unit :: "u8 \<Rightarrow> u32" where
  "tran_rate_unit n = (if n = 0 then 100 else if n = 1 then 1000 else if n = 2 then 10000 else if n = 3 then 100000 else 0)"

definition parse_tran_speed :: "u8 \<Rightarrow> u32" where
  "parse_tran_speed byte = tran_time_value (byte AND 0x0F) * tran_rate_unit (drop_bit 3 byte)"

definition parse_ccc :: "u8 list \<Rightarrow> u16" where
  "parse_ccc raw = be16 (raw ! 4 AND 0x0F) (raw ! 5)"

definition csd_parse_v2 :: "u8 list \<Rightarrow> csd_version \<Rightarrow> csd" where
  "csd_parse_v2 raw version =
     (let c_size = be32 0 (raw ! 7 AND 0x3F) (raw ! 8) (raw ! 9) in
      \<lparr>csd_ver = version, csd_capacity = ucast (c_size + 1) * 512 * 1024, max_transfer_rate = parse_tran_speed (raw ! 3),
       read_block_len = 512, write_block_len = 512, card_command_classes = parse_ccc raw\<rparr>)"

definition csd_parse_v1 :: "u8 list \<Rightarrow> csd_version \<Rightarrow> csd" where
  "csd_parse_v1 raw version =
     (let read_bl_len = ucast (raw ! 10 AND 0x0F) :: u32;
          c_size_24bit = be32 0 (raw ! 7) (raw ! 8) (raw ! 9);
          c_size = drop_bit 2 c_size_24bit AND 0xFFF;
          mult_bytes = be16 (raw ! 5) (raw ! 6);
          c_size_mult = ucast (drop_bit 7 mult_bytes AND 0x07) :: u32;
          mult = shl (1 :: u32) (unat (c_size_mult + 2));
          block_len = shl (1 :: u16) (unat read_bl_len) in
      \<lparr>csd_ver = version, csd_capacity = ucast (c_size + 1) * ucast mult * ucast block_len,
       max_transfer_rate = parse_tran_speed (raw ! 3), read_block_len = block_len, write_block_len = block_len,
       card_command_classes = parse_ccc raw\<rparr>)"

definition csd_parse_v3 :: "u8 list \<Rightarrow> csd_version \<Rightarrow> csd" where
  "csd_parse_v3 raw version =
     (let c_size = be32 0 (raw ! 7 AND 0x3F) (raw ! 8) (raw ! 9) in
      \<lparr>csd_ver = version, csd_capacity = ucast (c_size + 1) * 512 * 1024, max_transfer_rate = parse_tran_speed (raw ! 3),
       read_block_len = 512, write_block_len = 512, card_command_classes = parse_ccc raw\<rparr>)"

definition csd_parse :: "u8 list \<Rightarrow> (csd, csd_parse_error) outcome" where
  "csd_parse raw =
     (let v = drop_bit 6 (raw ! 0) in
      if v = 0 then Ok (csd_parse_v1 raw V1_0)
      else if v = 1 then Ok (csd_parse_v2 raw V2_0)
      else if v = 2 then Ok (csd_parse_v3 raw V3_0)
      else Err UnknownVersion)"

definition capacity_mb :: "csd \<Rightarrow> u64" where "capacity_mb c = csd_capacity c div (1024 * 1024)"
definition capacity_gb :: "csd \<Rightarrow> u64" where "capacity_gb c = csd_capacity c div (1024 * 1024 * 1024)"
definition csd_block_count :: "csd \<Rightarrow> u64" where "csd_block_count c = csd_capacity c div 512"

definition csd_default :: csd where
  "csd_default =
     \<lparr>csd_ver = V1_0, csd_capacity = 0, max_transfer_rate = 0, read_block_len = 0, write_block_len = 0,
      card_command_classes = 0\<rparr>"

text \<open>Devices that can report their identification registers; by default they report nothing.\<close>

record identifiable_block_device =
  ib_cid :: "cid option"
  ib_csd :: "csd option"

definition default_identification :: identifiable_block_device where
  "default_identification = \<lparr>ib_cid = None, ib_csd = None\<rparr>"

record dyn_identifiable_block_device =
  dib_cid :: "cid option"
  dib_csd :: "csd option"

definition dyn_identifiable :: "identifiable_block_device \<Rightarrow> dyn_identifiable_block_device" where
  "dyn_identifiable d = \<lparr>dib_cid = ib_cid d, dib_csd = ib_csd d\<rparr>"

section \<open>Disks\<close>

text \<open>
  What the trait's contract promises of a healthy disk with blocks of \<open>n\<close> bytes: a read of a block
  fills the buffer with the block's contents and changes nothing, a write replaces that block and
  no other.  \<open>disk d k\<close> is the contents of block \<open>k\<close> in state \<open>d\<close>, \<open>up\<close> the states of health.
\<close>

definition disk_laws :: "'d dyn_block_device \<Rightarrow> nat \<Rightarrow> ('d \<Rightarrow> u64 \<Rightarrow> u8 list) \<Rightarrow> ('d \<Rightarrow> bool) \<Rightarrow> bool" where
  "disk_laws dev n disk up \<longleftrightarrow>
     (\<forall>d k. up d \<longrightarrow> length (disk d k) = n) \<and>
     (\<forall>d k buf. up d \<longrightarrow> length buf = n \<longrightarrow>
        (\<exists>d'. run_state (dbd_read_block dev k buf) d = (Ok (disk d k), d') \<and> up d' \<and> disk d' = disk d)) \<and>
     (\<forall>d k buf. up d \<longrightarrow> length buf = n \<longrightarrow>
        (\<exists>d'. run_state (dbd_write_block dev k buf) d = (Ok (), d') \<and> up d' \<and> disk d' = (disk d)(k := buf)))"

text \<open>A disk in memory, for concrete runs: the blocks that were written, over blocks of zeros.\<close>

definition ram_disk :: "nat \<Rightarrow> (u64 \<Rightarrow> u8 list, block_device_error) block_device" where
  "ram_disk n =
     \<lparr>bd_info = (\<lambda>_. block_device_info_new 1000),
      bd_read_blocks = (\<lambda>k bufs. State (\<lambda>d. (Ok (map (\<lambda>i. d (k + of_nat i)) [0..<length bufs]), d))),
      bd_write_blocks = (\<lambda>k bufs. State (\<lambda>d. (Ok (), fold (\<lambda>i d. d(k + of_nat i := bufs ! i)) [0..<length bufs] d))),
      bd_flush = default_flush, bd_is_ready = default_is_ready\<rparr>"

lemma ram_disk_laws: "disk_laws (dyn_block id (ram_disk n)) n (\<lambda>d. d) (\<lambda>d. \<forall>k. length (d k) = n)"
  by (auto simp: disk_laws_def dyn_block_def ram_disk_def bd_read_block_def bd_write_block_def run_io_map_err
      run_io_bind run_ok)

end
