(* ===== verification/Emmc.thy ===== *)
theory Emmc
  imports Emmc_Regs Block_Device
begin

text \<open>
  The SD card driver (\<^verbatim>\<open>drivers/src/peripheral/bcm2835/emmc.rs\<close>): commands with bounded waits, the
  identification of a card, and the transfer of blocks.  The controller and the card behind it are a
  bus of 32-bit registers, with a function for what they do while the processor waits.
\<close>

section \<open>The driver\<close>

record 'd sd_host =
  sh_bus :: "(u32, 'd) bus"
  sh_idle :: "u32 \<Rightarrow> 'd \<Rightarrow> 'd"

datatype emmc_error =
  NoCard | UnsupportedCard | InitFailed | CommandError | EmmcTimeout | BufferTooSmall | EmmcReadError | EmmcWriteError
  | CrcError | EmmcHardwareError

fun emmc_into :: "emmc_error \<Rightarrow> block_device_error" where
  "emmc_into NoCard = BdDeviceRemoved"
| "emmc_into UnsupportedCard = BdUnsupportedDevice"
| "emmc_into InitFailed = BdNotReady"
| "emmc_into EmmcTimeout = BdTimeout"
| "emmc_into BufferTooSmall = BdInvalidBuffer"
| "emmc_into EmmcReadError = BdReadError"
| "emmc_into EmmcWriteError = BdWriteError"
| "emmc_into CrcError = BdDataError"
| "emmc_into CommandError = BdIoError"
| "emmc_into EmmcHardwareError = BdIoError"

definition emmc_of_csd_error :: "csd_parse_error \<Rightarrow> emmc_error" where
  "emmc_of_csd_error e = UnsupportedCard"

record emmc =
  em_base :: u32
  em_cid :: cid
  em_csd :: csd
  em_rca :: u32
  em_card_type :: card_type

definition emmc_new :: "u32 \<Rightarrow> (emmc, emmc_error) outcome" where
  "emmc_new base =
     (if base \<noteq> EMMC_BASE then Err EmmcHardwareError
      else Ok \<lparr>em_base = EMMC_BASE, em_cid = cid_default, em_csd = csd_default, em_rca = 0, em_card_type = UnknownCard\<rparr>)"

definition em_read_reg :: "'d sd_host \<Rightarrow> emmc \<Rightarrow> u32 \<Rightarrow> ('d, u32) state" where
  "em_read_reg hw e offset = load (sh_bus hw) (em_base e + offset)"

definition em_write_reg :: "'d sd_host \<Rightarrow> emmc \<Rightarrow> u32 \<Rightarrow> u32 \<Rightarrow> ('d, unit) state" where
  "em_write_reg hw e offset v = store (sh_bus hw) (em_base e + offset) v"

text \<open>Busy waiting: \<open>us * 50\<close> turns of an empty loop.\<close>

definition em_delay_us :: "'d sd_host \<Rightarrow> u32 \<Rightarrow> ('d, unit) state" where
  "em_delay_us hw us = State (\<lambda>d. ((), sh_idle hw (us * 50) d))"

definition em_delay_ms :: "'d sd_host \<Rightarrow> u32 \<Rightarrow> ('d, unit) state" where
  "em_delay_ms hw ms = em_delay_us hw (ms * 1000)"

section \<open>Bounded waits\<close>

text \<open>
  \<^verbatim>\<open>for _ in 0..n { if let Some(r) = step() { return r } pause() } Err(e)\<close>, the loop behind every wait
  that can fail.
\<close>

primrec poll_for :: "nat \<Rightarrow> ('d, ('a, 'e) outcome option) state \<Rightarrow> ('d, unit) state \<Rightarrow> 'e \<Rightarrow> ('d, 'a, 'e) io" where
  "poll_for 0 step pause e = fail e"
| "poll_for (Suc n) step pause e = do {
     r \<leftarrow> step;
     case r of Some res \<Rightarrow> State_Monad.return res | None \<Rightarrow> do { pause; poll_for n step pause e }
   }"

text \<open>The waits for the command and data lines: after \<open>n\<close> polls they go on all the same.\<close>

primrec wait_status_clear :: "nat \<Rightarrow> 'd sd_host \<Rightarrow> emmc \<Rightarrow> u32 \<Rightarrow> u32 \<Rightarrow> ('d, unit) state" where
  "wait_status_clear 0 hw e flag us = State_Monad.return ()"
| "wait_status_clear (Suc n) hw e flag us = do {
     status \<leftarrow> em_read_reg hw e REG_STATUS;
     if status AND flag = 0 then State_Monad.return ()
     else do { em_delay_us hw us; wait_status_clear n hw e flag us }
   }"

definition wait_cmd_done :: "'d sd_host \<Rightarrow> emmc \<Rightarrow> ('d, unit, emmc_error) io" where
  "wait_cmd_done hw e =
     poll_for 100000
       (do {
          interrupt \<leftarrow> em_read_reg hw e REG_INTERRUPT;
          if interrupt AND INT_ERROR \<noteq> 0 then
            if interrupt AND INT_TIMEOUT \<noteq> 0 then do {
              em_write_reg hw e REG_INTERRUPT INT_TIMEOUT;
              State_Monad.return (Some (Err EmmcTimeout))
            }
            else if interrupt AND INT_CRC \<noteq> 0 then do {
              em_write_reg hw e REG_INTERRUPT INT_CRC;
              State_Monad.return (Some (Err CrcError))
            }
            else do {
              (if interrupt AND INT_INDEX \<noteq> 0 then em_write_reg hw e REG_INTERRUPT INT_INDEX
               else State_Monad.return ());
              em_write_reg hw e REG_INTERRUPT INT_ERROR;
              State_Monad.return (Some (Err CommandError))
            }
          else if interrupt AND INT_CMD_DONE \<noteq> 0 then do {
            em_write_reg hw e REG_INTERRUPT INT_CMD_DONE;
            State_Monad.return (Some (Ok ()))
          }
          else State_Monad.return None
        })
       (em_delay_us hw 10) EmmcTimeout"

definition wait_data_ready :: "'d sd_host \<Rightarrow> emmc \<Rightarrow> ('d, unit, emmc_error) io" where
  "wait_data_ready hw e =
     poll_for 100000
       (do {
          interrupt \<leftarrow> em_read_reg hw e REG_INTERRUPT;
          if interrupt AND INT_ERROR \<noteq> 0 then
            if interrupt AND INT_DATA_TIMEOUT \<noteq> 0 then do {
              em_write_reg hw e REG_INTERRUPT INT_DATA_TIMEOUT;
              State_Monad.return (Some (Err EmmcTimeout))
            }
            else if interrupt AND INT_DATA_CRC \<noteq> 0 then do {
              em_write_reg hw e REG_INTERRUPT INT_DATA_CRC;
              State_Monad.return (Some (Err CrcError))
            }
            else do {
              em_write_reg hw e REG_INTERRUPT INT_ERROR;
              State_Monad.return (Some (Err EmmcReadError))
            }
          else if interrupt AND INT_READ_READY \<noteq> 0 then do {
            em_write_reg hw e REG_INTERRUPT INT_READ_READY;
            State_Monad.return (Some (Ok ()))
          }
          else State_Monad.return None
        })
       (em_delay_us hw 10) EmmcTimeout"

text \<open>
  \<^verbatim>\<open>wait_write_ready\<close> and \<^verbatim>\<open>wait_data_done\<close> differ in the flag they wait for.
\<close>

definition wait_flag :: "'d sd_host \<Rightarrow> emmc \<Rightarrow> u32 \<Rightarrow> ('d, unit, emmc_error) io" where
  "wait_flag hw e flag =
     poll_for 100000
       (do {
          interrupt \<leftarrow> em_read_reg hw e REG_INTERRUPT;
          if interrupt AND INT_ERROR \<noteq> 0 then do {
            em_write_reg hw e REG_INTERRUPT INT_ERROR;
            State_Monad.return (Some (Err EmmcWriteError))
          }
          else if interrupt AND flag \<noteq> 0 then do {
            em_write_reg hw e REG_INTERRUPT flag;
            State_Monad.return (Some (Ok ()))
          }
          else State_Monad.return None
        })
       (em_delay_us hw 10) EmmcTimeout"

definition wait_write_ready :: "'d sd_host \<Rightarrow> emmc \<Rightarrow> ('d, unit, emmc_error) io" where
  "wait_write_ready hw e = wait_flag hw e INT_WRITE_READY"

definition wait_data_done :: "'d sd_host \<Rightarrow> emmc \<Rightarrow> ('d, unit, emmc_error) io" where
  "wait_data_done hw e = wait_flag hw e INT_DATA_DONE"

section \<open>Commands\<close>

definition send_cmd :: "'d sd_host \<Rightarrow> emmc \<Rightarrow> u32 \<Rightarrow> u64 \<Rightarrow> u32 \<Rightarrow> ('d, unit, emmc_error) io" where
  "send_cmd hw e cmd_index arg flags = do {
     wait_status_clear 100000 hw e STATUS_CMD_INHIBIT 1;
     em_write_reg hw e REG_INTERRUPT 0xFFFFFFFF;
     em_write_reg hw e REG_ARG2 (ucast (drop_bit 32 arg));
     em_write_reg hw e REG_ARG1 (ucast arg);
     em_write_reg hw e REG_CMDTM (push_bit (unat CMD_INDEX_SHIFT) cmd_index OR flags);
     wait_cmd_done hw e
   }"

definition get_response :: "'d sd_host \<Rightarrow> emmc \<Rightarrow> nat \<Rightarrow> ('d, u32) state" where
  "get_response hw e index =
     (if index = 0 then em_read_reg hw e REG_RESP0
      else if index = 1 then em_read_reg hw e REG_RESP1
      else if index = 2 then em_read_reg hw e REG_RESP2
      else if index = 3 then em_read_reg hw e REG_RESP3
      else State_Monad.return 0)"

text \<open>The four response words as one 128-bit number, most significant byte first.\<close>

definition response_bytes :: "u32 \<Rightarrow> u32 \<Rightarrow> u32 \<Rightarrow> u32 \<Rightarrow> u8 list" where
  "response_bytes r0 r1 r2 r3 =
     (let v = ucast r0 OR push_bit 32 (ucast r1) OR push_bit 64 (ucast r2) OR push_bit 96 (ucast r3) :: 128 word in
      map (\<lambda>i. ucast (drop_bit (8 * (15 - i)) v)) [0..<16])"

definition long_response :: "'d sd_host \<Rightarrow> emmc \<Rightarrow> ('d, u8 list) state" where
  "long_response hw e = do {
     r0 \<leftarrow> get_response hw e 0;
     r1 \<leftarrow> get_response hw e 1;
     r2 \<leftarrow> get_response hw e 2;
     r3 \<leftarrow> get_response hw e 3;
     State_Monad.return (response_bytes r0 r1 r2 r3)
   }"

section \<open>Reset and clock\<close>

definition emmc_reset :: "'d sd_host \<Rightarrow> emmc \<Rightarrow> ('d, unit, emmc_error) io" where
  "emmc_reset hw e = do {
     ctrl1 \<leftarrow> em_read_reg hw e REG_CONTROL1;
     em_write_reg hw e REG_CONTROL1 (ctrl1 OR SRST_HC);
     poll_for 10000
       (do {
          ctrl1 \<leftarrow> em_read_reg hw e REG_CONTROL1;
          if ctrl1 AND SRST_HC = 0 then do { em_delay_us hw 100; State_Monad.return (Some (Ok ())) }
          else State_Monad.return None
        })
       (em_delay_us hw 10) EmmcTimeout
   }"

definition BASE_CLOCK :: u32 where "BASE_CLOCK = 250000000"

definition clock_divisor :: "u32 \<Rightarrow> u32" where
  "clock_divisor freq =
     (let divisor = BASE_CLOCK div (2 * freq);
          divisor = (if BASE_CLOCK mod (2 * freq) \<noteq> 0 then divisor + 1 else divisor) in
      min (max divisor 1) 1023)"

definition divisor_bits :: "u32 \<Rightarrow> u32" where
  "divisor_bits divisor =
     push_bit 8 (drop_bit 2 divisor AND 0xFF) OR push_bit 6 (divisor AND 0x3)"

primrec wait_clock_stable :: "nat \<Rightarrow> 'd sd_host \<Rightarrow> emmc \<Rightarrow> u32 \<Rightarrow> ('d, u32) state" where
  "wait_clock_stable 0 hw e ctrl1 = State_Monad.return ctrl1"
| "wait_clock_stable (Suc n) hw e ctrl1 = do {
     ctrl1 \<leftarrow> em_read_reg hw e REG_CONTROL1;
     if ctrl1 AND CLK_STABLE \<noteq> 0 then State_Monad.return ctrl1
     else do { em_delay_us hw 10; wait_clock_stable n hw e ctrl1 }
   }"

text \<open>\<^verbatim>\<open>2 * freq\<close> wraps around; when it is 0 the division panics.\<close>

definition set_clock :: "'d sd_host \<Rightarrow> emmc \<Rightarrow> u32 \<Rightarrow> ('d, unit, emmc_error) io" where
  "set_clock hw e freq = do {
     ctrl1 \<leftarrow> em_read_reg hw e REG_CONTROL1;
     em_write_reg hw e REG_CONTROL1 (ctrl1 AND NOT CLK_EN);
     em_delay_us hw 10;
     if 2 * freq = 0 then panic
     else do {
       ctrl1 \<leftarrow> em_read_reg hw e REG_CONTROL1;
       let ctrl1 = ctrl1 AND NOT (push_bit 8 0xFF) AND NOT (push_bit 6 0x3)
         OR (divisor_bits (clock_divisor freq) OR CLK_GENSEL OR CLK_INTLEN);
       em_write_reg hw e REG_CONTROL1 ctrl1;
       em_delay_us hw 10;
       ctrl1 \<leftarrow> wait_clock_stable 10000 hw e ctrl1;
       if ctrl1 AND CLK_STABLE = 0 then fail EmmcTimeout
       else do {
         em_delay_us hw 10;
         em_write_reg hw e REG_CONTROL1 (ctrl1 OR CLK_EN);
         em_delay_us hw 10;
         ok ()
       }
     }
   }"

section \<open>Identification\<close>

text \<open>
  \<^verbatim>\<open>init\<close> changes the driver as it goes, also when it fails later: its state is the driver and the
  hardware.  The other functions only read the driver.
\<close>

type_synonym ('d, 'a) emmc_io = "(emmc \<times> 'd, 'a, emmc_error) io"

definition on_card :: "(emmc \<Rightarrow> ('d, 'a) state) \<Rightarrow> (emmc \<times> 'd, 'a) state" where
  "on_card f = State (\<lambda>(e, d). case run_state (f e) d of (r, d') \<Rightarrow> (r, (e, d')))"

definition upd_emmc :: "(emmc \<Rightarrow> emmc) \<Rightarrow> (emmc \<times> 'd, unit) state" where
  "upd_emmc g = State (\<lambda>(e, d). ((), (g e, d)))"

definition FLAGS_R1 :: u32 where
  "FLAGS_R1 = CMD_RESPONSE_48 OR CMD_CRCCHK_EN OR CMD_IXCHK_EN"

text \<open>
  The loops of \<^verbatim>\<open>init_sd_v1\<close> and \<^verbatim>\<open>init_sd_v2\<close>, which differ in the argument of the command, and of
  \<^verbatim>\<open>init_mmc\<close>, with the number of tries left.
\<close>

primrec acmd41_loop :: "nat \<Rightarrow> 'd sd_host \<Rightarrow> emmc \<Rightarrow> u64 \<Rightarrow> ('d, unit, emmc_error) io" where
  "acmd41_loop 0 hw e acmd41_arg = fail InitFailed"
| "acmd41_loop (Suc retries) hw e acmd41_arg =
     io_bind (send_cmd hw e CMD55 0 FLAGS_R1) (\<lambda>_.
     io_bind (send_cmd hw e ACMD41 acmd41_arg CMD_RESPONSE_48) (\<lambda>_. do {
       resp \<leftarrow> get_response hw e 0;
       if resp AND 0x80000000 \<noteq> 0 then ok ()
       else if retries = 0 then fail InitFailed
       else do { em_delay_ms hw 10; acmd41_loop retries hw e acmd41_arg }
     }))"

primrec cmd1_loop :: "nat \<Rightarrow> 'd sd_host \<Rightarrow> emmc \<Rightarrow> ('d, unit, emmc_error) io" where
  "cmd1_loop 0 hw e = fail InitFailed"
| "cmd1_loop (Suc retries) hw e =
     io_bind (send_cmd hw e CMD1 0x80FF8000 CMD_RESPONSE_48) (\<lambda>_. do {
       resp \<leftarrow> get_response hw e 0;
       if resp AND 0x80000000 \<noteq> 0 then ok ()
       else if retries = 0 then fail InitFailed
       else do { em_delay_ms hw 10; cmd1_loop retries hw e }
     })"

definition init_sd_v2 :: "'d sd_host \<Rightarrow> emmc \<Rightarrow> ('d, unit, emmc_error) io" where
  "init_sd_v2 hw e = acmd41_loop 1000 hw e 0x40300000"

definition init_sd_v1 :: "'d sd_host \<Rightarrow> emmc \<Rightarrow> ('d, unit, emmc_error) io" where
  "init_sd_v1 hw e = acmd41_loop 1000 hw e 0x00300000"

definition init_mmc :: "'d sd_host \<Rightarrow> emmc \<Rightarrow> ('d, unit, emmc_error) io" where
  "init_mmc hw e = cmd1_loop 1000 hw e"

text \<open>The part of \<^verbatim>\<open>init\<close> that finds out the kind of card.\<close>

definition init_card_type :: "'d sd_host \<Rightarrow> ('d, unit) emmc_io" where
  "init_card_type hw = do {
     cmd8 \<leftarrow> on_card (\<lambda>e. send_cmd hw e CMD8 0x1AA FLAGS_R1);
     case cmd8 of
       Ok _ \<Rightarrow> do {
         resp \<leftarrow> on_card (\<lambda>e. get_response hw e 0);
         if resp AND 0xFFF = 0x1AA then do {
           upd_emmc (\<lambda>e. e\<lparr>em_card_type := SDv2\<rparr>);
           on_card (init_sd_v2 hw)
         } else do {
           upd_emmc (\<lambda>e. e\<lparr>em_card_type := SDv1\<rparr>);
           on_card (init_sd_v1 hw)
         }
       }
     | Err _ \<Rightarrow> do {
         upd_emmc (\<lambda>e. e\<lparr>em_card_type := SDv1\<rparr>);
         v1 \<leftarrow> on_card (init_sd_v1 hw);
         case v1 of
           Err _ \<Rightarrow> do {
             upd_emmc (\<lambda>e. e\<lparr>em_card_type := MMC\<rparr>);
             on_card (init_mmc hw)
           }
         | r \<Rightarrow> State_Monad.return r
       }
     | r \<Rightarrow> State_Monad.return r
   }"

text \<open>The part of \<^verbatim>\<open>init\<close> that reads the card's registers and selects it.\<close>

definition init_identify :: "'d sd_host \<Rightarrow> ('d, unit) emmc_io" where
  "init_identify hw =
     io_bind (on_card (\<lambda>e. send_cmd hw e CMD2 0 (CMD_RESPONSE_136 OR CMD_CRCCHK_EN))) (\<lambda>_. do {
       raw \<leftarrow> on_card (long_response hw);
       upd_emmc (\<lambda>e. e\<lparr>em_cid := cid_parse raw\<rparr>);
       io_bind (on_card (\<lambda>e. send_cmd hw e CMD3 0 FLAGS_R1)) (\<lambda>_. do {
         resp \<leftarrow> on_card (\<lambda>e. get_response hw e 0);
         upd_emmc (\<lambda>e. e\<lparr>em_rca := drop_bit 16 resp\<rparr>);
         io_bind (on_card (\<lambda>e. send_cmd hw e CMD9 (ucast (push_bit 16 (em_rca e))) (CMD_RESPONSE_136 OR CMD_CRCCHK_EN))) (\<lambda>_. do {
           raw \<leftarrow> on_card (long_response hw);
           io_bind (of_result (map_err emmc_of_csd_error (csd_parse raw))) (\<lambda>csd. do {
             upd_emmc (\<lambda>e. e\<lparr>em_csd := csd\<rparr>);
             io_bind (on_card (\<lambda>e. send_cmd hw e CMD7 (ucast (push_bit 16 (em_rca e))) FLAGS_R1)) (\<lambda>_.
             io_bind (on_card (\<lambda>e. send_cmd hw e CMD16 (ucast BLOCK_SIZE) FLAGS_R1)) (\<lambda>_.
             on_card (\<lambda>e. set_clock hw e 25000000)))
           })
         })
       })
     })"

definition emmc_init :: "'d sd_host \<Rightarrow> ('d, unit) emmc_io" where
  "emmc_init hw = do {
     status \<leftarrow> on_card (\<lambda>e. em_read_reg hw e REG_STATUS);
     if status AND STATUS_CARD_INSERTED = 0 then fail NoCard
     else
       io_bind (on_card (emmc_reset hw)) (\<lambda>_.
       io_bind (on_card (\<lambda>e. set_clock hw e 400000)) (\<lambda>_. do {
         on_card (\<lambda>e. em_write_reg hw e REG_IRPT_MASK 0xFFFFFFFF);
         io_bind (on_card (\<lambda>e. send_cmd hw e CMD0 0 CMD_RESPONSE_NONE)) (\<lambda>_. do {
           on_card (\<lambda>e. em_delay_ms hw 10);
           io_bind (init_card_type hw) (\<lambda>_. init_identify hw)
         })
       }))
   }"

section \<open>Blocks\<close>

text \<open>Cards of the first version are addressed by byte, later ones by block.\<close>

definition card_address :: "emmc \<Rightarrow> u32 \<Rightarrow> u64" where
  "card_address e lba =
     (case csd_ver (em_csd e) of
        V1_0 \<Rightarrow> ucast lba * ucast BLOCK_SIZE
      | V2_0 \<Rightarrow> ucast lba
      | V3_0 \<Rightarrow> ucast lba)"

text \<open>
  \<^verbatim>\<open>for chunk in buf.chunks_mut(4) { ... }\<close> reads the data register into the buffer, \<^verbatim>\<open>for chunk in
  buf.chunks(4) { ... }\<close> writes the buffer to it; a short last chunk is cut or padded with zeros.
\<close>

fun read_words :: "'d sd_host \<Rightarrow> emmc \<Rightarrow> u8 list \<Rightarrow> ('d, u8 list) state" where
  "read_words hw e [] = State_Monad.return []"
| "read_words hw e (b # bs) = do {
     w \<leftarrow> em_read_reg hw e REG_DATA;
     rest \<leftarrow> read_words hw e (drop 3 bs);
     State_Monad.return (take (length (take 4 (b # bs))) (to_le32 w) @ rest)
   }"

definition chunk_word :: "u8 list \<Rightarrow> u32" where
  "chunk_word chunk =
     (let w = take 4 (chunk @ replicate 4 0) in from_le32 (w ! 0) (w ! 1) (w ! 2) (w ! 3))"

fun write_words :: "'d sd_host \<Rightarrow> emmc \<Rightarrow> u8 list \<Rightarrow> ('d, unit) state" where
  "write_words hw e [] = State_Monad.return ()"
| "write_words hw e (b # bs) = do {
     em_write_reg hw e REG_DATA (chunk_word (take 4 (b # bs)));
     write_words hw e (drop 3 bs)
   }"

definition read_block_internal :: "'d sd_host \<Rightarrow> emmc \<Rightarrow> u32 \<Rightarrow> u8 list \<Rightarrow> ('d, u8 list, emmc_error) io" where
  "read_block_internal hw e lba buf =
     (if length buf < unat BLOCK_SIZE then fail BufferTooSmall
      else do {
        wait_status_clear 100000 hw e STATUS_DAT_INHIBIT 10;
        em_write_reg hw e REG_BLKSIZECNT (push_bit 16 1 OR BLOCK_SIZE);
        em_write_reg hw e REG_INTERRUPT 0xFFFFFFFF;
        io_bind (send_cmd hw e CMD17 (card_address e lba) (FLAGS_R1 OR CMD_ISDATA OR TM_DAT_DIR_READ)) (\<lambda>_.
        io_bind (wait_data_ready hw e) (\<lambda>_. do {
          block \<leftarrow> read_words hw e (take (unat BLOCK_SIZE) buf);
          io_bind (wait_data_done hw e) (\<lambda>_. ok (block @ drop (unat BLOCK_SIZE) buf))
        }))
      })"

definition write_block_internal :: "'d sd_host \<Rightarrow> emmc \<Rightarrow> u32 \<Rightarrow> u8 list \<Rightarrow> ('d, unit, emmc_error) io" where
  "write_block_internal hw e lba buf =
     (if length buf < unat BLOCK_SIZE then fail BufferTooSmall
      else do {
        wait_status_clear 100000 hw e STATUS_DAT_INHIBIT 10;
        em_write_reg hw e REG_BLKSIZECNT (push_bit 16 1 OR BLOCK_SIZE);
        em_write_reg hw e REG_INTERRUPT 0xFFFFFFFF;
        io_bind (send_cmd hw e CMD24 (card_address e lba) (FLAGS_R1 OR CMD_ISDATA)) (\<lambda>_.
        io_bind (wait_write_ready hw e) (\<lambda>_. do {
          write_words hw e (take (unat BLOCK_SIZE) buf);
          wait_data_done hw e
        }))
      })"

section \<open>The block device\<close>

definition emmc_info :: "emmc \<Rightarrow> block_device_info" where
  "emmc_info e = info_removable (block_device_info_new (csd_block_count (em_csd e)))"

definition emmc_is_ready :: "'d sd_host \<Rightarrow> emmc \<Rightarrow> ('d, bool) state" where
  "emmc_is_ready hw e = do {
     status \<leftarrow> em_read_reg hw e REG_STATUS;
     State_Monad.return (status AND STATUS_CARD_INSERTED \<noteq> 0 \<and> status AND STATUS_CARD_STATE_STABLE \<noteq> 0)
   }"

fun read_each :: "'d sd_host \<Rightarrow> emmc \<Rightarrow> u64 \<Rightarrow> u8 list list \<Rightarrow> ('d, u8 list list, emmc_error) io" where
  "read_each hw e block [] = ok []"
| "read_each hw e block (buf # bufs) =
     io_bind (read_block_internal hw e (ucast block) buf) (\<lambda>b.
     io_bind (read_each hw e (block + 1) bufs) (\<lambda>bs. ok (b # bs)))"

fun write_each :: "'d sd_host \<Rightarrow> emmc \<Rightarrow> u64 \<Rightarrow> u8 list list \<Rightarrow> ('d, unit, emmc_error) io" where
  "write_each hw e block [] = ok ()"
| "write_each hw e block (buf # bufs) =
     io_bind (write_block_internal hw e (ucast block) buf) (\<lambda>_. write_each hw e (block + 1) bufs)"

text \<open>The check of the block range adds in 64 bits, which can wrap around.\<close>

definition emmc_read_blocks :: "'d sd_host \<Rightarrow> emmc \<Rightarrow> u64 \<Rightarrow> u8 list list \<Rightarrow> ('d, u8 list list, emmc_error) io" where
  "emmc_read_blocks hw e start_block buffers =
     (if \<exists>buffer \<in> set buffers. length buffer < unat BLOCK_SIZE then fail BufferTooSmall
      else if csd_block_count (em_csd e) < start_block + of_nat (length buffers) then fail EmmcReadError
      else do {
        ready \<leftarrow> emmc_is_ready hw e;
        if \<not> ready then fail NoCard else read_each hw e start_block buffers
      })"

definition emmc_write_blocks :: "'d sd_host \<Rightarrow> emmc \<Rightarrow> u64 \<Rightarrow> u8 list list \<Rightarrow> ('d, unit, emmc_error) io" where
  "emmc_write_blocks hw e start_block buffers =
     (if \<exists>buffer \<in> set buffers. length buffer < unat BLOCK_SIZE then fail BufferTooSmall
      else if csd_block_count (em_csd e) < start_block + of_nat (length buffers) then fail EmmcWriteError
      else do {
        ready \<leftarrow> emmc_is_ready hw e;
        if \<not> ready then fail NoCard else write_each hw e start_block buffers
      })"

text \<open>Asked from outside, \<^verbatim>\<open>is_ready\<close> is an observation: what the register read does to the device is dropped.\<close>

definition emmc_block_device :: "'d sd_host \<Rightarrow> emmc \<Rightarrow> ('d, emmc_error) block_device" where
  "emmc_block_device hw e =
     \<lparr>bd_info = (\<lambda>_. emmc_info e), bd_read_blocks = emmc_read_blocks hw e, bd_write_blocks = emmc_write_blocks hw e,
      bd_flush = ok (), bd_is_ready = (\<lambda>d. fst (run_state (emmc_is_ready hw e) d))\<rparr>"

definition emmc_identification :: "emmc \<Rightarrow> identifiable_block_device" where
  "emmc_identification e = \<lparr>ib_cid = Some (em_cid e), ib_csd = Some (em_csd e)\<rparr>"

end
