(* ===== verification/Platform.thy ===== *)
theory Platform
  imports Device_Manager Emmc
begin

text \<open>
  The hardware inventory (\<^verbatim>\<open>drivers/src/platform/mod.rs\<close> and \<^verbatim>\<open>builder.rs\<close>): the static tables that the boot
  code fills and the queries over them.  The statics are the fields of one record; a driver object
  that \<^verbatim>\<open>init_devices\<close> creates is a value of \<open>driver\<close>, which says which driver drives which address.
\<close>

section \<open>Tables\<close>

datatype memory_type = Available | Reserved | Mmio | Kernel | Framebuffer

record memory_region =
  reg_base :: u32
  reg_size :: u32
  reg_type :: memory_type

record device_info =
  dev_name :: string
  dev_compatible :: string
  dev_base :: u32
  dev_size :: u32
  dev_irq :: "u32 option"

datatype architecture = X86 | X86_64 | Arm | AArch64

record memory_map =
  ram_start :: u32
  ram_size :: u32
  peripheral_base :: u32
  peripheral_size :: u32

definition MAX_DEVICES :: nat where "MAX_DEVICES = 32"
definition MAX_MEMORY_REGIONS :: nat where "MAX_MEMORY_REGIONS = 64"

record platform =
  pf_regions :: "memory_region list"
  pf_region_count :: nat
  pf_devices :: "device_info option list"
  pf_device_count :: nat
  pf_cmdline :: "string option"
  pf_name :: string
  pf_arch :: architecture
  pf_initialized :: bool

definition platform_statics :: platform where
  "platform_statics =
     \<lparr>pf_regions = replicate MAX_MEMORY_REGIONS \<lparr>reg_base = 0, reg_size = 0, reg_type = Reserved\<rparr>, pf_region_count = 0,
      pf_devices = replicate MAX_DEVICES None, pf_device_count = 0, pf_cmdline = None, pf_name = ''Unknown'',
      pf_arch = X86, pf_initialized = False\<rparr>"

section \<open>The builder\<close>

definition pb_begin :: "platform \<Rightarrow> (unit, string) outcome \<times> platform" where
  "pb_begin p =
     (if pf_initialized p then (Err ''Platform already initialized'', p) else (Ok (), p\<lparr>pf_initialized := True\<rparr>))"

definition set_arch :: "architecture \<Rightarrow> platform \<Rightarrow> platform" where
  "set_arch arch p = p\<lparr>pf_arch := arch\<rparr>"

definition set_platform_name :: "string \<Rightarrow> platform \<Rightarrow> platform" where
  "set_platform_name name p = p\<lparr>pf_name := name\<rparr>"

definition set_cmdline :: "string \<Rightarrow> platform \<Rightarrow> platform" where
  "set_cmdline cmdline p = p\<lparr>pf_cmdline := Some cmdline\<rparr>"

definition add_device :: "device_info \<Rightarrow> platform \<Rightarrow> platform" where
  "add_device device p =
     (if pf_device_count p < MAX_DEVICES
      then p\<lparr>pf_devices := (pf_devices p)[pf_device_count p := Some device], pf_device_count := pf_device_count p + 1\<rparr>
      else p)"

definition add_memory_region :: "memory_region \<Rightarrow> platform \<Rightarrow> platform" where
  "add_memory_region region p =
     (if pf_region_count p < MAX_MEMORY_REGIONS
      then p\<lparr>pf_regions := (pf_regions p)[pf_region_count p := region], pf_region_count := pf_region_count p + 1\<rparr>
      else p)"

definition add_mmio_region :: "u32 \<Rightarrow> u32 \<Rightarrow> platform \<Rightarrow> platform" where
  "add_mmio_region base len = add_memory_region \<lparr>reg_base = base, reg_size = len, reg_type = Mmio\<rparr>"

definition add_ram_region :: "u32 \<Rightarrow> u32 \<Rightarrow> platform \<Rightarrow> platform" where
  "add_ram_region base len = add_memory_region \<lparr>reg_base = base, reg_size = len, reg_type = Available\<rparr>"

section \<open>Queries\<close>

definition platform_arch :: "platform \<Rightarrow> string" where
  "platform_arch p = (case pf_arch p of X86 \<Rightarrow> ''x86'' | X86_64 \<Rightarrow> ''x86_64'' | Arm \<Rightarrow> ''arm'' | AArch64 \<Rightarrow> ''aarch64'')"

definition memory_regions :: "platform \<Rightarrow> memory_region list" where
  "memory_regions p = take (pf_region_count p) (pf_regions p)"

definition regions_of :: "memory_type \<Rightarrow> platform \<Rightarrow> memory_region list" where
  "regions_of t p = filter (\<lambda>r. reg_type r = t) (memory_regions p)"

definition total_ram :: "platform \<Rightarrow> u32" where
  "total_ram p = sum_list (map reg_size (regions_of Available p))"

text \<open>\<^verbatim>\<open>Iterator::max_by_key\<close> (the last of equal maxima), \<^verbatim>\<open>min\<close> and \<^verbatim>\<open>max\<close>.\<close>

fun max_by_size :: "memory_region list \<Rightarrow> memory_region option" where
  "max_by_size [] = None"
| "max_by_size (r # rs) = Some (fold (\<lambda>x best. if reg_size best \<le> reg_size x then x else best) rs r)"

fun iter_min :: "u32 list \<Rightarrow> u32 option" where
  "iter_min [] = None"
| "iter_min (x # xs) = Some (fold min xs x)"

fun iter_max :: "u32 list \<Rightarrow> u32 option" where
  "iter_max [] = None"
| "iter_max (x # xs) = Some (fold max xs x)"

definition get_memory_map :: "platform \<Rightarrow> memory_map call" where
  "get_memory_map p =
     (case max_by_size (regions_of Available p) of
        None \<Rightarrow> Panic
      | Some ram \<Rightarrow>
          let periph_base = iter_min (map reg_base (regions_of Mmio p));
              periph_end = iter_max (map (\<lambda>r. reg_base r + reg_size r) (regions_of Mmio p));
              (pbase, psize) =
                (case (periph_base, periph_end) of
                   (Some b, Some e) \<Rightarrow> (b, saturating_sub e b)
                 | _ \<Rightarrow> (0, 0)) in
          Ok \<lparr>ram_start = reg_base ram, ram_size = reg_size ram, peripheral_base = pbase, peripheral_size = psize\<rparr>)"

definition devices :: "platform \<Rightarrow> device_info list" where
  "devices p = List.map_filter id (take (pf_device_count p) (pf_devices p))"

text \<open>\<^verbatim>\<open>str::contains\<close>.\<close>

definition str_contains :: "string \<Rightarrow> string \<Rightarrow> bool" where
  "str_contains s x \<longleftrightarrow> list_ex (\<lambda>i. take (length x) (drop i s) = x) [0..<length s + 1]"

definition find_device :: "string \<Rightarrow> platform \<Rightarrow> device_info option" where
  "find_device name_or_compat p =
     find (\<lambda>d. dev_name d = name_or_compat \<or> str_contains (dev_compatible d) name_or_compat) (devices p)"

section \<open>Creating the drivers\<close>

datatype driver = Pl011 u32 | Uart16550Pio u32 | Uart16550Mmio u32 | Bcm2835Timer | Bcm2835Intc u32 | EmmcDriver emmc

type_synonym init_result = "(unit, string) outcome \<times> driver device_manager"

definition BCM_TIMER_BASE :: u32 where "BCM_TIMER_BASE = 0x20003000"

text \<open>The derived \<^verbatim>\<open>Debug\<close> of the error, and one device of the loop.\<close>

fun emmc_error_name :: "emmc_error \<Rightarrow> string" where
  "emmc_error_name NoCard = ''NoCard''"
| "emmc_error_name UnsupportedCard = ''UnsupportedCard''"
| "emmc_error_name InitFailed = ''InitFailed''"
| "emmc_error_name CommandError = ''CommandError''"
| "emmc_error_name EmmcTimeout = ''Timeout''"
| "emmc_error_name BufferTooSmall = ''BufferTooSmall''"
| "emmc_error_name EmmcReadError = ''ReadError''"
| "emmc_error_name EmmcWriteError = ''WriteError''"
| "emmc_error_name CrcError = ''CrcError''"
| "emmc_error_name EmmcHardwareError = ''HardwareError''"

definition init_device ::
  "architecture \<Rightarrow> device_info \<Rightarrow> driver device_manager \<Rightarrow> init_result" where
  "init_device target device mgr =
     (let compatible = dev_compatible device; name = dev_name device; base = dev_base device in
      if compatible \<in> {''arm,pl011'', ''arm,primecell''} then register_serial mgr name (Pl011 base)
      else if compatible \<in> {''16550a-uart'', ''ns16550a''} then
        register_serial mgr name (if target = X86 then Uart16550Pio base else Uart16550Mmio base)
      else if compatible = ''brcm,bcm2835-system-timer'' then
        (if base \<noteq> BCM_TIMER_BASE then (Err ''Timer init failed: InvalidBaseAddress'', mgr)
         else register_timer mgr name Bcm2835Timer (Some 1))
      else if compatible \<in> {''arm,armv7-timer'', ''arm,armv8-timer''} then (Ok (), mgr)
      else if compatible \<in> {''i8254-pit'', ''intel,8254''} then (Ok (), mgr)
      else if compatible \<in> {''brcm,bcm2835-armctrl-ic'', ''brcm,bcm2836-armctrl-ic''} then
        register_interrupt_controller mgr name (Bcm2835Intc base)
      else if compatible \<in> {''arm,gic-400'', ''arm,cortex-a15-gic'', ''arm,gic-v3''} then (Ok (), mgr)
      else if compatible \<in> {''i8259-pic'', ''intel,8259''} then (Ok (), mgr)
      else if compatible \<in> {''multiboot2-fb'', ''simple-framebuffer''} then (Ok (), mgr)
      else if compatible \<in> {''brcm,bcm2835-sdhost'', ''brcm,bcm2711-emmc2''} then
        (case emmc_new base of
           Ok block_dev \<Rightarrow> register_block mgr name (EmmcDriver block_dev)
         | Err e \<Rightarrow> (Err (''Emmc init failed: '' @ emmc_error_name e), mgr)
         | Panic \<Rightarrow> (Panic, mgr)
         | Diverge \<Rightarrow> (Diverge, mgr))
      else if compatible = ''vga-text'' then (Ok (), mgr)
      else (Ok (), mgr))"

fun init_loop_devices ::
  "architecture \<Rightarrow> device_info list \<Rightarrow> driver device_manager \<Rightarrow> init_result" where
  "init_loop_devices target [] mgr = (Ok (), mgr)"
| "init_loop_devices target (device # ds) mgr =
     (case init_device target device mgr of
        (Ok _, mgr) \<Rightarrow> init_loop_devices target ds mgr
      | (r, mgr) \<Rightarrow> (r, mgr))"

definition init_devices ::
  "architecture \<Rightarrow> platform \<Rightarrow> driver device_manager \<Rightarrow> init_result" where
  "init_devices target p mgr = init_loop_devices target (devices p) mgr"

section \<open>The tables as sequences\<close>

definition platform_ok :: "platform \<Rightarrow> bool" where
  "platform_ok p \<longleftrightarrow>
     length (pf_regions p) = MAX_MEMORY_REGIONS \<and> pf_region_count p \<le> MAX_MEMORY_REGIONS \<and>
     length (pf_devices p) = MAX_DEVICES \<and> pf_device_count p \<le> MAX_DEVICES \<and>
     None \<notin> set (take (pf_device_count p) (pf_devices p))"

named_theorems platform_simps \<open>what the builder does to the tables\<close>

lemma platform_statics_ok [simp]: "platform_ok platform_statics"
  "memory_regions platform_statics = []" "devices platform_statics = []"
  by (simp_all add: platform_ok_def platform_statics_def memory_regions_def devices_def map_filter_simps)

lemma take_update: "n < length xs \<Longrightarrow> take (Suc n) (xs[n := x]) = take n xs @ [x]"
  by (simp add: take_Suc_conv_app_nth)

lemma map_filter_append: "List.map_filter f (xs @ ys) = List.map_filter f xs @ List.map_filter f ys"
  by (simp add: List.map_filter_def)

lemma add_memory_region_ok [platform_simps]:
  assumes "platform_ok p"
  shows "platform_ok (add_memory_region r p)" "devices (add_memory_region r p) = devices p"
    "memory_regions (add_memory_region r p) =
       (if length (memory_regions p) < MAX_MEMORY_REGIONS then memory_regions p @ [r] else memory_regions p)"
  using assms by (auto simp: add_memory_region_def platform_ok_def devices_def memory_regions_def take_update)

lemma add_device_ok [platform_simps]:
  assumes "platform_ok p"
  shows "platform_ok (add_device d p)" "memory_regions (add_device d p) = memory_regions p"
    "devices (add_device d p) = (if length (devices p) < MAX_DEVICES then devices p @ [d] else devices p)"
proof -
  have len: "length (devices p) = pf_device_count p"
  proof -
    have "List.map_filter id xs = map the xs" if "None \<notin> set xs" for xs :: "device_info option list"
      using that by (induction xs) (auto simp: map_filter_simps split: option.splits dest: not_None_eq [THEN iffD1, OF not_sym])
    then have "devices p = map the (take (pf_device_count p) (pf_devices p))"
      using assms by (simp add: devices_def platform_ok_def)
    then show ?thesis using assms by (simp add: platform_ok_def)
  qed
  show "platform_ok (add_device d p)" "memory_regions (add_device d p) = memory_regions p"
    using assms by (auto simp: add_device_def platform_ok_def memory_regions_def take_update)
  show "devices (add_device d p) = (if length (devices p) < MAX_DEVICES then devices p @ [d] else devices p)"
    unfolding len using assms
    by (auto simp: add_device_def platform_ok_def devices_def take_update map_filter_append map_filter_simps)
qed

lemma builder_flags [platform_simps]:
  "platform_ok (set_arch a p) = platform_ok p" "memory_regions (set_arch a p) = memory_regions p" "devices (set_arch a p) = devices p"
  "platform_ok (set_platform_name n p) = platform_ok p" "memory_regions (set_platform_name n p) = memory_regions p"
  "devices (set_platform_name n p) = devices p"
  "platform_ok (set_cmdline c p) = platform_ok p" "memory_regions (set_cmdline c p) = memory_regions p"
  "devices (set_cmdline c p) = devices p"
  by (simp_all add: platform_ok_def memory_regions_def devices_def set_arch_def set_platform_name_def set_cmdline_def)

section \<open>The memory map\<close>

lemma max_by_size_None [simp]: "max_by_size rs = None \<longleftrightarrow> rs = []"
  by (cases rs) auto

lemma max_by_size_Some:
  assumes "max_by_size rs = Some r"
  shows "r \<in> set rs" "x \<in> set rs \<Longrightarrow> reg_size x \<le> reg_size r"
proof -
  define pick where "pick = (\<lambda>x best. if reg_size best \<le> reg_size x then x else best :: memory_region)"
  have f: "fold pick xs b \<in> insert b (set xs) \<and> (\<forall>x\<in>insert b (set xs). reg_size x \<le> reg_size (fold pick xs b))" for xs b
  proof (induction xs arbitrary: b)
    case (Cons y ys)
    have "reg_size b \<le> reg_size (pick y b)" "reg_size y \<le> reg_size (pick y b)" "pick y b \<in> {b, y}"
      by (auto simp: pick_def)
    then show ?case using Cons.IH [of "pick y b"] by (auto intro: order_trans)
  qed simp
  obtain b xs where "rs = b # xs" using assms by (cases rs) auto
  then show "r \<in> set rs" "x \<in> set rs \<Longrightarrow> reg_size x \<le> reg_size r"
    using assms f [of xs b] by (auto simp: pick_def)
qed

lemma iter_min_Some: "iter_min xs = Some m \<Longrightarrow> m \<in> set xs \<and> (\<forall>x\<in>set xs. m \<le> x)"
proof -
  assume *: "iter_min xs = Some m"
  then have "m = Min (set xs)" "xs \<noteq> []" by (cases xs; simp flip: Min.set_eq_fold)+
  then show ?thesis using Min_in [of "set xs"] by simp
qed

lemma iter_max_Some: "iter_max xs = Some m \<Longrightarrow> m \<in> set xs \<and> (\<forall>x\<in>set xs. x \<le> m)"
proof -
  assume *: "iter_max xs = Some m"
  then have "m = Max (set xs)" "xs \<noteq> []" by (cases xs; simp flip: Max.set_eq_fold)+
  then show ?thesis using Max_in [of "set xs"] by simp
qed

definition region_bytes :: "memory_region \<Rightarrow> nat set" where
  "region_bytes r = {unat (reg_base r)..<unat (reg_base r) + unat (reg_size r)}"

definition peripheral_bytes :: "memory_map \<Rightarrow> nat set" where
  "peripheral_bytes mm = {unat (peripheral_base mm)..<unat (peripheral_base mm) + unat (peripheral_size mm)}"

lemma memory_map_peripherals:
  assumes ok: "get_memory_map p = Ok mm" and fit: "\<And>r. r \<in> set (regions_of Mmio p) \<Longrightarrow> unat (reg_base r) + unat (reg_size r) < 2 ^ 32"
    and r: "r \<in> set (regions_of Mmio p)"
  shows "region_bytes r \<subseteq> peripheral_bytes mm"
proof -
  let ?B = "map reg_base (regions_of Mmio p)" and ?E = "map (\<lambda>r. reg_base r + reg_size r) (regions_of Mmio p)"
  obtain b e where be: "iter_min ?B = Some b" "iter_max ?E = Some e"
    using r by (cases "regions_of Mmio p") auto
  have le: "b \<le> reg_base r" "reg_base r + reg_size r \<le> e"
    using iter_min_Some [OF be(1)] iter_max_Some [OF be(2)] r by auto
  have ur: "unat (reg_base r + reg_size r) = unat (reg_base r) + unat (reg_size r)"
    using fit [OF r] by (simp add: unat_add_small)
  have bounds: "unat b \<le> unat (reg_base r)" "unat (reg_base r) + unat (reg_size r) \<le> unat e"
    using le ur by (simp_all add: word_le_nat_alt)
  then have "b \<le> e" by (simp add: word_le_nat_alt)
  then have "peripheral_base mm = b" "peripheral_size mm = e - b"
    using ok be by (auto simp: get_memory_map_def Let_def saturating_sub_alt split: option.splits)
  moreover have "unat (e - b) = unat e - unat b" using \<open>b \<le> e\<close> by (simp add: unat_sub_le)
  ultimately show ?thesis
    using bounds by (auto simp: region_bytes_def peripheral_bytes_def)
qed

end
