(* ===== verification/Boot_Info.thy ===== *)
theory Boot_Info
  imports Platform Mb2_Fb
begin

text \<open>
  Platform discovery at boot (\<^verbatim>\<open>kernel/src/boot\<close>, and \<^verbatim>\<open>determine_boot_info\<close> of \<^verbatim>\<open>kernel/src/kcore/init.rs\<close>): the
  walk over the Multiboot2 tags, the fixed device tables of the probing fallback, and the order in
  which they are tried.  The target architecture, the value of the CPU identification register and
  the memory that the boot loader left are parameters.
\<close>

record boot_state =
  bs_platform :: platform
  bs_fb_tag :: "mb2_fb_tag option"

datatype boot_info = Multiboot2 u32 u32 | DeviceTree u32 | Raw

section \<open>Probing\<close>

definition mk_device :: "string \<Rightarrow> string \<Rightarrow> u32 \<Rightarrow> u32 \<Rightarrow> u32 option \<Rightarrow> device_info" where
  "mk_device name compatible base len irq =
     \<lparr>dev_name = name, dev_compatible = compatible, dev_base = base, dev_size = len, dev_irq = irq\<rparr>"

definition register_standard_pc_devices :: "platform \<Rightarrow> platform" where
  "register_standard_pc_devices p =
     (let p = add_device (mk_device ''serial0'' ''16550a-uart'' 0x3F8 8 (Some 4)) p;
          p = add_device (mk_device ''timer'' ''i8254-pit'' 0x40 4 (Some 0)) p;
          p = add_device (mk_device ''pic'' ''i8259-pic'' 0x20 2 None) p;
          p = add_device (mk_device ''vga'' ''vga-text'' 0xB8000 0x8000 None) p;
          p = add_ram_region 0x00100000 (127 * 1024 * 1024) p in
      add_mmio_region 0x000A0000 0x00060000 p)"

definition probe_x86 :: "platform \<Rightarrow> (unit, string) outcome \<times> platform" where
  "probe_x86 p = (Ok (), register_standard_pc_devices p)"

definition read_arm_cpu_id :: "architecture \<Rightarrow> u32 \<Rightarrow> u32" where
  "read_arm_cpu_id target midr = (if target = Arm then drop_bit 4 midr AND 0xFFF else 0)"

definition bcm2835_devices :: "platform \<Rightarrow> (unit, string) outcome \<times> platform" where
  "bcm2835_devices p =
     (let p = add_device (mk_device ''uart0'' ''arm,pl011'' 0x20201000 0x1000 (Some 57)) p;
          p = add_device (mk_device ''timer'' ''brcm,bcm2835-system-timer'' 0x20003000 0x1000 (Some 1)) p;
          p = add_device (mk_device ''intc'' ''brcm,bcm2835-armctrl-ic'' 0x2000B200 0x200 None) p;
          p = add_ram_region 0 (512 * 1024 * 1024) p in
      (Ok (), add_mmio_region 0x20000000 0x01000000 p))"

definition bcm2836_devices :: "platform \<Rightarrow> (unit, string) outcome \<times> platform" where
  "bcm2836_devices p =
     (let p = add_device (mk_device ''uart0'' ''arm,pl011'' 0x3F201000 0x1000 (Some 57)) p;
          p = add_device (mk_device ''timer'' ''arm,armv7-timer'' 0 0 (Some 30)) p;
          p = add_device (mk_device ''intc'' ''brcm,bcm2835-armctrl-ic'' 0x3F00B200 0x200 None) p;
          p = add_ram_region 0 (1024 * 1024 * 1024) p in
      (Ok (), add_mmio_region 0x3F000000 0x01000000 p))"

definition bcm2837_devices :: "platform \<Rightarrow> (unit, string) outcome \<times> platform" where
  "bcm2837_devices p =
     (let p = add_device (mk_device ''uart0'' ''arm,pl011'' 0x3F201000 0x1000 (Some 57)) p;
          p = add_device (mk_device ''timer'' ''arm,armv8-timer'' 0 0 (Some 30)) p;
          p = add_device (mk_device ''intc'' ''brcm,bcm2835-armctrl-ic'' 0x3F00B200 0x200 None) p;
          p = add_ram_region 0 (1024 * 1024 * 1024) p in
      (Ok (), add_mmio_region 0x3F000000 0x01000000 p))"

definition probe_arm :: "architecture \<Rightarrow> u32 \<Rightarrow> platform \<Rightarrow> (unit, string) outcome \<times> platform" where
  "probe_arm target midr p =
     (let cpu_id = read_arm_cpu_id target midr in
      if cpu_id = 0xB760 then bcm2835_devices p
      else if cpu_id = 0xC070 then bcm2836_devices p
      else if cpu_id = 0xD030 then bcm2837_devices p
      else (Err ''unknown ARM CPU'', p))"

section \<open>Multiboot2\<close>

definition MB2_MAGIC :: u32 where "MB2_MAGIC = 0x36d76289"

text \<open>The command line: the bytes up to the first zero byte.\<close>

partial_function (option) cmdline_len :: "memory \<Rightarrow> u32 \<Rightarrow> u32 \<Rightarrow> u32 option" where
  "cmdline_len m ptr len = (if m (ptr + len) \<noteq> 0 then cmdline_len m ptr (len + 1) else Some len)"

definition mem_bytes :: "memory \<Rightarrow> u32 \<Rightarrow> nat \<Rightarrow> u8 list" where
  "mem_bytes m ptr n = map (\<lambda>i. m (ptr + of_nat i)) [0..<n]"

definition parse_cmdline :: "memory \<Rightarrow> u32 \<Rightarrow> boot_state \<Rightarrow> boot_state option" where
  "parse_cmdline m tag s =
     map_option (\<lambda>len. let bs = mem_bytes m (tag + 8) (unat len) in
        if utf8_valid bs then s\<lparr>bs_platform := set_cmdline (to_string bs) (bs_platform s)\<rparr> else s)
       (cmdline_len m (tag + 8) 0)"

definition mb2_memory_type :: "u32 \<Rightarrow> memory_type" where
  "mb2_memory_type t = (if t = 1 then Available else if t = 3 then Mmio else Reserved)"

definition mb2_entry :: "memory \<Rightarrow> u32 \<Rightarrow> memory_region" where
  "mb2_entry m entry =
     \<lparr>reg_base = ucast (read_u64 m entry), reg_size = ucast (read_u64 m (entry + 8)),
      reg_type = mb2_memory_type (read_u32 m (entry + 16))\<rparr>"

partial_function (option) mb2_entries :: "memory \<Rightarrow> u32 \<Rightarrow> u32 \<Rightarrow> u32 \<Rightarrow> platform \<Rightarrow> platform option" where
  "mb2_entries m entry_size entries_end entry p =
     (if entry < entries_end
      then mb2_entries m entry_size entries_end (entry + entry_size) (add_memory_region (mb2_entry m entry) p)
      else Some p)"

definition parse_memory_map :: "memory \<Rightarrow> u32 \<Rightarrow> boot_state \<Rightarrow> ((unit, string) outcome \<times> boot_state) option" where
  "parse_memory_map m tag s =
     (let entry_size = read_u32 m (tag + 8); entry_version = read_u32 m (tag + 12) in
      if entry_version \<noteq> 0 then Some (Err ''unsupported multiboot2 memory map version'', s)
      else
        let tag_size = read_u32 m (tag + 4); entries_end = tag + tag_size in
        map_option (\<lambda>p. (Ok (), s\<lparr>bs_platform := p\<rparr>)) (mb2_entries m entry_size entries_end (tag + 16) (bs_platform s)))"

definition parse_framebuffer :: "memory \<Rightarrow> u32 \<Rightarrow> boot_state \<Rightarrow> boot_state" where
  "parse_framebuffer m tag s =
     (let t = parse_mb2_fb_tag m (tag + 8) in
      s\<lparr>bs_fb_tag := set_mb2_fb_tag t (bs_fb_tag s),
        bs_platform := add_device (mk_device ''framebuffer'' ''multiboot2-fb'' (ucast (tag_addr t)) (tag_pitch t * tag_height t) None)
          (bs_platform s)\<rparr>)"

definition parse_tag :: "memory \<Rightarrow> u32 \<Rightarrow> boot_state \<Rightarrow> ((unit, string) outcome \<times> boot_state) option" where
  "parse_tag m tag s =
     (let tag_type = read_u32 m tag in
      if tag_type = 1 then map_option (Pair (Ok ())) (parse_cmdline m tag s)
      else if tag_type = 6 then parse_memory_map m tag s
      else if tag_type = 8 then Some (Ok (), parse_framebuffer m tag s)
      else Some (Ok (), s))"

definition align8 :: "u32 \<Rightarrow> u32" where
  "align8 a = (a + 7) AND NOT 7"

partial_function (option) mb2_tags ::
  "memory \<Rightarrow> u32 \<Rightarrow> u32 \<Rightarrow> boot_state \<Rightarrow> ((unit, string) outcome \<times> boot_state) option" where
  "mb2_tags m end_addr tag s =
     (if tag < end_addr then
        let tag = align8 tag; tag_type = read_u32 m tag; tag_size = read_u32 m (tag + 4) in
        if tag_type = 0 then Some (Ok (), s)
        else
          Option.bind (parse_tag m tag s) (\<lambda>(r, s).
            if is_ok r then mb2_tags m end_addr (tag + tag_size) s else Some (r, s))
      else Some (Ok (), s))"

declare cmdline_len.simps [code] mb2_entries.simps [code] mb2_tags.simps [code]

definition mb2_discover :: "memory \<Rightarrow> u32 \<Rightarrow> u32 \<Rightarrow> boot_state \<Rightarrow> (unit, string) outcome \<times> boot_state" where
  "mb2_discover m magic info_addr s =
     (if magic \<noteq> MB2_MAGIC then (Err ''invalid Multiboot2 magic'', s)
      else
        let total_size = read_u32 m info_addr; end_addr = info_addr + total_size in
        case mb2_tags m end_addr (info_addr + 8) s of
          None \<Rightarrow> (Diverge, s)
        | Some (r, s) \<Rightarrow>
            if is_ok r then (Ok (), s\<lparr>bs_platform := register_standard_pc_devices (bs_platform s)\<rparr>) else (r, s))"

section \<open>Device trees\<close>

text \<open>The build has the \<^verbatim>\<open>device-tree\<close> feature off.\<close>

definition dt_discover :: "u32 \<Rightarrow> boot_state \<Rightarrow> (unit, string) outcome \<times> boot_state" where
  "dt_discover dtb_addr s = (Err ''device tree support not enabled'', s)"

section \<open>Initialisation\<close>

definition has_compat :: "platform \<Rightarrow> string \<Rightarrow> bool" where
  "has_compat p x \<longleftrightarrow> list_ex (\<lambda>d. str_contains (dev_compatible d) x) (devices p)"

definition determine_platform_name :: "architecture \<Rightarrow> platform \<Rightarrow> string" where
  "determine_platform_name target p =
     (if has_compat p ''bcm2835'' then ''Broadcom BCM2835 (Raspberry Pi Zero/1)''
      else if has_compat p ''bcm2836'' then ''Broadcom BCM2836 (Raspberry Pi 2)''
      else if has_compat p ''bcm2837'' then ''Broadcom BCM2837 (Raspberry Pi 3)''
      else if has_compat p ''bcm2711'' then ''Broadcom BCM2711 (Raspberry Pi 4)''
      else case target of X86 \<Rightarrow> ''Generic PC (x86)'' | X86_64 \<Rightarrow> ''Generic PC (x86)''
        | Arm \<Rightarrow> ''ARM-based Platform'' | AArch64 \<Rightarrow> ''ARM-based Platform'')"

definition probe_platform :: "architecture \<Rightarrow> u32 \<Rightarrow> platform \<Rightarrow> (unit, string) outcome \<times> platform" where
  "probe_platform target midr p =
     (case target of X86 \<Rightarrow> probe_x86 p | X86_64 \<Rightarrow> probe_x86 p | Arm \<Rightarrow> probe_arm target midr p | AArch64 \<Rightarrow> probe_arm target midr p)"

definition discover_boot :: "memory \<Rightarrow> boot_info \<Rightarrow> boot_state \<Rightarrow> (unit, string) outcome \<times> boot_state" where
  "discover_boot m info s =
     (case info of
        Multiboot2 magic info_addr \<Rightarrow> mb2_discover m magic info_addr s
      | DeviceTree dtb_addr \<Rightarrow> dt_discover dtb_addr s
      | Raw \<Rightarrow> (Err [], s))"

definition boot_init :: "architecture \<Rightarrow> u32 \<Rightarrow> memory \<Rightarrow> boot_info \<Rightarrow> boot_state \<Rightarrow> (unit, string) outcome \<times> boot_state" where
  "boot_init target midr m info s =
     (case pb_begin (bs_platform s) of
        (Ok _, p) \<Rightarrow>
          (case discover_boot m info (s\<lparr>bs_platform := set_arch target p\<rparr>) of
             (Diverge, s) \<Rightarrow> (Diverge, s)
           | (r, s) \<Rightarrow>
               (case if is_ok r then (Ok (), bs_platform s) else probe_platform target midr (bs_platform s) of
                  (Ok _, p) \<Rightarrow> (Ok (), s\<lparr>bs_platform := set_platform_name (determine_platform_name target p) p\<rparr>)
                | (e, p) \<Rightarrow> (e, s\<lparr>bs_platform := p\<rparr>)))
      | (e, p) \<Rightarrow> (e, s\<lparr>bs_platform := p\<rparr>))"

definition swap_bytes :: "u32 \<Rightarrow> u32" where
  "swap_bytes v = from_le32 (le_byte 3 v) (le_byte 2 v) (le_byte 1 v) (le_byte 0 v)"

definition determine_boot_info :: "architecture \<Rightarrow> memory \<Rightarrow> u32 \<Rightarrow> u32 \<Rightarrow> boot_info" where
  "determine_boot_info target m machine_type atags_addr =
     (case target of
        X86 \<Rightarrow> if machine_type = 0x36d76289 then Multiboot2 machine_type atags_addr else Raw
      | Arm \<Rightarrow>
          if atags_addr \<noteq> 0 \<and> swap_bytes (read_u32 m atags_addr) = 0xd00dfeed then DeviceTree atags_addr else Raw
      | _ \<Rightarrow> Raw)"

end
