(* ===== verification/Boot_Properties.thy ===== *)
theory Boot_Properties
  imports Boot_Info
begin

text \<open>
  What platform discovery finds: the Multiboot2 walk over a well-formed list of tags, the memory
  map that results, and the probing of ARM boards.
\<close>

section \<open>The command line\<close>

lemma cmdline_len_found:
  assumes "m (ptr + of_nat n) = 0" "k \<le> n" "n < 2 ^ 32"
  shows "\<exists>len. cmdline_len m ptr (of_nat k) = Some len"
  using assms(2)
proof (induction "n - k" arbitrary: k)
  case 0
  then show ?case using assms(1) by (subst cmdline_len.simps) auto
next
  case (Suc j)
  then have "\<exists>len. cmdline_len m ptr (of_nat (Suc k)) = Some len" by (intro Suc.hyps(1)) auto
  then show ?case by (subst cmdline_len.simps) (auto simp: add.commute)
qed

section \<open>Memory map entries\<close>

lemma memory_regions_length: "platform_ok p \<Longrightarrow> length (memory_regions p) \<le> MAX_MEMORY_REGIONS"
  by (simp add: platform_ok_def memory_regions_def)

lemma fold_add_memory_region:
  assumes "platform_ok p"
  shows "platform_ok (fold add_memory_region rs p)" "devices (fold add_memory_region rs p) = devices p"
    "memory_regions (fold add_memory_region rs p) = take MAX_MEMORY_REGIONS (memory_regions p @ rs)"
proof -
  have "platform_ok (fold add_memory_region rs p) \<and> devices (fold add_memory_region rs p) = devices p \<and>
      memory_regions (fold add_memory_region rs p) = take MAX_MEMORY_REGIONS (memory_regions p @ rs)"
    using assms
  proof (induction rs arbitrary: p)
    case Nil
    then show ?case using memory_regions_length by simp
  next
    case (Cons r rs)
    note A = add_memory_region_ok [OF Cons.prems, of r]
    have "take MAX_MEMORY_REGIONS (memory_regions (add_memory_region r p) @ rs) = take MAX_MEMORY_REGIONS (memory_regions p @ r # rs)"
      using A(3) memory_regions_length [OF Cons.prems] by (auto simp: take_Cons')
    then show ?case using Cons.IH [OF A(1)] A(2) by simp
  qed
  then show "platform_ok (fold add_memory_region rs p)" "devices (fold add_memory_region rs p) = devices p"
    "memory_regions (fold add_memory_region rs p) = take MAX_MEMORY_REGIONS (memory_regions p @ rs)" by simp_all
qed

definition entry_addrs :: "u32 \<Rightarrow> u32 \<Rightarrow> nat \<Rightarrow> u32 list" where
  "entry_addrs entry sz n = map (\<lambda>i. entry + of_nat i * sz) [0..<n]"

lemma entry_addrs_Suc: "entry_addrs entry sz (Suc n) = entry # entry_addrs (entry + sz) sz n"
proof -
  have "map (\<lambda>i. entry + of_nat i * sz) [0..<Suc n] = entry # map (\<lambda>i. entry + of_nat (Suc i) * sz) [0..<n]"
    by (simp only: upt_conv_Cons map_Suc_upt [symmetric] zero_less_Suc) simp
  then show ?thesis by (simp add: entry_addrs_def algebra_simps)
qed

lemma mb2_entries_fold:
  assumes "unat e = unat entry + n * unat sz" "0 < sz"
  shows "mb2_entries m sz e entry p = Some (fold add_memory_region (map (mb2_entry m) (entry_addrs entry sz n)) p)"
  using assms(1)
proof (induction n arbitrary: entry p)
  case 0
  then have "\<not> entry < e" by (simp add: word_less_nat_alt)
  then show ?case by (subst mb2_entries.simps) (simp add: entry_addrs_def)
next
  case (Suc n)
  have "unat entry + unat sz < 2 ^ 32" using Suc.prems unat_less [of e] by simp
  then have "unat (entry + sz) = unat entry + unat sz" by (simp add: unat_add_small)
  then have "unat e = unat (entry + sz) + n * unat sz" using Suc.prems by simp
  moreover have "entry < e" using Suc.prems assms(2) by (simp add: word_less_nat_alt)
  ultimately show ?case using Suc.IH [of "entry + sz"] by (subst mb2_entries.simps) (simp add: entry_addrs_Suc)
qed

section \<open>Tags\<close>

text \<open>
  A well-formed tag list, as the Multiboot2 specification defines it: each tag starts at the next
  multiple of eight, the list ends at the terminator tag or at the end of the information, the
  command line is zero-terminated, and a memory map of version 0 consists of whole entries.
\<close>

fun tags_at :: "memory \<Rightarrow> u32 \<Rightarrow> u32 \<Rightarrow> u32 list \<Rightarrow> bool" where
  "tags_at m e a [] \<longleftrightarrow> \<not> a < e \<or> read_u32 m (align8 a) = 0"
| "tags_at m e a (t # ts) \<longleftrightarrow> a < e \<and> t = align8 a \<and> read_u32 m t \<noteq> 0 \<and> tags_at m e (t + read_u32 m (t + 4)) ts"

definition tag_entries :: "memory \<Rightarrow> u32 \<Rightarrow> memory_region list" where
  "tag_entries m t =
     (if read_u32 m t = 6
      then map (mb2_entry m) (entry_addrs (t + 16) (read_u32 m (t + 8)) ((unat (read_u32 m (t + 4)) - 16) div unat (read_u32 m (t + 8))))
      else [])"

definition tag_ok :: "memory \<Rightarrow> u32 \<Rightarrow> bool" where
  "tag_ok m t \<longleftrightarrow>
     (read_u32 m t = 1 \<longrightarrow> (\<exists>n<2 ^ 32. m (t + 8 + of_nat n) = 0)) \<and>
     (read_u32 m t = 6 \<longrightarrow>
        read_u32 m (t + 12) = 0 \<and> 0 < read_u32 m (t + 8) \<and> 16 \<le> unat (read_u32 m (t + 4)) \<and>
        unat t + unat (read_u32 m (t + 4)) < 2 ^ 32 \<and> unat (read_u32 m (t + 8)) dvd unat (read_u32 m (t + 4)) - 16)"

lemma parse_tag_ok:
  assumes ok: "platform_ok (bs_platform s)" and t: "tag_ok m t"
  shows "\<exists>s'. parse_tag m t s = Some (Ok (), s') \<and> platform_ok (bs_platform s') \<and>
    memory_regions (bs_platform s') = take MAX_MEMORY_REGIONS (memory_regions (bs_platform s) @ tag_entries m t) \<and>
    bs_fb_tag s' = (if read_u32 m t = 8 then set_mb2_fb_tag (parse_mb2_fb_tag m (t + 8)) (bs_fb_tag s) else bs_fb_tag s)"
proof -
  note len = memory_regions_length [OF ok]
  consider (cmd) "read_u32 m t = 1" | (map) "read_u32 m t = 6" | (fb) "read_u32 m t = 8"
    | (other) "read_u32 m t \<notin> {1, 6, 8}" by blast
  then show ?thesis
  proof cases
    case cmd
    then obtain n where "n < 2 ^ 32" "m (t + 8 + of_nat n) = 0" using t by (auto simp: tag_ok_def)
    then obtain l where "cmdline_len m (t + 8) 0 = Some l" using cmdline_len_found [of m "t + 8" n 0] by auto
    then show ?thesis using cmd ok len by (auto simp: parse_tag_def parse_cmdline_def Let_def tag_entries_def platform_simps)
  next
    case map
    let ?sz = "read_u32 m (t + 8)" and ?len = "read_u32 m (t + 4)"
    have h: "read_u32 m (t + 12) = 0" "0 < ?sz" "16 \<le> unat ?len" "unat t + unat ?len < 2 ^ 32" "unat ?sz dvd unat ?len - 16"
      using t map by (simp_all add: tag_ok_def)
    have u: "unat (t + ?len) = unat t + unat ?len" "unat (t + 16) = unat t + 16"
      using h(3,4) by (simp_all add: unat_add_small)
    then have "unat (t + ?len) = unat (t + 16) + (unat ?len - 16) div unat ?sz * unat ?sz"
      using h(3,5) by simp
    from mb2_entries_fold [OF this h(2), of m "bs_platform s"] show ?thesis
      using map h(1) fold_add_memory_region [OF ok]
      by (simp add: parse_tag_def parse_memory_map_def Let_def tag_entries_def)
  next
    case fb
    then show ?thesis using ok len by (simp add: parse_tag_def parse_framebuffer_def Let_def tag_entries_def platform_simps)
  next
    case other
    then show ?thesis using ok len by (simp add: parse_tag_def Let_def tag_entries_def)
  qed
qed

lemma mb2_tags_walk:
  assumes "tags_at m e a ts" "\<forall>t\<in>set ts. tag_ok m t" "platform_ok (bs_platform s)"
  shows "\<exists>s'. mb2_tags m e a s = Some (Ok (), s') \<and> platform_ok (bs_platform s') \<and>
    memory_regions (bs_platform s') =
      take MAX_MEMORY_REGIONS (memory_regions (bs_platform s) @ concat (map (tag_entries m) ts)) \<and>
    bs_fb_tag s' = (case filter (\<lambda>t. read_u32 m t = 8) ts of
      [] \<Rightarrow> bs_fb_tag s | t # _ \<Rightarrow> set_mb2_fb_tag (parse_mb2_fb_tag m (t + 8)) (bs_fb_tag s))"
  using assms
proof (induction ts arbitrary: a s)
  case Nil
  then show ?case using memory_regions_length [OF Nil(3)]
    by (subst mb2_tags.simps) (auto simp: Let_def)
next
  case (Cons t ts)
  obtain s1 where s1: "parse_tag m t s = Some (Ok (), s1)" "platform_ok (bs_platform s1)"
    "memory_regions (bs_platform s1) = take MAX_MEMORY_REGIONS (memory_regions (bs_platform s) @ tag_entries m t)"
    "bs_fb_tag s1 = (if read_u32 m t = 8 then set_mb2_fb_tag (parse_mb2_fb_tag m (t + 8)) (bs_fb_tag s) else bs_fb_tag s)"
    using parse_tag_ok [OF Cons.prems(3), of m t] Cons.prems(2) by auto
  obtain s2 where s2: "mb2_tags m e (t + read_u32 m (t + 4)) s1 = Some (Ok (), s2)" "platform_ok (bs_platform s2)"
    "memory_regions (bs_platform s2) = take MAX_MEMORY_REGIONS (memory_regions (bs_platform s1) @ concat (map (tag_entries m) ts))"
    "bs_fb_tag s2 = (case filter (\<lambda>t. read_u32 m t = 8) ts of
      [] \<Rightarrow> bs_fb_tag s1 | t # _ \<Rightarrow> set_mb2_fb_tag (parse_mb2_fb_tag m (t + 8)) (bs_fb_tag s1))"
    using Cons.IH [of "t + read_u32 m (t + 4)" s1] Cons.prems s1(2) by auto
  have "mb2_tags m e a s = Some (Ok (), s2)"
    using Cons.prems(1) s1(1) s2(1) by (subst mb2_tags.simps) (auto simp: Let_def)
  moreover have "memory_regions (bs_platform s2) =
      take MAX_MEMORY_REGIONS (memory_regions (bs_platform s) @ concat (map (tag_entries m) (t # ts)))"
    unfolding s2(3) s1(3) take_take_append by simp
  moreover have "bs_fb_tag s2 = (case filter (\<lambda>t. read_u32 m t = 8) (t # ts) of
      [] \<Rightarrow> bs_fb_tag s | t # _ \<Rightarrow> set_mb2_fb_tag (parse_mb2_fb_tag m (t + 8)) (bs_fb_tag s))"
    unfolding s2(4) s1(4) by (auto simp: set_mb2_fb_tag_def split: list.splits option.splits)
  ultimately show ?case using s2(2) by blast
qed

lemma register_standard_pc:
  assumes "platform_ok p"
  shows "platform_ok (register_standard_pc_devices p)"
    "memory_regions (register_standard_pc_devices p) = take MAX_MEMORY_REGIONS (memory_regions p @
       [\<lparr>reg_base = 0x100000, reg_size = 0x7F00000, reg_type = Available\<rparr>, \<lparr>reg_base = 0xA0000, reg_size = 0x60000, reg_type = Mmio\<rparr>])"
proof -
  define q where "q = add_device (mk_device ''vga'' ''vga-text'' 0xB8000 0x8000 None) (add_device (mk_device ''pic'' ''i8259-pic'' 0x20 2 None)
    (add_device (mk_device ''timer'' ''i8254-pit'' 0x40 4 (Some 0)) (add_device (mk_device ''serial0'' ''16550a-uart'' 0x3F8 8 (Some 4)) p)))"
  have q: "platform_ok q" "memory_regions q = memory_regions p" using assms by (simp_all add: q_def add_device_ok)
  have "register_standard_pc_devices p = fold add_memory_region [\<lparr>reg_base = 0x100000, reg_size = 0x7F00000, reg_type = Available\<rparr>,
      \<lparr>reg_base = 0xA0000, reg_size = 0x60000, reg_type = Mmio\<rparr>] q"
    by (simp add: register_standard_pc_devices_def q_def add_ram_region_def add_mmio_region_def)
  then show "platform_ok (register_standard_pc_devices p)"
    "memory_regions (register_standard_pc_devices p) = take MAX_MEMORY_REGIONS (memory_regions p @
       [\<lparr>reg_base = 0x100000, reg_size = 0x7F00000, reg_type = Available\<rparr>, \<lparr>reg_base = 0xA0000, reg_size = 0x60000, reg_type = Mmio\<rparr>])"
    using fold_add_memory_region [OF q(1)] q(2) by (simp_all only:)
qed

definition boot_statics :: boot_state where
  "boot_statics = \<lparr>bs_platform = platform_statics, bs_fb_tag = None\<rparr>"

text \<open>
  C33. Multiboot2 discovery.  On a well-formed list of tags the walk ends and succeeds; the memory
  regions of the platform are the entries of the memory-map tags in order, followed by the two
  fixed regions of the PC, as far as the table has room; and the framebuffer tag that is kept is the
  first one.
\<close>

theorem mb2_discover_exact:
  assumes "tags_at m (info + read_u32 m info) (info + 8) ts" "\<forall>t\<in>set ts. tag_ok m t"
  shows "\<exists>s. mb2_discover m MB2_MAGIC info boot_statics = (Ok (), s) \<and> platform_ok (bs_platform s) \<and>
    memory_regions (bs_platform s) = take MAX_MEMORY_REGIONS (concat (map (tag_entries m) ts) @
      [\<lparr>reg_base = 0x100000, reg_size = 0x7F00000, reg_type = Available\<rparr>, \<lparr>reg_base = 0xA0000, reg_size = 0x60000, reg_type = Mmio\<rparr>]) \<and>
    bs_fb_tag s = map_option (\<lambda>t. parse_mb2_fb_tag m (t + 8)) (find (\<lambda>t. read_u32 m t = 8) ts)"
proof -
  obtain s1 where s1: "mb2_tags m (info + read_u32 m info) (info + 8) boot_statics = Some (Ok (), s1)" "platform_ok (bs_platform s1)"
    "memory_regions (bs_platform s1) = take MAX_MEMORY_REGIONS (concat (map (tag_entries m) ts))"
    "bs_fb_tag s1 = (case filter (\<lambda>t. read_u32 m t = 8) ts of [] \<Rightarrow> None | t # _ \<Rightarrow> Some (parse_mb2_fb_tag m (t + 8)))"
    using mb2_tags_walk [OF assms, of boot_statics] by (auto simp: boot_statics_def set_mb2_fb_tag_def split: list.splits)
  have "find P xs = (case filter P xs of [] \<Rightarrow> None | x # _ \<Rightarrow> Some x)" for P and xs :: "u32 list"
    by (induction xs) auto
  then have "bs_fb_tag s1 = map_option (\<lambda>t. parse_mb2_fb_tag m (t + 8)) (find (\<lambda>t. read_u32 m t = 8) ts)"
    using s1(4) by (auto split: list.splits)
  then show ?thesis
    using s1(1) register_standard_pc [OF s1(2)] unfolding s1(3) take_take_append by (simp add: mb2_discover_def Let_def)
qed

text \<open>A loader that reports 63 MB of memory from 1 MB on.\<close>

definition demo_info :: "u8 list" where
  "demo_info = [56, 0, 0, 0, 0, 0, 0, 0,
     6, 0, 0, 0, 40, 0, 0, 0, 24, 0, 0, 0, 0, 0, 0, 0,
     0, 0, 16, 0, 0, 0, 0, 0, 0, 0, 240, 3, 0, 0, 0, 0, 1, 0, 0, 0, 0, 0, 0, 0,
     0, 0, 0, 0, 8, 0, 0, 0]"

definition demo_memory :: memory where
  "demo_memory a = (let i = unat (a - 0x9000) in if i < 56 then demo_info ! i else 0)"

theorem mb2_discover_exact_witness:
  "\<exists>s. mb2_discover demo_memory MB2_MAGIC 0x9000 boot_statics = (Ok (), s) \<and>
    memory_regions (bs_platform s) = [\<lparr>reg_base = 0x100000, reg_size = 0x3F00000, reg_type = Available\<rparr>,
      \<lparr>reg_base = 0x100000, reg_size = 0x7F00000, reg_type = Available\<rparr>, \<lparr>reg_base = 0xA0000, reg_size = 0x60000, reg_type = Mmio\<rparr>]"
proof -
  have w: "tags_at demo_memory (0x9000 + read_u32 demo_memory 0x9000) (0x9000 + 8) [0x9008]" by code_simp
  have r: "read_u32 demo_memory 0x9008 = 6" "read_u32 demo_memory 0x900C = 40" "read_u32 demo_memory 0x9010 = 24" "read_u32 demo_memory 0x9014 = 0"
    by code_simp+
  have "tag_ok demo_memory 0x9008" using r by (simp add: tag_ok_def)
  moreover have "mb2_entry demo_memory 0x9018 = \<lparr>reg_base = 0x100000, reg_size = 0x3F00000, reg_type = Available\<rparr>" by code_simp
  ultimately show ?thesis
    using mb2_discover_exact [OF w] r by (auto simp: tag_entries_def entry_addrs_def MAX_MEMORY_REGIONS_def)
qed

section \<open>Boards\<close>

text \<open>
  Booting on ARM.  Whatever the CPU identification register and the loader say, platform
  initialisation on the 32-bit ARM target ends in the error of an unknown CPU: the identification
  that is compared has twelve bits, the part numbers in the table have sixteen.
\<close>

lemma arm_boot_unknown_cpu:
  "fst (boot_init Arm midr m (determine_boot_info Arm m machine_type atags) boot_statics) = Err ''unknown ARM CPU''"
proof -
  have "unat (read_arm_cpu_id Arm midr) < 2 ^ 12"
    by (simp add: read_arm_cpu_id_def unat_and_mask [where k = 12, unfolded mask_eq_exp_minus_1, simplified])
  then have "read_arm_cpu_id Arm midr \<notin> {0xB760, 0xC070, 0xD030}" by auto
  then have "probe_platform Arm midr p = (Err ''unknown ARM CPU'', p)" for p
    by (simp add: probe_platform_def probe_arm_def Let_def)
  then show ?thesis
    by (simp add: boot_init_def determine_boot_info_def discover_boot_def dt_discover_def pb_begin_def boot_statics_def
        platform_statics_def split: boot_info.splits)
qed

section \<open>The tables stay well formed\<close>

lemma register_devices_ok:
  assumes "platform_ok p"
  shows "platform_ok (snd (probe_platform target midr p))"
  using assms register_standard_pc(1) [OF assms]
  by (auto simp: probe_platform_def probe_x86_def probe_arm_def bcm2835_devices_def bcm2836_devices_def bcm2837_devices_def
      add_ram_region_def add_mmio_region_def Let_def platform_simps split: architecture.splits)

lemmas mb2_entries_induct = mb2_entries.raw_induct [rotated, consumes 1, case_names step]
lemmas mb2_tags_induct = mb2_tags.raw_induct [rotated, consumes 1, case_names step]

lemma mb2_entries_ok: "mb2_entries m sz e entry p = Some p' \<Longrightarrow> platform_ok p \<Longrightarrow> platform_ok p'"
proof (induction m sz e entry p p' rule: mb2_entries_induct)
  case (step rec m sz e entry p p')
  then show ?case by (auto simp: add_memory_region_ok split: if_splits)
qed

lemma parse_tag_keeps: "parse_tag m t s = Some (r, s') \<Longrightarrow> platform_ok (bs_platform s) \<Longrightarrow> platform_ok (bs_platform s')"
  by (auto simp: parse_tag_def parse_cmdline_def parse_memory_map_def parse_framebuffer_def Let_def platform_simps
      split: if_splits dest: mb2_entries_ok)

lemma mb2_tags_keeps: "mb2_tags m e tag s = Some y \<Longrightarrow> platform_ok (bs_platform s) \<Longrightarrow> platform_ok (bs_platform (snd y))"
proof (induction m e tag s y rule: mb2_tags_induct)
  case (step rec m e tag s y)
  then show ?case
    by (cases y) (auto simp: Let_def bind_eq_Some_conv split: if_splits dest!: parse_tag_keeps)
qed

text \<open>
  C34. The tables of the platform.  Whatever the loader left in memory and whichever way discovery
  takes, the counts of memory regions and devices stay within their arrays and every entry below
  the device count is filled: the queries never index outside the tables.
\<close>

theorem boot_tables_ok:
  "platform_ok (bs_platform (snd (boot_init target midr m info boot_statics)))"
proof -
  have start: "pb_begin platform_statics = (Ok (), platform_statics\<lparr>pf_initialized := True\<rparr>)" by (simp add: pb_begin_def platform_statics_def)
  define p where "p = set_arch target (platform_statics\<lparr>pf_initialized := True\<rparr>)"
  define s where "s = boot_statics\<lparr>bs_platform := p\<rparr>"
  have p: "platform_ok p" using platform_statics_ok(1) by (simp add: p_def set_arch_def platform_ok_def)
  obtain r s1 where d: "discover_boot m info s = (r, s1)" by (cases "discover_boot m info s")
  have s1: "platform_ok (bs_platform s1)"
    using d p register_standard_pc(1)
    by (auto simp: discover_boot_def mb2_discover_def dt_discover_def Let_def s_def
        split: boot_info.splits if_splits option.splits dest!: mb2_tags_keeps)
  have "boot_init target midr m info boot_statics = (case (r, s1) of
      (Diverge, s) \<Rightarrow> (Diverge, s)
    | (r, s) \<Rightarrow> (case if is_ok r then (Ok (), bs_platform s) else probe_platform target midr (bs_platform s) of
        (Ok _, p) \<Rightarrow> (Ok (), s\<lparr>bs_platform := set_platform_name (determine_platform_name target p) p\<rparr>)
      | (e, p) \<Rightarrow> (e, s\<lparr>bs_platform := p\<rparr>)))"
    using d by (simp add: boot_init_def s_def p_def boot_statics_def start)
  then show ?thesis
    using s1 register_devices_ok [OF s1, of target midr]
    by (auto simp: platform_simps split: outcome.splits prod.splits if_splits)
qed

end
