(* ===== verification/Std_Streams.thy ===== *)
theory Std_Streams
  imports Dev_Files Boot_Properties
begin

text \<open>
  The standard streams of a process on the devices that the kernel registers at boot.  The
  descriptor table opens its three streams on the serial port with the name \<^verbatim>\<open>console\<close>; the
  platform tables name their ports \<^verbatim>\<open>serial0\<close> and \<^verbatim>\<open>uart0\<close>.
\<close>

section \<open>The names of the devices\<close>

definition no_console :: "platform \<Rightarrow> bool" where
  "no_console p \<longleftrightarrow> platform_ok p \<and> (\<forall>d \<in> set (devices p). dev_name d \<noteq> ''console'')"

lemma no_console_add [platform_simps]:
  "no_console p \<Longrightarrow> no_console (add_memory_region r p)"
  "no_console p \<Longrightarrow> dev_name d \<noteq> ''console'' \<Longrightarrow> no_console (add_device d p)"
  by (auto simp: no_console_def add_memory_region_ok add_device_ok)

lemma mk_device_name [simp]: "dev_name (mk_device name compatible base len irq) = name"
  by (simp add: mk_device_def)

lemma register_standard_pc_names: "no_console p \<Longrightarrow> no_console (register_standard_pc_devices p)"
  by (simp add: register_standard_pc_devices_def add_ram_region_def add_mmio_region_def no_console_add)

lemma probe_names: "no_console p \<Longrightarrow> no_console (snd (probe_platform target midr p))"
  by (auto simp: probe_platform_def probe_x86_def probe_arm_def bcm2835_devices_def bcm2836_devices_def bcm2837_devices_def
      add_ram_region_def add_mmio_region_def Let_def no_console_add register_standard_pc_names split: architecture.splits)

lemma mb2_entries_names: "mb2_entries m sz e entry p = Some p' \<Longrightarrow> no_console p \<Longrightarrow> no_console p'"
proof (induction m sz e entry p p' rule: mb2_entries_induct)
  case (step rec m sz e entry p p')
  then show ?case by (auto simp: no_console_add split: if_splits)
qed

lemma no_console_fields [simp]:
  "no_console (set_cmdline c p) = no_console p" "no_console (set_arch a p) = no_console p"
  "no_console (set_platform_name n p) = no_console p" "no_console (p\<lparr>pf_initialized := b\<rparr>) = no_console p"
  by (simp_all add: no_console_def platform_ok_def devices_def set_cmdline_def set_arch_def set_platform_name_def)

lemma parse_tag_names: "parse_tag m t s = Some (r, s') \<Longrightarrow> no_console (bs_platform s) \<Longrightarrow> no_console (bs_platform s')"
  by (auto simp: parse_tag_def parse_cmdline_def parse_memory_map_def parse_framebuffer_def Let_def no_console_add
      split: if_splits dest: mb2_entries_names)

lemma mb2_tags_names: "mb2_tags m e tag s = Some y \<Longrightarrow> no_console (bs_platform s) \<Longrightarrow> no_console (bs_platform (snd y))"
proof (induction m e tag s y rule: mb2_tags_induct)
  case (step rec m e tag s y)
  then show ?case
    by (cases y) (auto simp: Let_def bind_eq_Some_conv split: if_splits dest!: parse_tag_names)
qed

lemma discover_names: "no_console (bs_platform s) \<Longrightarrow> no_console (bs_platform (snd (discover_boot m info s)))"
  by (auto simp: discover_boot_def mb2_discover_def dt_discover_def Let_def register_standard_pc_names
      split: boot_info.splits option.splits dest!: mb2_tags_names)

lemma boot_names: "no_console (bs_platform (snd (boot_init target midr m info boot_statics)))"
proof -
  define s where "s = boot_statics\<lparr>bs_platform := set_arch target (platform_statics\<lparr>pf_initialized := True\<rparr>)\<rparr>"
  have "no_console platform_statics" by (simp add: no_console_def)
  then have s: "no_console (bs_platform s)" by (simp add: s_def)
  obtain r s1 where d: "discover_boot m info s = (r, s1)" by (cases "discover_boot m info s")
  have s1: "no_console (bs_platform s1)" using discover_names [OF s, of m info] d by simp
  have "boot_init target midr m info boot_statics = (case (r, s1) of
      (Diverge, s) \<Rightarrow> (Diverge, s)
    | (r, s) \<Rightarrow> (case if is_ok r then (Ok (), bs_platform s) else probe_platform target midr (bs_platform s) of
        (Ok _, p) \<Rightarrow> (Ok (), s\<lparr>bs_platform := set_platform_name (determine_platform_name target p) p\<rparr>)
      | (e, p) \<Rightarrow> (e, s\<lparr>bs_platform := p\<rparr>)))"
    using d by (simp add: boot_init_def s_def boot_statics_def pb_begin_def platform_statics_def)
  then show ?thesis
    using s1 probe_names [OF s1, of target midr] by (auto split: outcome.splits prod.splits if_splits)
qed

text \<open>Registering devices of other names leaves the name \<^verbatim>\<open>console\<close> free.\<close>

definition console_free :: "'h device_manager \<Rightarrow> bool" where
  "console_free dm \<longleftrightarrow> dm_ok dm \<and> dm_get dm ''console'' = None"

lemma console_free_register: "console_free dm \<Longrightarrow> name \<noteq> ''console'' \<Longrightarrow> console_free (dm_register dm name d)"
  by (simp add: console_free_def dm_register_ok dm_get_register)

lemma console_free_channel: "console_free dm \<Longrightarrow> console_free (dm\<lparr>dm_sys_timer_channel := c\<rparr>)"
  by (simp add: console_free_def dm_ok_def dm_get_def)

lemma init_device_console:
  "console_free dm \<Longrightarrow> dev_name d \<noteq> ''console'' \<Longrightarrow> console_free (snd (init_device target d dm))"
  by (auto simp: init_device_def Let_def register_serial_def register_timer_def register_interrupt_controller_def
      register_block_def intro!: console_free_register console_free_channel split: outcome.split option.split)

lemma init_devices_console:
  "console_free dm \<Longrightarrow> \<forall>d \<in> set ds. dev_name d \<noteq> ''console'' \<Longrightarrow> console_free (snd (init_loop_devices target ds dm))"
proof (induction ds arbitrary: dm)
  case (Cons d ds)
  then show ?case using init_device_console [of dm d target]
    by (cases "init_device target d dm"; cases "fst (init_device target d dm)") auto
qed simp

section \<open>Properties\<close>

text \<open>
  C21. The standard streams of a process reach no device.  Whatever the boot loader reported and
  whichever way discovery took, none of the devices that the kernel registers at boot has the name
  \<^verbatim>\<open>console\<close>, under which descriptors 0, 1 and 2 of every new descriptor table look up their serial
  port.  So reading descriptor 0 and writing descriptors 1 and 2 fail with \<^verbatim>\<open>IoError\<close>, touch no port
  and leave the descriptor's offset alone.
\<close>

theorem std_streams_unconnected:
  assumes "dw_dm w = snd (init_devices target (bs_platform (snd (boot_init target midr m info boot_statics))) device_manager_new)"
    and "fd \<in> {STDOUT, STDERR}"
  shows "(\<exists>d. fd_get (fd_table_new (uart_file_ops ports (uart_file_new 0))) STDIN = Ok d \<and>
      fd_read d buf w = (Err FdIoError, d, w)) \<and>
    (\<exists>d. fd_get (fd_table_new (uart_file_ops ports (uart_file_new 0))) fd = Ok d \<and> fd_write d buf w = (Err FdIoError, d, w))"
proof -
  have "console_free device_manager_new" by (simp add: console_free_def dm_ok_def dm_get_def device_manager_new_def bt_ok_def bt_keys_def)
  then have "console_free (dw_dm w)"
    unfolding assms(1) init_devices_def using boot_names by (intro init_devices_console) (auto simp: no_console_def)
  then have none: "dm_serial (dw_dm w) ''console'' = None" by (simp add: console_free_def dm_serial_def)
  let ?f = "uart_file_ops ports (uart_file_new 0)"
  have "fd_read (file_descriptor_new ?f 0 RDONLY) buf w = (Err FdIoError, file_descriptor_new ?f 0 RDONLY, w)"
    using none by (simp add: fd_read_def file_descriptor_new_def uart_file_ops_def uart_read_def uart_device_name_def
        uart_file_new_def has_flags_def RDONLY_def ACC_READ_def)
  moreover have "fd_write (file_descriptor_new ?f 0 WRONLY) buf w = (Err FdIoError, file_descriptor_new ?f 0 WRONLY, w)"
    using none by (simp add: fd_write_def file_descriptor_new_def uart_file_ops_def uart_write_def uart_device_name_def
        uart_file_new_def has_flags_def WRONLY_def ACC_WRITE_def ACC_APPEND_def)
  ultimately show ?thesis using assms(2) by (auto simp: fd_get_def fd_table_new_def STDIN_def STDOUT_def STDERR_def)
qed

text \<open>A PC started by another loader: the port is there, under the name \<^verbatim>\<open>serial0\<close>, and standard output fails.\<close>

definition pc_platform :: platform where
  "pc_platform = register_standard_pc_devices (set_arch X86 (platform_statics\<lparr>pf_initialized := True\<rparr>))"

definition pc_devices :: "driver device_manager" where
  "pc_devices = dm_register device_manager_new ''serial0'' (Serial (Uart16550Pio 0x3F8))"

definition pc_world :: "(driver, demo_uart) dev_world" where
  "pc_world = \<lparr>dw_dm = pc_devices, dw_port = (\<lambda>_. demo_idle), dw_mem = (\<lambda>_. 0)\<rparr>"

lemma pc_boot_devices:
  "pc_devices = snd (init_devices X86 (bs_platform (snd (boot_init X86 0 (\<lambda>_. 0) Raw boot_statics))) device_manager_new)"
proof -
  have "determine_platform_name X86 pc_platform = ''Generic PC (x86)''" by code_simp
  then have "boot_init X86 0 (\<lambda>_. 0) Raw boot_statics =
      (Ok (), boot_statics\<lparr>bs_platform := set_platform_name ''Generic PC (x86)'' pc_platform\<rparr>)"
    by (simp add: boot_init_def discover_boot_def pb_begin_def boot_statics_def probe_platform_def probe_x86_def pc_platform_def)
      (simp add: platform_statics_def)
  moreover have "init_devices X86 (set_platform_name ''Generic PC (x86)'' pc_platform) device_manager_new = (Ok (), pc_devices)"
    by code_simp
  ultimately show ?thesis by (simp add: boot_statics_def)
qed

theorem std_streams_unconnected_witness:
  "serial_console (dw_dm pc_world) = Some (Uart16550Pio 0x3F8) \<and>
   (\<exists>d. fd_get (fd_table_new (uart_file_ops (\<lambda>_. demo_ports 0) (uart_file_new 0))) STDOUT = Ok d \<and>
     fd_write d [104, 105] pc_world = (Err FdIoError, d, pc_world))"
proof -
  have "serial_console pc_devices = Some (Uart16550Pio 0x3F8)" by code_simp
  moreover have "dw_dm pc_world = snd (init_devices X86 (bs_platform (snd (boot_init X86 0 (\<lambda>_. 0) Raw boot_statics))) device_manager_new)"
    by (simp add: pc_world_def pc_boot_devices)
  ultimately show ?thesis
    using std_streams_unconnected [of pc_world X86 0 "\<lambda>_. 0" Raw STDOUT "\<lambda>_. demo_ports 0" "[104, 105]"]
    by (simp add: pc_world_def)
qed

end
