(* ===== verification/Fat32.thy ===== *)
theory Fat32
  imports Block_Device Vfs Frame_Buffer
begin

text \<open>
  The FAT32 file system (\<^verbatim>\<open>kernel/src/fs/fat/fat32.rs\<close>): the geometry read from the boot sector, the
  file allocation table, cluster chains, directories and files.  The block device is a parameter
  \<open>dev\<close> with state \<open>'d\<close>.  The locks are held for one whole call each, so an operation is one step.
\<close>

section \<open>Errors and geometry\<close>

datatype fat32_error =
  FatNotFound | FatIoError | FatReadError | FatWriteError | FatInvalidPath | FatInvalidCluster | FatIsADirectory
  | FatNotADirectory | FatDiskFull

fun fat_error_into :: "fat32_error \<Rightarrow> fs_error" where
  "fat_error_into FatNotFound = NotFound"
| "fat_error_into FatIoError = IoError"
| "fat_error_into FatReadError = IoError"
| "fat_error_into FatWriteError = IoError"
| "fat_error_into FatInvalidPath = NotFound"
| "fat_error_into FatInvalidCluster = NotFound"
| "fat_error_into FatIsADirectory = IsADirectory"
| "fat_error_into FatNotADirectory = NotADirectory"
| "fat_error_into FatDiskFull = IoError"

record fat_info =
  bytes_per_sector :: u16
  sectors_per_cluster :: u8
  reserved_sector_count :: u16
  num_fats :: u8
  num_dir_entries :: u16
  sectors_per_fat :: u64
  root_cluster :: u32
  fat_start_lba :: u64
  cluster_heap_start_lba :: u64
  partition_start_lba :: u64
  total_clusters :: u32

definition le16_at :: "u8 list \<Rightarrow> nat \<Rightarrow> u16" where
  "le16_at b i = from_le16 (b ! i) (b ! (i + 1))"

definition le32_at :: "u8 list \<Rightarrow> nat \<Rightarrow> u32" where
  "le32_at b i = from_le32 (b ! i) (b ! (i + 1)) (b ! (i + 2)) (b ! (i + 3))"

definition fat_info_parse :: "u8 list \<Rightarrow> (fat_info, fat32_error) outcome" where
  "fat_info_parse boot =
     (let spc = boot ! 13;
          reserved = le16_at boot 14;
          nfats = boot ! 16;
          spf = ucast (le32_at boot 36) :: u64;
          small = ucast (le16_at boot 19) :: u32;
          total_sectors = (if small \<noteq> 0 then small else le32_at boot 32);
          data_sectors = (ucast total_sectors - ucast reserved) - ucast nfats * spf :: u64 in
      if spc = 0 then Panic
      else
        Ok \<lparr>bytes_per_sector = le16_at boot 11, sectors_per_cluster = spc, reserved_sector_count = reserved,
            num_fats = nfats, num_dir_entries = le16_at boot 17, sectors_per_fat = spf, root_cluster = le32_at boot 44,
            fat_start_lba = 0, cluster_heap_start_lba = 0, partition_start_lba = 0,
            total_clusters = ucast (data_sectors div ucast spc)\<rparr>)"

definition fat_mount :: "'d dyn_block_device \<Rightarrow> ('d, fat_info, fat32_error) io" where
  "fat_mount dev =
     io_bind (io_map_err (\<lambda>_. FatReadError) (dbd_read_block dev 0 (replicate 512 0))) (\<lambda>mbr.
     let start = le32_at mbr 454 in
     io_bind (io_map_err (\<lambda>_. FatReadError) (dbd_read_block dev (ucast start) (replicate 512 0))) (\<lambda>boot.
     io_bind (of_result (fat_info_parse boot)) (\<lambda>fat.
     let fat_start = ucast start + ucast (reserved_sector_count fat);
         total_fat_sectors = ucast (num_fats fat) * sectors_per_fat fat in
     ok (fat\<lparr>partition_start_lba := ucast start, fat_start_lba := fat_start,
             cluster_heap_start_lba := fat_start + total_fat_sectors\<rparr>))))"

section \<open>The file allocation table\<close>

text \<open>The sector size as a length, and the position of an entry: its sector and its index there.\<close>

abbreviation bps :: "fat_info \<Rightarrow> nat" where
  "bps fi \<equiv> unat (bytes_per_sector fi)"

definition entry_sector :: "fat_info \<Rightarrow> u32 \<Rightarrow> u64" where
  "entry_sector fi cluster = fat_start_lba fi + (ucast cluster * 4) div ucast (bytes_per_sector fi)"

definition entry_index :: "fat_info \<Rightarrow> u32 \<Rightarrow> nat" where
  "entry_index fi cluster = unat ((ucast cluster * 4 :: u64) mod ucast (bytes_per_sector fi))"

definition splice :: "u8 list \<Rightarrow> nat \<Rightarrow> u8 list \<Rightarrow> u8 list" where
  "splice buf i xs = take i buf @ xs @ drop (i + length xs) buf"

definition fat_read_block :: "'d dyn_block_device \<Rightarrow> fat_info \<Rightarrow> u64 \<Rightarrow> ('d, u8 list, fat32_error) io" where
  "fat_read_block dev fi lba = io_map_err (\<lambda>_. FatReadError) (dbd_read_block dev lba (replicate (bps fi) 0))"

definition fat_write_block :: "'d dyn_block_device \<Rightarrow> u64 \<Rightarrow> u8 list \<Rightarrow> ('d, unit, fat32_error) io" where
  "fat_write_block dev lba buf = io_map_err (\<lambda>_. FatWriteError) (dbd_write_block dev lba buf)"

text \<open>
  An entry that crosses a sector is read and written in two parts; the copy into four bytes panics
  when a sector is too short for the second part.
\<close>

definition read_fat_entry_unlocked :: "'d dyn_block_device \<Rightarrow> fat_info \<Rightarrow> u32 \<Rightarrow> ('d, u32, fat32_error) io" where
  "read_fat_entry_unlocked dev fi cluster =
     (if bytes_per_sector fi = 0 then panic
      else
        let sector = entry_sector fi cluster; idx = entry_index fi cluster in
        io_bind (fat_read_block dev fi sector) (\<lambda>buf.
          if idx + 4 \<le> length buf then ok (le32_at buf idx AND 0x0FFFFFFF)
          else
            io_bind (fat_read_block dev fi (sector + 1)) (\<lambda>next.
              let first = length buf - idx in
              if length next < 4 - first then panic
              else ok (le32_at (drop idx buf @ take (4 - first) next) 0 AND 0x0FFFFFFF))))"

definition read_fat_entry :: "'d dyn_block_device \<Rightarrow> fat_info \<Rightarrow> u32 \<Rightarrow> ('d, u32, fat32_error) io" where
  "read_fat_entry dev fi cluster = read_fat_entry_unlocked dev fi cluster"

definition mirror_fats :: "'d dyn_block_device \<Rightarrow> fat_info \<Rightarrow> u64 \<Rightarrow> u8 list \<Rightarrow> ('d, unit, fat32_error) io" where
  "mirror_fats dev fi sector buf =
     each (\<lambda>fat_idx. fat_write_block dev (sector + of_nat fat_idx * sectors_per_fat fi) buf) [1..<unat (num_fats fi)]"

definition write_fat_entry_unlocked :: "'d dyn_block_device \<Rightarrow> fat_info \<Rightarrow> u32 \<Rightarrow> u32 \<Rightarrow> ('d, unit, fat32_error) io" where
  "write_fat_entry_unlocked dev fi cluster v =
     (if bytes_per_sector fi = 0 then panic
      else
        let bytes = to_le32 (v AND 0x0FFFFFFF); sector = entry_sector fi cluster; idx = entry_index fi cluster in
        io_bind (fat_read_block dev fi sector) (\<lambda>buf.
          if idx + 4 \<le> length buf then
            let buf = splice buf idx bytes in
            io_bind (fat_write_block dev sector buf) (\<lambda>_. mirror_fats dev fi sector buf)
          else
            io_bind (fat_read_block dev fi (sector + 1)) (\<lambda>next.
              let first = length buf - idx in
              if length next < 4 - first then panic
              else
                let buf = splice buf idx (take first bytes); next = splice next 0 (drop first bytes) in
                io_bind (fat_write_block dev sector buf) (\<lambda>_.
                io_bind (fat_write_block dev (sector + 1) next) (\<lambda>_.
                mirror_fats dev fi sector buf)))))"

section \<open>Clusters\<close>

definition FAT32_EOC :: u32 where "FAT32_EOC = 0x0FFFFFF8"

definition END_MARK :: u32 where "END_MARK = 0x0FFFFFFF"

partial_function (option) chain_loop ::
  "'d dyn_block_device \<Rightarrow> fat_info \<Rightarrow> u32 \<Rightarrow> u32 list \<Rightarrow> 'd \<Rightarrow> ((u32 list, fat32_error) outcome \<times> 'd) option" where
  "chain_loop dev fi cur chain d =
     (if cur < 2 then Some (Err FatInvalidCluster, d)
      else
        case run_state (read_fat_entry dev fi cur) d of (r, d) \<Rightarrow>
          case r of
            Ok next \<Rightarrow>
              if next \<ge> FAT32_EOC then Some (Ok (chain @ [cur]), d)
              else if next = 0 then Some (Err FatInvalidCluster, d)
              else chain_loop dev fi next (chain @ [cur]) d
          | Err e \<Rightarrow> Some (Err e, d) | Panic \<Rightarrow> Some (Panic, d) | Diverge \<Rightarrow> Some (Diverge, d))"

declare chain_loop.simps [code]

definition get_chain :: "'d dyn_block_device \<Rightarrow> fat_info \<Rightarrow> u32 \<Rightarrow> ('d, u32 list, fat32_error) io" where
  "get_chain dev fi start =
     State (\<lambda>d. case chain_loop dev fi start [] d of None \<Rightarrow> (Diverge, d) | Some r \<Rightarrow> r)"

fun alloc_scan :: "'d dyn_block_device \<Rightarrow> fat_info \<Rightarrow> u32 list \<Rightarrow> ('d, u32, fat32_error) io" where
  "alloc_scan dev fi [] = fail FatDiskFull"
| "alloc_scan dev fi (cluster # cs) =
     io_bind (read_fat_entry_unlocked dev fi cluster) (\<lambda>entry.
       if entry = 0 then io_bind (write_fat_entry_unlocked dev fi cluster END_MARK) (\<lambda>_. ok cluster)
       else alloc_scan dev fi cs)"

definition alloc_cluster :: "'d dyn_block_device \<Rightarrow> fat_info \<Rightarrow> ('d, u32, fat32_error) io" where
  "alloc_cluster dev fi = alloc_scan dev fi (u32_range 2 (total_clusters fi))"

definition link_cluster :: "'d dyn_block_device \<Rightarrow> fat_info \<Rightarrow> u32 \<Rightarrow> u32 \<Rightarrow> ('d, unit, fat32_error) io" where
  "link_cluster dev fi last_cluster new_cluster =
     io_bind (write_fat_entry_unlocked dev fi last_cluster new_cluster) (\<lambda>_.
       write_fat_entry_unlocked dev fi new_cluster END_MARK)"

definition bytes_per_cluster :: "fat_info \<Rightarrow> u32" where
  "bytes_per_cluster fi = ucast (bytes_per_sector fi) * ucast (sectors_per_cluster fi)"

fun extend_loop :: "'d dyn_block_device \<Rightarrow> fat_info \<Rightarrow> nat \<Rightarrow> u32 \<Rightarrow> ('d, unit, fat32_error) io" where
  "extend_loop dev fi 0 last_cluster = ok ()"
| "extend_loop dev fi (Suc n) last_cluster =
     io_bind (alloc_cluster dev fi) (\<lambda>new_cluster.
       io_bind (link_cluster dev fi last_cluster new_cluster) (\<lambda>_. extend_loop dev fi n new_cluster))"

definition extend_file :: "'d dyn_block_device \<Rightarrow> fat_info \<Rightarrow> u32 \<Rightarrow> u32 \<Rightarrow> ('d, unit, fat32_error) io" where
  "extend_file dev fi start_cluster new_size =
     (if bytes_per_cluster fi = 0 then panic
      else
        let clusters_needed = (new_size + bytes_per_cluster fi - 1) div bytes_per_cluster fi in
        io_bind (get_chain dev fi start_cluster) (\<lambda>chain.
          if unat clusters_needed \<le> length chain then ok ()
          else extend_loop dev fi (unat clusters_needed - length chain) (last chain)))"

definition cluster_to_lba :: "fat_info \<Rightarrow> u32 \<Rightarrow> u64" where
  "cluster_to_lba fi cluster = cluster_heap_start_lba fi + ucast (cluster - 2) * ucast (sectors_per_cluster fi)"

section \<open>Directory entries\<close>

text \<open>\<^verbatim>\<open>trim_end\<close>: dropping white space from the end, on the reversed bytes.\<close>

fun trim_rev :: "u8 list \<Rightarrow> u8 list" where
  "trim_rev [] = []"
| "trim_rev (c # r) =
     (if 9 \<le> c \<and> c \<le> 13 \<or> c = 0x20 then trim_rev r
      else
        case r of
          b # r1 \<Rightarrow>
            if b = 0xC2 \<and> (c = 0x85 \<or> c = 0xA0) then trim_rev r1
            else
              (case r1 of
                 a # r2 \<Rightarrow>
                   if (a, b, c) = (0xE1, 0x9A, 0x80) \<or> a = 0xE2 \<and> b = 0x80 \<and> (0x80 \<le> c \<and> c \<le> 0x8A \<or> c = 0xA8 \<or> c = 0xA9 \<or> c = 0xAF)
                      \<or> (a, b, c) = (0xE2, 0x81, 0x9F) \<or> (a, b, c) = (0xE3, 0x80, 0x80)
                   then trim_rev r2 else c # r
               | [] \<Rightarrow> c # r)
        | [] \<Rightarrow> c # r)"

definition name_part :: "u8 list \<Rightarrow> string" where
  "name_part bs = to_string (rev (trim_rev (rev (if utf8_valid bs then bs else []))))"

definition parse_83 :: "u8 list \<Rightarrow> string" where
  "parse_83 raw =
     (let base = name_part (take 8 raw); ext = name_part (take 3 (drop 8 raw)) in
      if ext = [] then base else base @ ''.'' @ ext)"

record dir_entry =
  de_name :: string
  de_first_cluster :: u32
  de_size :: u32
  de_is_dir :: bool

definition parse_dir_entry :: "u8 list \<Rightarrow> dir_entry option" where
  "parse_dir_entry raw =
     (let attr = raw ! 11 in
      if raw ! 0 = 0xE5 then None
      else if attr = 0x0F \<or> attr AND 0x08 \<noteq> 0 then None
      else
        let name = parse_83 raw;
            hi = ucast (le16_at raw 20) :: u32;
            lo = ucast (le16_at raw 26) :: u32;
            size = le32_at raw 28;
            first_cluster = push_bit 16 hi OR lo in
        if name = ''.'' \<or> name = ''..'' then None
        else if first_cluster < 2 \<and> size \<noteq> 0 then None
        else Some \<lparr>de_name = name, de_first_cluster = first_cluster, de_size = size, de_is_dir = (attr AND 0x10 \<noteq> 0)\<rparr>)"

definition ascii_lower :: "char \<Rightarrow> char" where
  "ascii_lower c = (let n = of_char c :: nat in if 65 \<le> n \<and> n \<le> 90 then char_of (n + 32) else c)"

definition eq_ignore_ascii_case :: "string \<Rightarrow> string \<Rightarrow> bool" where
  "eq_ignore_ascii_case a b \<longleftrightarrow> map ascii_lower a = map ascii_lower b"

section \<open>Directories\<close>

text \<open>The 32-byte records of a sector, and the sectors of a chain of clusters in order.\<close>

definition dir_records :: "u8 list \<Rightarrow> u8 list list" where
  "dir_records sector = map (\<lambda>i. take 32 (drop (i * 32) sector)) [0..<length sector div 32]"

definition dir_sectors :: "fat_info \<Rightarrow> u32 list \<Rightarrow> u64 list" where
  "dir_sectors fi chain =
     concat (map (\<lambda>cluster. map (\<lambda>s. cluster_to_lba fi cluster + of_nat s) [0..<unat (sectors_per_cluster fi)]) chain)"

text \<open>The entries of a run of records, and whether the end of the directory was met.\<close>

fun scan_list :: "dir_entry list \<Rightarrow> u8 list list \<Rightarrow> bool \<times> dir_entry list" where
  "scan_list entries [] = (False, entries)"
| "scan_list entries (raw # rs) =
     (if raw ! 0 = 0 then (True, entries)
      else scan_list (case parse_dir_entry raw of Some e \<Rightarrow> entries @ [e] | None \<Rightarrow> entries) rs)"

fun list_sectors :: "'d dyn_block_device \<Rightarrow> u64 list \<Rightarrow> u8 list \<Rightarrow> dir_entry list \<Rightarrow> ('d, dir_entry list, fat32_error) io" where
  "list_sectors dev [] sector entries = ok entries"
| "list_sectors dev (lba # lbas) sector entries =
     io_bind (io_map_err (\<lambda>_. FatReadError) (dbd_read_block dev lba sector)) (\<lambda>sector.
       case scan_list entries (dir_records sector) of
         (True, entries) \<Rightarrow> ok entries
       | (False, entries) \<Rightarrow> list_sectors dev lbas sector entries)"

definition list_entries :: "'d dyn_block_device \<Rightarrow> fat_info \<Rightarrow> u32 \<Rightarrow> ('d, dir_entry list, fat32_error) io" where
  "list_entries dev fi start_cluster =
     io_bind (get_chain dev fi start_cluster) (\<lambda>chain.
       list_sectors dev (dir_sectors fi chain) (replicate (bps fi) 0) [])"

fun scan_find :: "string \<Rightarrow> u8 list list \<Rightarrow> (dir_entry, fat32_error) outcome option" where
  "scan_find name [] = None"
| "scan_find name (raw # rs) =
     (if raw ! 0 = 0 then Some (Err FatNotFound)
      else
        case parse_dir_entry raw of
          Some e \<Rightarrow> if eq_ignore_ascii_case (de_name e) name then Some (Ok e) else scan_find name rs
        | None \<Rightarrow> scan_find name rs)"

fun find_sectors :: "'d dyn_block_device \<Rightarrow> string \<Rightarrow> u64 list \<Rightarrow> u8 list \<Rightarrow> ('d, dir_entry, fat32_error) io" where
  "find_sectors dev name [] sector = fail FatNotFound"
| "find_sectors dev name (lba # lbas) sector =
     io_bind (io_map_err (\<lambda>_. FatReadError) (dbd_read_block dev lba sector)) (\<lambda>sector.
       case scan_find name (dir_records sector) of
         Some r \<Rightarrow> of_result r
       | None \<Rightarrow> find_sectors dev name lbas sector)"

definition find_entry :: "'d dyn_block_device \<Rightarrow> fat_info \<Rightarrow> u32 \<Rightarrow> string \<Rightarrow> ('d, dir_entry, fat32_error) io" where
  "find_entry dev fi start_cluster name =
     io_bind (get_chain dev fi start_cluster) (\<lambda>chain.
       find_sectors dev name (dir_sectors fi chain) (replicate (bps fi) 0))"

section \<open>Paths\<close>

text \<open>\<^verbatim>\<open>path.split('/').filter(|s| !s.is_empty())\<close> and \<^verbatim>\<open>parts.join("/")\<close>.\<close>

fun split_slash :: "string \<Rightarrow> string list" where
  "split_slash [] = [[]]"
| "split_slash (c # s) =
     (if c = CHR ''/'' then [] # split_slash s
      else case split_slash s of [] \<Rightarrow> [[c]] | p # ps \<Rightarrow> (c # p) # ps)"

definition path_parts :: "string \<Rightarrow> string list" where
  "path_parts path = filter (\<lambda>s. s \<noteq> []) (split_slash path)"

fun join_slash :: "string list \<Rightarrow> string" where
  "join_slash [] = []"
| "join_slash [p] = p"
| "join_slash (p # q # ps) = p @ ''/'' @ join_slash (q # ps)"

fun navigate_loop :: "'d dyn_block_device \<Rightarrow> fat_info \<Rightarrow> u32 \<Rightarrow> string list \<Rightarrow> ('d, u32, fat32_error) io" where
  "navigate_loop dev fi current_cluster [] = ok current_cluster"
| "navigate_loop dev fi current_cluster (part # parts) =
     io_bind (find_entry dev fi current_cluster part) (\<lambda>entry.
       if \<not> de_is_dir entry then fail FatNotADirectory
       else navigate_loop dev fi (de_first_cluster entry) parts)"

definition navigate_to_dir :: "'d dyn_block_device \<Rightarrow> fat_info \<Rightarrow> string \<Rightarrow> ('d, u32, fat32_error) io" where
  "navigate_to_dir dev fi path =
     (let parts = path_parts path in
      if parts = [] then ok (root_cluster fi) else navigate_loop dev fi (root_cluster fi) parts)"

definition parent_cluster :: "'d dyn_block_device \<Rightarrow> fat_info \<Rightarrow> string list \<Rightarrow> ('d, u32, fat32_error) io" where
  "parent_cluster dev fi parts =
     (let parent_parts = butlast parts in
      if parent_parts = [] then ok (root_cluster fi) else navigate_to_dir dev fi (join_slash parent_parts))"

definition fat_ls :: "'d dyn_block_device \<Rightarrow> fat_info \<Rightarrow> string \<Rightarrow> ('d, string list, fat32_error) io" where
  "fat_ls dev fi path =
     io_bind (navigate_to_dir dev fi path) (\<lambda>cluster.
       io_bind (list_entries dev fi cluster) (\<lambda>entries. ok (map de_name entries)))"

definition fat_stat :: "'d dyn_block_device \<Rightarrow> fat_info \<Rightarrow> string \<Rightarrow> ('d, file_stat, fat32_error) io" where
  "fat_stat dev fi path =
     (let parts = path_parts path in
      if parts = [] then ok \<lparr>st_size = 0, st_type = Directory, st_name = []\<rparr>
      else
        io_bind (parent_cluster dev fi parts) (\<lambda>parent.
          io_bind (find_entry dev fi parent (last parts)) (\<lambda>entry.
            ok \<lparr>st_size = de_size entry, st_type = (if de_is_dir entry then Directory else Regular),
                st_name = de_name entry\<rparr>)))"

end
