(* ===== verification/Fat32_Table.thy ===== *)
theory Fat32_Table
  imports Fat32
begin

text \<open>
  Correctness of the file allocation table: entries read back what was written, writes touch no
  other entry and no sector outside the tables, and a cluster chain is what following the entries
  gives.
\<close>

section \<open>Geometry\<close>

text \<open>
  Sectors hold whole entries, the tables fit into the address space of the device, and the clusters
  in use have their entries inside the first table.
\<close>

definition fat_ok :: "fat_info \<Rightarrow> bool" where
  "fat_ok fi \<longleftrightarrow> 0 < bps fi \<and> 4 dvd bps fi \<and> 0 < unat (num_fats fi) \<and>
     unat (fat_start_lba fi) + unat (num_fats fi) * unat (sectors_per_fat fi) < 2 ^ 64"

definition in_fat :: "fat_info \<Rightarrow> u32 \<Rightarrow> bool" where
  "in_fat fi c \<longleftrightarrow> unat c * 4 div bps fi < unat (sectors_per_fat fi)"

text \<open>The entry of a cluster on a disk.\<close>

definition fat_entry :: "fat_info \<Rightarrow> (u64 \<Rightarrow> u8 list) \<Rightarrow> u32 \<Rightarrow> u32" where
  "fat_entry fi disk c = le32_at (disk (entry_sector fi c)) (entry_index fi c) AND 0x0FFFFFFF"

lemma entry_index_nat: "entry_index fi c = unat c * 4 mod bps fi"
proof -
  have "unat (ucast c * 4 :: u64) = unat c * 4"
    using unat_less [of c] by (simp add: unat_word_ariths unat_ucast_up)
  then show ?thesis by (simp add: entry_index_def unat_mod unat_ucast_up)
qed

lemma entry_sector_nat:
  assumes "fat_ok fi" "in_fat fi c"
  shows "unat (entry_sector fi c) = unat (fat_start_lba fi) + unat c * 4 div bps fi"
proof -
  have u: "unat (ucast c * 4 :: u64) = unat c * 4"
    using unat_less [of c] by (simp add: unat_word_ariths unat_ucast_up)
  have "unat (sectors_per_fat fi) \<le> unat (num_fats fi) * unat (sectors_per_fat fi)"
    using assms(1) by (cases "unat (num_fats fi)") (auto simp: fat_ok_def)
  then have "unat (fat_start_lba fi) + unat c * 4 div bps fi < 2 ^ 64"
    using assms unfolding fat_ok_def in_fat_def by linarith
  then show ?thesis by (simp add: entry_sector_def unat_add_small unat_div u unat_ucast_up)
qed

lemma entry_fits:
  assumes "fat_ok fi"
  shows "entry_index fi c + 4 \<le> bps fi"
proof -
  obtain q where q: "bps fi = 4 * q" "0 < q" using assms by (auto simp: fat_ok_def dvd_def)
  have "unat c * 4 mod (4 * q) = 4 * (unat c mod q)" by (simp only: mult_mod_right mult.commute [of "unat c" 4])
  moreover have "unat c mod q < q" using q(2) by simp
  ultimately show ?thesis by (simp add: entry_index_nat q(1))
qed

lemma entries_apart:
  assumes "fat_ok fi" "in_fat fi c" "in_fat fi c'" "c \<noteq> c'" "entry_sector fi c = entry_sector fi c'"
  shows "entry_index fi c + 4 \<le> entry_index fi c' \<or> entry_index fi c' + 4 \<le> entry_index fi c"
proof -
  let ?B = "bps fi"
  have eq: "unat c * 4 div ?B = unat c' * 4 div ?B"
    using assms(5) entry_sector_nat [OF assms(1,2)] entry_sector_nat [OF assms(1,3)] by simp
  have "unat c * 4 = ?B * (unat c * 4 div ?B) + entry_index fi c" "unat c' * 4 = ?B * (unat c * 4 div ?B) + entry_index fi c'"
    unfolding entry_index_nat using eq by (metis mult_div_mod_eq)+
  moreover have "unat c \<noteq> unat c'" using assms(4) by (simp add: word_unat_eq_iff)
  ultimately show ?thesis by presburger
qed

section \<open>Splices\<close>

lemma length_splice [simp]: "i + length xs \<le> length buf \<Longrightarrow> length (splice buf i xs) = length buf"
  by (simp add: splice_def)

lemma nth_splice:
  assumes "i + length xs \<le> length buf"
  shows "splice buf i xs ! k = (if i \<le> k \<and> k < i + length xs then xs ! (k - i) else buf ! k)"
  using assms by (auto simp: splice_def nth_append)

lemma le32_at_splice_same: "i + 4 \<le> length buf \<Longrightarrow> le32_at (splice buf i (to_le32 v)) i = v"
  by (simp add: le32_at_def nth_splice)
     (simp add: to_le32_def numeral_2_eq_2 numeral_3_eq_3 from_le32_le_byte [unfolded One_nat_def numeral_2_eq_2 numeral_3_eq_3])

lemma le32_at_splice_other:
  "i + 4 \<le> length buf \<Longrightarrow> j + 4 \<le> i \<or> i + 4 \<le> j \<Longrightarrow> le32_at (splice buf i (to_le32 v)) j = le32_at buf j"
  by (auto simp: le32_at_def nth_splice)

section \<open>Blocks\<close>

lemma disk_read:
  assumes "disk_laws dev n disk up" "up d" "length buf = n"
  obtains d' where "run_state (dbd_read_block dev k buf) d = (Ok (disk d k), d')" "up d'" "disk d' = disk d"
  using assms unfolding disk_laws_def by blast

lemma disk_write:
  assumes "disk_laws dev n disk up" "up d" "length buf = n"
  obtains d' where "run_state (dbd_write_block dev k buf) d = (Ok (), d')" "up d'" "disk d' = (disk d)(k := buf)"
  using assms unfolding disk_laws_def by blast

lemma disk_length: "disk_laws dev n disk up \<Longrightarrow> up d \<Longrightarrow> length (disk d k) = n"
  by (simp add: disk_laws_def)

lemma fat_read_block_ok:
  assumes "disk_laws dev (bps fi) disk up" "up d"
  obtains d' where "run_state (fat_read_block dev fi k) d = (Ok (disk d k), d')" "up d'" "disk d' = disk d"
proof (rule disk_read [OF assms, of "replicate (bps fi) 0" k])
  fix d' assume "run_state (dbd_read_block dev k (replicate (bps fi) 0)) d = (Ok (disk d k), d')" "up d'" "disk d' = disk d"
  then show thesis by (intro that [of d']) (simp_all add: fat_read_block_def run_io_map_err)
qed simp

lemma fat_write_block_ok:
  assumes "disk_laws dev n disk up" "up d" "length buf = n"
  obtains d' where "run_state (fat_write_block dev k buf) d = (Ok (), d')" "up d'" "disk d' = (disk d)(k := buf)"
proof (rule disk_write [OF assms, of k])
  fix d' assume "run_state (dbd_write_block dev k buf) d = (Ok (), d')" "up d'" "disk d' = (disk d)(k := buf)"
  then show thesis by (intro that [of d']) (simp_all add: fat_write_block_def run_io_map_err)
qed

lemma each_write_ok:
  assumes "disk_laws dev n disk up" "up d" "length buf = n"
  shows "\<exists>d'. run_state (each (\<lambda>i. fat_write_block dev (f i) buf) is) d = (Ok (), d') \<and> up d' \<and>
    disk d' = (\<lambda>k. if k \<in> f ` set is then buf else disk d k)"
  using assms(2)
proof (induction "is" arbitrary: d)
  case Nil
  then show ?case by (simp add: run_ok)
next
  case (Cons i "is")
  obtain d1 where d1: "run_state (fat_write_block dev (f i) buf) d = (Ok (), d1)" "up d1" "disk d1 = (disk d)(f i := buf)"
    by (rule fat_write_block_ok [OF assms(1) Cons.prems assms(3)])
  show ?case using Cons.IH [OF d1(2)] d1 by (auto simp: run_io_bind fun_eq_iff)
qed

section \<open>Entries\<close>

lemma read_fat_entry_ok:
  assumes L: "disk_laws dev (bps fi) disk up" "up d" and fi: "fat_ok fi"
  obtains d' where "run_state (read_fat_entry dev fi c) d = (Ok (fat_entry fi (disk d) c), d')" "up d'" "disk d' = disk d"
proof -
  obtain d' where d': "run_state (fat_read_block dev fi (entry_sector fi c)) d = (Ok (disk d (entry_sector fi c)), d')"
    "up d'" "disk d' = disk d" by (rule fat_read_block_ok [OF L])
  have "bytes_per_sector fi \<noteq> 0" using fi by (auto simp: fat_ok_def)
  then have "run_state (read_fat_entry dev fi c) d = (Ok (fat_entry fi (disk d) c), d')"
    using entry_fits [OF fi, of c] disk_length [OF L] d'(1)
    by (simp add: read_fat_entry_def read_fat_entry_unlocked_def Let_def run_io_bind run_ok fat_entry_def)
  then show thesis using d'(2,3) by (rule that)
qed

text \<open>The sectors a write to an entry replaces: the same sector of every table.\<close>

definition entry_copies :: "fat_info \<Rightarrow> u32 \<Rightarrow> u64 set" where
  "entry_copies fi c = (\<lambda>i. entry_sector fi c + of_nat i * sectors_per_fat fi) ` {..<unat (num_fats fi)}"

definition fat_area :: "fat_info \<Rightarrow> u64 set" where
  "fat_area fi = {lba. unat (fat_start_lba fi) \<le> unat lba \<and>
     unat lba < unat (fat_start_lba fi) + unat (num_fats fi) * unat (sectors_per_fat fi)}"

lemma copy_nat:
  assumes "fat_ok fi" "in_fat fi c" "i < unat (num_fats fi)"
  shows "unat (entry_sector fi c + of_nat i * sectors_per_fat fi) =
    unat (fat_start_lba fi) + unat c * 4 div bps fi + i * unat (sectors_per_fat fi)"
    "unat c * 4 div bps fi + i * unat (sectors_per_fat fi) < unat (num_fats fi) * unat (sectors_per_fat fi)"
proof -
  let ?S = "unat (sectors_per_fat fi)" and ?k = "unat c * 4 div bps fi"
  have "Suc i * ?S \<le> unat (num_fats fi) * ?S" using assms(3) by (intro mult_le_mono1) simp
  then show lt: "?k + i * ?S < unat (num_fats fi) * ?S" using assms(2) by (simp add: in_fat_def)
  have "unat (num_fats fi) < 2 ^ 8" using unat_less [of "num_fats fi"] by simp
  then have "i < 2 ^ 64" using assms(3) by simp
  then have i: "unat (of_nat i :: u64) = i" by (simp add: unat_of_nat)
  have tot: "unat (fat_start_lba fi) + unat (num_fats fi) * ?S < 2 ^ 64" using assms(1) by (simp add: fat_ok_def)
  have "unat (of_nat i * sectors_per_fat fi :: u64) = i * ?S"
    using lt tot by (subst unat_mult_lem [THEN iffD1]) (auto simp: i)
  then show "unat (entry_sector fi c + of_nat i * sectors_per_fat fi) = unat (fat_start_lba fi) + ?k + i * ?S"
    using entry_sector_nat [OF assms(1,2)] lt tot by (subst unat_add_small) auto
qed

lemma copies_in_area: "fat_ok fi \<Longrightarrow> in_fat fi c \<Longrightarrow> entry_copies fi c \<subseteq> fat_area fi"
  using copy_nat by (fastforce simp: entry_copies_def fat_area_def)

lemma copy_of_other:
  assumes "fat_ok fi" "in_fat fi c" "in_fat fi c'" "entry_sector fi c' \<in> entry_copies fi c"
  shows "entry_sector fi c' = entry_sector fi c"
proof -
  obtain i where i: "i < unat (num_fats fi)" "entry_sector fi c' = entry_sector fi c + of_nat i * sectors_per_fat fi"
    using assms(4) by (auto simp: entry_copies_def)
  have "unat c' * 4 div bps fi = unat c * 4 div bps fi + i * unat (sectors_per_fat fi)"
    using copy_nat(1) [OF assms(1,2) i(1)] entry_sector_nat [OF assms(1,3)] i(2) by simp
  then have "i = 0" using assms(3) by (cases i) (auto simp: in_fat_def)
  then show ?thesis using i(2) by simp
qed

lemma write_fat_entry_disk:
  assumes L: "disk_laws dev (bps fi) disk up" "up d" and fi: "fat_ok fi"
  obtains d' where "run_state (write_fat_entry_unlocked dev fi c v) d = (Ok (), d')" "up d'"
    "disk d' = (\<lambda>k. if k \<in> entry_copies fi c
       then splice (disk d (entry_sector fi c)) (entry_index fi c) (to_le32 (v AND 0x0FFFFFFF)) else disk d k)"
proof -
  let ?s = "entry_sector fi c" and ?b = "splice (disk d (entry_sector fi c)) (entry_index fi c) (to_le32 (v AND 0x0FFFFFFF))"
  obtain d1 where d1: "run_state (fat_read_block dev fi ?s) d = (Ok (disk d ?s), d1)" "up d1" "disk d1 = disk d"
    by (rule fat_read_block_ok [OF L])
  have len: "length (disk d ?s) = bps fi" "length ?b = bps fi"
    using disk_length [OF L] entry_fits [OF fi, of c] by simp_all
  obtain d2 where d2: "run_state (fat_write_block dev ?s ?b) d1 = (Ok (), d2)" "up d2" "disk d2 = (disk d1)(?s := ?b)"
    by (rule fat_write_block_ok [OF L(1) d1(2) len(2)])
  obtain d3 where d3: "run_state (mirror_fats dev fi ?s ?b) d2 = (Ok (), d3)" "up d3"
    "disk d3 = (\<lambda>k. if k \<in> (\<lambda>i. ?s + of_nat i * sectors_per_fat fi) ` set [1..<unat (num_fats fi)] then ?b else disk d2 k)"
    using each_write_ok [OF L(1) d2(2) len(2), of "\<lambda>i. ?s + of_nat i * sectors_per_fat fi" "[1..<unat (num_fats fi)]"] unfolding mirror_fats_def by blast
  have "entry_copies fi c = insert ?s ((\<lambda>i. ?s + of_nat i * sectors_per_fat fi) ` {1..<unat (num_fats fi)})"
  proof -
    have "{..<unat (num_fats fi)} = insert 0 {1..<unat (num_fats fi)}" using fi by (auto simp: fat_ok_def)
    then show ?thesis by (simp add: entry_copies_def)
  qed
  then have "disk d3 = (\<lambda>k. if k \<in> entry_copies fi c then ?b else disk d k)"
    using d3(3) d2(3) d1(3) by (auto simp: fun_eq_iff)
  moreover have "bytes_per_sector fi \<noteq> 0" using fi by (auto simp: fat_ok_def)
  then have "run_state (write_fat_entry_unlocked dev fi c v) d = (Ok (), d3)"
    using len entry_fits [OF fi, of c] d1(1) d2(1) d3(1)
    by (simp add: write_fat_entry_unlocked_def Let_def run_io_bind)
  ultimately show thesis using d3(2) by (intro that)
qed

lemma fat_entry_write:
  assumes L: "disk_laws dev (bps fi) disk up" "up d" and fi: "fat_ok fi" and c: "in_fat fi c" "in_fat fi c'"
    and d': "disk d' = (\<lambda>k. if k \<in> entry_copies fi c
       then splice (disk d (entry_sector fi c)) (entry_index fi c) (to_le32 (v AND 0x0FFFFFFF)) else disk d k)"
  shows "fat_entry fi (disk d') c' = (if c' = c then v AND 0x0FFFFFFF else fat_entry fi (disk d) c')"
proof -
  have self: "entry_sector fi c \<in> entry_copies fi c"
    using fi unfolding entry_copies_def fat_ok_def by (intro image_eqI [of _ _ 0]) auto
  have fit: "entry_index fi c + 4 \<le> length (disk d (entry_sector fi c))"
    using entry_fits [OF fi, of c] disk_length [OF L] by simp
  consider "c' = c" | "c' \<noteq> c" "entry_sector fi c' = entry_sector fi c" | "c' \<noteq> c" "entry_sector fi c' \<notin> entry_copies fi c"
    using copy_of_other [OF fi c] by blast
  then show ?thesis
  proof cases
    case 1
    then show ?thesis using self fit by (simp add: fat_entry_def d' le32_at_splice_same)
  next
    case 2
    then show ?thesis using self fit entries_apart [OF fi c(2,1)] by (auto simp: fat_entry_def d' le32_at_splice_other)
  next
    case 3
    then show ?thesis by (simp add: fat_entry_def d')
  qed
qed

section \<open>Chains\<close>

text \<open>
  A cluster that has a successor in the chain; \<open>walk\<close> follows the entries of a table.
\<close>

definition has_next :: "(u32 \<Rightarrow> u32) \<Rightarrow> u32 \<Rightarrow> bool" where
  "has_next nxt c \<longleftrightarrow> 2 \<le> c \<and> nxt c \<noteq> 0 \<and> nxt c < FAT32_EOC"

definition walk :: "(u32 \<Rightarrow> u32) \<Rightarrow> nat \<Rightarrow> u32 \<Rightarrow> u32" where
  "walk nxt k c = (nxt ^^ k) c"

lemma walk_simps [simp]: "walk nxt 0 c = c" "walk nxt (Suc k) c = walk nxt k (nxt c)"
  by (simp_all add: walk_def funpow_swap1)

text \<open>What the chain starting at a cluster is, when the walk stops after \<open>k\<close> steps.\<close>

definition chain_result :: "(u32 \<Rightarrow> u32) \<Rightarrow> u32 list \<Rightarrow> u32 \<Rightarrow> nat \<Rightarrow> (u32 list, fat32_error) outcome" where
  "chain_result nxt before c k =
     (let y = walk nxt k c in
      if 2 \<le> y \<and> FAT32_EOC \<le> nxt y then Ok (before @ map (\<lambda>i. walk nxt i c) [0..<Suc k]) else Err FatInvalidCluster)"

lemma chain_result_Suc: "chain_result nxt before c (Suc k) = chain_result nxt (before @ [c]) (nxt c) k"
proof -
  have "map (\<lambda>i. walk nxt i c) [0..<Suc (Suc k)] = c # map (\<lambda>i. walk nxt i (nxt c)) [0..<Suc k]"
    by (simp add: upt_rec [of 0] map_Suc_upt [symmetric] del: upt_Suc)
  then show ?thesis by (simp add: chain_result_def Let_def del: upt_Suc)
qed

lemma chain_loop_step:
  assumes L: "disk_laws dev (bps fi) disk up" "up d" and fi: "fat_ok fi" and cur: "2 \<le> cur"
  obtains d' where "up d'" "disk d' = disk d"
    "chain_loop dev fi cur chain d =
      (if fat_entry fi (disk d) cur \<ge> FAT32_EOC then Some (Ok (chain @ [cur]), d')
       else if fat_entry fi (disk d) cur = 0 then Some (Err FatInvalidCluster, d')
       else chain_loop dev fi (fat_entry fi (disk d) cur) (chain @ [cur]) d')"
proof -
  obtain d' where d': "run_state (read_fat_entry dev fi cur) d = (Ok (fat_entry fi (disk d) cur), d')" "up d'" "disk d' = disk d"
    by (rule read_fat_entry_ok [OF L fi])
  have "\<not> cur < 2" using cur by (simp add: not_less)
  then show thesis using d' by (intro that [of d']) (simp_all add: chain_loop.simps [of dev fi cur])
qed

lemma chain_loop_stops:
  assumes L: "disk_laws dev (bps fi) disk up" and fi: "fat_ok fi"
  shows "up d \<Longrightarrow> (\<forall>i<k. has_next (fat_entry fi (disk d)) (walk (fat_entry fi (disk d)) i cur)) \<Longrightarrow>
    \<not> has_next (fat_entry fi (disk d)) (walk (fat_entry fi (disk d)) k cur) \<Longrightarrow>
    \<exists>d'. chain_loop dev fi cur chain d = Some (chain_result (fat_entry fi (disk d)) chain cur k, d') \<and> up d' \<and> disk d' = disk d"
proof (induction k arbitrary: cur chain d)
  case 0
  show ?case
  proof (cases "2 \<le> cur")
    case True
    obtain d' where "up d'" "disk d' = disk d" "chain_loop dev fi cur chain d =
      (if fat_entry fi (disk d) cur \<ge> FAT32_EOC then Some (Ok (chain @ [cur]), d')
       else if fat_entry fi (disk d) cur = 0 then Some (Err FatInvalidCluster, d')
       else chain_loop dev fi (fat_entry fi (disk d) cur) (chain @ [cur]) d')"
      by (rule chain_loop_step [OF L 0(1) fi True])
    then show ?thesis using 0(3) True
      by (auto simp: chain_result_def has_next_def Let_def not_less)
  next
    case False
    then have "chain_loop dev fi cur chain d = Some (Err FatInvalidCluster, d)"
      by (subst chain_loop.simps) (simp add: not_le)
    then show ?thesis using False 0(1) by (simp add: chain_result_def)
  qed
next
  case (Suc k)
  let ?n = "fat_entry fi (disk d)"
  have h: "has_next ?n cur" using Suc.prems(2) by (metis walk_simps(1) zero_less_Suc)
  obtain d1 where d1: "up d1" "disk d1 = disk d" "chain_loop dev fi cur chain d =
      (if ?n cur \<ge> FAT32_EOC then Some (Ok (chain @ [cur]), d1)
       else if ?n cur = 0 then Some (Err FatInvalidCluster, d1)
       else chain_loop dev fi (?n cur) (chain @ [cur]) d1)"
    using h by (auto simp: has_next_def intro: chain_loop_step [OF L Suc.prems(1) fi, of cur chain])
  have "\<forall>i<k. has_next (fat_entry fi (disk d1)) (walk (fat_entry fi (disk d1)) i (?n cur))"
    using Suc.prems(2) d1(2) by (metis Suc_less_eq walk_simps(2))
  moreover have "\<not> has_next (fat_entry fi (disk d1)) (walk (fat_entry fi (disk d1)) k (?n cur))"
    using Suc.prems(3) d1(2) by simp
  ultimately obtain d' where "chain_loop dev fi (?n cur) (chain @ [cur]) d1 =
      Some (chain_result ?n (chain @ [cur]) (?n cur) k, d')" "up d'" "disk d' = disk d1"
    using Suc.IH [OF d1(1)] d1(2) by metis
  moreover have "\<not> FAT32_EOC \<le> ?n cur" "?n cur \<noteq> 0" using h by (simp_all add: has_next_def not_le)
  ultimately show ?case using d1 by (simp add: chain_result_Suc)
qed

lemma chain_loop_returns:
  assumes "chain_loop dev fi cur chain d = Some r" "disk_laws dev (bps fi) disk up" "up d" "fat_ok fi"
  shows "\<exists>k. \<not> has_next (fat_entry fi (disk d)) (walk (fat_entry fi (disk d)) k cur)"
proof -
  have "disk_laws dev (bps fi) disk up \<longrightarrow> up d \<longrightarrow> fat_ok fi \<longrightarrow>
      (\<exists>k. \<not> has_next (fat_entry fi (disk d)) (walk (fat_entry fi (disk d)) k cur))"
  proof (rule chain_loop.raw_induct [where P = "\<lambda>dev fi cur chain d r. disk_laws dev (bps fi) disk up \<longrightarrow> up d \<longrightarrow> fat_ok fi \<longrightarrow>
      (\<exists>k. \<not> has_next (fat_entry fi (disk d)) (walk (fat_entry fi (disk d)) k cur))", OF _ assms(1)], intro impI)
    fix loop dev fi cur chain d r
    assume IH: "\<And>dev fi cur chain d r. loop dev fi cur chain d = Some r \<Longrightarrow> disk_laws dev (bps fi) disk up \<longrightarrow> up d \<longrightarrow>
        fat_ok fi \<longrightarrow> (\<exists>k. \<not> has_next (fat_entry fi (disk d)) (walk (fat_entry fi (disk d)) k cur))"
      and body: "(if cur < 2 then Some (Err FatInvalidCluster, d)
        else case run_state (read_fat_entry dev fi cur) d of
          (Ok next, d) \<Rightarrow>
            if FAT32_EOC \<le> next then Some (Ok (chain @ [cur]), d)
            else if next = 0 then Some (Err FatInvalidCluster, d) else loop dev fi next (chain @ [cur]) d
        | (Err e, d) \<Rightarrow> Some (Err e, d) | (Panic, d) \<Rightarrow> Some (Panic, d) | (Diverge, d) \<Rightarrow> Some (Diverge, d)) = Some r"
      and L: "disk_laws dev (bps fi) disk up" "up d" "fat_ok fi"
    let ?n = "fat_entry fi (disk d)"
    show "\<exists>k. \<not> has_next ?n (walk ?n k cur)"
    proof (cases "has_next ?n cur")
      case True
      then have c: "\<not> cur < 2" "\<not> FAT32_EOC \<le> ?n cur" "?n cur \<noteq> 0" by (simp_all add: has_next_def not_le not_less)
      obtain d' where d': "run_state (read_fat_entry dev fi cur) d = (Ok (?n cur), d')" "up d'" "disk d' = disk d"
        by (rule read_fat_entry_ok [OF L])
      have "loop dev fi (?n cur) (chain @ [cur]) d' = Some r" using body c d'(1) by simp
      from IH [OF this] L d'(2) obtain k where "\<not> has_next ?n (walk ?n k (?n cur))" using d'(3) by auto
      then show ?thesis by (intro exI [of _ "Suc k"]) simp
    next
      case False
      then show ?thesis by (intro exI [of _ 0]) simp
    qed
  qed
  then show ?thesis using assms by blast
qed

section \<open>Allocation\<close>

text \<open>The first free cluster in a list of clusters.\<close>

lemma alloc_scan_ok:
  assumes L: "disk_laws dev (bps fi) disk up" and fi: "fat_ok fi"
  shows "up d \<Longrightarrow> \<forall>c\<in>set cs. in_fat fi c \<Longrightarrow>
    (case filter (\<lambda>c. fat_entry fi (disk d) c = 0) cs of
       [] \<Rightarrow> \<exists>d'. run_state (alloc_scan dev fi cs) d = (Err FatDiskFull, d') \<and> up d' \<and> disk d' = disk d
     | c # _ \<Rightarrow> \<exists>d'. run_state (alloc_scan dev fi cs) d = (Ok c, d') \<and> up d' \<and>
         (\<forall>x. in_fat fi x \<longrightarrow> fat_entry fi (disk d') x = (if x = c then END_MARK else fat_entry fi (disk d) x)) \<and>
         (\<forall>k. k \<notin> fat_area fi \<longrightarrow> disk d' k = disk d k))"
proof (induction cs arbitrary: d)
  case Nil
  then show ?case by (simp add: run_fail)
next
  case (Cons c cs)
  obtain d1 where d1: "run_state (read_fat_entry_unlocked dev fi c) d = (Ok (fat_entry fi (disk d) c), d1)" "up d1" "disk d1 = disk d"
    using read_fat_entry_ok [OF L Cons.prems(1) fi, of c] unfolding read_fat_entry_def by metis
  show ?case
  proof (cases "fat_entry fi (disk d) c = 0")
    case True
    obtain d2 where d2: "run_state (write_fat_entry_unlocked dev fi c END_MARK) d1 = (Ok (), d2)" "up d2"
      "disk d2 = (\<lambda>k. if k \<in> entry_copies fi c
         then splice (disk d1 (entry_sector fi c)) (entry_index fi c) (to_le32 (END_MARK AND 0x0FFFFFFF)) else disk d1 k)"
      by (rule write_fat_entry_disk [OF L d1(2) fi])
    have "fat_entry fi (disk d2) x = (if x = c then END_MARK else fat_entry fi (disk d) x)" if "in_fat fi x" for x
      using fat_entry_write [OF L d1(2) fi _ that d2(3)] Cons.prems(2) d1(3) by (simp add: END_MARK_def)
    moreover have "disk d2 k = disk d k" if "k \<notin> fat_area fi" for k
      using copies_in_area [OF fi, of c] that Cons.prems(2) d2(3) d1(3) by auto
    ultimately show ?thesis using True d1(1) d2(1,2) by (simp add: run_io_bind run_ok)
  next
    case False
    have run: "run_state (alloc_scan dev fi (c # cs)) d = run_state (alloc_scan dev fi cs) d1"
      and flt: "filter (\<lambda>c. fat_entry fi (disk d) c = 0) (c # cs) = filter (\<lambda>c. fat_entry fi (disk d) c = 0) cs"
      using d1(1) False by (simp_all add: run_io_bind)
    show ?thesis unfolding run flt using Cons.prems(2) by (intro Cons.IH [OF d1(2), unfolded d1(3)]) simp
  qed
qed

lemma filter_eq_ConsD_first: "filter P xs = y # ys \<Longrightarrow> y \<in> set xs \<and> P y"
  by (auto dest!: filter_eq_ConsD)

section \<open>Properties\<close>

text \<open>A small volume for concrete runs: 16-byte sectors, one table of four sectors at block 1.\<close>

definition demo_fat :: fat_info where
  "demo_fat =
     \<lparr>bytes_per_sector = 16, sectors_per_cluster = 1, reserved_sector_count = 1, num_fats = 2, num_dir_entries = 0,
      sectors_per_fat = 4, root_cluster = 2, fat_start_lba = 1, cluster_heap_start_lba = 9, partition_start_lba = 0,
      total_clusters = 8\<rparr>"

definition demo_disk :: "u64 \<Rightarrow> u8 list" where
  "demo_disk =
     (\<lambda>_. replicate 16 0)(1 := to_le32 0x0FFFFFF8 @ to_le32 0x0FFFFFFF @ to_le32 3 @ to_le32 0x0FFFFFFF,
       2 := to_le32 5 @ to_le32 4 @ to_le32 0 @ to_le32 0)"

definition demo_dev :: "(u64 \<Rightarrow> u8 list) dyn_block_device" where
  "demo_dev = dyn_block id (ram_disk 16)"

definition demo_up :: "(u64 \<Rightarrow> u8 list) \<Rightarrow> bool" where
  "demo_up d \<longleftrightarrow> (\<forall>k. length (d k) = 16)"

lemma demo_laws: "disk_laws demo_dev (bps demo_fat) id demo_up"
  using ram_disk_laws [of 16] by (simp add: demo_dev_def demo_fat_def id_def demo_up_def [abs_def])

lemma demo_disk_ok: "demo_up demo_disk" "fat_ok demo_fat"
  by (simp_all add: demo_disk_def fat_ok_def demo_fat_def demo_up_def)

text \<open>
  Entries of the allocation table round-trip: on a healthy disk, writing the entry of a cluster
  succeeds; reading it back gives the value without its four reserved bits, every other cluster's
  entry is as before, and no sector outside the tables changes.
\<close>

lemma fat_entry_roundtrip:
  assumes "disk_laws dev (bps fi) disk up" "up d" "fat_ok fi" "in_fat fi c"
  shows "\<exists>d'. run_state (write_fat_entry_unlocked dev fi c v) d = (Ok (), d') \<and> up d' \<and>
    fst (run_state (read_fat_entry dev fi c) d') = Ok (v AND 0x0FFFFFFF) \<and>
    (\<forall>x. in_fat fi x \<and> x \<noteq> c \<longrightarrow> fst (run_state (read_fat_entry dev fi x) d') = fst (run_state (read_fat_entry dev fi x) d)) \<and>
    (\<forall>k. k \<notin> fat_area fi \<longrightarrow> disk d' k = disk d k)"
proof -
  obtain d' where w: "run_state (write_fat_entry_unlocked dev fi c v) d = (Ok (), d')" "up d'"
    and d': "disk d' = (\<lambda>k. if k \<in> entry_copies fi c
       then splice (disk d (entry_sector fi c)) (entry_index fi c) (to_le32 (v AND 0x0FFFFFFF)) else disk d k)"
    by (rule write_fat_entry_disk [OF assms(1-3)])
  have rd: "fst (run_state (read_fat_entry dev fi x) e) = Ok (fat_entry fi (disk e) x)" if "up e" for x e
    by (rule read_fat_entry_ok [OF assms(1) that assms(3), of x]) simp
  have "fat_entry fi (disk d') x = (if x = c then v AND 0x0FFFFFFF else fat_entry fi (disk d) x)" if "in_fat fi x" for x
    by (rule fat_entry_write [OF assms(1-4) that d'])
  moreover have "disk d' k = disk d k" if "k \<notin> fat_area fi" for k
    using copies_in_area [OF assms(3,4)] that d' by auto
  ultimately show ?thesis using w rd assms(2,4) by (intro exI [of _ d']) simp
qed

lemma fat_entry_roundtrip_witness:
  "\<exists>d'. run_state (write_fat_entry_unlocked demo_dev demo_fat 6 0xF0000007) demo_disk = (Ok (), d') \<and>
    fst (run_state (read_fat_entry demo_dev demo_fat 6) d') = Ok 7"
  using fat_entry_roundtrip [OF demo_laws, OF demo_disk_ok, of 6 "0xF0000007"] by (auto simp: in_fat_def demo_fat_def)

text \<open>
  C26. \<^verbatim>\<open>get_chain\<close> follows the allocation table exactly: it returns the clusters met until one whose
  entry is an end mark, fails with \<^verbatim>\<open>InvalidCluster\<close> when the walk reaches a cluster below 2 or a free
  one, changes no sector, and does not return when the walk never stops (a cycle in the table).
\<close>

theorem get_chain_exact:
  assumes "disk_laws dev (bps fi) disk up" "up d" "fat_ok fi"
  defines "nxt \<equiv> fat_entry fi (disk d)"
  shows "((\<forall>k. has_next nxt (walk nxt k start)) \<longrightarrow> fst (run_state (get_chain dev fi start) d) = Diverge) \<and>
    (\<forall>k. (\<forall>i<k. has_next nxt (walk nxt i start)) \<and> \<not> has_next nxt (walk nxt k start) \<longrightarrow>
      (\<exists>d'. run_state (get_chain dev fi start) d = (chain_result nxt [] start k, d') \<and> up d' \<and> disk d' = disk d))"
proof (intro conjI allI impI)
  assume "\<forall>k. has_next nxt (walk nxt k start)"
  then have "chain_loop dev fi start [] d = None"
    using chain_loop_returns [OF _ assms(1-3), of start "[]"] unfolding nxt_def by (metis not_Some_eq)
  then show "fst (run_state (get_chain dev fi start) d) = Diverge" by (simp add: get_chain_def)
next
  fix k assume "(\<forall>i<k. has_next nxt (walk nxt i start)) \<and> \<not> has_next nxt (walk nxt k start)"
  then show "\<exists>d'. run_state (get_chain dev fi start) d = (chain_result nxt [] start k, d') \<and> up d' \<and> disk d' = disk d"
    using chain_loop_stops [OF assms(1,3,2), of k start "[]"] unfolding nxt_def get_chain_def by auto
qed

theorem get_chain_exact_witness:
  "(\<exists>d'. run_state (get_chain demo_dev demo_fat 2) demo_disk = (Ok [2, 3], d')) \<and>
   fst (run_state (get_chain demo_dev demo_fat 5) demo_disk) = Diverge"
proof -
  let ?n = "fat_entry demo_fat demo_disk"
  have e: "?n 2 = 3" "?n 3 = END_MARK" "?n 4 = 5" "?n 5 = 4" by code_simp+
  have w: "walk ?n k 4 \<in> {4, 5} \<and> walk ?n k 5 \<in> {4, 5}" for k by (induction k) (simp_all add: e)
  have h: "has_next ?n 4" "has_next ?n 5" "has_next ?n 2" "\<not> has_next ?n 3"
    by (simp_all add: has_next_def e FAT32_EOC_def END_MARK_def)
  have "\<forall>k. has_next ?n (walk ?n k 5)" using w h by (metis insertE singletonD)
  then have "fst (run_state (get_chain demo_dev demo_fat 5) demo_disk) = Diverge"
    using get_chain_exact [OF demo_laws, OF demo_disk_ok, of 5, unfolded id_apply] by blast
  moreover have "(\<forall>i<1. has_next ?n (walk ?n i 2)) \<and> \<not> has_next ?n (walk ?n 1 2)"
    using h by (simp add: e)
  moreover have "chain_result ?n [] 2 1 = Ok [2, 3]"
    by (simp add: chain_result_def e FAT32_EOC_def END_MARK_def)
  ultimately show ?thesis using get_chain_exact [OF demo_laws, OF demo_disk_ok, of 2, unfolded id_apply] by metis
qed

text \<open>
  C10. \<^verbatim>\<open>alloc_cluster\<close> takes the lowest free cluster below \<^verbatim>\<open>total_clusters\<close>: it marks that entry as an end
  of chain and changes no other entry and no sector outside the tables; it reports \<^verbatim>\<open>DiskFull\<close>,
  changing nothing, exactly when no cluster in that range is free.
\<close>

theorem alloc_cluster_lowest_free:
  assumes "disk_laws dev (bps fi) disk up" "up d" "fat_ok fi"
    and "\<forall>c. 2 \<le> c \<and> c < total_clusters fi \<longrightarrow> in_fat fi c"
  shows "(\<exists>c d'. run_state (alloc_cluster dev fi) d = (Ok c, d') \<and> up d' \<and>
      2 \<le> c \<and> c < total_clusters fi \<and> fat_entry fi (disk d) c = 0 \<and>
      (\<forall>x. 2 \<le> x \<and> x < c \<longrightarrow> fat_entry fi (disk d) x \<noteq> 0) \<and>
      (\<forall>x. in_fat fi x \<longrightarrow> fat_entry fi (disk d') x = (if x = c then END_MARK else fat_entry fi (disk d) x)) \<and>
      (\<forall>k. k \<notin> fat_area fi \<longrightarrow> disk d' k = disk d k)) \<or>
    (\<exists>d'. run_state (alloc_cluster dev fi) d = (Err FatDiskFull, d') \<and> up d' \<and> disk d' = disk d \<and>
      (\<forall>c. 2 \<le> c \<and> c < total_clusters fi \<longrightarrow> fat_entry fi (disk d) c \<noteq> 0))"
proof -
  let ?cs = "u32_range 2 (total_clusters fi)" and ?free = "\<lambda>c. fat_entry fi (disk d) c = 0"
  have mem: "c \<in> set ?cs \<longleftrightarrow> 2 \<le> c \<and> c < total_clusters fi" for c
  proof -
    have "c \<in> set ?cs \<longleftrightarrow> 2 \<le> unat c \<and> unat c < unat (total_clusters fi)"
    proof
      assume "c \<in> set ?cs"
      then obtain n where n: "c = of_nat n" "2 \<le> n" "n < unat (total_clusters fi)" by (auto simp: u32_range_def)
      then have "unat c = n" using unat_less [of "total_clusters fi"] by (simp add: unat_of_nat)
      then show "2 \<le> unat c \<and> unat c < unat (total_clusters fi)" using n by simp
    qed (auto simp: u32_range_def intro: image_eqI [of _ _ "unat c"])
    then show ?thesis by (simp add: word_le_nat_alt word_less_nat_alt)
  qed
  have srt: "sorted_wrt (<) ?cs"
    unfolding u32_range_def sorted_wrt_map
    by (rule sorted_wrt_mono_rel [OF _ sorted_wrt_upt])
       (use unat_less [of "total_clusters fi"] in \<open>simp add: word_less_nat_alt unat_of_nat\<close>)
  note scan = alloc_scan_ok [OF assms(1,3,2), of ?cs]
  show ?thesis
  proof (cases "filter ?free ?cs")
    case Nil
    then have "\<forall>c. 2 \<le> c \<and> c < total_clusters fi \<longrightarrow> fat_entry fi (disk d) c \<noteq> 0"
      using mem by (auto simp: filter_empty_conv)
    then show ?thesis using scan assms(4) mem Nil by (auto simp: alloc_cluster_def)
  next
    case (Cons c cs)
    then have c: "c \<in> set ?cs" "?free c" using filter_eq_ConsD_first [OF Cons] by auto
    have "sorted_wrt (<) (c # cs)" using sorted_wrt_filter [OF srt, of ?free] Cons by simp
    then have "c \<le> x" if "x \<in> set ?cs" "?free x" for x
    proof -
      have "x \<in> set (c # cs)" using that unfolding Cons [symmetric] by simp
      then show ?thesis using \<open>sorted_wrt (<) (c # cs)\<close> by (auto intro: less_imp_le)
    qed
    then have "\<forall>x. 2 \<le> x \<and> x < c \<longrightarrow> fat_entry fi (disk d) x \<noteq> 0"
      using c mem by (metis leD order_less_trans)
    then show ?thesis using scan assms(4) mem Cons c by (intro disjI1) (auto simp: alloc_cluster_def)
  qed
qed

theorem alloc_cluster_lowest_free_witness:
  "\<exists>c d'. run_state (alloc_cluster demo_dev demo_fat) demo_disk = (Ok c, d') \<and> fat_entry demo_fat demo_disk c = 0 \<and>
    fat_entry demo_fat d' c = END_MARK"
proof -
  have total: "\<forall>c. 2 \<le> c \<and> c < total_clusters demo_fat \<longrightarrow> in_fat demo_fat c"
    by (auto simp: in_fat_def demo_fat_def word_less_nat_alt)
  have "fat_entry demo_fat demo_disk 6 = 0" by code_simp
  moreover have "2 \<le> (6 :: u32) \<and> (6 :: u32) < total_clusters demo_fat" by (simp add: demo_fat_def)
  ultimately show ?thesis
    using alloc_cluster_lowest_free [OF demo_laws, OF demo_disk_ok total, unfolded id_apply] total by metis
qed

end
