(* ===== verification/Fat32_File.thy ===== *)
theory Fat32_File
  imports Fat32
begin

text \<open>
  Files of the FAT32 file system (\<^verbatim>\<open>Fat32File\<close>) and its \<^verbatim>\<open>FileSystem\<close> implementation.  The world holds
  the block device and, for each open handle, the file size that the handle keeps in an atomic
  variable of its own.
\<close>

record 'd fat_world =
  fw_dev :: 'd
  fw_size :: "nat \<Rightarrow> u32"
  fw_next :: nat

record fat32_file =
  ff_start_cluster :: u32
  ff_handle :: nat
  ff_name :: string

definition on_dev :: "('d, 'a, 'e) io \<Rightarrow> 'd fat_world \<Rightarrow> ('a, 'e) outcome \<times> 'd fat_world" where
  "on_dev call w = (case run_state call (fw_dev w) of (r, d) \<Rightarrow> (r, w\<lparr>fw_dev := d\<rparr>))"

section \<open>Handles\<close>

definition fat32_file_new :: "u32 \<Rightarrow> u32 \<Rightarrow> string \<Rightarrow> 'd fat_world \<Rightarrow> (fat32_file, fat32_error) outcome \<times> 'd fat_world" where
  "fat32_file_new start_cluster fsize name w =
     (if start_cluster < 2 \<and> fsize > 0 then (Err FatInvalidCluster, w)
      else
        (Ok \<lparr>ff_start_cluster = start_cluster, ff_handle = fw_next w, ff_name = name\<rparr>,
         w\<lparr>fw_size := (fw_size w)(fw_next w := fsize), fw_next := Suc (fw_next w)\<rparr>))"

definition get_size :: "fat32_file \<Rightarrow> 'd fat_world \<Rightarrow> u32" where
  "get_size f w = fw_size w (ff_handle f)"

definition set_size :: "fat32_file \<Rightarrow> u32 \<Rightarrow> 'd fat_world \<Rightarrow> 'd fat_world" where
  "set_size f n w = w\<lparr>fw_size := (fw_size w)(ff_handle f := n)\<rparr>"

section \<open>Reading\<close>

text \<open>Where a byte of the file lies: its cluster in the chain, its sector there, its index there.\<close>

definition sector_lba :: "fat_info \<Rightarrow> u32 \<Rightarrow> u32 \<Rightarrow> u64" where
  "sector_lba fi cluster file_offset =
     cluster_to_lba fi cluster + ucast ((file_offset mod bytes_per_cluster fi) div ucast (bytes_per_sector fi))"

definition offset_in_sector :: "fat_info \<Rightarrow> u32 \<Rightarrow> u32" where
  "offset_in_sector fi file_offset = (file_offset mod bytes_per_cluster fi) mod ucast (bytes_per_sector fi)"

definition bytes_to_copy :: "fat_info \<Rightarrow> u32 \<Rightarrow> u32 \<Rightarrow> u32" where
  "bytes_to_copy fi file_offset remaining = min (ucast (bytes_per_sector fi) - offset_in_sector fi file_offset) remaining"

partial_function (option) read_loop ::
  "'d dyn_block_device \<Rightarrow> fat_info \<Rightarrow> u32 list \<Rightarrow> u32 \<Rightarrow> u32 \<Rightarrow> u32 \<Rightarrow> u8 list \<Rightarrow> 'd \<Rightarrow> ((u32 \<times> u8 list, fd_error) outcome \<times> 'd) option" where
  "read_loop dev fi chain bytes_to_read bytes_read file_offset buf d =
     (if bytes_read < bytes_to_read then
        if length chain \<le> unat (file_offset div bytes_per_cluster fi) then Some (Ok (bytes_read, buf), d)
        else
          let cluster = chain ! unat (file_offset div bytes_per_cluster fi);
              lba = sector_lba fi cluster file_offset;
              n = bytes_to_copy fi file_offset (bytes_to_read - bytes_read) in
          case run_state (dbd_read_block dev lba (replicate (bps fi) 0)) d of (r, d) \<Rightarrow>
            case r of
              Ok sector \<Rightarrow>
                read_loop dev fi chain bytes_to_read (bytes_read + n) (file_offset + n)
                  (splice buf (unat bytes_read) (take (unat n) (drop (unat (offset_in_sector fi file_offset)) sector))) d
            | Err e \<Rightarrow> Some (Err FdIoError, d) | Panic \<Rightarrow> Some (Panic, d) | Diverge \<Rightarrow> Some (Diverge, d)
      else Some (Ok (bytes_read, buf), d))"

declare read_loop.simps [code]

definition fat_file_read ::
  "'d dyn_block_device \<Rightarrow> fat_info \<Rightarrow> fat32_file \<Rightarrow> u8 list \<Rightarrow> u32 \<Rightarrow> 'd fat_world \<Rightarrow> (u32 \<times> u8 list, fd_error) outcome \<times> 'd fat_world" where
  "fat_file_read dev fi f buf offset w =
     (let file_size = get_size f w in
      if offset \<ge> file_size then (Ok (0, buf), w)
      else
        let bytes_to_read = min (of_nat (length buf)) (file_size - offset) in
        if bytes_to_read = 0 then (Ok (0, buf), w)
        else
          on_dev (io_bind (io_map_err (\<lambda>_. FdIoError) (get_chain dev fi (ff_start_cluster f))) (\<lambda>chain.
            if bytes_per_cluster fi = 0 then panic
            else State (\<lambda>d. case read_loop dev fi chain bytes_to_read 0 offset buf d of None \<Rightarrow> (Diverge, d) | Some r \<Rightarrow> r))) w)"

section \<open>Writing\<close>

partial_function (option) write_loop ::
  "'d dyn_block_device \<Rightarrow> fat_info \<Rightarrow> u32 list \<Rightarrow> u8 list \<Rightarrow> u32 \<Rightarrow> u32 \<Rightarrow> u32 \<Rightarrow> 'd \<Rightarrow> ((u32, fd_error) outcome \<times> 'd) option" where
  "write_loop dev fi chain buf bytes_to_write bytes_written file_offset d =
     (if bytes_written < bytes_to_write then
        if length chain \<le> unat (file_offset div bytes_per_cluster fi) then Some (Ok bytes_written, d)
        else
          let cluster = chain ! unat (file_offset div bytes_per_cluster fi);
              lba = sector_lba fi cluster file_offset;
              off = offset_in_sector fi file_offset;
              n = bytes_to_copy fi file_offset (bytes_to_write - bytes_written);
              zero = replicate (bps fi) 0 in
          case (if off \<noteq> 0 \<or> n < ucast (bytes_per_sector fi) then run_state (dbd_read_block dev lba zero) d else (Ok zero, d)) of
            (r, d) \<Rightarrow>
              case r of
                Ok sector \<Rightarrow>
                  (case run_state (dbd_write_block dev lba
                          (splice sector (unat off) (take (unat n) (drop (unat bytes_written) buf)))) d of (r, d) \<Rightarrow>
                     case r of
                       Ok _ \<Rightarrow> write_loop dev fi chain buf bytes_to_write (bytes_written + n) (file_offset + n) d
                     | Err e \<Rightarrow> Some (Err FdIoError, d) | Panic \<Rightarrow> Some (Panic, d) | Diverge \<Rightarrow> Some (Diverge, d))
              | Err e \<Rightarrow> Some (Err FdIoError, d) | Panic \<Rightarrow> Some (Panic, d) | Diverge \<Rightarrow> Some (Diverge, d)
      else Some (Ok bytes_written, d))"

declare write_loop.simps [code]

definition fat_file_write ::
  "'d dyn_block_device \<Rightarrow> fat_info \<Rightarrow> fat32_file \<Rightarrow> u8 list \<Rightarrow> u32 \<Rightarrow> 'd fat_world \<Rightarrow> (u32, fd_error) outcome \<times> 'd fat_world" where
  "fat_file_write dev fi f buf offset w =
     (let bytes_to_write = of_nat (length buf) in
      if bytes_to_write = 0 then (Ok 0, w)
      else
        let new_size = offset + bytes_to_write;
            extended =
              (if new_size > get_size f w then
                 case on_dev (io_map_err (\<lambda>_. FdIoError) (extend_file dev fi (ff_start_cluster f) new_size)) w of
                   (Ok _, w) \<Rightarrow> (Ok (), set_size f new_size w)
                 | (r, w) \<Rightarrow> (r, w)
               else (Ok (), w)) in
        case extended of
          (Ok _, w) \<Rightarrow>
            on_dev (io_bind (io_map_err (\<lambda>_. FdIoError) (get_chain dev fi (ff_start_cluster f))) (\<lambda>chain.
              if bytes_per_cluster fi = 0 then panic
              else State (\<lambda>d. case write_loop dev fi chain buf bytes_to_write 0 offset d of None \<Rightarrow> (Diverge, d) | Some r \<Rightarrow> r))) w
        | (Err e, w) \<Rightarrow> (Err e, w) | (Panic, w) \<Rightarrow> (Panic, w) | (Diverge, w) \<Rightarrow> (Diverge, w))"

definition fat_file_stat :: "fat32_file \<Rightarrow> 'd fat_world \<Rightarrow> (file_stat, fd_error) outcome" where
  "fat_file_stat f w = Ok \<lparr>st_size = get_size f w, st_type = Regular, st_name = ff_name f\<rparr>"

definition fat_file_ops :: "'d dyn_block_device \<Rightarrow> fat_info \<Rightarrow> fat32_file \<Rightarrow> 'd fat_world file_ops" where
  "fat_file_ops dev fi f =
     \<lparr>fo_read = fat_file_read dev fi f, fo_write = fat_file_write dev fi f, fo_stat = fat_file_stat f\<rparr>"

section \<open>The file system\<close>

definition fat_open :: "'d dyn_block_device \<Rightarrow> fat_info \<Rightarrow> string \<Rightarrow> 'd fat_world \<Rightarrow> (fat32_file, fat32_error) outcome \<times> 'd fat_world" where
  "fat_open dev fi path w =
     (let parts = path_parts path in
      if parts = [] then (Err FatInvalidPath, w)
      else
        case on_dev (io_bind (parent_cluster dev fi parts) (\<lambda>parent. find_entry dev fi parent (last parts))) w of
          (Ok entry, w) \<Rightarrow>
            if de_is_dir entry then (Err FatIsADirectory, w)
            else fat32_file_new (de_first_cluster entry) (de_size entry) (de_name entry) w
        | (Err e, w) \<Rightarrow> (Err e, w) | (Panic, w) \<Rightarrow> (Panic, w) | (Diverge, w) \<Rightarrow> (Diverge, w))"

definition fat_fs_ops :: "'d dyn_block_device \<Rightarrow> fat_info \<Rightarrow> 'd fat_world fs_ops" where
  "fat_fs_ops dev fi =
     \<lparr>fs_open = (\<lambda>path w. case fat_open dev fi path w of (r, w) \<Rightarrow>
        (map_err fat_error_into (obind r (\<lambda>f. Ok (fat_file_ops dev fi f))), w)),
      fs_create = (\<lambda>path w. (Panic, w)),
      fs_delete = (\<lambda>path w. (Panic, w)),
      fs_stat = (\<lambda>path w. case on_dev (fat_stat dev fi path) w of (r, w) \<Rightarrow> (map_err fat_error_into r, w)),
      fs_ls = (\<lambda>path w. case on_dev (fat_ls dev fi path) w of (r, w) \<Rightarrow> (map_err fat_error_into r, w)),
      fs_mkdir = (\<lambda>path w. (Panic, w)),
      fs_rmdir = (\<lambda>path w. (Panic, w))\<rparr>"

end
