(* ===== verification/Fat32_Content.thy ===== *)
theory Fat32_Content
  imports Fat32_File Fat32_Table Fs_Fd
begin

text \<open>
  The contents of FAT32 files: a file is the bytes of its cluster chain up to its size, reading
  returns them and writing inside the file replaces them.
\<close>

section \<open>Lists of equally long pieces\<close>

lemma length_concat_const: "\<forall>x\<in>set xs. length x = n \<Longrightarrow> length (concat xs) = length xs * n"
  by (induction xs) auto

lemma nth_concat_const:
  "\<forall>x\<in>set xs. length x = n \<Longrightarrow> i < length xs \<Longrightarrow> s < n \<Longrightarrow> concat xs ! (i * n + s) = xs ! i ! s"
proof (induction xs arbitrary: i)
  case (Cons x xs)
  then show ?case by (cases i) (auto simp: nth_append)
qed simp

lemma drop_concat_const:
  "\<forall>x\<in>set xs. length x = n \<Longrightarrow> i < length xs \<Longrightarrow> p \<le> n \<Longrightarrow>
    drop (i * n + p) (concat xs) = drop p (xs ! i) @ concat (drop (Suc i) xs)"
proof (induction xs arbitrary: i)
  case (Cons x xs)
  then show ?case by (cases i) auto
qed simp

lemma div_mod_nested:
  fixes a b c :: nat
  assumes "0 < b"
  shows "a div (b * c) * c + a mod (b * c) div b = a div b" "a mod (b * c) mod b = a mod b"
proof -
  have "a = b * (a div (b * c) * c) + a mod (b * c)"
    by (metis mult.assoc mult.commute mult_div_mod_eq)
  then have "a div b = (b * (a div (b * c) * c) + a mod (b * c)) div b" by simp
  also have "\<dots> = a div (b * c) * c + a mod (b * c) div b"
    using assms by (simp only: div_mult_self4)
  finally show "a div (b * c) * c + a mod (b * c) div b = a div b" ..
  show "a mod (b * c) mod b = a mod b" by (simp add: mod_mod_cancel)
qed

lemma splice_splice:
  "i + length xs + length ys \<le> length buf \<Longrightarrow> splice (splice buf i xs) (i + length xs) ys = splice buf i (xs @ ys)"
  by (simp add: splice_def ac_simps)

lemma splice_append_right: "splice (xs @ ys) (length xs + i) zs = xs @ splice ys i zs"
  by (simp add: splice_def)

lemma splice_append_left:
  "i + length zs \<le> length xs \<Longrightarrow> splice (xs @ ys) i zs = splice xs i zs @ ys"
  by (simp add: splice_def)

lemma concat_update_splice:
  "\<forall>x\<in>set xs. length x = n \<Longrightarrow> i < length xs \<Longrightarrow> p + length c \<le> n \<Longrightarrow>
    concat (xs[i := splice (xs ! i) p c]) = splice (concat xs) (i * n + p) c"
proof (induction xs arbitrary: i)
  case (Cons x xs)
  show ?case
  proof (cases i)
    case 0
    then show ?thesis using Cons.prems by (simp add: splice_append_left)
  next
    case (Suc j)
    have "splice (x @ concat xs) (length x + (j * n + p)) c = x @ concat (xs[j := splice (xs ! j) p c])"
      unfolding splice_append_right using Cons Suc by simp
    then show ?thesis using Cons.prems Suc by (simp add: add.assoc)
  qed
qed simp

lemma map_fun_upd_distinct:
  "distinct xs \<Longrightarrow> j < length xs \<Longrightarrow> map (f(xs ! j := v)) xs = (map f xs)[j := v]"
  by (rule nth_equalityI) (auto simp: nth_list_update nth_eq_iff_index_eq)

lemma splice_Nil [simp]: "splice buf i [] = buf"
  by (simp add: splice_def)

section \<open>The bytes of a chain\<close>

text \<open>The sectors of a chain, as the directory scan lists them, and their bytes.\<close>

definition chain_data :: "fat_info \<Rightarrow> (u64 \<Rightarrow> u8 list) \<Rightarrow> u32 list \<Rightarrow> u8 list" where
  "chain_data fi disk cs = concat (map disk (dir_sectors fi cs))"

abbreviation spc :: "fat_info \<Rightarrow> nat" where
  "spc fi \<equiv> unat (sectors_per_cluster fi)"

lemma unat_bytes_per_cluster: "unat (bytes_per_cluster fi) = bps fi * spc fi"
proof -
  have "bps fi < 2 ^ 16" "spc fi < 2 ^ 8"
    using unat_less [of "bytes_per_sector fi"] unat_less [of "sectors_per_cluster fi"] by simp_all
  then have "bps fi * spc fi < 2 ^ 16 * 2 ^ 8" by (rule mult_strict_mono) simp_all
  then have "bps fi * spc fi < 2 ^ 32" by simp
  then show ?thesis by (simp add: bytes_per_cluster_def unat_word_ariths unat_ucast_up)
qed

lemma length_dir_sectors [simp]: "length (dir_sectors fi cs) = length cs * spc fi"
  unfolding dir_sectors_def by (subst length_concat_const [of _ "spc fi"]) auto

lemma nth_dir_sectors:
  "i < length cs \<Longrightarrow> s < spc fi \<Longrightarrow> dir_sectors fi cs ! (i * spc fi + s) = cluster_to_lba fi (cs ! i) + of_nat s"
  unfolding dir_sectors_def by (subst nth_concat_const) auto

text \<open>The sector that holds the byte at a file offset.\<close>

lemma sector_of_offset:
  assumes "0 < bps fi" "0 < spc fi" "unat off < length cs * (bps fi * spc fi)"
  shows "unat (off div bytes_per_cluster fi) < length cs"
    "unat off div bps fi < length (dir_sectors fi cs)"
    "sector_lba fi (cs ! unat (off div bytes_per_cluster fi)) off = dir_sectors fi cs ! (unat off div bps fi)"
    "unat (offset_in_sector fi off) = unat off mod bps fi"
proof -
  let ?B = "bps fi" and ?S = "spc fi" and ?o = "unat off"
  have d: "unat (off div bytes_per_cluster fi) = ?o div (?B * ?S)" "unat (off mod bytes_per_cluster fi) = ?o mod (?B * ?S)"
    by (simp_all add: unat_div unat_mod unat_bytes_per_cluster)
  have C: "0 < ?B * ?S" using assms by simp
  show i: "unat (off div bytes_per_cluster fi) < length cs"
    unfolding d using assms(3) by (simp add: less_mult_imp_div_less)
  have s: "?o mod (?B * ?S) div ?B < ?S"
    using assms(1,2) by (intro less_mult_imp_div_less) (simp add: mult.commute)
  have u: "unat ((off mod bytes_per_cluster fi) div ucast (bytes_per_sector fi)) = ?o mod (?B * ?S) div ?B"
    by (simp add: unat_div d unat_ucast_up)
  then have "ucast ((off mod bytes_per_cluster fi) div ucast (bytes_per_sector fi)) = (of_nat (?o mod (?B * ?S) div ?B) :: u64)"
    by (simp only: flip: u) (simp only: of_nat_unat)
  then have "sector_lba fi (cs ! unat (off div bytes_per_cluster fi)) off =
      dir_sectors fi cs ! (?o div (?B * ?S) * ?S + ?o mod (?B * ?S) div ?B)"
    using i s unfolding d by (subst nth_dir_sectors) (simp_all add: sector_lba_def d)
  then show "sector_lba fi (cs ! unat (off div bytes_per_cluster fi)) off = dir_sectors fi cs ! (?o div ?B)"
    by (simp only: div_mod_nested(1) [OF assms(1)])
  show "?o div ?B < length (dir_sectors fi cs)"
    using assms(3) by (simp add: less_mult_imp_div_less mult.assoc mult.commute mult.left_commute)
  show "unat (offset_in_sector fi off) = ?o mod ?B"
    by (simp add: offset_in_sector_def unat_mod unat_bytes_per_cluster unat_ucast_up div_mod_nested(2) [OF assms(1)])
qed

text \<open>What one step of a transfer moves: up to the end of the sector.\<close>

lemma sector_slice:
  assumes "\<forall>k. length (disk k) = bps fi" "0 < bps fi" "pos div bps fi < length (dir_sectors fi cs)" "n \<le> bps fi - pos mod bps fi"
  shows "take n (drop (pos mod bps fi) (disk (dir_sectors fi cs ! (pos div bps fi)))) = take n (drop pos (chain_data fi disk cs))"
proof -
  have "drop (pos div bps fi * bps fi + pos mod bps fi) (chain_data fi disk cs) =
      drop (pos mod bps fi) (disk (dir_sectors fi cs ! (pos div bps fi))) @ concat (drop (Suc (pos div bps fi)) (map disk (dir_sectors fi cs)))"
    unfolding chain_data_def using assms by (subst drop_concat_const [of _ "bps fi"]) (auto simp: less_imp_le)
  then show ?thesis using assms by (simp add: div_mult_mod_eq)
qed

lemma length_chain_data: "\<forall>k. length (disk k) = bps fi \<Longrightarrow> length (chain_data fi disk cs) = length cs * (bps fi * spc fi)"
  unfolding chain_data_def by (subst length_concat_const [of _ "bps fi"]) auto

lemma unat_bytes_to_copy:
  fixes off rest :: u32 and cs :: "u32 list"
  assumes "0 < bps fi" "0 < spc fi" "unat off < length cs * (bps fi * spc fi)"
  shows "unat (bytes_to_copy fi off rest) = min (bps fi - unat off mod bps fi) (unat rest)"
proof -
  have "unat off mod bps fi < bps fi" using assms(1) by simp
  then have "offset_in_sector fi off \<le> ucast (bytes_per_sector fi)"
    using sector_of_offset(4) [OF assms] by (simp add: word_le_nat_alt unat_ucast_up)
  then have "unat (ucast (bytes_per_sector fi) - offset_in_sector fi off) = bps fi - unat off mod bps fi"
    using sector_of_offset(4) [OF assms] by (simp add: unat_sub_le unat_ucast_up)
  then show ?thesis by (simp add: bytes_to_copy_def min_def word_le_nat_alt)
qed

section \<open>Reading\<close>

lemma read_loop_data:
  assumes L: "disk_laws dev (bps fi) disk up" and g: "0 < bps fi" "0 < spc fi"
    and T: "unat off + unat T \<le> length cs * (bps fi * spc fi)" "unat off + unat T < 2 ^ 32" "unat T \<le> length buf"
  shows "up d \<Longrightarrow> unat r \<le> unat T \<Longrightarrow> \<exists>d'. read_loop dev fi cs T r (off + r) buf d =
      Some (Ok (T, splice buf (unat r) (take (unat T - unat r) (drop (unat off + unat r) (chain_data fi (disk d) cs)))), d') \<and>
      up d' \<and> disk d' = disk d"
  using T(3)
proof (induction "unat T - unat r" arbitrary: r buf d rule: less_induct)
  case less
  have u: "unat (off + r) = unat off + unat r" using less.prems(2) T(2) by (subst unat_add_small) auto
  have dlen: "\<forall>k. length (disk d k) = bps fi" using disk_length [OF L less.prems(1)] by blast
  show ?case
  proof (cases "unat r < unat T")
    case False
    then have "r = T" using less.prems(2) by (simp add: word_unat_eq_iff)
    then show ?thesis using less.prems(1) by (subst read_loop.simps) simp
  next
    case True
    let ?o = "unat off + unat r" and ?D = "chain_data fi (disk d) cs"
    have o: "unat (off + r) < length cs * (bps fi * spc fi)" using u True T(1) by linarith
    note s = sector_of_offset [OF g o, unfolded u]
    define n where "n = bytes_to_copy fi (off + r) (T - r)"
    have Tr: "unat (T - r) = unat T - unat r" using True by (simp add: unat_sub_le word_le_nat_alt)
    have n: "unat n = min (bps fi - ?o mod bps fi) (unat T - unat r)"
      using unat_bytes_to_copy [OF g o, of "T - r"] by (simp add: n_def u Tr)
    have pos: "0 < unat n" using True g(1) by (simp add: n)
    have rn: "unat (r + n) = unat r + unat n"
      using n T(2) True by (subst unat_add_small) auto
    let ?lba = "dir_sectors fi cs ! (?o div bps fi)"
    obtain d1 where d1: "run_state (dbd_read_block dev ?lba (replicate (bps fi) 0)) d = (Ok (disk d ?lba), d1)"
      "up d1" "disk d1 = disk d"
      using disk_read [OF L less.prems(1), of "replicate (bps fi) 0" ?lba] by auto
    have slice: "take (unat n) (drop (?o mod bps fi) (disk d ?lba)) = take (unat n) (drop ?o ?D)"
      using dlen g(1) s(2) n by (intro sector_slice) auto
    have lenD: "length ?D = length cs * (bps fi * spc fi)" by (rule length_chain_data [OF dlen])
    let ?buf = "splice buf (unat r) (take (unat n) (drop ?o ?D))"
    have len: "length (take (unat n) (drop ?o ?D)) = unat n" using lenD T(1) n True by simp
    have step: "read_loop dev fi cs T r (off + r) buf d = read_loop dev fi cs T (r + n) (off + (r + n)) ?buf d1"
    proof -
      have "r < T" "\<not> length cs \<le> unat ((off + r) div bytes_per_cluster fi)"
        using True s(1) by (simp_all add: word_less_nat_alt not_le)
      then show ?thesis
        by (subst read_loop.simps) (simp add: Let_def s(3,4) d1(1) slice add.assoc flip: n_def)
    qed
    have nle: "unat n \<le> unat T - unat r" unfolding n by simp
    have fit: "unat r + unat n \<le> length buf" using nle less.prems(3) True by linarith
    have lenb: "length ?buf = length buf" using fit len by (intro length_splice) simp
    have "unat T - unat (r + n) < unat T - unat r" using rn pos True by linarith
    moreover have "unat (r + n) \<le> unat T" using rn nle True by linarith
    moreover have "unat T \<le> length ?buf" using lenb less.prems(3) by simp
    ultimately obtain d' where d':
      "read_loop dev fi cs T (r + n) (off + (r + n)) ?buf d1 =
        Some (Ok (T, splice ?buf (unat r + unat n) (take (unat T - (unat r + unat n)) (drop (?o + unat n) ?D))), d')"
      "up d'" "disk d' = disk d" using less.hyps [of "r + n" d1 ?buf] d1(2,3) by (auto simp: rn add.assoc)
    have rest: "unat T - (unat r + unat n) = unat T - unat r - unat n" by simp
    have len2: "length (take (unat T - unat r - unat n) (drop (unat n) (drop ?o ?D))) \<le> unat T - unat r - unat n" by simp
    have "splice ?buf (unat r + unat n) (take (unat T - (unat r + unat n)) (drop (?o + unat n) ?D)) =
        splice buf (unat r) (take (unat n) (drop ?o ?D) @ take (unat T - unat r - unat n) (drop (unat n) (drop ?o ?D)))"
      using splice_splice [of "unat r" "take (unat n) (drop ?o ?D)" "take (unat T - unat r - unat n) (drop (unat n) (drop ?o ?D))" buf]
        len len2 less.prems(3) nle True unfolding rest by (simp add: add.commute)
    also have "\<dots> = splice buf (unat r) (take (unat T - unat r) (drop ?o ?D))"
      using nle by (simp only: le_add_diff_inverse flip: take_add)
    finally show ?thesis using d' step by auto
  qed
qed

section \<open>Writing\<close>

text \<open>Replacing bytes of one sector of the chain replaces them in the chain's bytes.\<close>

lemma chain_data_update:
  assumes "\<forall>k. length (disk k) = bps fi" "distinct (dir_sectors fi cs)" "0 < bps fi"
    and "pos div bps fi < length (dir_sectors fi cs)" "pos mod bps fi + length c \<le> bps fi"
  defines "lba \<equiv> dir_sectors fi cs ! (pos div bps fi)"
  shows "chain_data fi (disk(lba := splice (disk lba) (pos mod bps fi) c)) cs = splice (chain_data fi disk cs) pos c"
proof -
  let ?S = "dir_sectors fi cs" and ?i = "pos div bps fi"
  have "chain_data fi (disk(lba := splice (disk lba) (pos mod bps fi) c)) cs =
      concat ((map disk ?S)[?i := splice (map disk ?S ! ?i) (pos mod bps fi) c])"
    unfolding chain_data_def lba_def using assms(2,4) by (subst map_fun_upd_distinct) simp_all
  also have "\<dots> = splice (chain_data fi disk cs) (?i * bps fi + pos mod bps fi) c"
    unfolding chain_data_def using assms(1,4,5) by (subst concat_update_splice) auto
  finally show ?thesis by simp
qed

lemma splice_whole: "length buf = length xs \<Longrightarrow> splice buf 0 xs = xs"
  by (simp add: splice_def)

text \<open>One step of the write loop, whether it reads the sector first or replaces it as a whole.\<close>

lemma write_step:
  assumes L: "disk_laws dev (bps fi) disk up" "up d" and "unat p + length c \<le> bps fi"
    and full: "\<not> (p \<noteq> 0 \<or> n < ucast (bytes_per_sector fi)) \<Longrightarrow> length c = bps fi"
  obtains sector d1 d2 where
    "(if p \<noteq> 0 \<or> n < ucast (bytes_per_sector fi) then run_state (dbd_read_block dev lba (replicate (bps fi) 0)) d
      else (Ok (replicate (bps fi) 0), d)) = (Ok sector, d1)"
    "run_state (dbd_write_block dev lba (splice sector (unat p) c)) d1 = (Ok (), d2)" "up d2"
    "disk d2 = (disk d)(lba := splice (disk d lba) (unat p) c)"
proof (cases "p \<noteq> 0 \<or> n < ucast (bytes_per_sector fi)")
  case True
  obtain d1 where d1: "run_state (dbd_read_block dev lba (replicate (bps fi) 0)) d = (Ok (disk d lba), d1)" "up d1" "disk d1 = disk d"
    using disk_read [OF L, of "replicate (bps fi) 0" lba] by auto
  have "length (splice (disk d lba) (unat p) c) = bps fi" using assms(3) disk_length [OF L] by simp
  then obtain d2 where "run_state (dbd_write_block dev lba (splice (disk d lba) (unat p) c)) d1 = (Ok (), d2)" "up d2"
    "disk d2 = (disk d)(lba := splice (disk d lba) (unat p) c)"
    using disk_write [OF L(1) d1(2)] d1(3) by metis
  then show thesis using that [of "disk d lba" d1 d2] True d1 by simp
next
  case False
  then have p: "p = 0" and c: "length c = bps fi" using full by auto
  obtain d2 where "run_state (dbd_write_block dev lba c) d = (Ok (), d2)" "up d2" "disk d2 = (disk d)(lba := c)"
    using disk_write [OF L c] by metis
  then show thesis using that [of "replicate (bps fi) 0" d d2] False p c disk_length [OF L]
    by (simp add: splice_whole)
qed

lemma write_loop_data:
  assumes L: "disk_laws dev (bps fi) disk up" and g: "0 < bps fi" "0 < spc fi" and D: "distinct (dir_sectors fi cs)"
    and T: "unat off + unat T \<le> length cs * (bps fi * spc fi)" "unat off + unat T < 2 ^ 32" "unat T \<le> length buf"
  shows "up d \<Longrightarrow> unat r \<le> unat T \<Longrightarrow> \<exists>d'. write_loop dev fi cs buf T r (off + r) d = Some (Ok T, d') \<and> up d' \<and>
      chain_data fi (disk d') cs =
        splice (chain_data fi (disk d) cs) (unat off + unat r) (take (unat T - unat r) (drop (unat r) buf)) \<and>
      (\<forall>k. k \<notin> set (dir_sectors fi cs) \<longrightarrow> disk d' k = disk d k)"
proof (induction "unat T - unat r" arbitrary: r d rule: less_induct)
  case less
  have u: "unat (off + r) = unat off + unat r" using less.prems(2) T(2) by (subst unat_add_small) auto
  have dlen: "\<forall>k. length (disk d k) = bps fi" using disk_length [OF L less.prems(1)] by blast
  show ?case
  proof (cases "unat r < unat T")
    case False
    then have "r = T" using less.prems(2) by (simp add: word_unat_eq_iff)
    then show ?thesis using less.prems(1) by (subst write_loop.simps) simp
  next
    case True
    let ?o = "unat off + unat r" and ?D = "chain_data fi (disk d) cs" and ?S = "dir_sectors fi cs"
    have o: "unat (off + r) < length cs * (bps fi * spc fi)" using u True T(1) by linarith
    note s = sector_of_offset [OF g o, unfolded u]
    define n where "n = bytes_to_copy fi (off + r) (T - r)"
    have Tr: "unat (T - r) = unat T - unat r" using True by (simp add: unat_sub_le word_le_nat_alt)
    have n: "unat n = min (bps fi - ?o mod bps fi) (unat T - unat r)"
      using unat_bytes_to_copy [OF g o, of "T - r"] by (simp add: n_def u Tr)
    have nle: "unat n \<le> unat T - unat r" "?o mod bps fi + unat n \<le> bps fi"
      unfolding n using mod_less_divisor [OF g(1), of ?o] by linarith+
    have pos: "0 < unat n" using True g(1) by (simp add: n)
    have rn: "unat (r + n) = unat r + unat n" using nle(1) T(2) True by (subst unat_add_small) auto
    let ?lba = "?S ! (?o div bps fi)" and ?c = "take (unat n) (drop (unat r) buf)"
    have c: "length ?c = unat n" using nle T(3) True by simp
    have full: "length ?c = bps fi"
      if "\<not> (offset_in_sector fi (off + r) \<noteq> 0 \<or> n < ucast (bytes_per_sector fi))"
      using that c nle(2) s(4) by (simp add: word_less_nat_alt unat_ucast_up)
    obtain sector d1 d2 where st:
      "(if offset_in_sector fi (off + r) \<noteq> 0 \<or> n < ucast (bytes_per_sector fi)
        then run_state (dbd_read_block dev ?lba (replicate (bps fi) 0)) d else (Ok (replicate (bps fi) 0), d)) = (Ok sector, d1)"
      "run_state (dbd_write_block dev ?lba (splice sector (unat (offset_in_sector fi (off + r))) ?c)) d1 = (Ok (), d2)"
      and d2: "up d2" "disk d2 = (disk d)(?lba := splice (disk d ?lba) (?o mod bps fi) ?c)"
      by (rule write_step [OF L less.prems(1), of "offset_in_sector fi (off + r)" ?c n ?lba])
        (use full c nle(2) s(4) in auto)
    have step: "write_loop dev fi cs buf T r (off + r) d = write_loop dev fi cs buf T (r + n) (off + (r + n)) d2"
    proof -
      have "r < T" "\<not> length cs \<le> unat ((off + r) div bytes_per_cluster fi)"
        using True s(1) by (simp_all add: word_less_nat_alt not_le)
      then show ?thesis
        by (subst write_loop.simps) (simp only: Let_def s(3) n_def [symmetric] st if_True if_False split prod.case outcome.case add.assoc)
    qed
    have new: "chain_data fi (disk d2) cs = splice ?D ?o ?c"
      unfolding d2(2) using dlen D g(1) s(2) nle(2) c by (intro chain_data_update) simp_all
    have out: "disk d2 k = disk d k" if "k \<notin> set ?S" for k using that s(2) d2(2) by (metis fun_upd_other nth_mem)
    have "unat T - unat (r + n) < unat T - unat r" using rn pos True by linarith
    moreover have "unat (r + n) \<le> unat T" using rn nle True by linarith
    ultimately obtain d' where d': "write_loop dev fi cs buf T (r + n) (off + (r + n)) d2 = Some (Ok T, d')" "up d'"
      "chain_data fi (disk d') cs = splice (splice ?D ?o ?c) (?o + unat n) (take (unat T - (unat r + unat n)) (drop (unat r + unat n) buf))"
      "\<forall>k. k \<notin> set ?S \<longrightarrow> disk d' k = disk d2 k"
      using less.hyps [of "r + n" d2] d2(1) new by (auto simp: rn add.assoc)
    let ?rest = "take (unat T - unat r - unat n) (drop (unat n) (drop (unat r) buf))"
    have "splice (splice ?D ?o ?c) (?o + unat n) ?rest = splice ?D ?o (?c @ ?rest)"
      using splice_splice [of ?o ?c ?rest ?D] c length_chain_data [OF dlen, of cs] T nle True by simp
    also have "?c @ ?rest = take (unat T - unat r) (drop (unat r) buf)"
      using nle(1) by (simp only: le_add_diff_inverse flip: take_add)
    finally have "chain_data fi (disk d') cs = splice ?D ?o (take (unat T - unat r) (drop (unat r) buf))"
      using d'(3) by (simp add: add.commute)
    then show ?thesis using d' step out by auto
  qed
qed

section \<open>The chain of a file\<close>

text \<open>A walk through the table that ends in an end mark, as \<^verbatim>\<open>get_chain\<close> returns it.\<close>

definition is_chain :: "fat_info \<Rightarrow> (u64 \<Rightarrow> u8 list) \<Rightarrow> u32 \<Rightarrow> u32 list \<Rightarrow> bool" where
  "is_chain fi disk start cs \<longleftrightarrow> cs \<noteq> [] \<and> hd cs = start \<and>
     (\<forall>i. Suc i < length cs \<longrightarrow> has_next (fat_entry fi disk) (cs ! i) \<and> fat_entry fi disk (cs ! i) = cs ! Suc i) \<and>
     2 \<le> last cs \<and> FAT32_EOC \<le> fat_entry fi disk (last cs)"

lemma is_chain_walk:
  assumes "is_chain fi disk start cs"
  shows "i < length cs \<Longrightarrow> walk (fat_entry fi disk) i start = cs ! i"
proof (induction i)
  case 0
  then show ?case using assms by (simp add: is_chain_def hd_conv_nth)
next
  case (Suc i)
  then have "walk (fat_entry fi disk) (Suc i) start = fat_entry fi disk (cs ! i)"
    by (simp add: walk_def)
  then show ?case using assms Suc.prems by (simp add: is_chain_def)
qed

lemma get_chain_Ok:
  assumes L: "disk_laws dev (bps fi) disk up" "up d" and fi: "fat_ok fi" and c: "is_chain fi (disk d) start cs"
  obtains d' where "run_state (get_chain dev fi start) d = (Ok cs, d')" "up d'" "disk d' = disk d"
proof -
  let ?n = "fat_entry fi (disk d)" and ?k = "length cs - 1"
  have ne: "cs \<noteq> []" and l: "Suc ?k = length cs" "last cs = cs ! ?k"
    using c by (auto simp: is_chain_def last_conv_nth)
  have w: "walk ?n i start = cs ! i" if "i < length cs" for i using is_chain_walk [OF c that] .
  have "\<forall>i<?k. has_next ?n (walk ?n i start)"
    using c w l by (auto simp: is_chain_def)
  moreover have "\<not> has_next ?n (walk ?n ?k start)"
    using c w [of ?k] l by (simp add: is_chain_def has_next_def not_less)
  ultimately obtain d' where "chain_loop dev fi start [] d = Some (chain_result ?n [] start ?k, d')" "up d'" "disk d' = disk d"
    using chain_loop_stops [OF L(1) fi L(2)] by blast
  moreover have "chain_result ?n [] start ?k = Ok cs"
  proof -
    have "map (\<lambda>i. walk ?n i start) [0..<length cs] = cs"
      by (rule nth_equalityI) (simp_all add: w)
    then show ?thesis using c w [of ?k] l ne by (simp add: chain_result_def is_chain_def Let_def del: upt_Suc)
  qed
  ultimately show thesis by (intro that [of d']) (auto simp: get_chain_def)
qed

section \<open>FAT files hold the bytes of their chain\<close>

definition fat_content :: "fat_info \<Rightarrow> ('d \<Rightarrow> u64 \<Rightarrow> u8 list) \<Rightarrow> fat32_file \<Rightarrow> u32 list \<Rightarrow> 'd fat_world \<Rightarrow> u8 list" where
  "fat_content fi disk f cs w = take (unat (get_size f w)) (chain_data fi (disk (fw_dev w)) cs)"

definition fat_ready ::
  "'d dyn_block_device \<Rightarrow> fat_info \<Rightarrow> ('d \<Rightarrow> u64 \<Rightarrow> u8 list) \<Rightarrow> ('d \<Rightarrow> bool) \<Rightarrow> fat32_file \<Rightarrow> u32 list \<Rightarrow> 'd fat_world \<Rightarrow> bool" where
  "fat_ready dev fi disk up f cs w \<longleftrightarrow>
     disk_laws dev (bps fi) disk up \<and> fat_ok fi \<and> 0 < spc fi \<and> up (fw_dev w) \<and>
     is_chain fi (disk (fw_dev w)) (ff_start_cluster f) cs \<and> unat (get_size f w) \<le> length cs * (bps fi * spc fi)"

lemma fat_okD: "fat_ok fi \<Longrightarrow> 0 < bps fi"
  by (auto simp: fat_ok_def)

lemma bytes_per_cluster_nonzero: "fat_ok fi \<Longrightarrow> 0 < spc fi \<Longrightarrow> bytes_per_cluster fi \<noteq> 0"
  using unat_bytes_per_cluster [of fi] fat_okD [of fi] by auto

lemma length_fat_content:
  assumes "fat_ready dev fi disk up f cs w"
  shows "length (fat_content fi disk f cs w) = unat (get_size f w)"
proof -
  have "disk_laws dev (bps fi) disk up" "up (fw_dev w)" using assms by (simp_all add: fat_ready_def)
  then have "\<forall>k. length (disk (fw_dev w) k) = bps fi" by (simp add: disk_length)
  then show ?thesis using assms by (simp add: fat_content_def fat_ready_def length_chain_data)
qed

lemma fat_file_read_content:
  assumes r: "fat_ready dev fi disk up f cs w" and off: "unat off \<le> length (fat_content fi disk f cs w)" "length buf < 2 ^ 32"
  shows "\<exists>w'. fat_file_read dev fi f buf off w = (Ok (read_result (fat_content fi disk f cs w) buf (unat off)), w') \<and>
    fat_ready dev fi disk up f cs w' \<and> fat_content fi disk f cs w' = fat_content fi disk f cs w"
proof -
  let ?size = "get_size f w" and ?d = "fw_dev w"
  define T where "T = min (of_nat (length buf)) (?size - off)"
  have len: "length (fat_content fi disk f cs w) = unat ?size" by (rule length_fat_content [OF r])
  have o: "unat off \<le> unat ?size" using off(1) len by simp
  then have uT: "unat T = min (length buf) (unat ?size - unat off)"
    using off(2) by (simp add: T_def min_def word_le_nat_alt unat_of_nat unat_sub_le)
  have laws: "disk_laws dev (bps fi) disk up" "up ?d" "fat_ok fi" "0 < spc fi" "is_chain fi (disk ?d) (ff_start_cluster f) cs"
    and size: "unat ?size \<le> length cs * (bps fi * spc fi)" using r by (auto simp: fat_ready_def)
  show ?thesis
  proof (cases "T = 0")
    case True
    then have "min (length buf) (unat ?size - unat off) = 0" using uT by simp
    then have "read_result (fat_content fi disk f cs w) buf (unat off) = (0, buf)"
      using len by (simp add: read_result_def)
    moreover have "fat_file_read dev fi f buf off w = (Ok (0, buf), w)"
      using True by (simp add: fat_file_read_def Let_def flip: T_def)
    ultimately show ?thesis using r by simp
  next
    case False
    then have lt: "\<not> off \<ge> ?size" using uT o by (auto simp: word_le_nat_alt word_unat_eq_iff)
    obtain d1 where d1: "run_state (get_chain dev fi (ff_start_cluster f)) ?d = (Ok cs, d1)" "up d1" "disk d1 = disk ?d"
      by (rule get_chain_Ok [OF laws(1-3,5)])
    have T: "unat off + unat T \<le> length cs * (bps fi * spc fi)" "unat off + unat T < 2 ^ 32" "unat T \<le> length buf"
      using uT o size unat_less [of ?size] by auto
    obtain d2 where d2: "read_loop dev fi cs T 0 off buf d1 =
        Some (Ok (T, splice buf 0 (take (unat T) (drop (unat off) (chain_data fi (disk ?d) cs)))), d2)" "up d2" "disk d2 = disk ?d"
      using read_loop_data [OF laws(1) fat_okD [OF laws(3)] laws(4) T d1(2), of 0] d1(3) by auto
    have res: "(T, splice buf 0 (take (unat T) (drop (unat off) (chain_data fi (disk ?d) cs)))) =
        read_result (fat_content fi disk f cs w) buf (unat off)"
    proof -
      have "take (unat T) (drop (unat off) (fat_content fi disk f cs w)) = take (unat T) (drop (unat off) (chain_data fi (disk ?d) cs))"
        using uT o by (simp add: fat_content_def drop_take min_def)
      moreover have "T = of_nat (min (length buf) (unat ?size - unat off))" unfolding uT [symmetric] by simp
      moreover have "length (take (unat T) (drop (unat off) (fat_content fi disk f cs w))) = unat T" using len uT by simp
      ultimately show ?thesis using len uT by (simp add: read_result_def splice_def Let_def)
    qed
    have "fat_file_read dev fi f buf off w = (Ok (read_result (fat_content fi disk f cs w) buf (unat off)), w\<lparr>fw_dev := d2\<rparr>)"
      using lt False d1(1) d2(1) bytes_per_cluster_nonzero [OF laws(3,4)]
      by (simp add: fat_file_read_def Let_def on_dev_def run_io_bind run_io_map_err res flip: T_def)
    moreover have "fat_ready dev fi disk up f cs (w\<lparr>fw_dev := d2\<rparr>)"
      using r d2(2,3) by (simp add: fat_ready_def get_size_def)
    moreover have "fat_content fi disk f cs (w\<lparr>fw_dev := d2\<rparr>) = fat_content fi disk f cs w"
      using d2(3) by (simp add: fat_content_def get_size_def)
    ultimately show ?thesis by blast
  qed
qed

interpretation fat_file: content_file "fat_file_ops dev fi f" "fat_content fi disk f cs" "fat_ready dev fi disk up f cs"
  for dev :: "'d dyn_block_device" and fi f disk cs up
proof unfold_locales
  fix w assume "fat_ready dev fi disk up f cs w"
  then show "length (fat_content fi disk f cs w) < 2 ^ 32"
    using unat_less [of "get_size f w"] by (simp add: length_fat_content)
next
  fix w and off :: u32 and buf :: "u8 list"
  assume "fat_ready dev fi disk up f cs w" "unat off \<le> length (fat_content fi disk f cs w)" "length buf < 2 ^ 32"
  then show "\<exists>w'. fo_read (fat_file_ops dev fi f) buf off w =
      (Ok (read_result (fat_content fi disk f cs w) buf (unat off)), w') \<and>
      fat_ready dev fi disk up f cs w' \<and> fat_content fi disk f cs w' = fat_content fi disk f cs w"
    using fat_file_read_content by (simp add: fat_file_ops_def)
qed

text \<open>Writing inside the chain, over the end of the file or not, replaces the bytes at the offset.\<close>

definition data_apart :: "fat_info \<Rightarrow> u32 list \<Rightarrow> bool" where
  "data_apart fi cs \<longleftrightarrow> distinct (dir_sectors fi cs) \<and> (\<forall>c\<in>set cs. in_fat fi c) \<and> set (dir_sectors fi cs) \<inter> fat_area fi = {}"

lemma entry_sector_in_area: "fat_ok fi \<Longrightarrow> in_fat fi c \<Longrightarrow> entry_sector fi c \<in> fat_area fi"
  using copies_in_area [of fi c] by (auto simp: entry_copies_def fat_ok_def)

lemma is_chain_cong:
  assumes "is_chain fi disk start cs" "\<forall>c\<in>set cs. fat_entry fi disk' c = fat_entry fi disk c"
  shows "is_chain fi disk' start cs"
proof -
  have "fat_entry fi disk' (cs ! i) = fat_entry fi disk (cs ! i)" if "Suc i < length cs" for i using that assms(2) by simp
  then show ?thesis using assms by (simp add: is_chain_def has_next_def) metis
qed

lemma is_chain_outside:
  assumes "is_chain fi disk start cs" "data_apart fi cs" "fat_ok fi" "\<forall>k. k \<notin> set (dir_sectors fi cs) \<longrightarrow> disk' k = disk k"
  shows "is_chain fi disk' start cs"
proof (rule is_chain_cong [OF assms(1)], intro ballI)
  fix c assume "c \<in> set cs"
  then have "entry_sector fi c \<notin> set (dir_sectors fi cs)"
    using assms(2,3) entry_sector_in_area [of fi c] by (auto simp: data_apart_def)
  then show "fat_entry fi disk' c = fat_entry fi disk c" using assms(4) by (simp add: fat_entry_def)
qed

lemma extend_file_fits:
  assumes L: "disk_laws dev (bps fi) disk up" "up d" and fi: "fat_ok fi" "0 < spc fi" and c: "is_chain fi (disk d) start cs"
    and n: "unat new_size \<le> length cs * (bps fi * spc fi)"
  obtains d' where "run_state (extend_file dev fi start new_size) d = (Ok (), d')" "up d'" "disk d' = disk d"
proof -
  let ?b = "bytes_per_cluster fi" and ?B = "bps fi * spc fi"
  have pos: "0 < ?B" using fi fat_okD by simp
  obtain d' where d': "run_state (get_chain dev fi start) d = (Ok cs, d')" "up d'" "disk d' = disk d"
    by (rule get_chain_Ok [OF L fi(1) c])
  have "unat (new_size + ?b - 1) = (unat new_size + (?B - 1)) mod 2 ^ 32"
  proof -
    have "new_size + ?b - 1 = of_nat (unat new_size + (unat ?b - 1))"
      using pos by (simp add: of_nat_diff unat_bytes_per_cluster Suc_le_eq flip: unat_bytes_per_cluster)
    then show ?thesis by (simp only: unat_of_nat) (simp add: unat_bytes_per_cluster)
  qed
  also have "\<dots> \<le> unat new_size + (?B - 1)" by simp
  also have "\<dots> < Suc (length cs) * ?B" unfolding mult_Suc using n pos by linarith
  finally have "unat (new_size + ?b - 1) div ?B < Suc (length cs)" by (rule less_mult_imp_div_less)
  then have "unat ((new_size + ?b - 1) div ?b) \<le> length cs" by (simp add: unat_div unat_bytes_per_cluster)
  then show thesis using d' bytes_per_cluster_nonzero [OF fi]
    by (intro that [of d']) (simp_all add: extend_file_def run_io_bind Let_def run_ok)
qed

lemma take_splice_grow:
  assumes "i \<le> k" "k \<le> length D" "i + length xs \<le> length D"
  shows "take (max k (i + length xs)) (splice D i xs) = splice (take k D) i xs"
proof (cases "k \<le> i + length xs")
  case True
  then show ?thesis using assms by (simp add: splice_def max_absorb2 min_absorb1)
next
  case False
  then have "take k (take i D @ xs @ drop (i + length xs) D) = take i D @ xs @ take (k - (i + length xs)) (drop (i + length xs) D)"
    using assms by (simp add: min_absorb2)
  then show ?thesis using False assms by (simp add: splice_def max_absorb1 drop_take min_absorb1)
qed

lemma fat_file_write_content:
  assumes r: "fat_ready dev fi disk up f cs w" and apart: "data_apart fi cs" and len: "unat off + length buf < 2 ^ 32"
    and off: "unat off \<le> length (fat_content fi disk f cs w)" "unat off + length buf \<le> length cs * (bps fi * spc fi)"
  shows "\<exists>w'. fat_file_write dev fi f buf off w = (Ok (of_nat (length buf)), w') \<and>
    fat_ready dev fi disk up f cs w' \<and> fat_content fi disk f cs w' = splice (fat_content fi disk f cs w) (unat off) buf \<and>
    (\<forall>k. k \<notin> set (dir_sectors fi cs) \<longrightarrow> disk (fw_dev w') k = disk (fw_dev w) k)"
proof (cases "buf = []")
  case True
  then show ?thesis using r by (simp add: fat_file_write_def)
next
  case False
  let ?size = "get_size f w" and ?d = "fw_dev w" and ?T = "of_nat (length buf) :: u32" and ?n = "off + of_nat (length buf)"
  have laws: "disk_laws dev (bps fi) disk up" "up ?d" "fat_ok fi" "0 < spc fi" "is_chain fi (disk ?d) (ff_start_cluster f) cs"
    and size: "unat ?size \<le> length cs * (bps fi * spc fi)" using r by (auto simp: fat_ready_def)
  have uT: "unat ?T = length buf" using len by (simp add: unat_of_nat)
  then have un: "unat ?n = unat off + length buf" using len by (simp add: unat_add_small)
  have nz: "?T \<noteq> 0" using False uT by (metis length_0_conv unat_0)
  define size' where "size' = max ?size ?n"
  have us: "unat size' = max (unat ?size) (unat off + length buf)"
    by (auto simp: size'_def max_def word_le_nat_alt un)
  obtain d1 where d1: "run_state (extend_file dev fi (ff_start_cluster f) ?n) ?d = (Ok (), d1)" "up d1" "disk d1 = disk ?d"
    using extend_file_fits [OF laws, of ?n] un off(2) by auto
  obtain d2 where d2: "up d2" "disk d2 = disk ?d"
    "(if ?n > ?size then
        case on_dev (io_map_err (\<lambda>_. FdIoError) (extend_file dev fi (ff_start_cluster f) ?n)) w of
          (Ok _, w) \<Rightarrow> (Ok (), set_size f ?n w) | (r, w) \<Rightarrow> (r, w)
      else (Ok (), w)) = (Ok () :: (unit, fd_error) outcome, set_size f size' (w\<lparr>fw_dev := d2\<rparr>))"
  proof (cases "?n > ?size")
    case True
    then show thesis using d1 that [of d1] by (simp add: on_dev_def run_io_map_err size'_def max_def set_size_def)
  next
    case False
    then have "size' = ?size" by (simp add: size'_def max_def)
    then show thesis using False laws(2) that [of ?d] by (simp add: set_size_def get_size_def)
  qed
  obtain d3 where d3: "run_state (get_chain dev fi (ff_start_cluster f)) d2 = (Ok cs, d3)" "up d3" "disk d3 = disk ?d"
    by (rule get_chain_Ok [OF laws(1) d2(1) laws(3), of "ff_start_cluster f" cs]) (use d2(2) laws(5) in simp_all)
  obtain d4 where d4: "write_loop dev fi cs buf ?T 0 off d3 = Some (Ok ?T, d4)" "up d4"
    "chain_data fi (disk d4) cs = splice (chain_data fi (disk ?d) cs) (unat off) buf"
    "\<forall>k. k \<notin> set (dir_sectors fi cs) \<longrightarrow> disk d4 k = disk ?d k"
    using write_loop_data [OF laws(1) fat_okD [OF laws(3)] laws(4), of cs off ?T buf d3 0] apart d3 uT off(2) len
    by (auto simp: data_apart_def)
  let ?w = "set_size f size' (w\<lparr>fw_dev := d4\<rparr>)"
  have "fat_file_write dev fi f buf off w = (Ok ?T, ?w)"
    using nz d3(1) d4(1) bytes_per_cluster_nonzero [OF laws(3,4)]
    unfolding fat_file_write_def Let_def d2(3) by (simp add: on_dev_def run_io_bind run_io_map_err set_size_def)
  moreover have "fat_ready dev fi disk up f cs ?w"
    using laws d4(2,4) is_chain_outside [OF laws(5) apart laws(3)] us size off(2)
    by (simp add: fat_ready_def set_size_def get_size_def)
  moreover have "fat_content fi disk f cs ?w = splice (fat_content fi disk f cs w) (unat off) buf"
  proof -
    have "\<forall>k. length (disk ?d k) = bps fi" using disk_length [OF laws(1,2)] by blast
    then have "length (chain_data fi (disk ?d) cs) = length cs * (bps fi * spc fi)" by (rule length_chain_data)
    then have "take (max (unat ?size) (unat off + length buf)) (splice (chain_data fi (disk ?d) cs) (unat off) buf) =
        splice (take (unat ?size) (chain_data fi (disk ?d) cs)) (unat off) buf"
      using off size length_fat_content [OF r] by (intro take_splice_grow) simp_all
    then show ?thesis using d4(3) us by (simp add: fat_content_def set_size_def get_size_def)
  qed
  ultimately show ?thesis using d4(4) by (intro exI [of _ ?w]) (simp add: set_size_def)
qed

section \<open>Properties\<close>

text \<open>
  A FAT32 file is the byte sequence of its cluster chain, cut off at its size.  Two reads in a row
  through a descriptor return exactly the bytes that one read of the joint length has to return,
  and neither changes the contents.
\<close>

lemma fat_file_sequential_read:
  assumes "fat_ready dev fi disk up f cs w" "fde_file d = fat_file_ops dev fi f" "has_flags (fde_access d) ACC_READ"
    and "fde_offset d \<le> get_size f w" "length lo_buf + length hi_buf < 2 ^ 32"
  shows "\<exists>nl cl dl wl nh ch dh wh. fd_read d lo_buf w = (Ok (nl, cl), dl, wl) \<and> fd_read dl hi_buf wl = (Ok (nh, ch), dh, wh) \<and>
    take (unat nl) cl @ take (unat nh) ch =
      take (length lo_buf + length hi_buf) (drop (unat (fde_offset d)) (take (unat (get_size f w)) (chain_data fi (disk (fw_dev w)) cs))) \<and>
    fat_content fi disk f cs wh = fat_content fi disk f cs w \<and> fat_ready dev fi disk up f cs wh"
proof -
  have "unat (fde_offset d) \<le> length (fat_content fi disk f cs w)"
    using assms(4) by (simp add: length_fat_content [OF assms(1)] word_le_nat_alt)
  from fat_file.fd_read_twice [OF assms(1-3) this assms(5)] show ?thesis
    unfolding fat_content_def by metis
qed

text \<open>
  C3. Writing to a FAT32 file at an offset inside it, as far as its clusters reach and also over its
  end, returns the length of the data, replaces exactly the bytes at the offset (the file grows by
  what lies beyond its old end), changes no sector outside the file, and reading the range back
  returns the data.
\<close>

theorem fat_file_write_read:
  assumes "fat_ready dev fi disk up f cs w" "data_apart fi cs" "off \<le> get_size f w"
    and "unat off + length buf \<le> length cs * (bps fi * spc fi)" "unat off + length buf < 2 ^ 32" "length dst = length buf"
  shows "\<exists>w'. fat_file_write dev fi f buf off w = (Ok (of_nat (length buf)), w') \<and>
    fat_content fi disk f cs w' = splice (fat_content fi disk f cs w) (unat off) buf \<and>
    (\<forall>k. k \<notin> set (dir_sectors fi cs) \<longrightarrow> disk (fw_dev w') k = disk (fw_dev w) k) \<and>
    fst (fat_file_read dev fi f dst off w') = Ok (of_nat (length buf), buf)"
proof -
  have o: "unat off \<le> length (fat_content fi disk f cs w)"
    using assms(3) by (simp add: length_fat_content [OF assms(1)] word_le_nat_alt)
  obtain w' where w': "fat_file_write dev fi f buf off w = (Ok (of_nat (length buf)), w')" "fat_ready dev fi disk up f cs w'"
    and c: "fat_content fi disk f cs w' = splice (fat_content fi disk f cs w) (unat off) buf"
    and out: "\<forall>k. k \<notin> set (dir_sectors fi cs) \<longrightarrow> disk (fw_dev w') k = disk (fw_dev w) k"
    using fat_file_write_content [OF assms(1,2,5) o assms(4)] by blast
  have o': "unat off \<le> length (fat_content fi disk f cs w')" using o c by (simp add: splice_def)
  have "read_result (fat_content fi disk f cs w') dst (unat off) = (of_nat (length buf), buf)"
    using o assms(6) by (simp add: c read_result_def splice_def)
  then have "fst (fat_file_read dev fi f dst off w') = Ok (of_nat (length buf), buf)"
    using fat_file_read_content [OF w'(2) o', of dst] assms(5,6) by auto
  then show ?thesis using w'(1) c out by blast
qed

text \<open>The file of 20 bytes on clusters 2 and 3 of the small volume.\<close>

definition demo_fat_file :: fat32_file where
  "demo_fat_file = \<lparr>ff_start_cluster = 2, ff_handle = 0, ff_name = ''A''\<rparr>"

definition demo_fat_world :: "(u64 \<Rightarrow> u8 list) fat_world" where
  "demo_fat_world = \<lparr>fw_dev = demo_disk, fw_size = (\<lambda>_. 20), fw_next = 1\<rparr>"

lemma demo_fat_ready: "fat_ready demo_dev demo_fat id demo_up demo_fat_file [2, 3] demo_fat_world"
proof -
  have "fat_entry demo_fat demo_disk 2 = 3" "fat_entry demo_fat demo_disk 3 = END_MARK" by code_simp+
  then have "is_chain demo_fat demo_disk 2 [2, 3]"
    by (auto simp: is_chain_def has_next_def END_MARK_def FAT32_EOC_def less_Suc_eq)
  moreover have "bps demo_fat = 16" "spc demo_fat = 1" by (simp_all add: demo_fat_def)
  ultimately show ?thesis using demo_laws demo_disk_ok
    by (simp add: fat_ready_def demo_fat_world_def demo_fat_file_def get_size_def)
qed

lemma demo_data_apart: "data_apart demo_fat [2, 3]"
proof -
  have s: "dir_sectors demo_fat [2, 3] = [9, 10]" by code_simp
  show ?thesis unfolding data_apart_def s by (simp add: in_fat_def demo_fat_def fat_area_def)
qed

lemma fat_file_sequential_read_witness:
  "\<exists>nl cl dl wl nh ch dh wh.
    fd_read (file_descriptor_new (fat_file_ops demo_dev demo_fat demo_fat_file) 0 RDONLY) [7, 7, 7] demo_fat_world = (Ok (nl, cl), dl, wl) \<and>
    fd_read dl (replicate 40 7) wl = (Ok (nh, ch), dh, wh) \<and> take (unat nl) cl @ take (unat nh) ch = replicate 20 0"
proof -
  have "chain_data demo_fat demo_disk [2, 3] = replicate 32 0" by code_simp
  then show ?thesis
    using fat_file_sequential_read [OF demo_fat_ready, where d = "file_descriptor_new (fat_file_ops demo_dev demo_fat demo_fat_file) 0 RDONLY"
      and lo_buf = "[7, 7, 7]" and hi_buf = "replicate 40 7"]
    by (simp add: file_descriptor_new_def has_flags_def RDONLY_def demo_fat_world_def get_size_def) metis
qed

theorem fat_file_write_read_witness:
  "\<exists>w'. fat_file_write demo_dev demo_fat demo_fat_file [1, 2, 3, 4, 5, 6] 14 demo_fat_world = (Ok 6, w') \<and>
    fst (fat_file_read demo_dev demo_fat demo_fat_file [0, 0, 0, 0, 0, 0] 14 w') = Ok (6, [1, 2, 3, 4, 5, 6])"
proof -
  have "get_size demo_fat_file demo_fat_world = 20" "bps demo_fat = 16" "spc demo_fat = 1"
    by (simp_all add: get_size_def demo_fat_world_def demo_fat_def)
  then show ?thesis
    using fat_file_write_read [OF demo_fat_ready demo_data_apart, where off = 14 and buf = "[1, 2, 3, 4, 5, 6]" and dst = "[0, 0, 0, 0, 0, 0]"]
    by auto
qed

end
