(* ===== verification/Fat32_Dir.thy ===== *)
theory Fat32_Dir
  imports Fat32_Content
begin

text \<open>
  Directories of the FAT32 file system: listing a directory, finding an entry in it and opening a
  file agree with one reading of the directory's bytes.
\<close>

section \<open>The entries of a directory\<close>

abbreviation end_record :: "u8 list \<Rightarrow> bool" where
  "end_record raw \<equiv> raw ! 0 = 0"

definition entries_of :: "u8 list list \<Rightarrow> dir_entry list" where
  "entries_of rs = List.map_filter parse_dir_entry (takeWhile (\<lambda>raw. \<not> end_record raw) rs)"

definition dir_listing :: "fat_info \<Rightarrow> (u64 \<Rightarrow> u8 list) \<Rightarrow> u32 list \<Rightarrow> dir_entry list" where
  "dir_listing fi disk cs = entries_of (concat (map (\<lambda>k. dir_records (disk k)) (dir_sectors fi cs)))"

text \<open>What a search by name has to return.\<close>

definition lookup_name :: "string \<Rightarrow> dir_entry list \<Rightarrow> (dir_entry, fat32_error) outcome" where
  "lookup_name name es =
     (case find (\<lambda>e. eq_ignore_ascii_case (de_name e) name) es of Some e \<Rightarrow> Ok e | None \<Rightarrow> Err FatNotFound)"

lemma entries_of_simps [simp]:
  "entries_of [] = []"
  "entries_of (raw # rs) =
     (if end_record raw then [] else (case parse_dir_entry raw of Some e \<Rightarrow> [e] | None \<Rightarrow> []) @ entries_of rs)"
  by (simp_all add: entries_of_def List.map_filter_simps split: option.split)

lemma entries_of_append:
  "entries_of (rs @ ss) = entries_of rs @ (if \<exists>raw\<in>set rs. end_record raw then [] else entries_of ss)"
  by (induction rs) auto

lemma find_append: "find P (xs @ ys) = (case find P xs of Some x \<Rightarrow> Some x | None \<Rightarrow> find P ys)"
  by (induction xs) auto

lemma scan_list_entries: "scan_list es rs = (\<exists>raw\<in>set rs. end_record raw, es @ entries_of rs)"
  by (induction rs arbitrary: es) (auto split: option.split)

lemma scan_find_entries:
  "scan_find name rs =
     (case find (\<lambda>e. eq_ignore_ascii_case (de_name e) name) (entries_of rs) of
        Some e \<Rightarrow> Some (Ok e)
      | None \<Rightarrow> if \<exists>raw\<in>set rs. end_record raw then Some (Err FatNotFound) else None)"
  by (induction rs) (auto split: option.split)

lemma list_sectors_entries:
  assumes L: "disk_laws dev n disk up"
  shows "up d \<Longrightarrow> length sector = n \<Longrightarrow> \<exists>d'. run_state (list_sectors dev lbas sector es) d =
      (Ok (es @ entries_of (concat (map (\<lambda>k. dir_records (disk d k)) lbas))), d') \<and> up d' \<and> disk d' = disk d"
proof (induction lbas arbitrary: sector es d)
  case Nil
  then show ?case by (simp add: run_ok)
next
  case (Cons lba lbas)
  obtain d1 where d1: "run_state (dbd_read_block dev lba sector) d = (Ok (disk d lba), d1)" "up d1" "disk d1 = disk d"
    by (rule disk_read [OF L Cons.prems])
  have "length (disk d lba) = n" using disk_length [OF L Cons.prems(1)] .
  then show ?case using d1 Cons.IH [OF d1(2), of "disk d lba" "es @ entries_of (dir_records (disk d lba))"]
    by (auto simp: run_io_bind run_io_map_err scan_list_entries entries_of_append run_ok)
qed

lemma find_sectors_entries:
  assumes L: "disk_laws dev n disk up"
  shows "up d \<Longrightarrow> length sector = n \<Longrightarrow> \<exists>d'. run_state (find_sectors dev name lbas sector) d =
      (lookup_name name (entries_of (concat (map (\<lambda>k. dir_records (disk d k)) lbas))), d') \<and> up d' \<and> disk d' = disk d"
proof (induction lbas arbitrary: sector d)
  case Nil
  then show ?case by (simp add: lookup_name_def run_fail)
next
  case (Cons lba lbas)
  obtain d1 where d1: "run_state (dbd_read_block dev lba sector) d = (Ok (disk d lba), d1)" "up d1" "disk d1 = disk d"
    by (rule disk_read [OF L Cons.prems])
  have "length (disk d lba) = n" using disk_length [OF L Cons.prems(1)] .
  then show ?case using d1 Cons.IH [OF d1(2), of "disk d lba"]
    by (auto simp: run_io_bind run_io_map_err scan_find_entries entries_of_append lookup_name_def find_append
        run_of_result split: option.split)
qed

lemma list_entries_listing:
  assumes "disk_laws dev (bps fi) disk up" "up d" "fat_ok fi" "is_chain fi (disk d) start cs"
  obtains d' where "run_state (list_entries dev fi start) d = (Ok (dir_listing fi (disk d) cs), d')" "up d'" "disk d' = disk d"
proof -
  obtain d1 where d1: "run_state (get_chain dev fi start) d = (Ok cs, d1)" "up d1" "disk d1 = disk d"
    by (rule get_chain_Ok [OF assms])
  obtain d2 where "run_state (list_sectors dev (dir_sectors fi cs) (replicate (bps fi) 0) []) d1 =
      (Ok (dir_listing fi (disk d) cs), d2)" "up d2" "disk d2 = disk d"
    using list_sectors_entries [OF assms(1) d1(2), of "replicate (bps fi) 0" "dir_sectors fi cs" "[]"] d1(3)
    by (auto simp: dir_listing_def)
  then show thesis using d1(1) by (intro that [of d2]) (simp_all add: list_entries_def run_io_bind)
qed

lemma find_entry_listing:
  assumes "disk_laws dev (bps fi) disk up" "up d" "fat_ok fi" "is_chain fi (disk d) start cs"
  obtains d' where "run_state (find_entry dev fi start name) d = (lookup_name name (dir_listing fi (disk d) cs), d')"
    "up d'" "disk d' = disk d"
proof -
  obtain d1 where d1: "run_state (get_chain dev fi start) d = (Ok cs, d1)" "up d1" "disk d1 = disk d"
    by (rule get_chain_Ok [OF assms])
  obtain d2 where "run_state (find_sectors dev name (dir_sectors fi cs) (replicate (bps fi) 0)) d1 =
      (lookup_name name (dir_listing fi (disk d) cs), d2)" "up d2" "disk d2 = disk d"
    using find_sectors_entries [OF assms(1) d1(2), of "replicate (bps fi) 0" name "dir_sectors fi cs"] d1(3)
    by (auto simp: dir_listing_def)
  then show thesis using d1(1) by (intro that [of d2]) (simp_all add: find_entry_def run_io_bind)
qed

lemma is_chain_start: "is_chain fi disk start cs \<Longrightarrow> 2 \<le> start"
  by (cases cs rule: remdups_adj.cases) (auto simp: is_chain_def has_next_def dest!: spec [of _ 0])

section \<open>Opening a file of the root directory\<close>

definition open_result :: "dir_entry \<Rightarrow> nat \<Rightarrow> (fat32_file, fat32_error) outcome" where
  "open_result e h =
     (if de_is_dir e then Err FatIsADirectory
      else if de_first_cluster e < 2 \<and> de_size e > 0 then Err FatInvalidCluster
      else Ok \<lparr>ff_start_cluster = de_first_cluster e, ff_handle = h, ff_name = de_name e\<rparr>)"

lemma fat_open_root:
  assumes "disk_laws dev (bps fi) disk up" "up (fw_dev w)" "fat_ok fi" "is_chain fi (disk (fw_dev w)) (root_cluster fi) cs"
    and "path_parts path = [name]" "lookup_name name (dir_listing fi (disk (fw_dev w)) cs) = r"
  obtains d' where "up d'" "disk d' = disk (fw_dev w)"
    "fat_open dev fi path w =
      (case r of
         Ok e \<Rightarrow> (open_result e (fw_next w),
           case open_result e (fw_next w) of
             Ok _ \<Rightarrow> w\<lparr>fw_dev := d', fw_size := (fw_size w)(fw_next w := de_size e), fw_next := Suc (fw_next w)\<rparr>
           | _ \<Rightarrow> w\<lparr>fw_dev := d'\<rparr>)
       | Err x \<Rightarrow> (Err x, w\<lparr>fw_dev := d'\<rparr>) | Panic \<Rightarrow> (Panic, w\<lparr>fw_dev := d'\<rparr>) | Diverge \<Rightarrow> (Diverge, w\<lparr>fw_dev := d'\<rparr>))"
proof -
  obtain d' where "run_state (find_entry dev fi (root_cluster fi) name) (fw_dev w) = (r, d')" "up d'" "disk d' = disk (fw_dev w)"
    using find_entry_listing [OF assms(1-4), of name] assms(6) by metis
  then show thesis using assms(5)
    by (intro that [of d']) (auto simp: fat_open_def Let_def on_dev_def run_io_bind parent_cluster_def run_ok fat32_file_new_def
        open_result_def split: outcome.split)
qed

section \<open>Properties\<close>

text \<open>
  C25. Searching a directory is equivalent to listing it: on a healthy disk \<^verbatim>\<open>list_entries\<close> returns the
  live entries of the directory's chain up to its end mark, and \<^verbatim>\<open>find_entry\<close> returns the first
  entry of that listing whose name matches without regard to ASCII case, or \<^verbatim>\<open>NotFound\<close> exactly
  when there is none; neither changes the disk.
\<close>

theorem find_entry_equiv_listing:
  assumes "disk_laws dev (bps fi) disk up" "up d" "fat_ok fi" "is_chain fi (disk d) start cs"
  shows "\<exists>es dl df. run_state (list_entries dev fi start) d = (Ok es, dl) \<and>
    es = entries_of (concat (map (\<lambda>k. dir_records (disk d k)) (dir_sectors fi cs))) \<and>
    run_state (find_entry dev fi start name) d =
      ((case find (\<lambda>e. eq_ignore_ascii_case (de_name e) name) es of Some e \<Rightarrow> Ok e | None \<Rightarrow> Err FatNotFound), df) \<and>
    disk dl = disk d \<and> disk df = disk d"
proof -
  obtain dl where "run_state (list_entries dev fi start) d = (Ok (dir_listing fi (disk d) cs), dl)" "disk dl = disk d"
    by (rule list_entries_listing [OF assms])
  moreover obtain df where "run_state (find_entry dev fi start name) d = (lookup_name name (dir_listing fi (disk d) cs), df)"
    "disk df = disk d" by (rule find_entry_listing [OF assms])
  ultimately show ?thesis unfolding lookup_name_def dir_listing_def by blast
qed

text \<open>
  C24. Opening and reading a file of the root directory: \<^verbatim>\<open>open\<close> fails with \<^verbatim>\<open>NotFound\<close> when the
  directory has no entry of that name and with \<^verbatim>\<open>IsADirectory\<close> when the entry is a directory;
  otherwise, reading the opened file from its start returns the first bytes of the entry's chain.
\<close>

theorem fat_open_reads_entry:
  assumes L: "disk_laws dev (bps fi) disk up" "up (fw_dev w)" "fat_ok fi"
    and R: "is_chain fi (disk (fw_dev w)) (root_cluster fi) root" "path_parts path = [name]"
    and B: "0 < spc fi" "length buf < 2 ^ 32"
  shows "case find (\<lambda>e. eq_ignore_ascii_case (de_name e) name) (dir_listing fi (disk (fw_dev w)) root) of
      None \<Rightarrow> fst (fat_open dev fi path w) = Err FatNotFound
    | Some e \<Rightarrow>
        if de_is_dir e then fst (fat_open dev fi path w) = Err FatIsADirectory
        else \<forall>cs. is_chain fi (disk (fw_dev w)) (de_first_cluster e) cs \<and> unat (de_size e) \<le> length cs * (bps fi * spc fi) \<longrightarrow>
          (\<exists>f w'. fat_open dev fi path w = (Ok f, w') \<and>
            fst (fat_file_read dev fi f buf 0 w') =
              Ok (read_result (take (unat (de_size e)) (chain_data fi (disk (fw_dev w)) cs)) buf 0))"
    (is "case ?found of None \<Rightarrow> _ | Some e \<Rightarrow> _ e")
proof (cases ?found)
  case None
  then have r: "lookup_name name (dir_listing fi (disk (fw_dev w)) root) = Err FatNotFound" by (simp add: lookup_name_def)
  show ?thesis by (rule fat_open_root [OF L R r]) (simp add: None)
next
  case (Some e)
  then have r: "lookup_name name (dir_listing fi (disk (fw_dev w)) root) = Ok e" by (simp add: lookup_name_def)
  obtain d' where d': "up d'" "disk d' = disk (fw_dev w)"
    and o: "fat_open dev fi path w = (open_result e (fw_next w),
      case open_result e (fw_next w) of
        Ok _ \<Rightarrow> w\<lparr>fw_dev := d', fw_size := (fw_size w)(fw_next w := de_size e), fw_next := Suc (fw_next w)\<rparr>
      | _ \<Rightarrow> w\<lparr>fw_dev := d'\<rparr>)"
    by (rule fat_open_root [OF L R r]) auto
  show ?thesis
  proof (cases "de_is_dir e")
    case True
    then show ?thesis by (simp add: Some o open_result_def)
  next
    case False
    let ?f = "\<lparr>ff_start_cluster = de_first_cluster e, ff_handle = fw_next w, ff_name = de_name e\<rparr>"
    let ?w = "w\<lparr>fw_dev := d', fw_size := (fw_size w)(fw_next w := de_size e), fw_next := Suc (fw_next w)\<rparr>"
    have "\<exists>f w'. fat_open dev fi path w = (Ok f, w') \<and> fst (fat_file_read dev fi f buf 0 w') =
        Ok (read_result (take (unat (de_size e)) (chain_data fi (disk (fw_dev w)) cs)) buf 0)"
      if c: "is_chain fi (disk (fw_dev w)) (de_first_cluster e) cs" and s: "unat (de_size e) \<le> length cs * (bps fi * spc fi)" for cs
    proof -
      have "fat_ready dev fi disk up ?f cs ?w" using L B d' c s by (simp add: fat_ready_def get_size_def)
      then have "fst (fat_file_read dev fi ?f buf 0 ?w) = Ok (read_result (fat_content fi disk ?f cs ?w) buf 0)"
        using fat_file_read_content [of dev fi disk up ?f cs ?w 0 buf] B(2) by auto
      then have "fst (fat_file_read dev fi ?f buf 0 ?w) =
          Ok (read_result (take (unat (de_size e)) (chain_data fi (disk (fw_dev w)) cs)) buf 0)"
        using d'(2) by (simp add: fat_content_def get_size_def)
      moreover have "\<not> de_first_cluster e < 2" using is_chain_start [OF c] by (simp add: not_less)
      then have "fat_open dev fi path w = (Ok ?f, ?w)" using False by (simp add: o open_result_def)
      ultimately show ?thesis by blast
    qed
    then show ?thesis using Some False by simp
  qed
qed

text \<open>A root directory with one file, for concrete runs.\<close>

definition demo_record :: "u8 list" where
  "demo_record = [72, 73, 32, 32, 32, 32, 32, 32, 84, 88, 84, 0x20] @ replicate 8 0 @ [0, 0] @ replicate 4 0 @ [3, 0] @ to_le32 5"

definition demo_dir_fat :: fat_info where
  "demo_dir_fat =
     \<lparr>bytes_per_sector = 64, sectors_per_cluster = 1, reserved_sector_count = 1, num_fats = 1, num_dir_entries = 0,
      sectors_per_fat = 1, root_cluster = 2, fat_start_lba = 1, cluster_heap_start_lba = 2, partition_start_lba = 0,
      total_clusters = 8\<rparr>"

definition demo_dir_disk :: "u64 \<Rightarrow> u8 list" where
  "demo_dir_disk =
     (\<lambda>_. replicate 64 0)
       (1 := to_le32 0 @ to_le32 0 @ to_le32 END_MARK @ to_le32 END_MARK @ replicate 48 0,
        2 := demo_record @ replicate 32 0, 3 := [1, 2, 3, 4, 5] @ replicate 59 0)"

definition demo_dir_dev :: "(u64 \<Rightarrow> u8 list) dyn_block_device" where
  "demo_dir_dev = dyn_block id (ram_disk 64)"

definition demo_dir_up :: "(u64 \<Rightarrow> u8 list) \<Rightarrow> bool" where
  "demo_dir_up d \<longleftrightarrow> (\<forall>k. length (d k) = 64)"

definition demo_dir_world :: "(u64 \<Rightarrow> u8 list) fat_world" where
  "demo_dir_world = \<lparr>fw_dev = demo_dir_disk, fw_size = (\<lambda>_. 0), fw_next = 0\<rparr>"

lemma demo_dir_laws: "disk_laws demo_dir_dev (bps demo_dir_fat) id demo_dir_up"
  using ram_disk_laws [of 64] by (simp add: demo_dir_dev_def demo_dir_fat_def id_def demo_dir_up_def [abs_def])

lemma demo_dir_ok: "demo_dir_up demo_dir_disk" "fat_ok demo_dir_fat"
  by (simp_all add: demo_dir_disk_def demo_dir_up_def demo_record_def fat_ok_def demo_dir_fat_def)

lemma demo_dir_chain: "is_chain demo_dir_fat demo_dir_disk 2 [2]" "is_chain demo_dir_fat demo_dir_disk 3 [3]"
proof -
  have "fat_entry demo_dir_fat demo_dir_disk 2 = END_MARK" "fat_entry demo_dir_fat demo_dir_disk 3 = END_MARK" by code_simp+
  then show "is_chain demo_dir_fat demo_dir_disk 2 [2]" "is_chain demo_dir_fat demo_dir_disk 3 [3]"
    by (simp_all add: is_chain_def END_MARK_def FAT32_EOC_def)
qed

definition demo_entry :: dir_entry where
  "demo_entry = \<lparr>de_name = ''HI.TXT'', de_first_cluster = 3, de_size = 5, de_is_dir = False\<rparr>"

lemma demo_listing: "dir_listing demo_dir_fat demo_dir_disk [2] = [demo_entry]"
  by code_simp

theorem find_entry_equiv_listing_witness:
  "\<exists>dl df. run_state (list_entries demo_dir_dev demo_dir_fat 2) demo_dir_disk = (Ok [demo_entry], dl) \<and>
    run_state (find_entry demo_dir_dev demo_dir_fat 2 ''hi.txt'') demo_dir_disk = (Ok demo_entry, df)"
proof -
  have "eq_ignore_ascii_case (de_name demo_entry) ''hi.txt''" by code_simp
  then show ?thesis
    using find_entry_equiv_listing [OF demo_dir_laws, OF demo_dir_ok, unfolded id_apply, OF demo_dir_chain(1), of "''hi.txt''"]
    by (auto simp: demo_listing simp flip: dir_listing_def)
qed

theorem fat_open_reads_entry_witness:
  "\<exists>f w'. fat_open demo_dir_dev demo_dir_fat ''/hi.txt'' demo_dir_world = (Ok f, w') \<and>
    fst (fat_file_read demo_dir_dev demo_dir_fat f [0, 0, 0, 0, 0, 0, 0, 0] 0 w') = Ok (5, [1, 2, 3, 4, 5, 0, 0, 0])"
proof -
  have e: "eq_ignore_ascii_case (de_name demo_entry) ''hi.txt''" by code_simp
  have p: "path_parts ''/hi.txt'' = [''hi.txt'']" by code_simp
  have c: "read_result (take 5 (chain_data demo_dir_fat demo_dir_disk [3])) [0, 0, 0, 0, 0, 0, 0, 0] 0 =
      (5, [1, 2, 3, 4, 5, 0, 0, 0])" by code_simp
  have w: "fw_dev demo_dir_world = demo_dir_disk" "root_cluster demo_dir_fat = 2" "bps demo_dir_fat = 64" "spc demo_dir_fat = 1"
    by (simp_all add: demo_dir_world_def demo_dir_fat_def)
  have "\<exists>f w'. fat_open demo_dir_dev demo_dir_fat ''/hi.txt'' demo_dir_world = (Ok f, w') \<and>
      fst (fat_file_read demo_dir_dev demo_dir_fat f [0, 0, 0, 0, 0, 0, 0, 0] 0 w') =
        Ok (read_result (take 5 (chain_data demo_dir_fat demo_dir_disk [3])) [0, 0, 0, 0, 0, 0, 0, 0] 0)"
    using fat_open_reads_entry [where w = demo_dir_world and buf = "[0, 0, 0, 0, 0, 0, 0, 0]" and root = "[2]",
        unfolded w(1), OF demo_dir_laws, OF demo_dir_ok, unfolded id_apply w(2), OF demo_dir_chain(1) p]
      e demo_dir_chain(2) by (simp add: demo_listing demo_entry_def w)
  then show ?thesis unfolding c .
qed

end
