(* ===== verification/Gpio.thy ===== *)
theory Gpio
  imports Device_Io
begin

text \<open>
  General-purpose pins: the traits of \<^verbatim>\<open>drivers/src/hal/gpio.rs\<close> with their default methods, and the
  controller of the BCM2835 (\<^verbatim>\<open>drivers/src/peripheral/bcm2835/gpio.rs\<close>) over its registers.
\<close>

section \<open>The abstraction\<close>

datatype pin_level = PinLow | PinHigh

definition pin_level_of_bool :: "bool \<Rightarrow> pin_level" where
  "pin_level_of_bool b = (if b then PinHigh else PinLow)"

definition bool_of_pin_level :: "pin_level \<Rightarrow> bool" where
  "bool_of_pin_level l = (case l of PinHigh \<Rightarrow> True | PinLow \<Rightarrow> False)"

datatype pull_mode = PullNone | PullModeUp | PullModeDown
datatype edge_detect = EdgeRising | EdgeFalling | EdgeBoth
datatype level_detect = DetectHigh | DetectLow

record ('p, 'd, 'e) gpio_controller =
  gc_set_pull :: "'p \<Rightarrow> pull_mode \<Rightarrow> ('d, unit, 'e) io"
  gc_set_high :: "'p \<Rightarrow> ('d, unit, 'e) io"
  gc_set_low :: "'p \<Rightarrow> ('d, unit, 'e) io"
  gc_read :: "'p \<Rightarrow> ('d, pin_level, 'e) io"

definition gc_set_level :: "('p, 'd, 'e) gpio_controller \<Rightarrow> 'p \<Rightarrow> pin_level \<Rightarrow> ('d, unit, 'e) io" where
  "gc_set_level g pin l = (case l of PinHigh \<Rightarrow> gc_set_high g pin | PinLow \<Rightarrow> gc_set_low g pin)"

definition gc_toggle :: "('p, 'd, 'e) gpio_controller \<Rightarrow> 'p \<Rightarrow> ('d, unit, 'e) io" where
  "gc_toggle g pin =
     io_bind (gc_read g pin) (\<lambda>l. gc_set_level g pin (if l = PinHigh then PinLow else PinHigh))"

record ('p, 'd, 'e) gpio_interrupts =
  gi_enable_edge_detect :: "'p \<Rightarrow> edge_detect \<Rightarrow> ('d, unit, 'e) io"
  gi_disable_edge_detect :: "'p \<Rightarrow> ('d, unit, 'e) io"
  gi_enable_level_detect :: "'p \<Rightarrow> level_detect \<Rightarrow> ('d, unit, 'e) io"
  gi_disable_level_detect :: "'p \<Rightarrow> ('d, unit, 'e) io"
  gi_event_pending :: "'p \<Rightarrow> ('d, bool, 'e) io"
  gi_clear_event :: "'p \<Rightarrow> ('d, unit, 'e) io"

text \<open>Single pins: inputs, outputs, and outputs that can be read back.\<close>

record ('d, 'e) input_pin =
  ip_read :: "('d, pin_level, 'e) io"

definition ip_is_high :: "('d, 'e) input_pin \<Rightarrow> ('d, bool, 'e) io" where
  "ip_is_high p = io_bind (ip_read p) (\<lambda>l. ok (l = PinHigh))"

definition ip_is_low :: "('d, 'e) input_pin \<Rightarrow> ('d, bool, 'e) io" where
  "ip_is_low p = io_bind (ip_read p) (\<lambda>l. ok (l = PinLow))"

record ('d, 'e) output_pin =
  op_set_high :: "('d, unit, 'e) io"
  op_set_low :: "('d, unit, 'e) io"

definition op_set_level :: "('d, 'e, 'x) output_pin_scheme \<Rightarrow> pin_level \<Rightarrow> ('d, unit, 'e) io" where
  "op_set_level p l = (case l of PinHigh \<Rightarrow> op_set_high p | PinLow \<Rightarrow> op_set_low p)"

definition op_set_state :: "('d, 'e, 'x) output_pin_scheme \<Rightarrow> bool \<Rightarrow> ('d, unit, 'e) io" where
  "op_set_state p st = op_set_level p (pin_level_of_bool st)"

record ('d, 'e) stateful_output_pin = "('d, 'e) output_pin" +
  sop_read :: "('d, pin_level, 'e) io"

definition sop_toggle :: "('d, 'e) stateful_output_pin \<Rightarrow> ('d, unit, 'e) io" where
  "sop_toggle p =
     io_bind (sop_read p) (\<lambda>l. op_set_level p (if l = PinHigh then PinLow else PinHigh))"

definition sop_is_set_high :: "('d, 'e) stateful_output_pin \<Rightarrow> ('d, bool, 'e) io" where
  "sop_is_set_high p = io_bind (sop_read p) (\<lambda>l. ok (l = PinHigh))"

definition sop_is_set_low :: "('d, 'e) stateful_output_pin \<Rightarrow> ('d, bool, 'e) io" where
  "sop_is_set_low p = io_bind (sop_read p) (\<lambda>l. ok (l = PinLow))"

section \<open>Registers of the BCM2835 controller\<close>

definition GPIO_BASE :: u32 where "GPIO_BASE = 0x20200000"

datatype gpio_error = InvalidPin | InvalidFunction

datatype gpio_function = FnInput | FnOutput | FnAlt0 | FnAlt1 | FnAlt2 | FnAlt3 | FnAlt4 | FnAlt5

fun function_code :: "gpio_function \<Rightarrow> u32" where
  "function_code FnInput = 0"
| "function_code FnOutput = 1"
| "function_code FnAlt0 = 4"
| "function_code FnAlt1 = 5"
| "function_code FnAlt2 = 6"
| "function_code FnAlt3 = 7"
| "function_code FnAlt4 = 3"
| "function_code FnAlt5 = 2"

datatype gpio_pull = PullOff | PullDown | PullUp

fun pull_code :: "gpio_pull \<Rightarrow> u32" where
  "pull_code PullOff = 0"
| "pull_code PullDown = 1"
| "pull_code PullUp = 2"

fun pull_of_mode :: "pull_mode \<Rightarrow> gpio_pull" where
  "pull_of_mode PullNone = PullOff"
| "pull_of_mode PullModeUp = PullUp"
| "pull_of_mode PullModeDown = PullDown"

datatype gpio_event = EvRising | EvFalling | EvHigh | EvLow | EvAsyncRising | EvAsyncFalling

text \<open>The register layout: arrays of words at fixed offsets from the base.\<close>

definition gpfsel :: "nat \<Rightarrow> u32" where "gpfsel i = GPIO_BASE + of_nat (4 * i)"
definition gpset :: "nat \<Rightarrow> u32" where "gpset i = GPIO_BASE + 28 + of_nat (4 * i)"
definition gpclr :: "nat \<Rightarrow> u32" where "gpclr i = GPIO_BASE + 40 + of_nat (4 * i)"
definition gplev :: "nat \<Rightarrow> u32" where "gplev i = GPIO_BASE + 52 + of_nat (4 * i)"
definition gped :: "nat \<Rightarrow> u32" where "gped i = GPIO_BASE + 64 + of_nat (4 * i)"

fun event_reg :: "gpio_event \<Rightarrow> nat \<Rightarrow> u32" where
  "event_reg EvRising i = GPIO_BASE + 76 + of_nat (4 * i)"
| "event_reg EvFalling i = GPIO_BASE + 88 + of_nat (4 * i)"
| "event_reg EvHigh i = GPIO_BASE + 100 + of_nat (4 * i)"
| "event_reg EvLow i = GPIO_BASE + 112 + of_nat (4 * i)"
| "event_reg EvAsyncRising i = GPIO_BASE + 124 + of_nat (4 * i)"
| "event_reg EvAsyncFalling i = GPIO_BASE + 136 + of_nat (4 * i)"

definition gppud :: u32 where "gppud = GPIO_BASE + 148"
definition gppudclk :: "nat \<Rightarrow> u32" where "gppudclk i = GPIO_BASE + 152 + of_nat (4 * i)"

definition check_pin :: "u8 \<Rightarrow> ('d, unit, gpio_error) io" where
  "check_pin pin = (if pin \<le> 53 then ok () else fail InvalidPin)"

definition pin_reg_and_bit :: "u8 \<Rightarrow> nat \<times> u32" where
  "pin_reg_and_bit pin = (unat (pin div 32), shl 1 (unat (pin mod 32)))"

fun delay_cycles :: "nat \<Rightarrow> ('d, unit) state" where
  "delay_cycles 0 = State_Monad.return ()"
| "delay_cycles (Suc count) = do { State_Monad.return (); delay_cycles count }"

section \<open>Operations on a pin\<close>

definition set_function :: "(u32, 'd) bus \<Rightarrow> u8 \<Rightarrow> gpio_function \<Rightarrow> ('d, unit, gpio_error) io" where
  "set_function io pin func =
     io_bind (check_pin pin) (\<lambda>_.
       let reg = unat (pin div 10); shift = unat ((pin mod 10) * 3); mask = shl 7 shift in do {
         val \<leftarrow> load io (gpfsel reg);
         store io (gpfsel reg) ((val AND NOT mask) OR shl (function_code func) shift);
         ok ()
       })"

definition gpio_set :: "(u32, 'd) bus \<Rightarrow> u8 \<Rightarrow> ('d, unit, gpio_error) io" where
  "gpio_set io pin =
     io_bind (check_pin pin) (\<lambda>_. case pin_reg_and_bit pin of (reg, b) \<Rightarrow> do { store io (gpset reg) b; ok () })"

definition gpio_clear :: "(u32, 'd) bus \<Rightarrow> u8 \<Rightarrow> ('d, unit, gpio_error) io" where
  "gpio_clear io pin =
     io_bind (check_pin pin) (\<lambda>_. case pin_reg_and_bit pin of (reg, b) \<Rightarrow> do { store io (gpclr reg) b; ok () })"

definition gpio_level :: "(u32, 'd) bus \<Rightarrow> u8 \<Rightarrow> ('d, pin_level, gpio_error) io" where
  "gpio_level io pin =
     io_bind (check_pin pin) (\<lambda>_. case pin_reg_and_bit pin of (reg, b) \<Rightarrow> do {
       val \<leftarrow> load io (gplev reg);
       ok (if val AND b \<noteq> 0 then PinHigh else PinLow)
     })"

definition gpio_set_pull :: "(u32, 'd) bus \<Rightarrow> u8 \<Rightarrow> gpio_pull \<Rightarrow> ('d, unit, gpio_error) io" where
  "gpio_set_pull io pin pull =
     io_bind (check_pin pin) (\<lambda>_. case pin_reg_and_bit pin of (reg, b) \<Rightarrow> do {
       store io gppud (pull_code pull);
       delay_cycles 150;
       store io (gppudclk reg) b;
       delay_cycles 150;
       store io gppud 0;
       store io (gppudclk reg) 0;
       ok ()
     })"

definition event_status :: "(u32, 'd) bus \<Rightarrow> u8 \<Rightarrow> ('d, bool, gpio_error) io" where
  "event_status io pin =
     io_bind (check_pin pin) (\<lambda>_. case pin_reg_and_bit pin of (reg, b) \<Rightarrow> do {
       val \<leftarrow> load io (gped reg);
       ok (val AND b \<noteq> 0)
     })"

definition clear_event :: "(u32, 'd) bus \<Rightarrow> u8 \<Rightarrow> ('d, unit, gpio_error) io" where
  "clear_event io pin =
     io_bind (check_pin pin) (\<lambda>_. case pin_reg_and_bit pin of (reg, b) \<Rightarrow> do { store io (gped reg) b; ok () })"

definition configure_event_detect :: "(u32, 'd) bus \<Rightarrow> u8 \<Rightarrow> gpio_event \<Rightarrow> bool \<Rightarrow> ('d, unit, gpio_error) io" where
  "configure_event_detect io pin event enable =
     io_bind (check_pin pin) (\<lambda>_. case pin_reg_and_bit pin of (reg, b) \<Rightarrow> do {
       val \<leftarrow> load io (event_reg event reg);
       store io (event_reg event reg) (if enable then val OR b else val AND NOT b);
       ok ()
     })"

section \<open>The controller\<close>

definition set_alt_function :: "(u32, 'd) bus \<Rightarrow> u8 \<Rightarrow> u8 \<Rightarrow> ('d, unit, gpio_error) io" where
  "set_alt_function io pin alt =
     (if alt = 0 then set_function io pin FnAlt0
      else if alt = 1 then set_function io pin FnAlt1
      else if alt = 2 then set_function io pin FnAlt2
      else if alt = 3 then set_function io pin FnAlt3
      else if alt = 4 then set_function io pin FnAlt4
      else if alt = 5 then set_function io pin FnAlt5
      else fail InvalidFunction)"

definition set_input :: "(u32, 'd) bus \<Rightarrow> u8 \<Rightarrow> ('d, unit, gpio_error) io" where
  "set_input io pin = set_function io pin FnInput"

definition set_output :: "(u32, 'd) bus \<Rightarrow> u8 \<Rightarrow> ('d, unit, gpio_error) io" where
  "set_output io pin = set_function io pin FnOutput"

definition bcm_gpio :: "(u32, 'd) bus \<Rightarrow> (u8, 'd, gpio_error) gpio_controller" where
  "bcm_gpio io =
     \<lparr>gc_set_pull = (\<lambda>pin pull. gpio_set_pull io pin (pull_of_mode pull)),
      gc_set_high = gpio_set io, gc_set_low = gpio_clear io, gc_read = gpio_level io\<rparr>"

definition bcm_gpio_interrupts :: "(u32, 'd) bus \<Rightarrow> (u8, 'd, gpio_error) gpio_interrupts" where
  "bcm_gpio_interrupts io =
     \<lparr>gi_enable_edge_detect = (\<lambda>pin edge. case edge of
        EdgeRising \<Rightarrow> configure_event_detect io pin EvRising True
      | EdgeFalling \<Rightarrow> configure_event_detect io pin EvFalling True
      | EdgeBoth \<Rightarrow>
          io_bind (configure_event_detect io pin EvRising True) (\<lambda>_. configure_event_detect io pin EvFalling True)),
      gi_disable_edge_detect = (\<lambda>pin.
        io_bind (configure_event_detect io pin EvRising False) (\<lambda>_. configure_event_detect io pin EvFalling False)),
      gi_enable_level_detect = (\<lambda>pin lvl. case lvl of
        DetectHigh \<Rightarrow> configure_event_detect io pin EvHigh True
      | DetectLow \<Rightarrow> configure_event_detect io pin EvLow True),
      gi_disable_level_detect = (\<lambda>pin.
        io_bind (configure_event_detect io pin EvHigh False) (\<lambda>_. configure_event_detect io pin EvLow False)),
      gi_event_pending = event_status io,
      gi_clear_event = clear_event io\<rparr>"

end
