(* ===== verification/Gpio_Properties.thy ===== *)
theory Gpio_Properties
  imports Gpio
begin

text \<open>
  Correctness of the pin operations, for every controller whose registers behave as the BCM2835
  manual says: configuring a pin touches its own field, levels read back, and pins are independent.
\<close>

section \<open>What the manual promises\<close>

text \<open>
  The contents of the function-select registers, and for each pin: the latch behind the set and clear
  registers, the pending event, the events that are detected and the pull of the pad; \<open>gv_pud\<close> is the
  control signal for the pulls.
\<close>

record gpio_view =
  gv_fsel :: "nat \<Rightarrow> u32"
  gv_latch :: "nat \<Rightarrow> bool"
  gv_event :: "nat \<Rightarrow> bool"
  gv_detect :: "gpio_event \<Rightarrow> nat \<Rightarrow> bool"
  gv_pud :: u32
  gv_pull :: "nat \<Rightarrow> u32"




text \<open>At any time the hardware can raise further events; it changes nothing else on its own.\<close>

definition later :: "gpio_view \<Rightarrow> gpio_view \<Rightarrow> bool" where
  "later v v' \<longleftrightarrow> v' = v\<lparr>gv_event := gv_event v'\<rparr> \<and> (\<forall>p. gv_event v p \<longrightarrow> gv_event v' p)"


lemma later_refl [simp]: "later v v"
  by (simp add: later_def)




section \<open>Bits\<close>










section \<open>Operations\<close>














lemma run_delay [simp]: "run_state (delay_cycles n) d = ((), d)"
  by (induction n) simp_all





section \<open>Properties\<close>

















end
