(* ===== verification/Timers.thy ===== *)
theory Timers
  imports Device_Io
begin

text \<open>
  Timers: the traits of \<^verbatim>\<open>drivers/src/hal/timer.rs\<close> with their default methods and type-erased forms, the
  system timer of the BCM2835 (\<^verbatim>\<open>peripheral/bcm2835/timer.rs\<close>) and the interval timer of the PC
  (\<^verbatim>\<open>peripheral/x86/i8254_pit.rs\<close>).  Reading a counter is an access to the device, so time passes.
\<close>

section \<open>The abstraction\<close>

datatype timer_mode = OneShot | Periodic

datatype timer_error =
  TimerInvalidHandle | IntervalOutOfRange | NotRunning | AlreadyRunning | TimerHardware | TimerUnsupported | TimerOther

record ('h, 'd, 'e) timer =
  tm_start :: "'h \<Rightarrow> u32 \<Rightarrow> ('d, unit, 'e) io"
  tm_stop :: "'h \<Rightarrow> ('d, unit, 'e) io"
  tm_clear_interrupt :: "'h \<Rightarrow> ('d, unit, 'e) io"
  tm_is_pending :: "'h \<Rightarrow> ('d, bool, 'e) io"

text \<open>
  \<^verbatim>\<open>delay_us\<close> and \<^verbatim>\<open>delay_ms\<close> of \<^verbatim>\<open>CountingTimer\<close>, and their copies in \<^verbatim>\<open>DynCountingTimer\<close>, over the
  method \<^verbatim>\<open>now_us\<close>.
\<close>

definition delay_us :: "('d, u64) state \<Rightarrow> u32 \<Rightarrow> ('d, unit, 'e) io" where
  "delay_us now_us us = do {
     start \<leftarrow> now_us;
     io_bind (spin_while now_us (\<lambda>now. now - start < ucast us)) (\<lambda>_. ok ())
   }"

definition saturating_mul :: "u32 \<Rightarrow> u32 \<Rightarrow> u32" where
  "saturating_mul a b = (if 2 ^ 32 \<le> unat a * unat b then - 1 else a * b)"

definition delay_ms :: "('d, u64) state \<Rightarrow> u32 \<Rightarrow> ('d, unit, 'e) io" where
  "delay_ms now_us ms = delay_us now_us (saturating_mul ms 1000)"

record 'd dyn_timer =
  dt_start :: "u32 \<Rightarrow> u32 \<Rightarrow> ('d, unit, timer_error) io"
  dt_stop :: "u32 \<Rightarrow> ('d, unit, timer_error) io"
  dt_clear_interrupt :: "u32 \<Rightarrow> ('d, unit, timer_error) io"
  dt_is_pending :: "u32 \<Rightarrow> ('d, bool, timer_error) io"

definition dyn_timer_of :: "(u32 \<Rightarrow> 'h) \<Rightarrow> ('e \<Rightarrow> timer_error) \<Rightarrow> ('h, 'd, 'e) timer \<Rightarrow> 'd dyn_timer" where
  "dyn_timer_of into_handle into_error t =
     \<lparr>dt_start = (\<lambda>handle interval. io_map_err into_error (tm_start t (into_handle handle) interval)),
      dt_stop = (\<lambda>handle. io_map_err into_error (tm_stop t (into_handle handle))),
      dt_clear_interrupt = (\<lambda>handle. io_map_err into_error (tm_clear_interrupt t (into_handle handle))),
      dt_is_pending = (\<lambda>handle. io_map_err into_error (tm_is_pending t (into_handle handle)))\<rparr>"

definition dyn_start_periodic ::
  "(u32 \<Rightarrow> 'h) \<Rightarrow> ('e \<Rightarrow> timer_error) \<Rightarrow> ('h \<Rightarrow> u32 \<Rightarrow> ('d, unit, 'e) io) \<Rightarrow> u32 \<Rightarrow> u32 \<Rightarrow> ('d, unit, timer_error) io" where
  "dyn_start_periodic into_handle into_error start_periodic handle interval_us =
     io_map_err into_error (start_periodic (into_handle handle) interval_us)"

section \<open>The system timer of the BCM2835\<close>

definition TIMER_BASE :: u32 where "TIMER_BASE = 0x20003000"

datatype timer_channel = Channel0 | Channel1 | Channel2 | Channel3

fun irq_number :: "timer_channel \<Rightarrow> u32" where
  "irq_number Channel0 = 0"
| "irq_number Channel1 = 1"
| "irq_number Channel2 = 2"
| "irq_number Channel3 = 3"

text \<open>\<^verbatim>\<open>self as u32\<close>: the discriminant.\<close>

fun channel_index :: "timer_channel \<Rightarrow> nat" where
  "channel_index Channel0 = 0"
| "channel_index Channel1 = 1"
| "channel_index Channel2 = 2"
| "channel_index Channel3 = 3"

definition bitmask :: "timer_channel \<Rightarrow> u32" where
  "bitmask c = shl 1 (channel_index c)"

definition channel_of :: "u32 \<Rightarrow> timer_channel" where
  "channel_of n = (if n = 1 then Channel1 else if n = 2 then Channel2 else if n = 3 then Channel3 else Channel0)"

datatype bcm_timer_error = InvalidChannel | InvalidBaseAddress | IntervalTooLarge | CounterOverflow

fun bcm_timer_into :: "bcm_timer_error \<Rightarrow> timer_error" where
  "bcm_timer_into InvalidChannel = TimerInvalidHandle"
| "bcm_timer_into IntervalTooLarge = IntervalOutOfRange"
| "bcm_timer_into CounterOverflow = TimerHardware"
| "bcm_timer_into InvalidBaseAddress = TimerHardware"

definition TIMER_CS :: u32 where "TIMER_CS = TIMER_BASE"
definition TIMER_CLO :: u32 where "TIMER_CLO = TIMER_BASE + 4"
definition TIMER_CHI :: u32 where "TIMER_CHI = TIMER_BASE + 8"

definition compare_reg_ptr :: "timer_channel \<Rightarrow> u32" where
  "compare_reg_ptr c = TIMER_BASE + 12 + of_nat (4 * channel_index c)"

definition read_counter :: "(u32, 'd) bus \<Rightarrow> ('d, u64) state" where
  "read_counter io = do {
     hi1 \<leftarrow> load io TIMER_CHI;
     lo \<leftarrow> load io TIMER_CLO;
     hi2 \<leftarrow> load io TIMER_CHI;
     (hi, lo) \<leftarrow> (if hi1 \<noteq> hi2 then do { lo \<leftarrow> load io TIMER_CLO; State_Monad.return (hi2, lo) } else State_Monad.return (hi1, lo));
     State_Monad.return (push_bit 32 (ucast hi) OR ucast lo)
   }"

definition start_timer :: "(u32, 'd) bus \<Rightarrow> timer_channel \<Rightarrow> u32 \<Rightarrow> ('d, unit) state" where
  "start_timer io c interval_us = do {
     clo \<leftarrow> load io TIMER_CLO;
     store io TIMER_CS (bitmask c);
     store io (compare_reg_ptr c) (clo + interval_us)
   }"

definition timer_clear_interrupt :: "(u32, 'd) bus \<Rightarrow> timer_channel \<Rightarrow> ('d, unit) state" where
  "timer_clear_interrupt io c = store io TIMER_CS (bitmask c)"

definition timer_is_pending :: "(u32, 'd) bus \<Rightarrow> timer_channel \<Rightarrow> ('d, bool) state" where
  "timer_is_pending io c = do { cs \<leftarrow> load io TIMER_CS; State_Monad.return (cs AND bitmask c \<noteq> 0) }"

definition bcm_timer_new :: "u32 \<Rightarrow> (unit, bcm_timer_error) outcome" where
  "bcm_timer_new base = (if base \<noteq> TIMER_BASE then Err InvalidBaseAddress else Ok ())"

definition bcm_timer :: "(u32, 'd) bus \<Rightarrow> (timer_channel, 'd, bcm_timer_error) timer" where
  "bcm_timer io =
     \<lparr>tm_start = (\<lambda>handle interval_us. do { start_timer io handle interval_us; ok () }),
      tm_stop = (\<lambda>handle. do { timer_clear_interrupt io handle; ok () }),
      tm_clear_interrupt = (\<lambda>handle. do { timer_clear_interrupt io handle; ok () }),
      tm_is_pending = (\<lambda>handle. do { p \<leftarrow> timer_is_pending io handle; ok p })\<rparr>"

definition bcm_now_us :: "(u32, 'd) bus \<Rightarrow> ('d, u64) state" where
  "bcm_now_us io = read_counter io"

section \<open>The interval timer of the PC\<close>

definition PIT_CHANNEL_0 :: u16 where "PIT_CHANNEL_0 = 0x40"
definition PIT_CHANNEL_1 :: u16 where "PIT_CHANNEL_1 = 0x41"
definition PIT_CHANNEL_2 :: u16 where "PIT_CHANNEL_2 = 0x42"
definition PIT_MODE_CMD :: u16 where "PIT_MODE_CMD = 0x43"
definition PIT_FREQUENCY_HZ :: u32 where "PIT_FREQUENCY_HZ = 1193182"
definition ACCESS_LOHI :: u8 where "ACCESS_LOHI = push_bit 4 3"
definition MODE_RATE :: u8 where "MODE_RATE = push_bit 1 2"
definition MODE_ONESHOT :: u8 where "MODE_ONESHOT = push_bit 1 1"
definition BCD_BINARY :: u8 where "BCD_BINARY = 0"

datatype pit_channel = PitChannel0 | PitChannel1 | PitChannel2

fun pit_index :: "pit_channel \<Rightarrow> u8" where
  "pit_index PitChannel0 = 0"
| "pit_index PitChannel1 = 1"
| "pit_index PitChannel2 = 2"

definition pit_channel_of :: "u32 \<Rightarrow> pit_channel" where
  "pit_channel_of n = (if n = 1 then PitChannel1 else if n = 2 then PitChannel2 else PitChannel0)"

datatype pit_error = PitInvalidHandle | HardwareAccessError

fun pit_error_into :: "pit_error \<Rightarrow> timer_error" where
  "pit_error_into PitInvalidHandle = TimerInvalidHandle"
| "pit_error_into HardwareAccessError = TimerHardware"

record i8254_pit =
  elapsed_us :: u64

definition pit_new :: i8254_pit where
  "pit_new = \<lparr>elapsed_us = 0\<rparr>"

fun data_port :: "pit_channel \<Rightarrow> u16" where
  "data_port PitChannel0 = PIT_CHANNEL_0"
| "data_port PitChannel1 = PIT_CHANNEL_1"
| "data_port PitChannel2 = PIT_CHANNEL_2"

text \<open>Port accesses are a bus of bytes addressed by port numbers.\<close>

abbreviation outb :: "(u8, 'd) bus \<Rightarrow> u16 \<Rightarrow> u8 \<Rightarrow> ('d, unit) state" where
  "outb io port v \<equiv> store io (ucast port) v"

abbreviation inb :: "(u8, 'd) bus \<Rightarrow> u16 \<Rightarrow> ('d, u8) state" where
  "inb io port \<equiv> load io (ucast port)"

definition pit_program :: "(u8, 'd) bus \<Rightarrow> pit_channel \<Rightarrow> u8 \<Rightarrow> u16 \<Rightarrow> ('d, unit) state" where
  "pit_program io c mode_bits divisor = do {
     outb io PIT_MODE_CMD (push_bit 6 (pit_index c) OR ACCESS_LOHI OR mode_bits OR BCD_BINARY);
     outb io (data_port c) (ucast (divisor AND 0xFF));
     outb io (data_port c) (ucast (drop_bit 8 divisor))
   }"

definition us_to_divisor :: "u32 \<Rightarrow> u16" where
  "us_to_divisor interval_us =
     (let ticks = (ucast interval_us * ucast PIT_FREQUENCY_HZ) div (1000000 :: u64) in
      ucast (if ticks < 1 then 1 else if 65535 < ticks then 65535 else ticks))"

definition read_count :: "(u8, 'd) bus \<Rightarrow> pit_channel \<Rightarrow> ('d, u16) state" where
  "read_count io c = do {
     outb io PIT_MODE_CMD (push_bit 6 (pit_index c));
     lo \<leftarrow> inb io (data_port c);
     hi \<leftarrow> inb io (data_port c);
     State_Monad.return (ucast lo OR push_bit 8 (ucast hi))
   }"

definition pit_timer :: "(u8, 'd) bus \<Rightarrow> (pit_channel, 'd, pit_error) timer" where
  "pit_timer io =
     \<lparr>tm_start = (\<lambda>handle interval_us. do { pit_program io handle MODE_ONESHOT (us_to_divisor interval_us); ok () }),
      tm_stop = (\<lambda>_. do { pit_program io PitChannel0 MODE_ONESHOT 0; ok () }),
      tm_clear_interrupt = (\<lambda>_. ok ()),
      tm_is_pending = (\<lambda>handle. do {
        outb io PIT_MODE_CMD (0xE0 OR shl 1 (unat (pit_index handle + 1)));
        status \<leftarrow> inb io (data_port handle);
        ok (status AND 0x80 \<noteq> 0)
      })\<rparr>"

definition pit_start_periodic :: "(u8, 'd) bus \<Rightarrow> pit_channel \<Rightarrow> u32 \<Rightarrow> ('d, unit, pit_error) io" where
  "pit_start_periodic io handle interval_us = do {
     pit_program io handle MODE_RATE (us_to_divisor interval_us);
     ok ()
   }"

definition pit_now_us :: "(u8, 'd) bus \<Rightarrow> i8254_pit \<Rightarrow> ('d, u64) state" where
  "pit_now_us io p = do {
     count \<leftarrow> read_count io PitChannel0;
     let ticks_elapsed = (if (ucast count :: u64) \<le> 65535 then 65535 - ucast count else 0);
     State_Monad.return (elapsed_us p + ticks_elapsed * 1000000 div ucast PIT_FREQUENCY_HZ)
   }"

end
