(* ===== verification/Timer_Properties.thy ===== *)
theory Timer_Properties
  imports Timers
begin

text \<open>
  Correctness of the timers: the 64-bit counter is read without tearing, a delay ends and lasts as
  long as it was asked to, and the divisors of the interval timer.
\<close>

section \<open>The free-running counter\<close>

text \<open>
  \<open>clk\<close> is the time in microseconds.  A read of either half of the counter returns the half of the
  time at which it completes and takes at most \<open>D\<close>; time does not stand still for more than \<open>K\<close>
  reads in a row.
\<close>

definition lo_half :: "nat \<Rightarrow> u32" where "lo_half t = of_nat t"
definition hi_half :: "nat \<Rightarrow> u32" where "hi_half t = of_nat (t div 2 ^ 32)"

definition clock_hw :: "(u32, 'd) bus \<Rightarrow> ('d \<Rightarrow> nat) \<Rightarrow> ('d \<Rightarrow> nat) \<Rightarrow> nat \<Rightarrow> nat \<Rightarrow> bool" where
  "clock_hw io clk stall K D \<longleftrightarrow> D \<le> 2 ^ 30 \<and> (\<forall>d. stall d < K) \<and>
     (\<forall>d. \<exists>d'. bus_read io TIMER_CLO d = (lo_half (clk d'), d') \<and> clk d \<le> clk d' \<and> clk d' \<le> clk d + D \<and>
        (clk d = clk d' \<longrightarrow> stall d' < stall d)) \<and>
     (\<forall>d. \<exists>d'. bus_read io TIMER_CHI d = (hi_half (clk d'), d') \<and> clk d \<le> clk d' \<and> clk d' \<le> clk d + D \<and>
        (clk d = clk d' \<longrightarrow> stall d' < stall d))"

lemma hi_half_drop: "hi_half t = of_nat (drop_bit 32 t)"
  by (simp add: hi_half_def drop_bit_eq_div)

lemma halves: "push_bit 32 (ucast (hi_half t)) OR ucast (lo_half t) = (of_nat t :: u64)"
proof (rule bit_word_eqI)
  fix k assume "k < LENGTH(64)"
  then show "bit (push_bit 32 (ucast (hi_half t)) OR ucast (lo_half t) :: u64) k = bit (of_nat t :: u64) k"
    by (auto simp: bit_or_iff bit_push_bit_iff bit_ucast_iff hi_half_drop lo_half_def bit_of_nat_iff
        bit_drop_bit_eq)
qed

lemma near_halves:
  assumes "t \<le> u" "u \<le> t + 2 ^ 31" "hi_half t = hi_half u"
  shows "t div 2 ^ 32 = u div 2 ^ 32"
proof -
  have le: "t div 2 ^ 32 \<le> u div 2 ^ 32" using assms(1) by (rule div_le_mono)
  have "u div 2 ^ 32 \<le> (t + 2 ^ 32) div 2 ^ 32" using assms(2) by (intro div_le_mono) simp
  then have "u div 2 ^ 32 = t div 2 ^ 32 \<or> u div 2 ^ 32 = Suc (t div 2 ^ 32)" using le by simp linarith
  moreover have "u div 2 ^ 32 \<noteq> Suc (t div 2 ^ 32)"
  proof
    assume "u div 2 ^ 32 = Suc (t div 2 ^ 32)"
    then have "hi_half u = hi_half t + 1" by (simp add: hi_half_def)
    then show False using assms(3) by simp
  qed
  ultimately show ?thesis by simp
qed

text \<open>Three or four reads: the value is the time at one of them.\<close>

lemma read_counter_run:
  assumes hw: "clock_hw io clk stall K D"
  obtains t d' where "run_state (read_counter io) d = (of_nat t, d')" "clk d \<le> t" "t \<le> clk d'" "clk d' \<le> clk d + 4 * D"
    "clk d = clk d' \<longrightarrow> stall d' < stall d"
proof -
  have D: "D \<le> 2 ^ 30" using hw by (simp add: clock_hw_def)
  obtain d1 where d1: "bus_read io TIMER_CHI d = (hi_half (clk d1), d1)" "clk d \<le> clk d1" "clk d1 \<le> clk d + D"
    "clk d = clk d1 \<longrightarrow> stall d1 < stall d" using hw unfolding clock_hw_def by blast
  obtain d2 where d2: "bus_read io TIMER_CLO d1 = (lo_half (clk d2), d2)" "clk d1 \<le> clk d2" "clk d2 \<le> clk d1 + D"
    "clk d1 = clk d2 \<longrightarrow> stall d2 < stall d1" using hw unfolding clock_hw_def by blast
  obtain d3 where d3: "bus_read io TIMER_CHI d2 = (hi_half (clk d3), d3)" "clk d2 \<le> clk d3" "clk d3 \<le> clk d2 + D"
    "clk d2 = clk d3 \<longrightarrow> stall d3 < stall d2" using hw unfolding clock_hw_def by blast
  show thesis
  proof (cases "hi_half (clk d1) = hi_half (clk d3)")
    case True
    have "clk d1 div 2 ^ 32 = clk d3 div 2 ^ 32" by (rule near_halves [OF _ _ True]) (use d2 d3 D in simp_all)
    moreover have "clk d1 div 2 ^ 32 \<le> clk d2 div 2 ^ 32" "clk d2 div 2 ^ 32 \<le> clk d3 div 2 ^ 32"
      using d2 d3 by (auto intro: div_le_mono)
    ultimately have "hi_half (clk d1) = hi_half (clk d2)" by (simp add: hi_half_def)
    then have "run_state (read_counter io) d = (of_nat (clk d2), d3)"
      using True d1(1) d2(1) d3(1) by (simp add: read_counter_def run_load halves)
    then show thesis using d1 d2 d3 by (intro that [of "clk d2" d3]) auto
  next
    case False
    obtain d4 where d4: "bus_read io TIMER_CLO d3 = (lo_half (clk d4), d4)" "clk d3 \<le> clk d4" "clk d4 \<le> clk d3 + D"
      "clk d3 = clk d4 \<longrightarrow> stall d4 < stall d3" using hw unfolding clock_hw_def by blast
    have h: "clk d3 div 2 ^ 32 = clk d4 div 2 ^ 32"
    proof (rule ccontr)
      assume "clk d3 div 2 ^ 32 \<noteq> clk d4 div 2 ^ 32"
      then have "Suc (clk d3 div 2 ^ 32) \<le> clk d4 div 2 ^ 32" using div_le_mono [OF d4(2), of "2 ^ 32"] by linarith
      moreover have "clk d1 div 2 ^ 32 \<noteq> clk d3 div 2 ^ 32" using False by (auto simp: hi_half_def)
      then have "Suc (clk d1 div 2 ^ 32) \<le> clk d3 div 2 ^ 32"
        using div_le_mono [OF order.trans [OF d2(2) d3(2)], of "2 ^ 32"] by linarith
      moreover have "clk d4 div 2 ^ 32 \<le> (clk d1 + 2 ^ 32) div 2 ^ 32"
        using d2 d3 d4 D by (intro div_le_mono) simp
      ultimately show False by simp
    qed
    then have "run_state (read_counter io) d = (of_nat (clk d4), d4)"
      using False d1(1) d2(1) d3(1) d4(1) halves [of "clk d4"] by (simp add: read_counter_def run_load hi_half_def)
    then show thesis using d1 d2 d3 d4 by (intro that [of "clk d4" d4]) auto
  qed
qed

section \<open>Delays\<close>

lemma elapsed_word:
  assumes "t0 \<le> t" "t - t0 < 2 ^ 64"
  shows "unat (of_nat t - of_nat t0 :: u64) = t - t0"
proof -
  have "of_nat t - of_nat t0 = (of_nat (t - t0) :: u64)" using assms(1) by (simp add: of_nat_diff)
  then show ?thesis using assms(2) by (simp add: unat_of_nat)
qed

text \<open>
  The polling loop of a delay: from a state at most \<open>us + 8 D\<close> after the start, it ends, at a time
  that is late enough and not much later.
\<close>

lemma delay_loop_ends:
  fixes us :: u32
  assumes hw: "clock_hw io clk stall K D"
  shows "t0 \<le> clk d \<Longrightarrow> clk d \<le> t0 + unat us + 4 * D \<Longrightarrow>
    \<exists>v d'. poll (run_state (read_counter io)) (\<lambda>now. now - of_nat t0 < ucast us) d = Some (v, d') \<and>
      t0 + unat us \<le> clk d' \<and> clk d' \<le> t0 + unat us + 8 * D"
proof (induction "(t0 + unat us + 4 * D - clk d) * K + stall d" arbitrary: d rule: less_induct)
  case less
  obtain t d' where r: "run_state (read_counter io) d = (of_nat t, d')" and t: "clk d \<le> t" "t \<le> clk d'"
    and d': "clk d' \<le> clk d + 4 * D" "clk d = clk d' \<longrightarrow> stall d' < stall d" by (rule read_counter_run [OF hw])
  have D: "D \<le> 2 ^ 30" and K: "stall d' < K" using hw by (simp_all add: clock_hw_def)
  have us: "unat us < 2 ^ 32" using unat_less [of us] by simp
  have e: "unat (of_nat t - of_nat t0 :: u64) = t - t0" using less.prems t d' D us by (intro elapsed_word) simp_all
  have w: "of_nat t - of_nat t0 < (ucast us :: u64) \<longleftrightarrow> t - t0 < unat us"
    by (simp add: word_less_nat_alt e unat_ucast_up)
  show ?case
  proof (cases "t - t0 < unat us")
    case False
    then show ?thesis using r w less.prems t d' by (subst poll.simps) simp
  next
    case True
    have t4: "clk d' \<le> t + 4 * D" using t(1) d'(1) by linarith
    then have late: "clk d' \<le> t0 + unat us + 4 * D" "t0 \<le> clk d'" using True t less.prems(1) by linarith+
    let ?g = "t0 + unat us + 4 * D"
    have "(?g - clk d') * K + stall d' < (?g - clk d) * K + stall d"
    proof (cases "clk d = clk d'")
      case True
      then show ?thesis using d'(2) by simp
    next
      case False
      then have "Suc (?g - clk d') \<le> ?g - clk d" using t late(1) by linarith
      then have "Suc (?g - clk d') * K \<le> (?g - clk d) * K" by (rule mult_le_mono1)
      then show ?thesis using K by simp
    qed
    from less.hyps [OF this late(2,1)] show ?thesis using r w True by (subst poll.simps) simp
  qed
qed

text \<open>
  C28. \<^verbatim>\<open>delay_us\<close> on the BCM2835 counter ends, and when it returns at least the requested time has
  passed and at most the time of twelve register reads more, whatever the counter's value, also
  across the overflow of its lower half and of the counter itself.
\<close>

theorem delay_us_exact:
  assumes hw: "clock_hw io clk stall K D"
  shows "\<exists>d'. run_state (delay_us (bcm_now_us io) us) d = (Ok () :: (unit, 'e) outcome, d') \<and>
    clk d + unat us \<le> clk d' \<and> clk d' \<le> clk d + unat us + 12 * D"
proof -
  obtain t d1 where r: "run_state (read_counter io) d = (of_nat t, d1)" and t: "clk d \<le> t" "t \<le> clk d1" "clk d1 \<le> clk d + 4 * D"
    by (rule read_counter_run [OF hw])
  obtain v d' where "poll (run_state (read_counter io)) (\<lambda>now. now - of_nat t < ucast us) d1 = Some (v, d')"
    "t + unat us \<le> clk d'" "clk d' \<le> t + unat us + 8 * D"
    using delay_loop_ends [OF hw, of t d1 us] t by auto
  then show ?thesis using r t
    by (intro exI [of _ d']) (simp add: delay_us_def bcm_now_us_def spin_while_def io_bind_def ok_def)
qed

text \<open>A clock that advances by one at every access, started just before the lower half overflows.\<close>

definition demo_clock :: "(u32, nat) bus" where
  "demo_clock =
     \<lparr>bus_read = (\<lambda>a t. (if a = TIMER_CLO then lo_half (Suc t) else hi_half (Suc t), Suc t)), bus_write = (\<lambda>_ _ t. t)\<rparr>"

lemma demo_clock_hw: "clock_hw demo_clock id (\<lambda>_. 0) 1 1"
  by (simp add: clock_hw_def demo_clock_def TIMER_CLO_def TIMER_CHI_def TIMER_BASE_def)

theorem delay_us_exact_witness:
  "\<exists>d'. run_state (delay_us (bcm_now_us demo_clock) 100) 4294967290 = (Ok () :: (unit, unit) outcome, d') \<and>
    4294967390 \<le> d' \<and> d' \<le> 4294967402"
  using delay_us_exact [OF demo_clock_hw, of 100 4294967290] by auto

section \<open>The interval timer\<close>

lemma us_to_divisor_nat: "unat (us_to_divisor us) = max 1 (min 65535 (unat us * 1193182 div 1000000))"
proof -
  have "unat us * 1193182 < 2 ^ 64" using unat_less [of us] by simp
  then have t: "unat ((ucast us * ucast PIT_FREQUENCY_HZ) div (1000000 :: u64)) = unat us * 1193182 div 1000000"
    by (simp add: PIT_FREQUENCY_HZ_def unat_div unat_word_ariths unat_ucast_up)
  show ?thesis by (auto simp: us_to_divisor_def Let_def word_less_nat_alt t unat_ucast_mod max_def min_def)
qed

text \<open>Programming a channel writes the control word and then the two halves of the divisor.\<close>

definition pit_record :: "(u8, (u32 \<times> u8) list) bus" where
  "pit_record = \<lparr>bus_read = (\<lambda>_ log. (0, log)), bus_write = (\<lambda>a v log. log @ [(a, v)])\<rparr>"

lemma pit_program_log:
  "run_state (pit_program pit_record c mode_bits divisor) log =
     ((), log @ [(0x43, push_bit 6 (pit_index c) OR 0x30 OR mode_bits), (ucast (data_port c), ucast (divisor AND 0xFF)),
        (ucast (data_port c), ucast (drop_bit 8 divisor))])"
  by (simp add: pit_program_def run_store pit_record_def PIT_MODE_CMD_def ACCESS_LOHI_def BCD_BINARY_def or.assoc)

end
