(* ===== verification/Interrupts.thy ===== *)
theory Interrupts
  imports Device_Io
begin

text \<open>
  Interrupt controllers: the traits of \<^verbatim>\<open>drivers/src/hal/interrupt.rs\<close> and the controller of the BCM2835
  (\<^verbatim>\<open>drivers/src/peripheral/bcm2835/intc.rs\<close>) with its three banks of lines.
\<close>

section \<open>The abstraction\<close>

definition IRQ_SYSTEM_TIMER_0 :: u32 where "IRQ_SYSTEM_TIMER_0 = 0"
definition IRQ_SYSTEM_TIMER_1 :: u32 where "IRQ_SYSTEM_TIMER_1 = 1"
definition IRQ_SYSTEM_TIMER_2 :: u32 where "IRQ_SYSTEM_TIMER_2 = 2"
definition IRQ_SYSTEM_TIMER_3 :: u32 where "IRQ_SYSTEM_TIMER_3 = 3"
definition IRQ_AUX :: u32 where "IRQ_AUX = 29"
definition IRQ_UART0 :: u32 where "IRQ_UART0 = 57"

datatype interrupt_error =
  IntInvalidIrq | AlreadyEnabled | AlreadyDisabled | IntHardware | IntUnsupported | IntOther

datatype trigger_mode = RisingEdge | FallingEdge | LevelHigh | LevelLow

record ('d, 'e) interrupt_controller =
  ic_enable :: "u32 \<Rightarrow> ('d, unit, 'e) io"
  ic_disable :: "u32 \<Rightarrow> ('d, unit, 'e) io"
  ic_is_pending :: "u32 \<Rightarrow> ('d, bool, 'e) io"
  ic_next_pending :: "('d, u32 option) state"
  ic_clear :: "u32 \<Rightarrow> ('d, unit, 'e) io"

definition default_clear :: "u32 \<Rightarrow> ('d, unit, 'e) io" where
  "default_clear irq = ok ()"

record ('d, 'e) priority_interrupt_controller =
  pic_set_priority :: "u32 \<Rightarrow> u8 \<Rightarrow> ('d, unit, 'e) io"
  pic_get_priority :: "u32 \<Rightarrow> ('d, u8, 'e) io"

record ('d, 'e) configurable_interrupt_controller =
  cic_configure_trigger :: "u32 \<Rightarrow> trigger_mode \<Rightarrow> ('d, unit, 'e) io"

definition dyn_interrupt_controller ::
  "('e \<Rightarrow> interrupt_error) \<Rightarrow> ('d, 'e) interrupt_controller \<Rightarrow> ('d, interrupt_error) interrupt_controller" where
  "dyn_interrupt_controller into c =
     \<lparr>ic_enable = (\<lambda>irq. io_map_err into (ic_enable c irq)),
      ic_disable = (\<lambda>irq. io_map_err into (ic_disable c irq)),
      ic_is_pending = (\<lambda>irq. io_map_err into (ic_is_pending c irq)),
      ic_next_pending = ic_next_pending c,
      ic_clear = (\<lambda>irq. io_map_err into (ic_clear c irq))\<rparr>"

definition dyn_priority_interrupt_controller ::
  "('e \<Rightarrow> interrupt_error) \<Rightarrow> ('d, 'e) priority_interrupt_controller \<Rightarrow> ('d, interrupt_error) priority_interrupt_controller" where
  "dyn_priority_interrupt_controller into c =
     \<lparr>pic_set_priority = (\<lambda>irq p. io_map_err into (pic_set_priority c irq p)),
      pic_get_priority = (\<lambda>irq. io_map_err into (pic_get_priority c irq))\<rparr>"

definition dyn_configurable_interrupt_controller ::
  "('e \<Rightarrow> interrupt_error) \<Rightarrow> ('d, 'e) configurable_interrupt_controller \<Rightarrow> ('d, interrupt_error) configurable_interrupt_controller" where
  "dyn_configurable_interrupt_controller into c =
     \<lparr>cic_configure_trigger = (\<lambda>irq mode. io_map_err into (cic_configure_trigger c irq mode))\<rparr>"

section \<open>The controller of the BCM2835\<close>

definition INT_CONTROLLER_BASE :: u32 where "INT_CONTROLLER_BASE = 0x2000b000"

text \<open>The register block: 512 bytes of padding, then the pending, control, enable and disable registers.\<close>

definition irq_basic_pend :: u32 where "irq_basic_pend = INT_CONTROLLER_BASE + 0x200"
definition irq_1_pend :: u32 where "irq_1_pend = INT_CONTROLLER_BASE + 0x204"
definition irq_2_pend :: u32 where "irq_2_pend = INT_CONTROLLER_BASE + 0x208"
definition enable_irqs_1 :: u32 where "enable_irqs_1 = INT_CONTROLLER_BASE + 0x210"
definition enable_irqs_2 :: u32 where "enable_irqs_2 = INT_CONTROLLER_BASE + 0x214"
definition enable_basic_irqs :: u32 where "enable_basic_irqs = INT_CONTROLLER_BASE + 0x218"
definition disable_irqs_1 :: u32 where "disable_irqs_1 = INT_CONTROLLER_BASE + 0x21C"
definition disable_irqs_2 :: u32 where "disable_irqs_2 = INT_CONTROLLER_BASE + 0x220"
definition disable_basic_irqs :: u32 where "disable_basic_irqs = INT_CONTROLLER_BASE + 0x224"

lemmas intc_registers = irq_basic_pend_def irq_1_pend_def irq_2_pend_def enable_irqs_1_def enable_irqs_2_def
  enable_basic_irqs_def disable_irqs_1_def disable_irqs_2_def disable_basic_irqs_def INT_CONTROLLER_BASE_def

datatype irq_line = Irq1 u32 | Irq2 u32 | Basic u32

definition irq_line_split :: "u32 \<Rightarrow> irq_line" where
  "irq_line_split irq =
     (if irq \<le> 31 then Irq1 irq else if irq \<le> 63 then Irq2 (irq - 32) else Basic (irq - 64))"

text \<open>\<^verbatim>\<open>u32::trailing_zeros\<close>.\<close>

definition trailing_zeros :: "u32 \<Rightarrow> u32" where
  "trailing_zeros w = of_nat (length (takeWhile (\<lambda>i. \<not> bit w i) [0..<32]))"

definition pending_irq :: "(u32, 'd) bus \<Rightarrow> ('d, u32 option) state" where
  "pending_irq io = do {
     irq1 \<leftarrow> load io irq_1_pend;
     if irq1 \<noteq> 0 then State_Monad.return (Some (trailing_zeros irq1))
     else do {
       irq2 \<leftarrow> load io irq_2_pend;
       if irq2 \<noteq> 0 then State_Monad.return (Some (32 + trailing_zeros irq2))
       else do {
         basic \<leftarrow> load io irq_basic_pend;
         if basic \<noteq> 0 then State_Monad.return (Some (64 + trailing_zeros basic))
         else State_Monad.return None
       }
     }
   }"

definition enable_irq :: "(u32, 'd) bus \<Rightarrow> u32 \<Rightarrow> ('d, unit) state" where
  "enable_irq io irq =
     (case irq_line_split irq of
        Irq1 b \<Rightarrow> store io enable_irqs_1 (shl 1 (unat b))
      | Irq2 b \<Rightarrow> store io enable_irqs_2 (shl 1 (unat b))
      | Basic b \<Rightarrow> store io enable_basic_irqs (shl 1 (unat b)))"

definition disable_irq :: "(u32, 'd) bus \<Rightarrow> u32 \<Rightarrow> ('d, unit) state" where
  "disable_irq io irq =
     (case irq_line_split irq of
        Irq1 b \<Rightarrow> store io disable_irqs_1 (shl 1 (unat b))
      | Irq2 b \<Rightarrow> store io disable_irqs_2 (shl 1 (unat b))
      | Basic b \<Rightarrow> store io disable_basic_irqs (shl 1 (unat b)))"

datatype bcm_intc_error = BcmInvalidIrq | BcmIntcHardware

fun bcm_intc_into :: "bcm_intc_error \<Rightarrow> interrupt_error" where
  "bcm_intc_into BcmInvalidIrq = IntInvalidIrq"
| "bcm_intc_into BcmIntcHardware = IntHardware"

definition validate_irq :: "u32 \<Rightarrow> (unit, bcm_intc_error) outcome" where
  "validate_irq irq = (if 80 \<le> irq then Err BcmInvalidIrq else Ok ())"

definition bcm_intc :: "(u32, 'd) bus \<Rightarrow> ('d, bcm_intc_error) interrupt_controller" where
  "bcm_intc io =
     \<lparr>ic_enable = (\<lambda>irq. io_bind (of_result (validate_irq irq)) (\<lambda>_. do { enable_irq io irq; ok () })),
      ic_disable = (\<lambda>irq. io_bind (of_result (validate_irq irq)) (\<lambda>_. do { disable_irq io irq; ok () })),
      ic_is_pending = (\<lambda>irq. io_bind (of_result (validate_irq irq)) (\<lambda>_. ok False)),
      ic_next_pending = pending_irq io,
      ic_clear = default_clear\<rparr>"

section \<open>What the manual promises\<close>

text \<open>
  \<open>en\<close> is the set of enabled lines and \<open>pend\<close> the contents of the three pending registers, in the
  order of the line numbers.  Writing ones to an enable or disable register acts on those lines.
\<close>

definition lines_of :: "nat \<Rightarrow> u32 \<Rightarrow> nat set" where
  "lines_of first v = {first + k |k. k < 32 \<and> bit v k}"

definition intc_hw :: "(u32, 'd) bus \<Rightarrow> ('d \<Rightarrow> nat set) \<Rightarrow> ('d \<Rightarrow> u32 \<times> u32 \<times> u32) \<Rightarrow> bool" where
  "intc_hw io en pend \<longleftrightarrow>
     (\<forall>d v. en (bus_write io enable_irqs_1 v d) = en d \<union> lines_of 0 v \<and>
        en (bus_write io enable_irqs_2 v d) = en d \<union> lines_of 32 v \<and>
        en (bus_write io enable_basic_irqs v d) = en d \<union> lines_of 64 v \<and>
        en (bus_write io disable_irqs_1 v d) = en d - lines_of 0 v \<and>
        en (bus_write io disable_irqs_2 v d) = en d - lines_of 32 v \<and>
        en (bus_write io disable_basic_irqs v d) = en d - lines_of 64 v) \<and>
     (\<forall>d. bus_read io irq_1_pend d = (fst (pend d), d) \<and> bus_read io irq_2_pend d = (fst (snd (pend d)), d) \<and>
        bus_read io irq_basic_pend d = (snd (snd (pend d)), d))"

definition pending_lines :: "u32 \<times> u32 \<times> u32 \<Rightarrow> nat set" where
  "pending_lines p = lines_of 0 (fst p) \<union> lines_of 32 (fst (snd p)) \<union> lines_of 64 (snd (snd p))"

lemma lines_of_bit: "k < 32 \<Longrightarrow> lines_of first (shl 1 k) = {first + k}"
  by (auto simp: lines_of_def shl_def bit_exp_iff)

lemma lines_of_empty: "lines_of first v = {} \<longleftrightarrow> v = 0"
  by (auto simp: lines_of_def bit_eq_iff)

lemma line_enable:
  assumes "intc_hw io en pend" "irq < 80"
  shows "en (snd (run_state (enable_irq io irq) d)) = insert (unat irq) (en d)"
    "en (snd (run_state (disable_irq io irq) d)) = en d - {unat irq}"
proof -
  have i: "unat irq < 80" using assms(2) by (simp add: word_less_nat_alt)
  consider (a) "irq \<le> 31" | (b) "\<not> irq \<le> 31" "irq \<le> 63" | (c) "\<not> irq \<le> 31" "\<not> irq \<le> 63" by blast
  then have "en (snd (run_state (enable_irq io irq) d)) = insert (unat irq) (en d) \<and>
      en (snd (run_state (disable_irq io irq) d)) = en d - {unat irq}"
  proof cases
    case a
    then have "unat irq < 32" by (simp add: word_le_nat_alt)
    then show ?thesis using a assms(1)
      by (simp add: enable_irq_def disable_irq_def irq_line_split_def run_store intc_hw_def lines_of_bit)
  next
    case b
    then have "unat (irq - 32) = unat irq - 32" "32 \<le> unat irq" "unat irq < 64"
      by (simp_all add: word_le_nat_alt unat_sub_le)
    then show ?thesis using b assms(1)
      by (simp add: enable_irq_def disable_irq_def irq_line_split_def run_store intc_hw_def lines_of_bit)
  next
    case c
    then have "unat (irq - 64) = unat irq - 64" "64 \<le> unat irq" by (simp_all add: word_le_nat_alt unat_sub_le)
    then show ?thesis using c assms(1) i
      by (simp add: enable_irq_def disable_irq_def irq_line_split_def run_store intc_hw_def lines_of_bit)
  qed
  then show "en (snd (run_state (enable_irq io irq) d)) = insert (unat irq) (en d)"
    "en (snd (run_state (disable_irq io irq) d)) = en d - {unat irq}" by blast+
qed

end
