(* ===== verification/Vga_Text.thy ===== *)
theory Vga_Text
  imports Prelude
begin

text \<open>
  The text console of the PC (\<^verbatim>\<open>drivers/src/peripheral/x86/vga_text.rs\<close> and \<^verbatim>\<open>drivers/src/hal/console.rs\<close>).
  The text buffer is a part of memory; writes to the ports of the CRT controller are collected in
  order.  Columns and rows are small numbers, kept below the screen size by the driver itself.
\<close>

section \<open>Consoles\<close>

record 's console_output =
  co_write_byte :: "u8 \<Rightarrow> 's \<Rightarrow> 's"
  co_clear :: "'s \<Rightarrow> 's"
  co_set_cursor :: "nat \<Rightarrow> nat \<Rightarrow> 's \<Rightarrow> 's"

definition co_write_str :: "'s console_output \<Rightarrow> u8 list \<Rightarrow> 's \<Rightarrow> 's" where
  "co_write_str c = fold (co_write_byte c)"

record 's dyn_console_output =
  dco_write_str :: "u8 list \<Rightarrow> 's \<Rightarrow> 's"
  dco_clear :: "'s \<Rightarrow> 's"

definition dyn_console :: "'s console_output \<Rightarrow> 's dyn_console_output" where
  "dyn_console c = \<lparr>dco_write_str = co_write_str c, dco_clear = co_clear c\<rparr>"

section \<open>The driver\<close>

definition VGA_COLS :: nat where "VGA_COLS = 80"
definition VGA_ROWS :: nat where "VGA_ROWS = 25"
definition VGA_BUFFER_ADDR :: u32 where "VGA_BUFFER_ADDR = 0xB8000"
definition CRTC_ADDR_PORT :: u16 where "CRTC_ADDR_PORT = 0x3D4"
definition CRTC_DATA_PORT :: u16 where "CRTC_DATA_PORT = 0x3D5"
definition CRTC_CURSOR_HIGH :: u8 where "CRTC_CURSOR_HIGH = 0x0E"
definition CRTC_CURSOR_LOW :: u8 where "CRTC_CURSOR_LOW = 0x0F"

datatype color = Black | Blue | Green | Cyan | Red | Magenta | Brown | LightGray
  | DarkGray | LightBlue | LightGreen | LightCyan | LightRed | Pink | Yellow | White

fun color_code :: "color \<Rightarrow> u8" where
  "color_code Black = 0" | "color_code Blue = 1" | "color_code Green = 2" | "color_code Cyan = 3"
| "color_code Red = 4" | "color_code Magenta = 5" | "color_code Brown = 6" | "color_code LightGray = 7"
| "color_code DarkGray = 8" | "color_code LightBlue = 9" | "color_code LightGreen = 10" | "color_code LightCyan = 11"
| "color_code LightRed = 12" | "color_code Pink = 13" | "color_code Yellow = 14" | "color_code White = 15"

definition make_attr :: "color \<Rightarrow> color \<Rightarrow> u8" where
  "make_attr fg bg = push_bit 4 (color_code bg) OR color_code fg"

definition cell_offset :: "nat \<Rightarrow> nat \<Rightarrow> u32" where
  "cell_offset col row = of_nat ((row * VGA_COLS + col) * 2)"

definition write_cell :: "nat \<Rightarrow> nat \<Rightarrow> u8 \<Rightarrow> u8 \<Rightarrow> memory \<Rightarrow> memory" where
  "write_cell col row ch attr m =
     (let p = VGA_BUFFER_ADDR + cell_offset col row in m(p := ch, p + 1 := attr))"

definition read_char :: "memory \<Rightarrow> nat \<Rightarrow> nat \<Rightarrow> u8" where
  "read_char m col row = m (VGA_BUFFER_ADDR + cell_offset col row)"

definition read_attr :: "memory \<Rightarrow> nat \<Rightarrow> nat \<Rightarrow> u8" where
  "read_attr m col row = m (VGA_BUFFER_ADDR + (cell_offset col row + 1))"

record vga_text =
  vga_mem :: memory
  vga_ports :: "(u16 \<times> u8) list"
  vga_col :: nat
  vga_row :: nat
  vga_attr :: u8

definition vga_outb :: "u16 \<Rightarrow> u8 \<Rightarrow> vga_text \<Rightarrow> vga_text" where
  "vga_outb port v s = s\<lparr>vga_ports := vga_ports s @ [(port, v)]\<rparr>"

definition put_cell :: "nat \<Rightarrow> nat \<Rightarrow> u8 \<Rightarrow> u8 \<Rightarrow> vga_text \<Rightarrow> vga_text" where
  "put_cell col row ch attr s = s\<lparr>vga_mem := write_cell col row ch attr (vga_mem s)\<rparr>"

definition set_color :: "color \<Rightarrow> color \<Rightarrow> vga_text \<Rightarrow> vga_text" where
  "set_color fg bg s = s\<lparr>vga_attr := make_attr fg bg\<rparr>"

definition scroll_up :: "vga_text \<Rightarrow> vga_text" where
  "scroll_up s =
     (let s = fold (\<lambda>row. fold (\<lambda>col s.
            put_cell col (row - 1) (read_char (vga_mem s) col row) (read_attr (vga_mem s) col row) s) [0..<VGA_COLS]) [1..<VGA_ROWS] s in
      fold (\<lambda>col s. put_cell col (VGA_ROWS - 1) 0x20 (vga_attr s) s) [0..<VGA_COLS] s)"

definition newline :: "vga_text \<Rightarrow> vga_text" where
  "newline s =
     (let s = s\<lparr>vga_col := 0\<rparr> in
      if vga_row s + 1 \<ge> VGA_ROWS then (scroll_up s)\<lparr>vga_row := VGA_ROWS - 1\<rparr>
      else s\<lparr>vga_row := vga_row s + 1\<rparr>)"

definition advance_cursor :: "vga_text \<Rightarrow> vga_text" where
  "advance_cursor s =
     (let s = s\<lparr>vga_col := vga_col s + 1\<rparr> in
      if vga_col s \<ge> VGA_COLS then newline (s\<lparr>vga_col := 0\<rparr>) else s)"

definition update_hw_cursor :: "vga_text \<Rightarrow> vga_text" where
  "update_hw_cursor s =
     (let pos = of_nat (vga_row s * VGA_COLS + vga_col s) :: u16;
          s = vga_outb CRTC_ADDR_PORT CRTC_CURSOR_HIGH s;
          s = vga_outb CRTC_DATA_PORT (ucast (drop_bit 8 pos)) s;
          s = vga_outb CRTC_ADDR_PORT CRTC_CURSOR_LOW s in
      vga_outb CRTC_DATA_PORT (ucast (pos AND 0xFF)) s)"

definition vga_write_byte :: "u8 \<Rightarrow> vga_text \<Rightarrow> vga_text" where
  "vga_write_byte byte s =
     update_hw_cursor
       (if byte = 0x0A then newline s
        else if byte = 0x0D then s\<lparr>vga_col := 0\<rparr>
        else if byte = 0x08 then
          (let s = (if vga_col s > 0 then s\<lparr>vga_col := vga_col s - 1\<rparr> else s) in
           put_cell (vga_col s) (vga_row s) 0x20 (vga_attr s) s)
        else advance_cursor (put_cell (vga_col s) (vga_row s) byte (vga_attr s) s))"

definition vga_clear :: "vga_text \<Rightarrow> vga_text" where
  "vga_clear s =
     (let s = fold (\<lambda>row. fold (\<lambda>col s. put_cell col row 0x20 (vga_attr s) s) [0..<VGA_COLS]) [0..<VGA_ROWS] s in
      update_hw_cursor (s\<lparr>vga_col := 0, vga_row := 0\<rparr>))"

definition vga_set_cursor :: "nat \<Rightarrow> nat \<Rightarrow> vga_text \<Rightarrow> vga_text" where
  "vga_set_cursor col row s =
     update_hw_cursor (s\<lparr>vga_col := min col (VGA_COLS - 1), vga_row := min row (VGA_ROWS - 1)\<rparr>)"

definition vga_new :: "memory \<Rightarrow> vga_text" where
  "vga_new m =
     vga_clear \<lparr>vga_mem = m, vga_ports = [], vga_col = 0, vga_row = 0, vga_attr = make_attr LightGray Black\<rparr>"

definition vga_console :: "vga_text console_output" where
  "vga_console = \<lparr>co_write_byte = vga_write_byte, co_clear = vga_clear, co_set_cursor = vga_set_cursor\<rparr>"

definition vga_write_str :: "u8 list \<Rightarrow> vga_text \<Rightarrow> vga_text" where
  "vga_write_str = co_write_str vga_console"

section \<open>The terminal it implements\<close>

text \<open>A grid of characters with their attributes, a cursor inside it and a current attribute.\<close>

record terminal =
  t_cell :: "nat \<Rightarrow> nat \<Rightarrow> u8 \<times> u8"
  t_col :: nat
  t_row :: nat
  t_attr :: u8

definition t_put :: "nat \<Rightarrow> nat \<Rightarrow> u8 \<Rightarrow> terminal \<Rightarrow> terminal" where
  "t_put col row ch t = t\<lparr>t_cell := (t_cell t)(row := (t_cell t row)(col := (ch, t_attr t)))\<rparr>"

definition t_newline :: "terminal \<Rightarrow> terminal" where
  "t_newline t =
     (if t_row t = 24
      then t\<lparr>t_col := 0, t_cell := (\<lambda>r c. if r < 24 then t_cell t (r + 1) c else (0x20, t_attr t))\<rparr>
      else t\<lparr>t_col := 0, t_row := t_row t + 1\<rparr>)"

definition t_write :: "u8 \<Rightarrow> terminal \<Rightarrow> terminal" where
  "t_write b t =
     (if b = 0x0A then t_newline t
      else if b = 0x0D then t\<lparr>t_col := 0\<rparr>
      else if b = 0x08 then (let t = t\<lparr>t_col := t_col t - 1\<rparr> in t_put (t_col t) (t_row t) 0x20 t)
      else (let t = t_put (t_col t) (t_row t) b t in if t_col t = 79 then t_newline t else t\<lparr>t_col := t_col t + 1\<rparr>))"

end
