(* ===== verification/Vga_Properties.thy ===== *)
theory Vga_Properties
  imports Vga_Text
begin

text \<open>
  The driver refines the terminal: whatever is written, the screen shows what the terminal shows,
  the cursor stays on it, the hardware cursor follows, and no byte outside the text buffer changes.
\<close>

section \<open>Cells\<close>

definition screen_cell :: "memory \<Rightarrow> nat \<Rightarrow> nat \<Rightarrow> u8 \<times> u8" where
  "screen_cell m row col = (read_char m col row, read_attr m col row)"

definition in_buffer :: "u32 \<Rightarrow> bool" where
  "in_buffer x \<longleftrightarrow> 0xB8000 \<le> unat x \<and> unat x < 0xB8000 + 4000"

lemma cell_addr:
  assumes "row < 25" "col < 80"
  shows "unat (VGA_BUFFER_ADDR + cell_offset col row) = 0xB8000 + 2 * (row * 80 + col)"
    "unat (VGA_BUFFER_ADDR + cell_offset col row + 1) = 0xB8000 + 2 * (row * 80 + col) + 1"
proof -
  have n: "row * 80 + col < 2000" using assms by simp
  have o: "unat (cell_offset col row) = 2 * (row * 80 + col)"
    unfolding cell_offset_def VGA_COLS_def unat_of_nat using n by (simp add: mult.commute)
  have b: "unat VGA_BUFFER_ADDR = 0xB8000" by (simp add: VGA_BUFFER_ADDR_def)
  have "unat VGA_BUFFER_ADDR + unat (cell_offset col row) < 2 ^ LENGTH(32)" unfolding o b using n by simp
  then show u: "unat (VGA_BUFFER_ADDR + cell_offset col row) = 0xB8000 + 2 * (row * 80 + col)"
    using o b by (simp only: unat_add_small)
  have "unat (VGA_BUFFER_ADDR + cell_offset col row) + unat (1 :: u32) < 2 ^ LENGTH(32)" unfolding u using n by simp
  then show "unat (VGA_BUFFER_ADDR + cell_offset col row + 1) = 0xB8000 + 2 * (row * 80 + col) + 1"
    using u by (simp only: unat_add_small) simp
qed

lemma cell_number: "c < 80 \<Longrightarrow> c' < 80 \<Longrightarrow> r * 80 + c = r' * 80 + c' \<Longrightarrow> r = r' \<and> c = (c' :: nat)"
proof -
  assume "c < 80" "c' < 80" and e: "r * 80 + c = r' * 80 + c'"
  then have "(r * 80 + c) div 80 = r" "(r' * 80 + c') div 80 = r'" by simp_all
  then show "r = r' \<and> c = c'" using e by simp
qed

lemma write_cell_cell:
  assumes "row < 25" "col < 80" "r < 25" "c < 80"
  shows "screen_cell (write_cell col row ch attr m) r c = (if r = row \<and> c = col then (ch, attr) else screen_cell m r c)"
proof -
  let ?p = "VGA_BUFFER_ADDR + cell_offset col row" and ?q = "VGA_BUFFER_ADDR + cell_offset c r"
  note P = cell_addr [OF assms(1,2)] and Q = cell_addr [OF assms(3,4)]
  have q1: "VGA_BUFFER_ADDR + (cell_offset c r + 1) = ?q + 1" by (simp add: add.assoc)
  have par: "even (unat ?p)" "odd (unat (?p + 1))" "even (unat ?q)" "odd (unat (?q + 1))" unfolding P Q by simp_all
  then have "?q \<noteq> ?p + 1" "?q + 1 \<noteq> ?p" by metis+
  moreover have "?q = ?p \<longleftrightarrow> r = row \<and> c = col"
    unfolding word_unat_eq_iff P Q using cell_number [OF assms(4,2), of r row] by auto
  moreover have "?q + 1 = ?p + 1 \<longleftrightarrow> ?q = ?p" by simp
  ultimately show ?thesis
    by (auto simp: screen_cell_def read_char_def read_attr_def write_cell_def Let_def q1)
qed

lemma write_cell_frame:
  assumes "row < 25" "col < 80" "\<not> in_buffer x"
  shows "write_cell col row ch attr m x = m x"
proof -
  have n: "row * 80 + col < 2000" using assms by simp
  have "x \<noteq> VGA_BUFFER_ADDR + cell_offset col row" "x \<noteq> VGA_BUFFER_ADDR + cell_offset col row + 1"
    using assms(3) n unfolding word_unat_eq_iff cell_addr [OF assms(1,2)] in_buffer_def by auto
  then show ?thesis by (simp add: write_cell_def Let_def)
qed

section \<open>Loops\<close>

definition same_elsewhere :: "vga_text \<Rightarrow> vga_text \<Rightarrow> bool" where
  "same_elsewhere s s' \<longleftrightarrow>
     vga_col s' = vga_col s \<and> vga_row s' = vga_row s \<and> vga_attr s' = vga_attr s \<and> vga_ports s' = vga_ports s \<and>
     (\<forall>x. \<not> in_buffer x \<longrightarrow> vga_mem s' x = vga_mem s x)"

abbreviation cell :: "vga_text \<Rightarrow> nat \<Rightarrow> nat \<Rightarrow> u8 \<times> u8" where
  "cell s \<equiv> screen_cell (vga_mem s)"

lemma same_elsewhere_refl [simp]: "same_elsewhere s s"
  by (simp add: same_elsewhere_def)

lemma same_elsewhere_trans: "same_elsewhere s s' \<Longrightarrow> same_elsewhere s' s'' \<Longrightarrow> same_elsewhere s s''"
  by (simp add: same_elsewhere_def)

lemma put_cell_same: "row < 25 \<Longrightarrow> col < 80 \<Longrightarrow> same_elsewhere s (put_cell col row ch attr s)"
  by (simp add: same_elsewhere_def put_cell_def write_cell_frame)

lemma put_cell_cell:
  "row < 25 \<Longrightarrow> col < 80 \<Longrightarrow> r < 25 \<Longrightarrow> c < 80 \<Longrightarrow>
    cell (put_cell col row ch attr s) r c = (if r = row \<and> c = col then (ch, attr) else cell s r c)"
  by (simp add: put_cell_def write_cell_cell)

text \<open>A loop over the columns of one row that fills it from a function of the state.\<close>

lemma fill_row:
  assumes "row < 25" "n \<le> 80"
    and g: "\<And>t col. same_elsewhere s t \<Longrightarrow> (\<And>r c. r < 25 \<Longrightarrow> c < 80 \<Longrightarrow> r \<noteq> row \<Longrightarrow> cell t r c = cell s r c) \<Longrightarrow> col < 80 \<Longrightarrow>
      (ch col t, at col t) = G col"
  defines "t \<equiv> fold (\<lambda>col t. put_cell col row (ch col t) (at col t) t) [0..<n] s"
  shows "same_elsewhere s t \<and> (\<forall>r<25. \<forall>c<80. cell t r c = (if r = row \<and> c < n then G c else cell s r c))"
  using assms(2) unfolding t_def
proof (induction n)
  case (Suc n)
  let ?t = "fold (\<lambda>col t. put_cell col row (ch col t) (at col t) t) [0..<n] s"
  have IH: "same_elsewhere s ?t" "\<And>r c. r < 25 \<Longrightarrow> c < 80 \<Longrightarrow> cell ?t r c = (if r = row \<and> c < n then G c else cell s r c)"
    using Suc by auto
  have "(ch n ?t, at n ?t) = G n" using IH Suc.prems by (intro g) auto
  then have "cell (put_cell n row (ch n ?t) (at n ?t) ?t) r c = (if r = row \<and> c < Suc n then G c else cell s r c)"
    if "r < 25" "c < 80" for r c
    using that IH(2) Suc.prems assms(1) by (auto simp: put_cell_cell less_Suc_eq)
  moreover have "same_elsewhere s (put_cell n row (ch n ?t) (at n ?t) ?t)"
    using IH(1) put_cell_same [OF assms(1)] Suc.prems by (intro same_elsewhere_trans [OF IH(1)]) simp
  ultimately show ?case by simp
qed simp

lemma copy_rows:
  fixes s :: vga_text
  assumes "n \<le> 25" "1 \<le> n"
  defines "t \<equiv> fold (\<lambda>row. fold (\<lambda>col s.
      put_cell col (row - 1) (read_char (vga_mem s) col row) (read_attr (vga_mem s) col row) s) [0..<VGA_COLS]) [1..<n] s"
  shows "same_elsewhere s t \<and> (\<forall>r<25. \<forall>c<80. cell t r c = (if r + 1 < n then cell s (r + 1) c else cell s r c))"
  using assms(2,1) unfolding t_def
proof (induction n rule: dec_induct)
  case (step n)
  let ?f = "\<lambda>row. fold (\<lambda>col s. put_cell col (row - 1) (read_char (vga_mem s) col row) (read_attr (vga_mem s) col row) s) [0..<VGA_COLS]"
  let ?t = "fold ?f [1..<n] s"
  have IH: "same_elsewhere s ?t" "\<And>r c. r < 25 \<Longrightarrow> c < 80 \<Longrightarrow> cell ?t r c = (if r + 1 < n then cell s (r + 1) c else cell s r c)"
    using step by auto
  have "same_elsewhere ?t (?f n ?t) \<and> (\<forall>r<25. \<forall>c<80. cell (?f n ?t) r c = (if r = n - 1 \<and> c < VGA_COLS then cell ?t n c else cell ?t r c))"
  proof (rule fill_row [where ch = "\<lambda>col s. read_char (vga_mem s) col n" and at = "\<lambda>col s. read_attr (vga_mem s) col n"])
    fix u and col :: nat assume u: "\<And>r c. r < 25 \<Longrightarrow> c < 80 \<Longrightarrow> r \<noteq> n - 1 \<Longrightarrow> cell u r c = cell ?t r c" and "col < 80"
    then have "cell u n col = cell ?t n col" using step by (intro u) auto
    then show "(read_char (vga_mem u) col n, read_attr (vga_mem u) col n) = cell ?t n col" by (simp add: screen_cell_def)
  qed (use step in \<open>auto simp: VGA_COLS_def\<close>)
  then have F: "same_elsewhere ?t (?f n ?t)" "\<And>r c. r < 25 \<Longrightarrow> c < 80 \<Longrightarrow> cell (?f n ?t) r c = (if r = n - 1 then cell ?t n c else cell ?t r c)"
    by (auto simp: VGA_COLS_def)
  have "cell (?f n ?t) r c = (if r + 1 < Suc n then cell s (r + 1) c else cell s r c)" if "r < 25" "c < 80" for r c
    using F(2) [OF that] IH(2) that step.hyps step.prems by auto
  then show ?case using same_elsewhere_trans [OF IH(1) F(1)] step.hyps by simp
qed simp

lemma scroll_up_cells:
  "same_elsewhere s (scroll_up s)"
  "r < 25 \<Longrightarrow> c < 80 \<Longrightarrow> cell (scroll_up s) r c = (if r < 24 then cell s (r + 1) c else (0x20, vga_attr s))"
proof -
  define t where "t = fold (\<lambda>row. fold (\<lambda>col s.
      put_cell col (row - 1) (read_char (vga_mem s) col row) (read_attr (vga_mem s) col row) s) [0..<VGA_COLS]) [1..<25] s"
  have t: "same_elsewhere s t" "\<And>r c. r < 25 \<Longrightarrow> c < 80 \<Longrightarrow> cell t r c = (if r + 1 < 25 then cell s (r + 1) c else cell s r c)"
    using copy_rows [of 25 s] unfolding t_def by auto
  have "same_elsewhere t (scroll_up s) \<and> (\<forall>r<25. \<forall>c<80. cell (scroll_up s) r c = (if r = 24 \<and> c < 80 then (0x20, vga_attr s) else cell t r c))"
    unfolding scroll_up_def VGA_ROWS_def Let_def t_def [symmetric, unfolded VGA_COLS_def] VGA_COLS_def
    using fill_row [of 24 80 t "\<lambda>col s. 0x20" "\<lambda>col s. vga_attr s" "\<lambda>_. (0x20, vga_attr s)"] t(1)
    by (auto simp: same_elsewhere_def)
  then show "same_elsewhere s (scroll_up s)"
    "r < 25 \<Longrightarrow> c < 80 \<Longrightarrow> cell (scroll_up s) r c = (if r < 24 then cell s (r + 1) c else (0x20, vga_attr s))"
    using t same_elsewhere_trans by (blast, auto)
qed

lemma vga_clear_cells:
  "same_elsewhere s (fold (\<lambda>row. fold (\<lambda>col s. put_cell col row 0x20 (vga_attr s) s) [0..<VGA_COLS]) [0..<n] s) \<and>
   (\<forall>r<25. \<forall>c<80. cell (fold (\<lambda>row. fold (\<lambda>col s. put_cell col row 0x20 (vga_attr s) s) [0..<VGA_COLS]) [0..<n] s) r c =
      (if r < n then (0x20, vga_attr s) else cell s r c))" if "n \<le> 25"
  using that
proof (induction n)
  case (Suc n)
  let ?f = "\<lambda>row. fold (\<lambda>col s. put_cell col row 0x20 (vga_attr s) s) [0..<VGA_COLS]"
  let ?t = "fold ?f [0..<n] s"
  have IH: "same_elsewhere s ?t" "\<And>r c. r < 25 \<Longrightarrow> c < 80 \<Longrightarrow> cell ?t r c = (if r < n then (0x20, vga_attr s) else cell s r c)"
    using Suc by auto
  have F: "same_elsewhere ?t (?f n ?t)" "\<And>r c. r < 25 \<Longrightarrow> c < 80 \<Longrightarrow> cell (?f n ?t) r c = (if r = n then (0x20, vga_attr s) else cell ?t r c)"
    using fill_row [of n 80 ?t "\<lambda>col s. 0x20" "\<lambda>col s. vga_attr s" "\<lambda>_. (0x20, vga_attr s)"] IH(1) Suc.prems
    by (auto simp: same_elsewhere_def VGA_COLS_def)
  have "cell (?f n ?t) r c = (if r < Suc n then (0x20, vga_attr s) else cell s r c)" if "r < 25" "c < 80" for r c
    using F(2) [OF that] IH(2) [OF that] by (auto simp: less_Suc_eq)
  then show ?case using same_elsewhere_trans [OF IH(1) F(1)] by simp
qed simp

section \<open>The simulation\<close>

text \<open>The screen shows the terminal, and the cursor is on the screen.\<close>

definition screen_of :: "vga_text \<Rightarrow> terminal \<Rightarrow> bool" where
  "screen_of s t \<longleftrightarrow>
     vga_col s = t_col t \<and> vga_row s = t_row t \<and> vga_attr s = t_attr t \<and> t_col t < 80 \<and> t_row t < 25 \<and>
     (\<forall>r<25. \<forall>c<80. cell s r c = t_cell t r c)"

definition hw_cursor :: "(u16 \<times> u8) list \<Rightarrow> nat \<Rightarrow> bool" where
  "hw_cursor ports pos \<longleftrightarrow>
     (\<exists>ps hi lo. ports = ps @ [(0x3D4, 0x0E), (0x3D5, hi), (0x3D4, 0x0F), (0x3D5, lo)] \<and> unat hi * 256 + unat lo = pos)"

definition outside_kept :: "vga_text \<Rightarrow> vga_text \<Rightarrow> bool" where
  "outside_kept s s' \<longleftrightarrow> (\<forall>x. \<not> in_buffer x \<longrightarrow> vga_mem s' x = vga_mem s x)"

lemma screen_of_same:
  assumes "screen_of s t" "same_elsewhere s s'" "\<And>r c. r < 25 \<Longrightarrow> c < 80 \<Longrightarrow> cell s' r c = g r c"
  shows "screen_of s' (t\<lparr>t_cell := g\<rparr>)"
  using assms by (auto simp: screen_of_def same_elsewhere_def)

lemma screen_of_put:
  assumes "screen_of s t" "row < 25" "col < 80"
  shows "screen_of (put_cell col row ch (vga_attr s) s) (t_put col row ch t)"
proof -
  have "screen_of (put_cell col row ch (vga_attr s) s) (t\<lparr>t_cell := (t_cell t)(row := (t_cell t row)(col := (ch, t_attr t)))\<rparr>)"
    using assms by (intro screen_of_same [OF assms(1)] put_cell_same) (auto simp: put_cell_cell screen_of_def)
  then show ?thesis by (simp add: t_put_def)
qed

lemma screen_of_col: "screen_of s t \<Longrightarrow> c < 80 \<Longrightarrow> screen_of (s\<lparr>vga_col := c\<rparr>) (t\<lparr>t_col := c\<rparr>)"
  by (simp add: screen_of_def)

lemma screen_of_newline:
  assumes "screen_of s t"
  shows "screen_of (newline s) (t_newline t)" "outside_kept s (newline s)"
proof -
  define s0 where "s0 = s\<lparr>vga_col := 0\<rparr>"
  have s0: "screen_of s0 (t\<lparr>t_col := 0\<rparr>)" unfolding s0_def using assms by (rule screen_of_col) simp
  note U = scroll_up_cells(1) [of s0] and C = scroll_up_cells(2) [of _ _ s0]
  show "outside_kept s (newline s)"
    using U by (auto simp: newline_def outside_kept_def same_elsewhere_def s0_def Let_def)
  show "screen_of (newline s) (t_newline t)"
  proof (cases "t_row t = 24")
    case True
    have "screen_of (scroll_up s0) (t\<lparr>t_col := 0, t_cell := (\<lambda>r c. if r < 24 then t_cell t (r + 1) c else (0x20, t_attr t))\<rparr>)"
      using screen_of_same [OF s0 U, of "\<lambda>r c. if r < 24 then t_cell t (r + 1) c else (0x20, t_attr t)"] C s0
      by (simp add: screen_of_def)
    then show ?thesis
      using True assms by (simp add: newline_def t_newline_def screen_of_def s0_def VGA_ROWS_def Let_def)
  next
    case False
    then show ?thesis using assms by (auto simp: newline_def t_newline_def screen_of_def VGA_ROWS_def Let_def)
  qed
qed

lemma update_hw_cursor_same:
  "screen_of (update_hw_cursor s) t = screen_of s t" "vga_mem (update_hw_cursor s) = vga_mem s"
  by (simp_all add: screen_of_def update_hw_cursor_def vga_outb_def Let_def)

lemma update_hw_cursor_pos:
  assumes "screen_of s t"
  shows "hw_cursor (vga_ports (update_hw_cursor s)) (t_row t * 80 + t_col t)"
proof -
  define pos :: u16 where "pos = of_nat (t_row t * 80 + t_col t)"
  have n: "t_row t * 80 + t_col t < 2000" using assms by (auto simp: screen_of_def)
  then have u: "unat pos = t_row t * 80 + t_col t" unfolding pos_def unat_of_nat by simp
  have lo: "unat (ucast (pos AND 0xFF) :: u8) = unat pos mod 256"
    using unat_and_mask [of pos 8] by (simp add: unat_ucast_mod mask_eq_exp_minus_1)
  have hi: "unat (ucast (drop_bit 8 pos) :: u8) = unat pos div 256" using u n by (simp add: unat_ucast_mod unat_drop_bit)
  have "unat (ucast (drop_bit 8 pos) :: u8) * 256 + unat (ucast (pos AND 0xFF) :: u8) = unat pos" unfolding lo hi by simp
  then show ?thesis
    using assms u unfolding hw_cursor_def
    by (intro exI [of _ "vga_ports s"] exI [of _ "ucast (drop_bit 8 pos) :: u8"] exI [of _ "ucast (pos AND 0xFF) :: u8"])
      (simp add: update_hw_cursor_def vga_outb_def Let_def CRTC_ADDR_PORT_def CRTC_DATA_PORT_def CRTC_CURSOR_HIGH_def
        CRTC_CURSOR_LOW_def VGA_COLS_def screen_of_def pos_def)
qed

lemma vga_step:
  assumes S: "screen_of s t"
  shows "screen_of (vga_write_byte b s) (t_write b t)" "outside_kept s (vga_write_byte b s)"
    "hw_cursor (vga_ports (vga_write_byte b s)) (t_row (t_write b t) * 80 + t_col (t_write b t))"
proof -
  define s1 where "s1 = (if b = 0x0A then newline s
        else if b = 0x0D then s\<lparr>vga_col := 0\<rparr>
        else if b = 0x08 then
          (let s = (if vga_col s > 0 then s\<lparr>vga_col := vga_col s - 1\<rparr> else s) in
           put_cell (vga_col s) (vga_row s) 0x20 (vga_attr s) s)
        else advance_cursor (put_cell (vga_col s) (vga_row s) b (vga_attr s) s))"
  have w: "vga_write_byte b s = update_hw_cursor s1" by (simp add: vga_write_byte_def s1_def)
  have rc: "vga_col s = t_col t" "vga_row s = t_row t" "t_row t < 25" "t_col t < 80" "vga_attr s = t_attr t" using S by (auto simp: screen_of_def)
  consider (nl) "b = 0x0A" | (cr) "b = 0x0D" | (bs) "b = 0x08" | (ch) "b \<notin> {0x0A, 0x0D, 0x08}" by blast
  then have "screen_of s1 (t_write b t) \<and> outside_kept s s1"
  proof cases
    case nl
    then show ?thesis using screen_of_newline [OF S] by (simp add: s1_def t_write_def)
  next
    case cr
    then show ?thesis using screen_of_col [OF S, of 0] by (simp add: s1_def t_write_def outside_kept_def)
  next
    case bs
    define s2 where "s2 = s\<lparr>vga_col := t_col t - 1\<rparr>"
    have s2: "screen_of s2 (t\<lparr>t_col := t_col t - 1\<rparr>)" unfolding s2_def using S rc by (intro screen_of_col) simp_all
    have "(if vga_col s > 0 then s\<lparr>vga_col := vga_col s - 1\<rparr> else s) = s2" using rc by (cases s) (simp add: s2_def)
    then have e: "s1 = put_cell (t_col t - 1) (t_row t) 0x20 (vga_attr s2) s2" using bs rc by (simp add: s1_def Let_def) (simp add: s2_def)
    have "outside_kept s s1" using put_cell_same [of "t_row t" "t_col t - 1" s2] rc unfolding e
      by (simp add: outside_kept_def same_elsewhere_def s2_def)
    then show ?thesis using screen_of_put [OF s2, of "t_row t" "t_col t - 1"] rc bs e by (simp add: t_write_def Let_def)
  next
    case ch
    define s2 where "s2 = put_cell (t_col t) (t_row t) b (vga_attr s) s"
    have s2: "screen_of s2 (t_put (t_col t) (t_row t) b t)" unfolding s2_def using S rc by (intro screen_of_put) simp_all
    have k2: "outside_kept s s2" using put_cell_same [of "t_row t" "t_col t" s] rc by (simp add: outside_kept_def same_elsewhere_def s2_def)
    have e: "s1 = advance_cursor s2" using ch rc by (simp add: s1_def s2_def)
    have c2: "vga_col s2 = t_col t" "t_col (t_put (t_col t) (t_row t) b t) = t_col t" using rc by (simp_all add: s2_def put_cell_def t_put_def)
    show ?thesis
    proof (cases "t_col t = 79")
      case True
      have nn: "newline (s2\<lparr>vga_col := x\<rparr>) = newline s2" for x by (simp add: newline_def Let_def)
      have "s1 = newline s2" unfolding e using True c2 nn by (simp add: advance_cursor_def VGA_COLS_def Let_def)
      then show ?thesis using screen_of_newline [OF s2] k2 True ch c2(2)
        by (auto simp: t_write_def Let_def outside_kept_def)
    next
      case False
      then have "s1 = s2\<lparr>vga_col := t_col t + 1\<rparr>" unfolding e using rc c2 by (simp add: advance_cursor_def VGA_COLS_def Let_def)
      then show ?thesis using screen_of_col [OF s2, of "t_col t + 1"] k2 False rc ch c2(2)
        by (simp add: t_write_def Let_def outside_kept_def)
    qed
  qed
  then show "screen_of (vga_write_byte b s) (t_write b t)" "outside_kept s (vga_write_byte b s)"
    "hw_cursor (vga_ports (vga_write_byte b s)) (t_row (t_write b t) * 80 + t_col (t_write b t))"
    using update_hw_cursor_pos [of s1 "t_write b t"] by (simp_all add: w update_hw_cursor_same outside_kept_def)
qed

lemma vga_write_str_shows:
  assumes "screen_of s t"
  shows "screen_of (vga_write_str bs s) (fold t_write bs t) \<and> outside_kept s (vga_write_str bs s) \<and>
    (bs \<noteq> [] \<longrightarrow> hw_cursor (vga_ports (vga_write_str bs s)) (t_row (fold t_write bs t) * 80 + t_col (fold t_write bs t)))"
  unfolding vga_write_str_def co_write_str_def vga_console_def
proof (induction bs rule: rev_induct)
  case Nil
  then show ?case using assms by (simp add: outside_kept_def)
next
  case (snoc b bs)
  then have "screen_of (fold vga_write_byte bs s) (fold t_write bs t)" "outside_kept s (fold vga_write_byte bs s)" by simp_all
  then show ?case using vga_step [of "fold vga_write_byte bs s" "fold t_write bs t" b] by (simp add: outside_kept_def)
qed

text \<open>
  C36. The text console.  Writing any bytes to a screen that shows a terminal of 25 rows and 80
  columns leaves it showing the terminal after those bytes: characters land at the cursor, lines
  wrap and scroll, carriage return and backspace move the cursor.  The cursor stays on the screen,
  the hardware cursor is programmed to it, and no byte of memory outside the text buffer changes.
\<close>

theorem vga_write_str_refines:
  assumes "screen_of s t"
  shows "screen_of (vga_write_str bs s) (fold t_write bs t) \<and> outside_kept s (vga_write_str bs s) \<and>
    (bs \<noteq> [] \<longrightarrow> hw_cursor (vga_ports (vga_write_str bs s)) (t_row (fold t_write bs t) * 80 + t_col (fold t_write bs t)))"
  using assms by (rule vga_write_str_shows)

lemma vga_new_blank:
  "screen_of (vga_new m) \<lparr>t_cell = (\<lambda>_ _. (0x20, 7)), t_col = 0, t_row = 0, t_attr = 7\<rparr>"
  using vga_clear_cells [of 25 "\<lparr>vga_mem = m, vga_ports = [], vga_col = 0, vga_row = 0, vga_attr = make_attr LightGray Black\<rparr>"]
  by (simp add: vga_new_def vga_clear_def update_hw_cursor_same VGA_ROWS_def Let_def)
    (simp add: screen_of_def same_elsewhere_def make_attr_def)

theorem vga_write_str_refines_witness:
  "screen_cell (vga_mem (vga_write_str [0x48, 0x69, 0x0A, 0x21] (vga_new (\<lambda>_. 0)))) 1 0 = (0x21, 7) \<and>
   screen_cell (vga_mem (vga_write_str [0x48, 0x69, 0x0A, 0x21] (vga_new (\<lambda>_. 0)))) 0 1 = (0x69, 7)"
proof -
  let ?t = "fold t_write [0x48, 0x69, 0x0A, 0x21] \<lparr>t_cell = (\<lambda>_ _. (0x20, 7)), t_col = 0, t_row = 0, t_attr = 7\<rparr>"
  have "t_cell ?t 1 0 = (0x21, 7)" "t_cell ?t 0 1 = (0x69, 7)" by (simp_all add: t_write_def t_put_def t_newline_def Let_def)
  then show ?thesis
    using vga_write_str_refines [OF vga_new_blank [of "\<lambda>_. 0"], of "[0x48, 0x69, 0x0A, 0x21]"] unfolding screen_of_def by simp
qed

end
