(* ===== verification/Logger.thy ===== *)
theory Logger
  imports Serial_Port Vga_Properties
begin

text \<open>
  The kernel's logger (\<^verbatim>\<open>kernel/src/logger.rs\<close>) with its sinks (\<^verbatim>\<open>kernel/src/subsystems/boot_sinks\<close> and
  \<^verbatim>\<open>log_sinks\<close>).  A sink is a transformer of the world \<open>'w\<close> it writes to.  What the crate \<^verbatim>\<open>log\<close> keeps, whether
  a logger is registered and its own level, is part of the state.  Text is its UTF-8 bytes; the
  arguments of a message are the pieces that their formatting writes.
\<close>

section \<open>Levels\<close>

datatype log_level = LevelError | LevelWarn | LevelInfo | LevelDebug | LevelTrace
datatype level_filter = FilterOff | FilterError | FilterWarn | FilterInfo | FilterDebug | FilterTrace

fun level_num :: "log_level \<Rightarrow> nat" where
  "level_num LevelError = 1" | "level_num LevelWarn = 2" | "level_num LevelInfo = 3" | "level_num LevelDebug = 4"
| "level_num LevelTrace = 5"

fun filter_num :: "level_filter \<Rightarrow> nat" where
  "filter_num FilterOff = 0" | "filter_num FilterError = 1" | "filter_num FilterWarn = 2" | "filter_num FilterInfo = 3"
| "filter_num FilterDebug = 4" | "filter_num FilterTrace = 5"

definition level_from_u8 :: "u8 \<Rightarrow> level_filter" where
  "level_from_u8 v =
     (if v = 0 then FilterOff else if v = 1 then FilterError else if v = 2 then FilterWarn
      else if v = 3 then FilterInfo else if v = 4 then FilterDebug else FilterTrace)"

definition text_bytes :: "string \<Rightarrow> u8 list" where
  "text_bytes s = map (\<lambda>c. of_nat (of_char c)) s"

fun level_name :: "log_level \<Rightarrow> u8 list" where
  "level_name LevelError = text_bytes ''ERROR''"
| "level_name LevelWarn = text_bytes ''WARN''"
| "level_name LevelInfo = text_bytes ''INFO''"
| "level_name LevelDebug = text_bytes ''DEBUG''"
| "level_name LevelTrace = text_bytes ''TRACE''"

section \<open>The formatting buffer\<close>

record fmt_buf =
  fmt_bytes :: "u8 list"
  fmt_pos :: nat

definition fmt_buf_new :: "nat \<Rightarrow> fmt_buf" where
  "fmt_buf_new n = \<lparr>fmt_bytes = replicate n 0, fmt_pos = 0\<rparr>"

definition fmt_as_str :: "fmt_buf \<Rightarrow> u8 list" where
  "fmt_as_str b = take (fmt_pos b) (fmt_bytes b)"

definition fmt_write_str :: "u8 list \<Rightarrow> fmt_buf \<Rightarrow> fmt_buf" where
  "fmt_write_str s b =
     (let space = length (fmt_bytes b) - fmt_pos b;
          n = min (length s) space in
      b\<lparr>fmt_bytes := take (fmt_pos b) (fmt_bytes b) @ take n s @ drop (fmt_pos b + n) (fmt_bytes b),
        fmt_pos := fmt_pos b + n\<rparr>)"

section \<open>The logger\<close>

datatype 'w logger_mode = Boot | Runtime "(u8 list \<Rightarrow> ('w, unit, unit) io) list"

record 'w kernel_logger =
  lg_mode :: "'w logger_mode"
  lg_max_level :: u8
  lg_registered :: bool
  lg_global_level :: level_filter

definition LOGGER :: "'w kernel_logger" where
  "LOGGER = \<lparr>lg_mode = Boot, lg_max_level = of_nat (filter_num FilterInfo), lg_registered = False, lg_global_level = FilterOff\<rparr>"

text \<open>\<^verbatim>\<open>set_logger\<close> fails when a logger is already registered, and \<^verbatim>\<open>expect\<close> then panics.\<close>

definition logger_init :: "level_filter \<Rightarrow> 'w kernel_logger \<Rightarrow> 'w kernel_logger call" where
  "logger_init level lg =
     (let lg = lg\<lparr>lg_max_level := of_nat (filter_num level), lg_mode := Boot\<rparr> in
      if lg_registered lg then Panic else Ok (lg\<lparr>lg_registered := True, lg_global_level := level\<rparr>))"

definition attach_runtime :: "(u8 list \<Rightarrow> ('w, unit, unit) io) list \<Rightarrow> 'w kernel_logger \<Rightarrow> 'w kernel_logger" where
  "attach_runtime sinks lg = lg\<lparr>lg_mode := Runtime sinks\<rparr>"

definition log_enabled :: "'w kernel_logger \<Rightarrow> log_level \<Rightarrow> bool" where
  "log_enabled lg level \<longleftrightarrow> level_num level \<le> filter_num (level_from_u8 (lg_max_level lg))"

text \<open>The pieces that \<^verbatim>\<open>write!(buf, "[{:<5} {}] {}\n", level, target, args)\<close> writes.\<close>

definition log_pieces :: "log_level \<Rightarrow> u8 list \<Rightarrow> u8 list list \<Rightarrow> u8 list list" where
  "log_pieces level target args =
     [text_bytes ''['', level_name level, replicate (5 - length (level_name level)) 0x20, text_bytes '' '', target,
      text_bytes ''] ''] @ args @ [[LF]]"

definition logger_log ::
  "(u8 list \<Rightarrow> ('w, unit, unit) io) \<Rightarrow> 'w kernel_logger \<Rightarrow> log_level \<Rightarrow> u8 list \<Rightarrow> u8 list list \<Rightarrow> ('w, unit, unit) io" where
  "logger_log boot_console lg level target args =
     (if \<not> log_enabled lg level then ok ()
      else
        let buf = fold fmt_write_str (log_pieces level target args) (fmt_buf_new 512);
            s = fmt_as_str buf in
        case lg_mode lg of
          Boot \<Rightarrow> boot_console s
        | Runtime sinks \<Rightarrow> each (\<lambda>sink. sink s) sinks)"

section \<open>Sinks\<close>

text \<open>
  The boot sink of the PC makes a new text console for every message; the world is the memory and
  the trace of port writes.  That of the Raspberry Pi is not implemented and panics.
\<close>

definition x86_boot_sink :: "u8 list \<Rightarrow> (memory \<times> (u16 \<times> u8) list, unit, unit) io" where
  "x86_boot_sink s =
     State (\<lambda>(m, ports). let vga = vga_write_str s (vga_new m) in (Ok (), (vga_mem vga, ports @ vga_ports vga)))"

definition arm_boot_sink :: "u8 list \<Rightarrow> ('w, unit, unit) io" where
  "arm_boot_sink s = panic"

definition null_boot_sink :: "u8 list \<Rightarrow> ('w, unit, unit) io" where
  "null_boot_sink s = ok ()"

text \<open>The serial sink, with the port that \<^verbatim>\<open>serial_console()\<close> finds; the result of the write is ignored.\<close>

definition serial_log_sink :: "'p dyn_serial_port option \<Rightarrow> u8 list \<Rightarrow> ('p, unit, unit) io" where
  "serial_log_sink console s =
     (case console of
        None \<Rightarrow> ok ()
      | Some port \<Rightarrow> do {
          r \<leftarrow> ds_write port s;
          case r of Panic \<Rightarrow> panic | Diverge \<Rightarrow> State_Monad.return Diverge | _ \<Rightarrow> ok ()
        })"

section \<open>What is logged\<close>

lemma fmt_write_str_take:
  assumes "fmt_pos b \<le> length (fmt_bytes b)"
  shows "fmt_as_str (fmt_write_str s b) = take (length (fmt_bytes b)) (fmt_as_str b @ s)"
    and "length (fmt_bytes (fmt_write_str s b)) = length (fmt_bytes b)"
    and "fmt_pos (fmt_write_str s b) \<le> length (fmt_bytes b)"
  using assms by (auto simp: fmt_write_str_def fmt_as_str_def Let_def min_def)

text \<open>Writing pieces appends them and cuts at the end of the buffer.\<close>

lemma fmt_write_pieces:
  assumes "fmt_pos b \<le> length (fmt_bytes b)"
  shows "fmt_as_str (fold fmt_write_str ps b) = take (length (fmt_bytes b)) (fmt_as_str b @ concat ps)"
  using assms
proof (induction ps arbitrary: b)
  case Nil
  then show ?case by (simp add: fmt_as_str_def)
next
  case (Cons p ps)
  note w = fmt_write_str_take [OF Cons.prems, of p]
  have "fmt_as_str (fold fmt_write_str ps (fmt_write_str p b)) =
      take (length (fmt_bytes b)) (take (length (fmt_bytes b)) (fmt_as_str b @ p) @ concat ps)"
    using Cons.IH [of "fmt_write_str p b"] w by simp
  then show ?case by (simp only: take_take_append) simp
qed

text \<open>
  An enabled message reaches every sink as the first 512 bytes of its line, and a message above the
  level reaches none.
\<close>

lemma logger_log_line:
  "logger_log boot lg level target args =
     (if log_enabled lg level then
        let s = take 512 (concat (log_pieces level target args)) in
        case lg_mode lg of Boot \<Rightarrow> boot s | Runtime sinks \<Rightarrow> each (\<lambda>sink. sink s) sinks
      else ok ())"
proof -
  have "fmt_as_str (fold fmt_write_str (log_pieces level target args) (fmt_buf_new 512)) =
      take 512 (concat (log_pieces level target args))"
    by (subst fmt_write_pieces) (simp_all add: fmt_buf_new_def fmt_as_str_def)
  then show ?thesis by (simp add: logger_log_def Let_def split: logger_mode.split)
qed

lemma logger_init_enables:
  "lg_registered lg = False \<Longrightarrow> \<exists>lg'. logger_init level lg = Ok lg' \<and> lg_mode lg' = Boot \<and>
     (\<forall>l. log_enabled lg' l \<longleftrightarrow> level_num l \<le> filter_num level)"
  by (cases level) (simp_all add: logger_init_def log_enabled_def level_from_u8_def)

text \<open>
  The cut does not respect characters: the text given to the sinks can end inside one, although every
  piece is valid UTF-8.
\<close>

lemma utf8_valid_ascii: "b < 0x80 \<Longrightarrow> utf8_valid (replicate n b @ bs) = utf8_valid bs"
  by (induction n) simp_all

lemma log_line_not_utf8:
  defines "args \<equiv> [replicate 502 0x61 @ [0xC3, 0xA9]]"
  shows "(\<forall>p \<in> set (log_pieces LevelInfo [] args). utf8_valid p) \<and>
    \<not> utf8_valid (take 512 (concat (log_pieces LevelInfo [] args)))"
proof
  show "\<forall>p \<in> set (log_pieces LevelInfo [] args). utf8_valid p"
    by (simp add: args_def log_pieces_def text_bytes_def utf8_valid_ascii cont_def LF_def)
  have "concat (log_pieces LevelInfo [] args) = [0x5B, 0x49, 0x4E, 0x46, 0x4F, 0x20, 0x20, 0x5D, 0x20] @
      replicate 502 0x61 @ [0xC3, 0xA9, LF]"
    by (simp add: args_def log_pieces_def text_bytes_def)
  then have "take 512 (concat (log_pieces LevelInfo [] args)) =
      [0x5B, 0x49, 0x4E, 0x46, 0x4F, 0x20, 0x20, 0x5D, 0x20] @ replicate 502 0x61 @ [0xC3]"
    by (simp add: take_append)
  then show "\<not> utf8_valid (take 512 (concat (log_pieces LevelInfo [] args)))"
    by (simp add: utf8_valid_ascii)
qed

text \<open>Every boot message on the PC starts on a cleared screen: earlier messages are gone.\<close>

lemma boot_message_alone:
  assumes "run_state (x86_boot_sink s) w = (r, w')"
  shows "r = Ok () \<and> (\<exists>vga. vga_mem vga = fst w' \<and>
    screen_of vga (fold t_write s \<lparr>t_cell = (\<lambda>_ _. (0x20, 7)), t_col = 0, t_row = 0, t_attr = 7\<rparr>))"
proof (cases w)
  case (Pair m ports)
  then show ?thesis
    using assms vga_write_str_shows [OF vga_new_blank [of m], of s]
    by (intro conjI exI [of _ "vga_write_str s (vga_new m)"]) (auto simp: x86_boot_sink_def Let_def)
qed

lemma arm_boot_log_panics:
  "lg_mode lg = Boot \<Longrightarrow> log_enabled lg level \<Longrightarrow> run_state (logger_log arm_boot_sink lg level target args) w = (Panic, w)"
  by (simp add: logger_log_line arm_boot_sink_def run_panic)

end
