(* ===== verification/Irq_Dispatch.thy ===== *)
theory Irq_Dispatch
  imports Interrupts Irq_Mutex Timers Logger
begin

text \<open>
  Interrupt dispatch (\<^verbatim>\<open>kernel/src/irq/dispatch.rs\<close>) and the handler table with its handlers
  (\<^verbatim>\<open>kernel/src/irq/handlers.rs\<close>).  The world is the CPU's flags \<open>'c\<close> and the devices \<open>'d\<close>; the masking
  operations of the architecture are the parameters \<open>irq_on\<close> and \<open>irq_off\<close>, and the registered
  interrupt controller is an optional parameter, as \<^verbatim>\<open>irq_controller()\<close> returns it.  An interrupt without
  a handler is logged: the logger \<open>lg\<close> and the boot console are parameters, and their sinks act on the
  same world.
\<close>

section \<open>Handlers\<close>

record ('c, 'd) irq_world =
  iw_cpu :: 'c
  iw_dev :: 'd

type_synonym ('c, 'd) irq_handler = "(('c, 'd) irq_world, unit, unit) io"

definition MAX_IRQS :: nat where "MAX_IRQS = 128"

definition irq_handlers_init :: "('c, 'd) irq_handler option list" where
  "irq_handlers_init = replicate MAX_IRQS None"

definition register_handler ::
  "('c, 'd) irq_handler option list \<Rightarrow> u32 \<Rightarrow> ('c, 'd) irq_handler \<Rightarrow> ('c, 'd) irq_handler option list call" where
  "register_handler tbl irq handler = (if unat irq < length tbl then Ok (tbl[unat irq := Some handler]) else Panic)"

definition get_handler :: "('c, 'd) irq_handler option list \<Rightarrow> u32 \<Rightarrow> ('c, 'd) irq_handler option call" where
  "get_handler tbl irq = (if unat irq < length tbl then Ok (tbl ! unat irq) else Panic)"

text \<open>\<^verbatim>\<open>.expect(...)\<close> on an option and on a result.\<close>

definition expect_some :: "'a option \<Rightarrow> ('w, 'a, 'e) io" where
  "expect_some v = (case v of Some x \<Rightarrow> ok x | None \<Rightarrow> panic)"

definition expect_ok :: "('w, 'a, 'f) io \<Rightarrow> ('w, 'a, 'e) io" where
  "expect_ok m = do {
     r \<leftarrow> m;
     State_Monad.return (case r of Ok x \<Rightarrow> Ok x | Err e \<Rightarrow> Panic | Panic \<Rightarrow> Panic | Diverge \<Rightarrow> Diverge)
   }"

text \<open>\<^verbatim>\<open>let _ = m;\<close>: an error value is dropped.\<close>

definition ignore :: "('w, 'a, 'f) io \<Rightarrow> ('w, unit, 'e) io" where
  "ignore m = do {
     r \<leftarrow> m;
     State_Monad.return (case r of Ok x \<Rightarrow> Ok () | Err e \<Rightarrow> Ok () | Panic \<Rightarrow> Panic | Diverge \<Rightarrow> Diverge)
   }"

definition TIMER_MESSAGE :: "u8 list" where
  "TIMER_MESSAGE = map (\<lambda>c. of_nat (of_char c)) ''Timer interrupt'' @ [10]"

text \<open>
  The timer handler, over the registered channel, timer and console; it does not touch the trap
  frame.
\<close>

definition timer_handler :: "u32 option \<Rightarrow> 'd dyn_timer option \<Rightarrow> 'd dyn_serial_port option \<Rightarrow> ('d, unit, unit) io" where
  "timer_handler sys_timer_channel system_timer serial_console =
     io_bind (expect_some sys_timer_channel) (\<lambda>channel.
     io_bind (expect_some system_timer) (\<lambda>timer.
     io_bind (expect_ok (dt_stop timer channel)) (\<lambda>_.
     io_bind (expect_ok (dt_clear_interrupt timer channel)) (\<lambda>_.
     io_bind (expect_some serial_console) (\<lambda>console.
     io_bind (ignore (ds_write console TIMER_MESSAGE)) (\<lambda>_.
     expect_ok (dt_start timer channel 1000000)))))))"

definition uart_handler :: "('d, unit, unit) io" where
  "uart_handler = ok ()"

section \<open>Dispatch\<close>

definition on_devices :: "('d, 'a, 'e) io \<Rightarrow> (('c, 'd) irq_world, 'a, 'e) io" where
  "on_devices m = State (\<lambda>w. case run_state m (iw_dev w) of (r, d) \<Rightarrow> (r, w\<lparr>iw_dev := d\<rparr>))"

definition on_cpu :: "('c \<Rightarrow> 'c) \<Rightarrow> (('c, 'd) irq_world, unit, 'e) io" where
  "on_cpu f = State (\<lambda>w. (Ok (), w\<lparr>iw_cpu := f (iw_cpu w)\<rparr>))"

text \<open>\<^verbatim>\<open>log::info!\<close>: the macro asks the level of the crate and calls the registered logger.\<close>

definition log_info ::
  "(u8 list \<Rightarrow> ('w, unit, unit) io) \<Rightarrow> 'w kernel_logger \<Rightarrow> string \<Rightarrow> u8 list list \<Rightarrow> ('w, unit, unit) io" where
  "log_info boot_console lg module args =
     (if lg_registered lg \<and> level_num LevelInfo \<le> filter_num (lg_global_level lg)
      then logger_log boot_console lg LevelInfo (text_bytes module) args else ok ())"

definition run_handler ::
  "(u8 list \<Rightarrow> ('c, 'd) irq_handler) \<Rightarrow> ('c, 'd) irq_world kernel_logger \<Rightarrow> u32 \<Rightarrow> ('c, 'd) irq_handler option \<Rightarrow> ('c, 'd) irq_handler" where
  "run_handler boot_console lg irq found =
     (case found of
        Some handler \<Rightarrow> handler
      | None \<Rightarrow> log_info boot_console lg ''kernel::irq::dispatch'' [text_bytes ''Unhandled IRQ: '', text_bytes (dec_digits (unat irq))])"

definition dispatch_irq ::
  "('c \<Rightarrow> 'c) \<Rightarrow> ('c \<Rightarrow> 'c) \<Rightarrow> (u8 list \<Rightarrow> ('c, 'd) irq_handler) \<Rightarrow> ('c, 'd) irq_world kernel_logger \<Rightarrow>
   ('d, interrupt_error) interrupt_controller option \<Rightarrow> ('c, 'd) irq_handler option list \<Rightarrow> u32 \<Rightarrow>
   (('c, 'd) irq_world, unit, unit) io" where
  "dispatch_irq irq_on irq_off boot_console lg controller tbl irq =
     io_bind (expect_some controller) (\<lambda>irqctl.
     io_bind (ignore (on_devices (ic_disable irqctl irq))) (\<lambda>_.
     io_bind (on_cpu irq_on) (\<lambda>_.
     io_bind (of_result (get_handler tbl irq)) (\<lambda>found.
     io_bind (run_handler boot_console lg irq found) (\<lambda>_.
     io_bind (on_cpu irq_off) (\<lambda>_.
     ignore (on_devices (ic_enable irqctl irq))))))))"

definition dispatch_next ::
  "('c \<Rightarrow> 'c) \<Rightarrow> ('c \<Rightarrow> 'c) \<Rightarrow> (u8 list \<Rightarrow> ('c, 'd) irq_handler) \<Rightarrow> ('c, 'd) irq_world kernel_logger \<Rightarrow>
   ('d, interrupt_error) interrupt_controller option \<Rightarrow> ('c, 'd) irq_handler option list \<Rightarrow>
   (('c, 'd) irq_world, bool, unit) io" where
  "dispatch_next irq_on irq_off boot_console lg controller tbl =
     io_bind (expect_some controller) (\<lambda>irqctl.
     io_bind (on_devices (do { p \<leftarrow> ic_next_pending irqctl; ok p })) (\<lambda>pending.
       case pending of
         Some irq \<Rightarrow> io_bind (dispatch_irq irq_on irq_off boot_console lg controller tbl irq) (\<lambda>_. ok True)
       | None \<Rightarrow> ok False))"

partial_function (option) dispatch_loop ::
  "(('c, 'd) irq_world, bool, unit) io \<Rightarrow> ('c, 'd) irq_world \<Rightarrow> ((unit, unit) outcome \<times> ('c, 'd) irq_world) option" where
  "dispatch_loop next w =
     (case run_state next w of
        (Ok again, w') \<Rightarrow> if again then dispatch_loop next w' else Some (Ok (), w')
      | (Err e, w') \<Rightarrow> Some (Err e, w')
      | (Panic, w') \<Rightarrow> Some (Panic, w')
      | (Diverge, w') \<Rightarrow> Some (Diverge, w'))"

declare dispatch_loop.simps [code]

definition dispatch_all ::
  "('c \<Rightarrow> 'c) \<Rightarrow> ('c \<Rightarrow> 'c) \<Rightarrow> (u8 list \<Rightarrow> ('c, 'd) irq_handler) \<Rightarrow> ('c, 'd) irq_world kernel_logger \<Rightarrow>
   ('d, interrupt_error) interrupt_controller option \<Rightarrow> ('c, 'd) irq_handler option list \<Rightarrow>
   (('c, 'd) irq_world, unit, unit) io" where
  "dispatch_all irq_on irq_off boot_console lg controller tbl =
     State (\<lambda>w. case dispatch_loop (dispatch_next irq_on irq_off boot_console lg controller tbl) w of None \<Rightarrow> (Diverge, w) | Some r \<Rightarrow> r)"

section \<open>Running\<close>

lemma run_expect_some [io_simps]: "run_state (expect_some (Some x)) w = (Ok x, w)"
  by (simp add: expect_some_def run_ok)

lemma run_on_devices [io_simps]: "run_state (on_devices m) w = (case run_state m (iw_dev w) of (r, d) \<Rightarrow> (r, w\<lparr>iw_dev := d\<rparr>))"
  by (simp add: on_devices_def)

lemma run_on_cpu [io_simps]: "run_state (on_cpu f) w = (Ok (), w\<lparr>iw_cpu := f (iw_cpu w)\<rparr>)"
  by (simp add: on_cpu_def)

lemma run_ignore [io_simps]:
  "run_state (ignore m) w =
     (case run_state m w of (r, w') \<Rightarrow> (case r of Ok _ \<Rightarrow> Ok () | Err _ \<Rightarrow> Ok () | Panic \<Rightarrow> Panic | Diverge \<Rightarrow> Diverge, w'))"
  by (simp add: ignore_def split: prod.split)

text \<open>The lowest pending line.\<close>

lemma trailing_zeros_least:
  assumes "w \<noteq> 0"
  shows "unat (trailing_zeros w) < 32" "bit w (unat (trailing_zeros w))" "k < unat (trailing_zeros w) \<Longrightarrow> \<not> bit w k"
proof -
  let ?n = "length (takeWhile (\<lambda>i. \<not> bit w i) [0..<32])"
  obtain i where i: "i < 32" "bit w i" using assms by (auto simp: bit_eq_iff)
  have "?n \<noteq> length [0..<32]"
  proof
    assume "?n = length [0..<32]"
    then have "takeWhile (\<lambda>i. \<not> bit w i) [0..<32] = [0..<32]" by (metis length_takeWhile_le takeWhile_eq_take take_all)
    then show False using i by (metis atLeastLessThan_iff set_takeWhileD set_upt zero_le)
  qed
  then have n: "?n < 32" using length_takeWhile_le [of "\<lambda>i. \<not> bit w i" "[0..<32]"] by simp
  then have u: "unat (trailing_zeros w) = ?n" by (simp add: trailing_zeros_def unat_of_nat del: upt_rec_numeral)
  show "unat (trailing_zeros w) < 32" using n u by simp
  show "bit w (unat (trailing_zeros w))"
    using nth_length_takeWhile [of "\<lambda>i. \<not> bit w i" "[0..<32]"] n u by simp
  show "\<not> bit w k" if "k < unat (trailing_zeros w)"
    using nth_mem [of k "takeWhile (\<lambda>i. \<not> bit w i) [0..<32]"] takeWhile_nth [of k "\<lambda>i. \<not> bit w i" "[0..<32]"] that n u
    by (auto dest: set_takeWhileD)
qed

lemma Min_lines:
  assumes "w \<noteq> 0"
  shows "Min (lines_of first w) = first + unat (trailing_zeros w)"
proof (rule Min_eqI)
  have "lines_of first w \<subseteq> (\<lambda>k. first + k) ` {..<32}" by (auto simp: lines_of_def)
  then show "finite (lines_of first w)" by (rule finite_subset) simp
  show "first + unat (trailing_zeros w) \<in> lines_of first w"
    using trailing_zeros_least [OF assms] by (auto simp: lines_of_def)
  fix y assume "y \<in> lines_of first w"
  then show "first + unat (trailing_zeros w) \<le> y"
    using trailing_zeros_least(3) [OF assms] by (auto simp: lines_of_def not_less [symmetric])
qed

lemma Min_Un_low:
  assumes "finite A" "A \<noteq> {}" "finite B" "\<forall>b\<in>B. \<forall>a\<in>A. a \<le> (b :: nat)"
  shows "Min (A \<union> B) = Min A"
proof (rule Min_eqI)
  show "finite (A \<union> B)" using assms by simp
  show "Min A \<in> A \<union> B" using Min_in [OF assms(1,2)] by simp
  show "Min A \<le> y" if "y \<in> A \<union> B" for y
    using that assms(1,4) Min_in [OF assms(1,2)] by (blast intro: Min_le)
qed

lemma finite_lines [simp]: "finite (lines_of first w)"
  by (rule finite_subset [of _ "(\<lambda>k. first + k) ` {..<32}"]) (auto simp: lines_of_def)

lemma lines_of_range: "x \<in> lines_of first w \<Longrightarrow> first \<le> x \<and> x < first + 32"
  by (auto simp: lines_of_def)

lemma next_pending_run:
  assumes "intc_hw io en pend"
  shows "run_state (pending_irq io) d =
    (if pending_lines (pend d) = {} then None else Some (of_nat (Min (pending_lines (pend d)))), d)"
proof -
  obtain a b c where p: "pend d = (a, b, c)" by (cases "pend d")
  have r: "bus_read io irq_1_pend d = (a, d)" "bus_read io irq_2_pend d = (b, d)" "bus_read io irq_basic_pend d = (c, d)"
    using assms p by (simp_all add: intc_hw_def)
  have e: "lines_of first 0 = {}" for first by (simp add: lines_of_empty)
  consider (A) "a \<noteq> 0" | (B) "a = 0" "b \<noteq> 0" | (C) "a = 0" "b = 0" "c \<noteq> 0" | (N) "a = 0" "b = 0" "c = 0" by blast
  then show ?thesis
  proof cases
    case A
    then have "Min (lines_of 0 a \<union> (lines_of 32 b \<union> lines_of 64 c)) = Min (lines_of 0 a)"
      by (intro Min_Un_low) (auto simp: lines_of_empty dest!: lines_of_range)
    then show ?thesis using A r p
      by (simp add: pending_irq_def run_load pending_lines_def lines_of_empty Min_lines Un_assoc)
  next
    case B
    then have "Min (lines_of 32 b \<union> lines_of 64 c) = Min (lines_of 32 b)"
      by (intro Min_Un_low) (auto simp: lines_of_empty dest!: lines_of_range)
    then show ?thesis using B r p
      by (simp add: pending_irq_def run_load pending_lines_def e lines_of_empty Min_lines)
  next
    case C
    then show ?thesis using r p
      by (simp add: pending_irq_def run_load pending_lines_def e lines_of_empty Min_lines)
  next
    case N
    then show ?thesis using r p by (simp add: pending_irq_def run_load pending_lines_def e)
  qed
qed

text \<open>
  The discipline of dispatch on any architecture: the handler runs with its line masked and
  interrupts on, and afterwards the line is enabled again and interrupts are off.
\<close>

abbreviation bcm_controller :: "(u32, 'd) bus \<Rightarrow> ('d, interrupt_error) interrupt_controller" where
  "bcm_controller io \<equiv> dyn_interrupt_controller bcm_intc_into (bcm_intc io)"

lemma bcm_intc_run:
  assumes "irq < 80"
  shows "run_state (ic_enable (bcm_intc io) irq) d = (Ok (), snd (run_state (enable_irq io irq) d))"
    "run_state (ic_disable (bcm_intc io) irq) d = (Ok (), snd (run_state (disable_irq io irq) d))"
proof -
  have "validate_irq irq = Ok ()" using assms by (simp add: validate_irq_def not_le)
  then show "run_state (ic_enable (bcm_intc io) irq) d = (Ok (), snd (run_state (enable_irq io irq) d))"
    "run_state (ic_disable (bcm_intc io) irq) d = (Ok (), snd (run_state (disable_irq io irq) d))"
    by (simp_all add: bcm_intc_def run_io_bind run_of_result run_ok split: prod.split)
qed

lemma bcm_controller_run:
  assumes "irq < 80"
  shows "run_state (ic_enable (bcm_controller io) irq) d = (Ok (), snd (run_state (enable_irq io irq) d))"
    "run_state (ic_disable (bcm_controller io) irq) d = (Ok (), snd (run_state (disable_irq io irq) d))"
  by (simp_all add: dyn_interrupt_controller_def run_io_map_err bcm_intc_run [OF assms])

text \<open>The world in which the handler runs: the line masked and interrupts on.\<close>

definition handler_world :: "('c \<Rightarrow> 'c) \<Rightarrow> (u32, 'd) bus \<Rightarrow> u32 \<Rightarrow> ('c, 'd) irq_world \<Rightarrow> ('c, 'd) irq_world" where
  "handler_world irq_on io irq w = w\<lparr>iw_dev := snd (run_state (disable_irq io irq) (iw_dev w)), iw_cpu := irq_on (iw_cpu w)\<rparr>"

context irq_control
begin

lemma handler_world_masked:
  assumes "intc_hw io en pend" "irq < 80"
  shows "en (iw_dev (handler_world enable io irq w)) = en (iw_dev w) - {unat irq}"
    "irqs_on (iw_cpu (handler_world enable io irq w))"
  using line_enable(2) [OF assms] enable_on by (simp_all add: handler_world_def)

lemma dispatch_discipline:
  assumes hw: "intc_hw io en pend" and irq: "irq < 80" "length tbl = MAX_IRQS"
  shows "case run_state (run_handler boot lg irq (tbl ! unat irq)) (handler_world enable io irq w) of (r, w2) \<Rightarrow>
     (if r = Ok () then
        \<exists>w3. run_state (dispatch_irq enable disable boot lg (Some (bcm_controller io)) tbl irq) w = (Ok (), w3) \<and>
          en (iw_dev w3) = insert (unat irq) (en (iw_dev w2)) \<and> \<not> irqs_on (iw_cpu w3)
      else run_state (dispatch_irq enable disable boot lg (Some (bcm_controller io)) tbl irq) w = (r, w2))"
proof -
  obtain r w2 where h: "run_state (run_handler boot lg irq (tbl ! unat irq)) (handler_world enable io irq w) = (r, w2)" by fastforce
  have i: "unat irq < length tbl" using irq by (simp add: MAX_IRQS_def word_less_nat_alt)
  let ?w3 = "w2\<lparr>iw_cpu := disable (iw_cpu w2), iw_dev := snd (run_state (enable_irq io irq) (iw_dev w2))\<rparr>"
  have run: "run_state (dispatch_irq enable disable boot lg (Some (bcm_controller io)) tbl irq) w =
      (if r = Ok () then (Ok (), ?w3) else (r, w2))"
    using i h unfolding handler_world_def
    by (cases r) (simp_all add: dispatch_irq_def run_io_bind run_expect_some run_ignore run_on_devices bcm_controller_run [OF irq(1)]
        run_on_cpu run_of_result get_handler_def)
  then show ?thesis using h line_enable(1) [OF hw irq(1)] disable_off by simp
qed

end

section \<open>Properties\<close>

text \<open>
  C30. Dispatching an interrupt of the BCM2835 on ARM.  What runs for the line, the registered handler
  or else the log message \<^verbatim>\<open>Unhandled IRQ\<close>, runs with that line masked, every other line as before, and
  interrupts on, so that it can be nested but not re-entered.  When it returns, dispatch returns with
  the line enabled again and interrupts off; when it panics or does not return, neither does dispatch
  and the line stays masked.  A line without a handler that fires after the logger is registered and
  before its runtime sinks are attached makes dispatch panic.
\<close>

theorem irq_dispatch_discipline:
  assumes "intc_hw io en pend" "irq < 80" "length tbl = MAX_IRQS"
  shows "\<exists>w1. en (iw_dev w1) = en (iw_dev w) - {unat irq} \<and> arm_irqs_on (iw_cpu w1) \<and>
    (case run_state (run_handler arm_boot_sink lg irq (tbl ! unat irq)) w1 of (r, w2) \<Rightarrow>
       if r = Ok () then
         \<exists>w3. run_state (dispatch_irq arm_enable arm_disable arm_boot_sink lg (Some (bcm_controller io)) tbl irq) w = (Ok (), w3) \<and>
           en (iw_dev w3) = insert (unat irq) (en (iw_dev w2)) \<and> \<not> arm_irqs_on (iw_cpu w3)
       else run_state (dispatch_irq arm_enable arm_disable arm_boot_sink lg (Some (bcm_controller io)) tbl irq) w = (r, w2)) \<and>
    (tbl ! unat irq = None \<longrightarrow> logger_init FilterInfo LOGGER = Ok lg \<longrightarrow>
       run_state (dispatch_irq arm_enable arm_disable arm_boot_sink lg (Some (bcm_controller io)) tbl irq) w = (Panic, w1))"
proof -
  let ?w1 = "handler_world arm_enable io irq w"
  note d = arm_irq.dispatch_discipline [OF assms, of arm_boot_sink lg w]
  have "run_state (dispatch_irq arm_enable arm_disable arm_boot_sink lg (Some (bcm_controller io)) tbl irq) w = (Panic, ?w1)"
    if none: "tbl ! unat irq = None" and lg: "logger_init FilterInfo LOGGER = Ok lg"
  proof -
    have "lg_registered lg" "lg_global_level lg = FilterInfo" "lg_mode lg = Boot" "log_enabled lg LevelInfo"
      using lg by (auto simp: logger_init_def LOGGER_def log_enabled_def level_from_u8_def)
    then have "run_state (run_handler arm_boot_sink lg irq (tbl ! unat irq)) ?w1 = (Panic, ?w1)"
      using none by (simp add: run_handler_def log_info_def arm_boot_log_panics)
    then show ?thesis using d by simp
  qed
  then show ?thesis using d arm_irq.handler_world_masked [OF assms(1,2), of w] by (intro exI [of _ ?w1]) simp
qed

text \<open>
  C29. The interrupt controller: enabling or disabling a line below 80 affects exactly that line, any
  other number is refused without touching a register, and the next pending interrupt is the line
  with the lowest number, none exactly when no line is pending.
\<close>

theorem intc_lines_exact:
  assumes "intc_hw io en pend"
  shows "(irq < 80 \<longrightarrow>
      (\<exists>d'. run_state (ic_enable (bcm_intc io) irq) d = (Ok (), d') \<and> en d' = insert (unat irq) (en d)) \<and>
      (\<exists>d'. run_state (ic_disable (bcm_intc io) irq) d = (Ok (), d') \<and> en d' = en d - {unat irq})) \<and>
    (\<not> irq < 80 \<longrightarrow> run_state (ic_enable (bcm_intc io) irq) d = (Err BcmInvalidIrq, d) \<and>
      run_state (ic_disable (bcm_intc io) irq) d = (Err BcmInvalidIrq, d)) \<and>
    run_state (ic_next_pending (bcm_intc io)) d =
      (if pending_lines (pend d) = {} then None else Some (of_nat (Min (pending_lines (pend d)))), d)"
proof (intro conjI impI)
  assume i: "irq < 80"
  show "\<exists>d'. run_state (ic_enable (bcm_intc io) irq) d = (Ok (), d') \<and> en d' = insert (unat irq) (en d)"
    using bcm_intc_run(1) [OF i, of io d] line_enable(1) [OF assms i, of d] by blast
  show "\<exists>d'. run_state (ic_disable (bcm_intc io) irq) d = (Ok (), d') \<and> en d' = en d - {unat irq}"
    using bcm_intc_run(2) [OF i, of io d] line_enable(2) [OF assms i, of d] by blast
next
  assume "\<not> irq < 80"
  then have "validate_irq irq = Err BcmInvalidIrq" by (simp add: validate_irq_def not_less)
  then show "run_state (ic_enable (bcm_intc io) irq) d = (Err BcmInvalidIrq, d)"
    "run_state (ic_disable (bcm_intc io) irq) d = (Err BcmInvalidIrq, d)"
    by (simp_all add: bcm_intc_def run_io_bind run_of_result)
next
  show "run_state (ic_next_pending (bcm_intc io)) d =
      (if pending_lines (pend d) = {} then None else Some (of_nat (Min (pending_lines (pend d)))), d)"
    using next_pending_run [OF assms] by (simp add: bcm_intc_def)
qed

text \<open>A controller for concrete runs: the enabled lines and the pending registers.\<close>

definition demo_intc :: "(u32, nat set \<times> (u32 \<times> u32 \<times> u32)) bus" where
  "demo_intc =
     \<lparr>bus_read = (\<lambda>a (en, p). (if a = irq_1_pend then fst p else if a = irq_2_pend then fst (snd p) else snd (snd p), en, p)),
      bus_write = (\<lambda>a v (en, p).
        (if a = enable_irqs_1 then en \<union> lines_of 0 v else if a = enable_irqs_2 then en \<union> lines_of 32 v
         else if a = enable_basic_irqs then en \<union> lines_of 64 v else if a = disable_irqs_1 then en - lines_of 0 v
         else if a = disable_irqs_2 then en - lines_of 32 v else en - lines_of 64 v, p))\<rparr>"

lemma demo_intc_hw: "intc_hw demo_intc fst snd"
  by (simp add: intc_hw_def demo_intc_def intc_registers split_beta)

text \<open>A handler that panics unless its line is masked and interrupts are on; it counts its runs.\<close>

definition strict_handler :: "nat \<Rightarrow> (u32, nat set \<times> (u32 \<times> u32 \<times> u32)) irq_handler" where
  "strict_handler line = State (\<lambda>w.
     case iw_dev w of (en, (a, b, c)) \<Rightarrow>
       if line \<in> en \<or> \<not> arm_irqs_on (iw_cpu w) then (Panic, w) else (Ok (), w\<lparr>iw_dev := (en, (a + 1, b, c))\<rparr>))"

definition demo_irq_world :: "(u32, nat set \<times> (u32 \<times> u32 \<times> u32)) irq_world" where
  "demo_irq_world = \<lparr>iw_cpu = 0x80, iw_dev = ({1, 57}, (0, 0, 0))\<rparr>"

theorem irq_dispatch_discipline_witness:
  "\<exists>tbl w3. register_handler irq_handlers_init 57 (strict_handler 57) = Ok tbl \<and>
    run_state (dispatch_irq arm_enable arm_disable arm_boot_sink LOGGER (Some (bcm_controller demo_intc)) tbl 57)
      demo_irq_world = (Ok (), w3) \<and>
    fst (iw_dev w3) = {1, 57} \<and> \<not> arm_irqs_on (iw_cpu w3)"
proof -
  let ?tbl = "irq_handlers_init[57 := Some (strict_handler 57)]" and ?w = demo_irq_world
  have n: "?tbl ! unat (57 :: u32) = Some (strict_handler 57)" "length ?tbl = MAX_IRQS" "(57 :: u32) < 80"
    "register_handler irq_handlers_init 57 (strict_handler 57) = Ok ?tbl"
    by (simp_all add: irq_handlers_init_def MAX_IRQS_def register_handler_def)
  have e: "run_handler arm_boot_sink LOGGER 57 (?tbl ! unat (57 :: u32)) = strict_handler 57" by (simp only: n(1) run_handler_def option.case)
  have h: "\<exists>w2. run_state (strict_handler 57) w1 = (Ok (), w2) \<and> fst (iw_dev w2) = fst (iw_dev w1)"
    if "fst (iw_dev w1) = fst (iw_dev ?w) - {unat (57 :: u32)}" "arm_irqs_on (iw_cpu w1)" for w1
    using that by (cases "iw_dev w1") (auto simp: strict_handler_def demo_irq_world_def split: prod.splits)
  from irq_dispatch_discipline [OF demo_intc_hw n(3,2), of ?w LOGGER, unfolded e]
  obtain w1 where w1: "fst (iw_dev w1) = fst (iw_dev ?w) - {unat (57 :: u32)}" "arm_irqs_on (iw_cpu w1)"
    and r: "case run_state (strict_handler 57) w1 of (r, w2) \<Rightarrow>
       if r = Ok () then
         \<exists>w3. run_state (dispatch_irq arm_enable arm_disable arm_boot_sink LOGGER (Some (bcm_controller demo_intc)) ?tbl 57) ?w = (Ok (), w3) \<and>
           fst (iw_dev w3) = insert (unat (57 :: u32)) (fst (iw_dev w2)) \<and> \<not> arm_irqs_on (iw_cpu w3)
       else run_state (dispatch_irq arm_enable arm_disable arm_boot_sink LOGGER (Some (bcm_controller demo_intc)) ?tbl 57) ?w = (r, w2)"
    by (elim exE conjE) (rule that; assumption)
  obtain w2 where w2: "run_state (strict_handler 57) w1 = (Ok (), w2)" "fst (iw_dev w2) = fst (iw_dev w1)" using h [OF w1] by blast
  obtain w3 where w3: "run_state (dispatch_irq arm_enable arm_disable arm_boot_sink LOGGER (Some (bcm_controller demo_intc)) ?tbl 57) ?w = (Ok (), w3)"
    "fst (iw_dev w3) = insert (unat (57 :: u32)) (fst (iw_dev w2))" "\<not> arm_irqs_on (iw_cpu w3)"
    using r unfolding w2(1) prod.case if_P [OF refl] by blast
  have "fst (iw_dev w3) = {1, 57}" unfolding w3(2) w2(2) w1(1) by (auto simp: demo_irq_world_def)
  then show ?thesis using w3(1,3) n(4) by blast
qed

theorem intc_lines_exact_witness:
  "(\<exists>d'. run_state (ic_enable (bcm_intc demo_intc) 57) ({}, (0, 4, 1)) = (Ok (), d') \<and> fst d' = {57}) \<and>
   run_state (ic_enable (bcm_intc demo_intc) 80) ({}, (0, 4, 1)) = (Err BcmInvalidIrq, ({}, (0, 4, 1)))"
  using intc_lines_exact [OF demo_intc_hw, of 57 "({}, (0, 4, 1))"] intc_lines_exact [OF demo_intc_hw, of 80 "({}, (0, 4, 1))"]
  by auto

end
