(* ===== verification/X86_Mmu.thy ===== *)
theory X86_Mmu
  imports Prelude
begin

text \<open>
  Paging: the mapping flags and interface of \<^verbatim>\<open>kernel/src/mm/mmu.rs\<close> and the two-level page tables of the
  PC (\<^verbatim>\<open>kernel/src/arch/x86/mmu.rs\<close>).  The state is the memory with the tables in it, the control
  registers, the pages whose translation the CPU may hold in its TLB, and the number of frames
  taken from the static pool, whose address \<open>pool\<close> the linker chooses.
\<close>

section \<open>Mapping flags\<close>

definition MAP_READ :: u32 where "MAP_READ = 1"
definition MAP_WRITE :: u32 where "MAP_WRITE = 2"
definition MAP_EXEC :: u32 where "MAP_EXEC = 4"
definition MAP_USER :: u32 where "MAP_USER = 8"
definition MAP_DEVICE :: u32 where "MAP_DEVICE = 16"
definition MAP_CACHED :: u32 where "MAP_CACHED = 32"

text \<open>\<^verbatim>\<open>flags.contains(f)\<close>.\<close>

definition map_contains :: "u32 \<Rightarrow> u32 \<Rightarrow> bool" where
  "map_contains flags f \<longleftrightarrow> flags AND f = f"

record 's mmu_ops =
  mmu_init :: "u32 \<Rightarrow> 's \<Rightarrow> 's call"
  mmu_map_region :: "u32 \<Rightarrow> u32 \<Rightarrow> u32 \<Rightarrow> u32 \<Rightarrow> 's \<Rightarrow> 's call"
  mmu_unmap_region :: "u32 \<Rightarrow> u32 \<Rightarrow> 's \<Rightarrow> 's call"
  mmu_invalidate_tlb_entry :: "u32 \<Rightarrow> 's \<Rightarrow> 's"
  mmu_invalidate_tlb_all :: "'s \<Rightarrow> 's"

section \<open>Tables and indices\<close>

definition PT_ENTRIES :: nat where "PT_ENTRIES = 1024"
definition X86_PAGE_SIZE :: u32 where "X86_PAGE_SIZE = 4096"
definition PT_POOL_COUNT :: u32 where "PT_POOL_COUNT = 64"

definition X86_PRESENT :: u32 where "X86_PRESENT = 1"
definition X86_WRITABLE :: u32 where "X86_WRITABLE = 2"
definition X86_USER :: u32 where "X86_USER = 4"
definition X86_PWT :: u32 where "X86_PWT = 8"
definition X86_PCD :: u32 where "X86_PCD = 16"
definition X86_PS :: u32 where "X86_PS = 128"
definition PHYS_ADDR_MASK :: u32 where "PHYS_ADDR_MASK = 0xFFFFF000"

record x86_state =
  xm_mem :: memory
  xm_cr0 :: u32
  xm_cr3 :: u32
  xm_cr4 :: u32
  xm_tlb :: "u32 set"
  pt_pool_next :: u32

definition alloc_pt_frame :: "u32 \<Rightarrow> x86_state \<Rightarrow> (u32 \<times> x86_state) call" where
  "alloc_pt_frame pool s =
     (let idx = pt_pool_next s; s = s\<lparr>pt_pool_next := idx + 1\<rparr> in
      if idx < PT_POOL_COUNT then Ok (pool + idx * 4096, s) else Panic)"

definition pd_index :: "u32 \<Rightarrow> u32" where
  "pd_index va = drop_bit 22 va AND 0x3FF"

definition pt_index :: "u32 \<Rightarrow> u32" where
  "pt_index va = drop_bit 12 va AND 0x3FF"

definition page_offset :: "u32 \<Rightarrow> u32" where
  "page_offset va = va AND 0xFFF"

definition map_flags_to_x86 :: "u32 \<Rightarrow> u32" where
  "map_flags_to_x86 flags =
     (let bits = X86_PRESENT;
          bits = (if map_contains flags MAP_WRITE then bits OR X86_WRITABLE else bits);
          bits = (if map_contains flags MAP_USER then bits OR X86_USER else bits) in
      if map_contains flags MAP_DEVICE then bits OR (X86_PCD OR X86_PWT) else bits)"

text \<open>Control registers and the TLB.  A write to \<^verbatim>\<open>cr3\<close> flushes all of it.\<close>

definition write_cr3 :: "u32 \<Rightarrow> x86_state \<Rightarrow> x86_state" where
  "write_cr3 pd_phys s = s\<lparr>xm_cr3 := pd_phys, xm_tlb := {}\<rparr>"

definition read_cr3 :: "x86_state \<Rightarrow> u32" where
  "read_cr3 s = xm_cr3 s"

definition enable_paging :: "x86_state \<Rightarrow> x86_state" where
  "enable_paging s = s\<lparr>xm_cr0 := xm_cr0 s OR 0x80000000\<rparr>"

definition invlpg :: "u32 \<Rightarrow> x86_state \<Rightarrow> x86_state" where
  "invlpg va s = s\<lparr>xm_tlb := xm_tlb s - {va AND NOT 0xFFF}\<rparr>"

definition poke :: "u32 \<Rightarrow> u32 \<Rightarrow> x86_state \<Rightarrow> x86_state" where
  "poke a v s = s\<lparr>xm_mem := write_u32 (xm_mem s) a v\<rparr>"

section \<open>Operations\<close>

definition x86_init :: "u32 \<Rightarrow> x86_state \<Rightarrow> x86_state call" where
  "x86_init l1_phys s =
     (let s = s\<lparr>xm_cr4 := xm_cr4 s OR 0x10\<rparr>;
          s = poke l1_phys (0 OR X86_PS OR X86_WRITABLE OR X86_PRESENT) s;
          s = poke (l1_phys + 4) (0x00400000 OR X86_PS OR X86_WRITABLE OR X86_PRESENT) s in
      Ok (enable_paging (write_cr3 l1_phys s)))"

definition map_page :: "u32 \<Rightarrow> u32 \<Rightarrow> u32 \<Rightarrow> u32 \<Rightarrow> x86_state \<Rightarrow> x86_state call" where
  "map_page pool pte_bits va pa s =
     (let pd = read_cr3 s AND PHYS_ADDR_MASK;
          pdi = pd_index va;
          pti = pt_index va;
          pde = read_u32 (xm_mem s) (pd + pdi * 4) in
      obind
        (if pde AND X86_PRESENT \<noteq> 0 then Ok (pde AND PHYS_ADDR_MASK, s)
         else
           obind (alloc_pt_frame pool s) (\<lambda>(pt_frame, s).
             Ok (pt_frame, poke (pd + pdi * 4) (pt_frame OR X86_WRITABLE OR X86_USER OR X86_PRESENT) s)))
        (\<lambda>(pt, s).
           Ok (invlpg va (poke (pt + pti * 4) ((pa AND PHYS_ADDR_MASK) OR pte_bits) s))))"

fun for_pages :: "(u32 \<Rightarrow> 's \<Rightarrow> 's call) \<Rightarrow> u32 list \<Rightarrow> 's \<Rightarrow> 's call" where
  "for_pages f [] s = Ok s"
| "for_pages f (i # is) s = obind (f i s) (for_pages f is)"

definition page_count :: "u32 \<Rightarrow> u32 \<Rightarrow> u32" where
  "page_count virt len = (len + page_offset virt + X86_PAGE_SIZE - 1) div X86_PAGE_SIZE"

definition x86_map_region :: "u32 \<Rightarrow> u32 \<Rightarrow> u32 \<Rightarrow> u32 \<Rightarrow> u32 \<Rightarrow> x86_state \<Rightarrow> x86_state call" where
  "x86_map_region pool virt phys len flags s =
     (let pte_bits = map_flags_to_x86 flags;
          virt_start = virt AND NOT 0xFFF;
          phys_start = phys AND NOT 0xFFF in
      for_pages (\<lambda>i. map_page pool pte_bits (virt_start + i * X86_PAGE_SIZE) (phys_start + i * X86_PAGE_SIZE))
        (map of_nat [0..<unat (page_count virt len)]) s)"

definition unmap_page :: "u32 \<Rightarrow> x86_state \<Rightarrow> x86_state call" where
  "unmap_page va s =
     (let pd = read_cr3 s AND PHYS_ADDR_MASK;
          pdi = pd_index va;
          pti = pt_index va;
          pde = read_u32 (xm_mem s) (pd + pdi * 4) in
      if pde AND X86_PRESENT = 0 then Ok s
      else if pde AND X86_PS \<noteq> 0 then Ok (invlpg va (poke (pd + pdi * 4) 0 s))
      else Ok (invlpg va (poke ((pde AND PHYS_ADDR_MASK) + pti * 4) 0 s)))"

definition x86_unmap_region :: "u32 \<Rightarrow> u32 \<Rightarrow> x86_state \<Rightarrow> x86_state call" where
  "x86_unmap_region virt len s =
     (let virt_start = virt AND NOT 0xFFF in
      for_pages (\<lambda>i. unmap_page (virt_start + i * X86_PAGE_SIZE)) (map of_nat [0..<unat (page_count virt len)]) s)"

definition x86_invalidate_tlb_entry :: "u32 \<Rightarrow> x86_state \<Rightarrow> x86_state" where
  "x86_invalidate_tlb_entry va s = invlpg va s"

definition x86_invalidate_tlb_all :: "x86_state \<Rightarrow> x86_state" where
  "x86_invalidate_tlb_all s = write_cr3 (read_cr3 s) s"

definition x86_mmu :: "u32 \<Rightarrow> x86_state mmu_ops" where
  "x86_mmu pool =
     \<lparr>mmu_init = x86_init, mmu_map_region = x86_map_region pool, mmu_unmap_region = x86_unmap_region,
      mmu_invalidate_tlb_entry = x86_invalidate_tlb_entry, mmu_invalidate_tlb_all = x86_invalidate_tlb_all\<rparr>"

section \<open>What the CPU does with the tables\<close>

text \<open>
  Translation of a virtual address as the processor manual defines it for two-level paging with
  4 MB pages: the physical address, and the flags of the entry that maps it with the rights that
  are in force.  An access to a 4 KB page is a write or a user access only if both levels allow it,
  so the R/W and U/S bits are those of the table entry and of the directory entry together.
\<close>

definition x86_walk :: "memory \<Rightarrow> u32 \<Rightarrow> u32 \<Rightarrow> (u32 \<times> u32) option" where
  "x86_walk m cr3 va =
     (let pde = read_u32 m ((cr3 AND PHYS_ADDR_MASK) + pd_index va * 4) in
      if pde AND X86_PRESENT = 0 then None
      else if pde AND X86_PS \<noteq> 0 then Some ((pde AND 0xFFC00000) OR (va AND 0x3FFFFF), pde AND 0xFFF)
      else
        let pte = read_u32 m ((pde AND PHYS_ADDR_MASK) + pt_index va * 4) in
        if pte AND X86_PRESENT = 0 then None
        else Some ((pte AND PHYS_ADDR_MASK) OR page_offset va,
                   (pte AND 0xFFF) AND (pde OR NOT (X86_WRITABLE OR X86_USER))))"

end
