(* ===== verification/X86_Mmu_Properties.thy ===== *)
theory X86_Mmu_Properties
  imports X86_Mmu
begin

text \<open>
  Correctness of the two-level page tables: mapping a region changes the translation of exactly the
  pages of the region, unmapping it removes them, and both keep the tables well formed.
\<close>

section \<open>Indices and entries\<close>

lemma mask_12: "(0xFFF :: u32) = mask 12" "(0xFFFFF000 :: u32) = NOT (mask 12)" "(0x3FF :: u32) = mask 10"
  by (simp_all add: mask_eq_exp_minus_1)

lemma unat_pd_index: "unat (pd_index va) = unat va div 2 ^ 22"
proof -
  have "unat va div 2 ^ 22 < 2 ^ 10" using unat_less [of va] by (simp add: less_mult_imp_div_less)
  then show ?thesis by (simp only: pd_index_def mask_12 unat_and_mask unat_drop_bit mod_less)
qed

lemma unat_pt_index: "unat (pt_index va) = unat va div 2 ^ 12 mod 2 ^ 10"
  by (simp only: pt_index_def mask_12 unat_and_mask unat_drop_bit)

lemma unat_page_offset: "unat (page_offset va) = unat va mod 2 ^ 12"
  by (simp only: page_offset_def mask_12 unat_and_mask)

lemma unat_page: "unat (va AND PHYS_ADDR_MASK) = unat va div 2 ^ 12 * 2 ^ 12"
  by (simp only: PHYS_ADDR_MASK_def mask_12 unat_and_not_mask)

lemma index_small [simp]: "pd_index va < 1024" "pt_index va < 1024"
proof -
  have "unat va div 2 ^ 22 < 2 ^ 10" using unat_less [of va] by (simp add: less_mult_imp_div_less)
  then show "pd_index va < 1024" "pt_index va < 1024" by (simp_all add: word_less_nat_alt unat_pd_index unat_pt_index)
qed

lemma same_page: "va AND PHYS_ADDR_MASK = va' AND PHYS_ADDR_MASK \<longleftrightarrow> pd_index va = pd_index va' \<and> pt_index va = pt_index va'"
proof -
  have "x div 2 ^ 12 = x div 2 ^ 22 * 2 ^ 10 + x div 2 ^ 12 mod 2 ^ 10" for x :: nat
  proof -
    have "x div 2 ^ 22 = x div 2 ^ 12 div 2 ^ 10" by (simp add: div_mult2_eq)
    then show ?thesis by (simp only: div_mult_mod_eq)
  qed
  moreover have "x div 2 ^ 22 = x div 2 ^ 12 div 2 ^ 10" for x :: nat by (simp add: div_mult2_eq)
  ultimately have "unat va div 2 ^ 12 = unat va' div 2 ^ 12 \<longleftrightarrow>
      unat va div 2 ^ 22 = unat va' div 2 ^ 22 \<and> unat va div 2 ^ 12 mod 2 ^ 10 = unat va' div 2 ^ 12 mod 2 ^ 10"
    by metis
  then show ?thesis
    by (simp only: word_unat_eq_iff unat_page unat_pd_index unat_pt_index) simp
qed

text \<open>Frames are 4 KB aligned; the entries of distinct frames or indices do not overlap.\<close>

definition frame :: "u32 \<Rightarrow> bool" where
  "frame f \<longleftrightarrow> 2 ^ 12 dvd unat f"

definition ent :: "x86_state \<Rightarrow> u32 \<Rightarrow> u32 \<Rightarrow> u32" where
  "ent s f i = read_u32 (xm_mem s) (f + i * 4)"

lemma frame_page [simp]: "frame (a AND PHYS_ADDR_MASK)"
  by (simp add: frame_def unat_page)

lemma unat_slot:
  assumes "frame f" "i < 1024"
  shows "unat (f + i * 4) = unat f + 4 * unat i"
proof -
  have i: "unat i < 1024" using assms(2) by (simp add: word_less_nat_alt)
  obtain k where k: "unat f = 2 ^ 12 * k" using assms(1) by (auto simp: frame_def)
  then have "k < 2 ^ 20" using unat_less [of f] by simp
  then have "unat f + 4 * unat i < 2 ^ 32" using k i by simp
  moreover have "unat (i * 4) = 4 * unat i" using i by (simp add: unat_word_ariths)
  ultimately show ?thesis by (simp add: unat_add_small)
qed

lemma slots_disjoint:
  assumes "frame f" "frame g" "i < 1024" "j < 1024" "(f, i) \<noteq> (g, j)"
  shows "cells (f + i * 4) \<inter> cells (g + j * 4) = {}"
proof -
  have i: "unat i < 1024" "unat j < 1024" using assms(3,4) by (simp_all add: word_less_nat_alt)
  obtain k where kf: "unat f = 2 ^ 12 * k" using assms(1) by (auto simp: frame_def)
  obtain l where kg: "unat g = 2 ^ 12 * l" using assms(2) by (auto simp: frame_def)
  note k = kf kg
  have fit: "unat f + 4 * unat i + 4 \<le> 2 ^ 32" "unat g + 4 * unat j + 4 \<le> 2 ^ 32"
    using k i unat_less [of f] unat_less [of g] by simp_all
  have ne: "1024 * k + unat i \<noteq> 1024 * l + unat j"
  proof
    assume e: "1024 * k + unat i = 1024 * l + unat j"
    then have "(1024 * k + unat i) div 1024 = (1024 * l + unat j) div 1024" by simp
    then have "k = l" using i by simp
    then show False using e k assms(5) by (simp add: word_unat_eq_iff)
  qed
  have "cells (f + i * 4) \<subseteq> span (unat f + 4 * unat i) 4" "cells (g + j * 4) \<subseteq> span (unat g + 4 * unat j) 4"
    using cells_span [of 4 "f + i * 4"] cells_span [of 4 "g + j * 4"] fit assms(1-4) by (simp_all add: unat_slot)
  moreover have "span (unat f + 4 * unat i) 4 \<inter> span (unat g + 4 * unat j) 4 = {}"
  proof (rule span_disjoint)
    consider "1024 * k + unat i + 1 \<le> 1024 * l + unat j" | "1024 * l + unat j + 1 \<le> 1024 * k + unat i" using ne by linarith
    then show "unat f + 4 * unat i + 4 \<le> unat g + 4 * unat j \<or> unat g + 4 * unat j + 4 \<le> unat f + 4 * unat i"
      using k by cases simp_all
  qed
  ultimately show ?thesis by blast
qed

lemma ent_poke:
  assumes "frame f" "frame g" "i < 1024" "j < 1024"
  shows "ent (poke (f + i * 4) v s) g j = (if g = f \<and> j = i then v else ent s g j)"
  using slots_disjoint [OF assms(1,2,3,4)] by (auto simp: ent_def poke_def read_write_u32_same read_write_u32_other)

lemma ent_invlpg [simp]: "ent (invlpg va s) = ent s"
  by (simp add: ent_def invlpg_def fun_eq_iff)

section \<open>Entries\<close>

lemma mask_split: "bits AND PHYS_ADDR_MASK = 0 \<Longrightarrow> ((a AND PHYS_ADDR_MASK) OR bits) AND PHYS_ADDR_MASK = a AND PHYS_ADDR_MASK"
  by (simp add: bit.conj_disj_distrib2 and.assoc)

lemma frame_masked: "frame f \<Longrightarrow> f AND PHYS_ADDR_MASK = f"
  by (auto simp: frame_def word_unat_eq_iff unat_page)

lemma map_flags_cases:
  "map_flags_to_x86 flags \<in> {1, 3, 5, 7, 25, 27, 29, 31}"
  by (simp add: map_flags_to_x86_def Let_def X86_PRESENT_def X86_WRITABLE_def X86_USER_def X86_PCD_def X86_PWT_def)

lemma map_flags_bits:
  "map_flags_to_x86 flags AND PHYS_ADDR_MASK = 0" "map_flags_to_x86 flags AND X86_PRESENT \<noteq> 0"
  "map_flags_to_x86 flags AND 0xFFF = map_flags_to_x86 flags"
  using map_flags_cases [of flags] by (auto simp: PHYS_ADDR_MASK_def X86_PRESENT_def)

lemma or_low_bits:
  "frame f \<Longrightarrow> (f OR X86_WRITABLE OR X86_USER OR X86_PRESENT) AND PHYS_ADDR_MASK = f"
  "frame f \<Longrightarrow> (f OR X86_WRITABLE OR X86_USER OR X86_PRESENT) AND X86_PRESENT \<noteq> 0"
  "frame f \<Longrightarrow> (f OR X86_WRITABLE OR X86_USER OR X86_PRESENT) AND X86_PS = 0"
  "(f OR X86_WRITABLE OR X86_USER OR X86_PRESENT) AND (X86_WRITABLE OR X86_USER) = X86_WRITABLE OR X86_USER"
proof -
  assume f: "frame f"
  have f0: "f AND 0xFFF = 0" using f by (simp only: mask_12 and_mask_eq_0_iff frame_def)
  have "(f OR 7) AND PHYS_ADDR_MASK = f"
    using mask_split [of 7 f] frame_masked [OF f] by (simp add: PHYS_ADDR_MASK_def)
  then show "(f OR X86_WRITABLE OR X86_USER OR X86_PRESENT) AND PHYS_ADDR_MASK = f"
    by (simp add: X86_WRITABLE_def X86_USER_def X86_PRESENT_def or.assoc)
  have "f AND 1 = (f AND 0xFFF) AND 1" "f AND 128 = (f AND 0xFFF) AND 128" by (simp_all add: and.assoc)
  then have "f AND 1 = 0" "f AND 128 = 0" by (simp_all add: f0)
  then show "(f OR X86_WRITABLE OR X86_USER OR X86_PRESENT) AND X86_PRESENT \<noteq> 0"
    "(f OR X86_WRITABLE OR X86_USER OR X86_PRESENT) AND X86_PS = 0"
    by (simp_all add: X86_WRITABLE_def X86_USER_def X86_PRESENT_def X86_PS_def or.assoc bit.conj_disj_distrib2)
next
  show "(f OR X86_WRITABLE OR X86_USER OR X86_PRESENT) AND (X86_WRITABLE OR X86_USER) = X86_WRITABLE OR X86_USER"
    by (rule bit_word_eqI) (auto simp: bit_and_iff bit_or_iff)
qed

lemma pte_bits:
  assumes "bits AND PHYS_ADDR_MASK = 0" "bits AND X86_PRESENT \<noteq> 0" "bits AND 0xFFF = bits"
  shows "((a AND PHYS_ADDR_MASK) OR bits) AND X86_PRESENT \<noteq> 0" "((a AND PHYS_ADDR_MASK) OR bits) AND 0xFFF = bits"
proof -
  have z: "(a AND PHYS_ADDR_MASK) AND 0xFFF = 0" "(a AND PHYS_ADDR_MASK) AND X86_PRESENT = 0"
    by (simp_all add: PHYS_ADDR_MASK_def X86_PRESENT_def and.assoc)
  then show "((a AND PHYS_ADDR_MASK) OR bits) AND X86_PRESENT \<noteq> 0" "((a AND PHYS_ADDR_MASK) OR bits) AND 0xFFF = bits"
    using assms by (simp_all add: bit.conj_disj_distrib2)
qed

section \<open>Well-formed tables\<close>

abbreviation pd :: "x86_state \<Rightarrow> u32" where
  "pd s \<equiv> xm_cr3 s AND PHYS_ADDR_MASK"

abbreviation pde :: "x86_state \<Rightarrow> u32 \<Rightarrow> u32" where
  "pde s i \<equiv> ent s (pd s) i"

abbreviation tab :: "x86_state \<Rightarrow> u32 \<Rightarrow> u32" where
  "tab s i \<equiv> pde s i AND PHYS_ADDR_MASK"

definition present :: "u32 \<Rightarrow> bool" where
  "present e \<longleftrightarrow> e AND X86_PRESENT \<noteq> 0"

definition large :: "u32 \<Rightarrow> bool" where
  "large e \<longleftrightarrow> e AND X86_PS \<noteq> 0"

abbreviation has_table :: "x86_state \<Rightarrow> u32 \<Rightarrow> bool" where
  "has_table s i \<equiv> present (pde s i) \<and> \<not> large (pde s i)"

text \<open>
  The tables in use are distinct from each other, from the directory and from the unused frames of
  the pool, which are zero; their directory entries restrict neither writes nor user accesses, so
  that the rights of a page are those of its own entry.
\<close>

definition unrestricted :: "u32 \<Rightarrow> bool" where
  "unrestricted e \<longleftrightarrow> e AND (X86_WRITABLE OR X86_USER) = X86_WRITABLE OR X86_USER"

definition tables_ok :: "u32 \<Rightarrow> x86_state \<Rightarrow> bool" where
  "tables_ok pool s \<longleftrightarrow>
     2 ^ 12 dvd unat pool \<and> unat pool + 64 * 2 ^ 12 \<le> 2 ^ 32 \<and>
     (\<forall>i<1024. has_table s i \<longrightarrow> tab s i \<noteq> pd s \<and> (\<forall>j<1024. has_table s j \<and> tab s i = tab s j \<longrightarrow> i = j)) \<and>
     (\<forall>k<64. pt_pool_next s \<le> k \<longrightarrow> pool + k * 4096 \<noteq> pd s \<and>
        (\<forall>i<1024. has_table s i \<longrightarrow> tab s i \<noteq> pool + k * 4096) \<and> (\<forall>j<1024. ent s (pool + k * 4096) j = 0)) \<and>
     (\<forall>i<1024. has_table s i \<longrightarrow> unrestricted (pde s i))"

definition translate :: "x86_state \<Rightarrow> u32 \<Rightarrow> (u32 \<times> u32) option" where
  "translate s va = x86_walk (xm_mem s) (xm_cr3 s) va"

lemma translate_ent:
  "translate s va =
     (if \<not> present (pde s (pd_index va)) then None
      else if large (pde s (pd_index va)) then
        Some ((pde s (pd_index va) AND 0xFFC00000) OR (va AND 0x3FFFFF), pde s (pd_index va) AND 0xFFF)
      else
        let pte = ent s (tab s (pd_index va)) (pt_index va) in
        if \<not> present pte then None
        else Some ((pte AND PHYS_ADDR_MASK) OR page_offset va,
                   (pte AND 0xFFF) AND (pde s (pd_index va) OR NOT (X86_WRITABLE OR X86_USER))))"
  by (simp add: translate_def x86_walk_def ent_def present_def large_def Let_def)

definition entry_result :: "u32 \<Rightarrow> u32 \<Rightarrow> (u32 \<times> u32) option" where
  "entry_result pte va = (if present pte then Some ((pte AND PHYS_ADDR_MASK) OR page_offset va, pte AND 0xFFF) else None)"

lemma unrestricted_all: "unrestricted e \<Longrightarrow> e OR NOT (X86_WRITABLE OR X86_USER) = NOT 0"
  unfolding unrestricted_def by (rule bit_word_eqI) (auto simp: bit_or_iff bit_not_iff bit_and_iff bit_eq_iff)

lemma translate_table:
  "has_table s (pd_index va) \<Longrightarrow> unrestricted (pde s (pd_index va)) \<Longrightarrow>
    translate s va = entry_result (ent s (tab s (pd_index va)) (pt_index va)) va"
  by (simp add: translate_ent entry_result_def unrestricted_all Let_def del: bit.de_Morgan_disj)

lemma translate_none: "\<not> present (pde s (pd_index va)) \<Longrightarrow> translate s va = None"
  by (simp add: translate_ent)

lemma translate_large:
  "present (pde s (pd_index va)) \<Longrightarrow> large (pde s (pd_index va)) \<Longrightarrow>
    translate s va = Some ((pde s (pd_index va) AND 0xFFC00000) OR (va AND 0x3FFFFF), pde s (pd_index va) AND 0xFFF)"
  by (simp add: translate_ent)

lemma pool_frame:
  assumes "2 ^ 12 dvd unat pool" "unat pool + 64 * 2 ^ 12 \<le> 2 ^ 32" "k < 64"
  shows "frame (pool + k * 4096)" "unat (pool + k * 4096) = unat pool + unat k * 4096"
proof -
  have k: "unat k < 64" using assms(3) by (simp add: word_less_nat_alt)
  then have "unat (k * 4096) = unat k * 4096" by (simp add: unat_word_ariths)
  then show u: "unat (pool + k * 4096) = unat pool + unat k * 4096" using assms(2) k by (simp add: unat_add_small)
  have "2 ^ 12 dvd unat k * 4096" by simp
  then show "frame (pool + k * 4096)" unfolding frame_def u using assms(1) dvd_add by blast
qed

lemma poke_simps [simp]:
  "xm_cr3 (poke a v s) = xm_cr3 s" "pt_pool_next (poke a v s) = pt_pool_next s" "xm_tlb (poke a v s) = xm_tlb s"
  "xm_cr3 (invlpg va s) = xm_cr3 s" "pt_pool_next (invlpg va s) = pt_pool_next s"
  "ent (s\<lparr>pt_pool_next := n\<rparr>) = ent s"
  by (simp_all add: poke_def invlpg_def ent_def fun_eq_iff)

lemma tables_okD:
  assumes "tables_ok pool s"
  shows "i < 1024 \<Longrightarrow> has_table s i \<Longrightarrow> tab s i \<noteq> pd s"
    and "i < 1024 \<Longrightarrow> j < 1024 \<Longrightarrow> has_table s i \<Longrightarrow> has_table s j \<Longrightarrow> tab s i = tab s j \<Longrightarrow> i = j"
    and "k < 64 \<Longrightarrow> pt_pool_next s \<le> k \<Longrightarrow> pool + k * 4096 \<noteq> pd s"
    and "k < 64 \<Longrightarrow> pt_pool_next s \<le> k \<Longrightarrow> i < 1024 \<Longrightarrow> has_table s i \<Longrightarrow> tab s i \<noteq> pool + k * 4096"
    and "k < 64 \<Longrightarrow> pt_pool_next s \<le> k \<Longrightarrow> j < 1024 \<Longrightarrow> ent s (pool + k * 4096) j = 0"
    and "2 ^ 12 dvd unat pool" "unat pool + 64 * 2 ^ 12 \<le> 2 ^ 32"
    and "i < 1024 \<Longrightarrow> has_table s i \<Longrightarrow> unrestricted (pde s i)"
  using assms unfolding tables_ok_def by blast+

text \<open>Writing an entry of a table in use.\<close>

lemma set_pte:
  fixes v :: u32
  assumes T: "tables_ok pool s" and i: "i < 1024" "has_table s i" and j: "j < 1024"
  defines "s' \<equiv> poke (tab s i + j * 4) v s"
  shows "k < 1024 \<Longrightarrow> pde s' k = pde s k" "tables_ok pool s'"
    "translate s' va = (if pd_index va = i \<and> pt_index va = j then entry_result v va else translate s va)"
proof -
  have ne: "tab s i \<noteq> pd s" using tables_okD(1) [OF T i] .
  have e: "ent s' g k = (if g = tab s i \<and> k = j then v else ent s g k)" if "frame g" "k < 1024" for g k
    using ent_poke [of "tab s i" g j k v s] that j by (simp add: s'_def)
  have cr: "xm_cr3 s' = xm_cr3 s" "pt_pool_next s' = pt_pool_next s" by (simp_all add: s'_def)
  show p: "pde s' k = pde s k" if "k < 1024" for k using e [of "pd s" k] that ne cr by auto
  show "tables_ok pool s'"
    unfolding tables_ok_def cr
  proof (intro conjI allI impI)
    show "2 ^ 12 dvd unat pool" "unat pool + 64 * 2 ^ 12 \<le> 2 ^ 32" by (rule tables_okD [OF T])+
    fix k :: u32 assume k: "k < 64" "pt_pool_next s \<le> k"
    show "pool + k * 4096 \<noteq> pd s" by (rule tables_okD(3) [OF T k])
    fix l :: u32 assume l: "l < 1024"
    show "ent s' (pool + k * 4096) l = 0"
      using e [of "pool + k * 4096" l] pool_frame(1) [OF tables_okD(6,7) [OF T] k(1)] l tables_okD(4) [OF T k i] tables_okD(5) [OF T k l]
      by auto
    assume "present (ent s' (pd s) l) \<and> \<not> large (ent s' (pd s) l)"
    then show "ent s' (pd s) l AND PHYS_ADDR_MASK \<noteq> pool + k * 4096"
      using tables_okD(4) [OF T k l] p [OF l] cr(1) by simp
  next
    fix k assume k: "k < 1024" "present (ent s' (pd s) k) \<and> \<not> large (ent s' (pd s) k)"
    then have h: "has_table s k" using p [OF k(1)] cr by simp
    show "unrestricted (ent s' (pd s) k)" using tables_okD(8) [OF T k(1) h] p [OF k(1)] cr by simp
    show "ent s' (pd s) k AND PHYS_ADDR_MASK \<noteq> pd s" using tables_okD(1) [OF T k(1) h] p [OF k(1)] cr by simp
    fix l assume l: "l < 1024" "(present (ent s' (pd s) l) \<and> \<not> large (ent s' (pd s) l)) \<and>
        ent s' (pd s) k AND PHYS_ADDR_MASK = ent s' (pd s) l AND PHYS_ADDR_MASK"
    then show "k = l" using tables_okD(2) [OF T k(1) l(1) h] p [OF k(1)] p [OF l(1)] cr by simp
  qed
  have pv: "pde s' (pd_index va) = pde s (pd_index va)" by (rule p) simp
  consider (t) "has_table s (pd_index va)" | (n) "\<not> present (pde s (pd_index va))"
    | (l) "present (pde s (pd_index va))" "large (pde s (pd_index va))" by blast
  then show "translate s' va = (if pd_index va = i \<and> pt_index va = j then entry_result v va else translate s va)"
  proof cases
    case t
    have u: "unrestricted (pde s (pd_index va))" by (rule tables_okD(8) [OF T _ t]) simp
    have "tab s (pd_index va) = tab s i \<longleftrightarrow> pd_index va = i"
      using tables_okD(2) [OF T _ i(1) t i(2)] by auto
    then have "ent s' (tab s (pd_index va)) (pt_index va) =
        (if pd_index va = i \<and> pt_index va = j then v else ent s (tab s (pd_index va)) (pt_index va))"
      using e [of "tab s (pd_index va)" "pt_index va"] by simp
    then have "translate s' va = entry_result (if pd_index va = i \<and> pt_index va = j then v else ent s (tab s (pd_index va)) (pt_index va)) va"
      using translate_table [of s' va] t u pv cr(1) by simp
    then show ?thesis using translate_table [OF t u] by auto
  next
    case n
    then have "pd_index va \<noteq> i" using i(2) by auto
    then show ?thesis using n pv translate_none [of s va] translate_none [of s' va] by simp
  next
    case l
    then have "pd_index va \<noteq> i" using i(2) by auto
    then show ?thesis using l pv translate_large [of s va] translate_large [of s' va] by simp
  qed
qed

text \<open>Installing a fresh table changes no translation.\<close>

lemma new_table:
  assumes T: "tables_ok pool s" and i: "i < 1024" "\<not> present (pde s i)" and n: "pt_pool_next s < 64"
  defines "f \<equiv> pool + pt_pool_next s * 4096"
  defines "s' \<equiv> poke (pd s + i * 4) (f OR X86_WRITABLE OR X86_USER OR X86_PRESENT) (s\<lparr>pt_pool_next := pt_pool_next s + 1\<rparr>)"
  shows "has_table s' i" "tab s' i = f" "k < 1024 \<Longrightarrow> k \<noteq> i \<Longrightarrow> pde s' k = pde s k"
    "tables_ok pool s'" "translate s' va = translate s va"
proof -
  let ?e = "f OR X86_WRITABLE OR X86_USER OR X86_PRESENT"
  have F: "frame f" unfolding f_def by (rule pool_frame(1) [OF tables_okD(6,7) [OF T] n])
  have e: "ent s' g k = (if g = pd s \<and> k = i then ?e else ent s g k)" if "frame g" "k < 1024" for g k
    using ent_poke [of "pd s" g i k ?e "s\<lparr>pt_pool_next := pt_pool_next s + 1\<rparr>"] that i by (simp add: s'_def)
  have cr: "xm_cr3 s' = xm_cr3 s" by (simp add: s'_def)
  have nx: "pt_pool_next s' = pt_pool_next s + 1" by (simp add: s'_def)
  have later: "pt_pool_next s \<le> k \<and> k \<noteq> pt_pool_next s" if "pt_pool_next s + 1 \<le> k" for k
  proof -
    have "unat (pt_pool_next s + 1) = unat (pt_pool_next s) + 1" using n by (simp add: unat_add_small word_less_nat_alt)
    then show ?thesis using that by (auto simp: word_le_nat_alt)
  qed
  have pe: "present ?e" "\<not> large ?e" "?e AND PHYS_ADDR_MASK = f" "unrestricted ?e"
    using or_low_bits(1-3) [OF F] or_low_bits(4) [of f] by (simp_all only: present_def large_def unrestricted_def) simp
  have pi: "pde s' i = ?e" using e [of "pd s" i] i cr by simp
  show "has_table s' i" "tab s' i = f" using pi pe by simp_all
  show p: "pde s' k = pde s k" if "k < 1024" "k \<noteq> i" for k using e [of "pd s" k] that cr by simp
  have old: "i \<noteq> k \<and> has_table s k" if "k < 1024" "has_table s' k" "k \<noteq> i" for k using that p by simp
  show "tables_ok pool s'"
    unfolding tables_ok_def
  proof (intro conjI allI impI)
    show "2 ^ 12 dvd unat pool" "unat pool + 64 * 2 ^ 12 \<le> 2 ^ 32" by (rule tables_okD [OF T])+
    fix k :: u32 assume k: "k < 64" "pt_pool_next s' \<le> k"
    then have k2: "pt_pool_next s \<le> k" "k \<noteq> pt_pool_next s" using later nx by auto
    show kp: "pool + k * 4096 \<noteq> pd s'" using tables_okD(3) [OF T k(1) k2(1)] cr by simp
    fix l :: u32 assume l: "l < 1024"
    show "ent s' (pool + k * 4096) l = 0"
      using e [of "pool + k * 4096" l] pool_frame(1) [OF tables_okD(6,7) [OF T] k(1)] l kp cr tables_okD(5) [OF T k(1) k2(1) l] by auto
    assume h: "has_table s' l"
    show "tab s' l \<noteq> pool + k * 4096"
    proof (cases "l = i")
      case True
      have "unat f \<noteq> unat (pool + k * 4096)"
        using pool_frame(2) [OF tables_okD(6,7) [OF T] n] pool_frame(2) [OF tables_okD(6,7) [OF T] k(1)] k2(2)
        by (simp add: f_def word_unat_eq_iff)
      then show ?thesis using True pi pe by auto
    next
      case False
      then show ?thesis using tables_okD(4) [OF T k(1) k2(1) l] old [OF l h] p [OF l] by simp
    qed
  next
    fix k assume k: "k < 1024" "has_table s' k"
    show "unrestricted (pde s' k)"
      using tables_okD(8) [OF T k(1)] old [OF k] p [OF k(1)] pi pe(4) by (cases "k = i") simp_all
    have fresh: "tab s l \<noteq> f" if "l < 1024" "has_table s l" for l
      using tables_okD(4) [OF T n _ that] unfolding f_def by blast
    show "tab s' k \<noteq> pd s'"
    proof (cases "k = i")
      case True
      then show ?thesis using tables_okD(3) [OF T n order.refl] pi pe(3) cr by (simp add: f_def)
    next
      case False
      then show ?thesis using tables_okD(1) [OF T k(1)] old [OF k False] p [OF k(1) False] cr by simp
    qed
    fix l assume l: "l < 1024" "has_table s' l \<and> tab s' k = tab s' l"
    show "k = l"
    proof (cases "k = i")
      case True
      have "l = i"
      proof (rule ccontr)
        assume li: "l \<noteq> i"
        have "tab s' k = f" using True pi pe(3) by simp
        then have "tab s l = f" using l(2) p [OF l(1) li] by simp
        moreover have "has_table s l" using old [OF l(1) conjunct1 [OF l(2)] li] by simp
        ultimately show False using fresh [OF l(1)] by simp
      qed
      then show ?thesis using True by simp
    next
      case False
      have hk: "has_table s k" using old [OF k False] by simp
      have "l \<noteq> i"
      proof
        assume "l = i"
        then have "tab s' k = f" using l(2) pi pe(3) by simp
        then show False using fresh [OF k(1) hk] p [OF k(1) False] by simp
      qed
      then have hl: "has_table s l" "pde s' l = pde s l" using old [OF l(1)] l p by simp_all
      then show ?thesis using tables_okD(2) [OF T k(1) l(1) hk hl(1)] l(2) p [OF k(1) False] by simp
    qed
  qed
  show "translate s' va = translate s va"
  proof (cases "pd_index va = i")
    case True
    have "ent s f (pt_index va) = 0" unfolding f_def by (rule tables_okD(5) [OF T n]) simp_all
    moreover have "f \<noteq> pd s" unfolding f_def by (rule tables_okD(3) [OF T n]) simp
    ultimately have "ent s' f (pt_index va) = 0" using e [OF F, of "pt_index va"] by simp
    moreover have "translate s' va = entry_result (ent s' f (pt_index va)) va"
      using translate_table [of s' va] pi pe True by simp
    ultimately show ?thesis using translate_none [of s va] True i(2) by (simp add: entry_result_def present_def)
  next
    case False
    have pv: "pde s' (pd_index va) = pde s (pd_index va)" by (rule p [OF _ False]) simp
    have "ent s' (tab s (pd_index va)) (pt_index va) = ent s (tab s (pd_index va)) (pt_index va)" if "has_table s (pd_index va)"
      using e [of "tab s (pd_index va)" "pt_index va"] tables_okD(1) [OF T _ that] by simp
    then show ?thesis
      using pv tables_okD(8) [OF T, of "pd_index va"] translate_table [of s va] translate_table [of s' va] translate_none [of s va] translate_none [of s' va]
        translate_large [of s va] translate_large [of s' va]
      by (cases "present (pde s (pd_index va))"; cases "large (pde s (pd_index va))") simp_all
  qed
qed

section \<open>One page\<close>

abbreviation page_base :: "u32 \<Rightarrow> u32" where
  "page_base va \<equiv> va AND PHYS_ADDR_MASK"

definition flag_bits :: "u32 \<Rightarrow> bool" where
  "flag_bits b \<longleftrightarrow> b AND PHYS_ADDR_MASK = 0 \<and> b AND X86_PRESENT \<noteq> 0 \<and> b AND 0xFFF = b"

text \<open>What mapping the page of \<open>va\<close> to the frame of \<open>pa\<close> does to the address space.\<close>

definition page_mapped :: "u32 \<Rightarrow> u32 \<Rightarrow> u32 \<Rightarrow> u32 \<Rightarrow> x86_state \<Rightarrow> x86_state \<Rightarrow> bool" where
  "page_mapped pool bits va pa s s' \<longleftrightarrow>
     tables_ok pool s' \<and>
     (\<forall>v. translate s' v = (if page_base v = page_base va then entry_result ((pa AND PHYS_ADDR_MASK) OR bits) v else translate s v)) \<and>
     xm_tlb s' = xm_tlb s - {page_base va} \<and>
     has_table s' (pd_index va) \<and> (\<forall>k<1024. k \<noteq> pd_index va \<longrightarrow> pde s' k = pde s k) \<and>
     unat (pt_pool_next s') = unat (pt_pool_next s) + (if present (pde s (pd_index va)) then 0 else 1)"

lemma translate_invlpg [simp]: "translate (invlpg va s) = translate s"
  by (simp add: translate_def invlpg_def fun_eq_iff)

lemma tables_ok_invlpg [simp]: "tables_ok pool (invlpg va s) = tables_ok pool s"
  by (simp add: tables_ok_def)

lemma tlb_invlpg: "xm_tlb (invlpg va s) = xm_tlb s - {page_base va}"
  by (simp only: invlpg_def PHYS_ADDR_MASK_def mask_12) simp

lemma map_page_existing:
  fixes pa bits :: u32
  assumes T: "tables_ok pool s" and h: "has_table s (pd_index va)"
  defines "s' \<equiv> invlpg va (poke (tab s (pd_index va) + pt_index va * 4) ((pa AND PHYS_ADDR_MASK) OR bits) s)"
  shows "map_page pool bits va pa s = Ok s'" "page_mapped pool bits va pa s s'"
proof -
  have "pde s (pd_index va) AND X86_PRESENT \<noteq> 0" using h by (simp add: present_def)
  then show "map_page pool bits va pa s = Ok s'"
    by (simp add: map_page_def read_cr3_def ent_def s'_def Let_def)
  note P = set_pte [OF T index_small(1) h index_small(2) [of va], where v = "(pa AND PHYS_ADDR_MASK) OR bits"]
  have e: "pde s' k = pde s k" if "k < 1024" for k using P(1) [OF that] by (simp add: s'_def)
  have pg: "page_base v = page_base va \<longleftrightarrow> pd_index v = pd_index va \<and> pt_index v = pt_index va" for v by (rule same_page)
  show "page_mapped pool bits va pa s s'"
    unfolding page_mapped_def pg
  proof (intro conjI allI impI)
    show "tables_ok pool s'" using P(2) by (simp add: s'_def)
    show "translate s' v = (if pd_index v = pd_index va \<and> pt_index v = pt_index va
        then entry_result ((pa AND PHYS_ADDR_MASK) OR bits) v else translate s v)" for v
      using P(3) by (simp add: s'_def)
    show "xm_tlb s' = xm_tlb s - {page_base va}" by (simp add: s'_def tlb_invlpg)
    show "present (pde s' (pd_index va))" "\<not> large (pde s' (pd_index va))" using h e [of "pd_index va"] by simp_all
    show "pde s' k = pde s k" if "k < 1024" "k \<noteq> pd_index va" for k using e [OF that(1)] .
    show "unat (pt_pool_next s') = unat (pt_pool_next s) + (if present (pde s (pd_index va)) then 0 else 1)"
      using h by (simp add: s'_def)
  qed
qed

lemma map_page_ok:
  assumes T: "tables_ok pool s" and nl: "present (pde s (pd_index va)) \<Longrightarrow> \<not> large (pde s (pd_index va))"
    and room: "\<not> present (pde s (pd_index va)) \<Longrightarrow> pt_pool_next s < 64"
  shows "\<exists>s'. map_page pool bits va pa s = Ok s' \<and> page_mapped pool bits va pa s s'"
proof (cases "present (pde s (pd_index va))")
  case True
  then show ?thesis using map_page_existing [OF T] nl by blast
next
  case False
  define s1 where "s1 = poke (pd s + pd_index va * 4) ((pool + pt_pool_next s * 4096) OR X86_WRITABLE OR X86_USER OR X86_PRESENT)
    (s\<lparr>pt_pool_next := pt_pool_next s + 1\<rparr>)"
  note N = new_table [OF T index_small(1) False room [OF False], folded s1_def]
  obtain s' where s': "map_page pool bits va pa s1 = Ok s'" "page_mapped pool bits va pa s1 s'"
    using map_page_existing [OF N(4,1)] by blast
  have "xm_cr3 s1 = xm_cr3 s" by (simp add: s1_def)
  moreover have "pde s1 (pd_index va) AND X86_PRESENT \<noteq> 0" using N(1) by (simp add: present_def)
  moreover have "pde s (pd_index va) AND X86_PRESENT = 0" using False by (simp add: present_def)
  ultimately have "map_page pool bits va pa s = map_page pool bits va pa s1"
    using room [OF False] N(2)
    by (simp add: map_page_def read_cr3_def ent_def alloc_pt_frame_def PT_POOL_COUNT_def Let_def flip: s1_def)
  moreover have "unat (pt_pool_next s1) = unat (pt_pool_next s) + 1"
    using room [OF False] by (simp add: s1_def unat_add_small word_less_nat_alt)
  ultimately show ?thesis
    using s' N(1,3,5) False by (auto simp: page_mapped_def s1_def)
qed

section \<open>Regions\<close>

lemma for_pages_append: "for_pages f (xs @ ys) s = obind (for_pages f xs s) (for_pages f ys)"
proof -
  have "for_pages f (xs @ ys) = (\<lambda>s. obind (for_pages f xs s) (for_pages f ys))"
  proof (induction xs)
    case (Cons x xs)
    show ?case by (rule ext) (simp add: Cons.IH obind_assoc)
  qed (simp add: fun_eq_iff)
  then show ?thesis by simp
qed

definition nth_page :: "u32 \<Rightarrow> nat \<Rightarrow> u32" where
  "nth_page start i = start + of_nat i * X86_PAGE_SIZE"

definition page_range :: "u32 \<Rightarrow> nat \<Rightarrow> u32 set" where
  "page_range start n = nth_page start ` {..<n}"

text \<open>The directory entries that mapping \<open>n\<close> pages has to fill with fresh tables.\<close>

definition missing :: "x86_state \<Rightarrow> u32 \<Rightarrow> nat \<Rightarrow> u32 set" where
  "missing s start n = {d \<in> pd_index ` page_range start n. \<not> present (pde s d)}"

definition region_mapped :: "u32 \<Rightarrow> u32 \<Rightarrow> u32 \<Rightarrow> u32 \<Rightarrow> nat \<Rightarrow> x86_state \<Rightarrow> x86_state \<Rightarrow> bool" where
  "region_mapped pool bits start pstart n s s' \<longleftrightarrow>
     tables_ok pool s' \<and>
     (\<forall>v. translate s' v =
        (if page_base v \<in> page_range start n then entry_result ((pstart + (page_base v - start) AND PHYS_ADDR_MASK) OR bits) v
         else translate s v)) \<and>
     xm_tlb s' = xm_tlb s - page_range start n \<and>
     (\<forall>d<1024. if d \<in> pd_index ` page_range start n then has_table s' d else pde s' d = pde s d) \<and>
     unat (pt_pool_next s') = unat (pt_pool_next s) + card (missing s start n)"

lemma page_range_Suc: "page_range start (Suc n) = insert (nth_page start n) (page_range start n)"
  by (simp add: page_range_def lessThan_Suc)

lemma page_frame: "page_base f = f" if "frame f"
  by (rule frame_masked [OF that])

lemma frame_times: "frame (w * X86_PAGE_SIZE)"
  unfolding frame_def X86_PAGE_SIZE_def by (simp add: unat_word_ariths dvd_mod_iff)

lemma frameE:
  assumes "frame f"
  obtains w where "f = w * X86_PAGE_SIZE"
proof -
  obtain k where "unat f = 2 ^ 12 * k" using assms by (auto simp: frame_def)
  then have "f = of_nat (2 ^ 12 * k)" by (metis of_nat_unat ucast_id)
  then have "f = of_nat k * X86_PAGE_SIZE" by (simp add: X86_PAGE_SIZE_def)
  then show thesis by (rule that)
qed

lemma frame_add: "frame a \<Longrightarrow> frame b \<Longrightarrow> frame (a + b)"
  by (metis frameE frame_times distrib_right)

lemma frame_diff: "frame a \<Longrightarrow> frame b \<Longrightarrow> frame (a - b)"
  by (metis frameE frame_times left_diff_distrib)

lemma page_nth [simp]: "frame start \<Longrightarrow> page_base (nth_page start i) = nth_page start i"
  by (rule page_frame) (simp add: nth_page_def frame_add frame_times)

lemma nth_page_inj:
  assumes "nth_page start i = nth_page start j" "i < 2 ^ 20" "j < 2 ^ 20"
  shows "i = j"
proof -
  have u: "unat (of_nat k * X86_PAGE_SIZE) = k * 4096" if "k < 2 ^ 20" for k
    using that by (simp add: X86_PAGE_SIZE_def unat_word_ariths unat_of_nat)
  have "of_nat i * X86_PAGE_SIZE = of_nat j * X86_PAGE_SIZE"
    using assms(1) unfolding nth_page_def by (rule add_left_imp_eq)
  then have "i * 4096 = j * 4096" by (simp only: flip: u [OF assms(2)] u [OF assms(3)])
  then show ?thesis by simp
qed

lemma nth_page_fresh: "n < 2 ^ 20 \<Longrightarrow> nth_page start n \<notin> page_range start n"
  by (auto simp: page_range_def dest!: nth_page_inj)

lemma map_page_step:
  assumes R: "region_mapped pool bits start pstart n s s1" and f: "frame start" and n: "n < 2 ^ 20"
    and P: "page_mapped pool bits (nth_page start n) (pstart + of_nat n * X86_PAGE_SIZE) s1 s2"
  shows "region_mapped pool bits start pstart (Suc n) s s2"
proof -
  let ?va = "nth_page start n" and ?D = "pd_index ` page_range start n"
  have old: "present (pde s1 (pd_index ?va)) \<longleftrightarrow> pd_index ?va \<in> ?D \<or> present (pde s (pd_index ?va))"
  proof -
    have "if pd_index ?va \<in> ?D then has_table s1 (pd_index ?va) else pde s1 (pd_index ?va) = pde s (pd_index ?va)"
      using R index_small(1) [of ?va] unfolding region_mapped_def by blast
    then show ?thesis by (auto split: if_splits)
  qed
  have fin: "finite (missing s start n)" by (simp add: missing_def page_range_def)
  have miss: "missing s start (Suc n) = (if present (pde s1 (pd_index ?va)) then missing s start n else insert (pd_index ?va) (missing s start n))"
    unfolding missing_def page_range_Suc old by auto
  have "pd_index ?va \<notin> missing s start n" if "\<not> present (pde s1 (pd_index ?va))"
    using that old by (auto simp: missing_def)
  then have card: "card (missing s start (Suc n)) = card (missing s start n) + (if present (pde s1 (pd_index ?va)) then 0 else 1)"
    using fin by (simp add: miss)
  have delta: "?va - start = of_nat n * X86_PAGE_SIZE" by (simp add: nth_page_def)
  show ?thesis
    unfolding region_mapped_def
  proof (intro conjI allI impI)
    show "tables_ok pool s2" using P by (simp add: page_mapped_def)
    fix v
    have "translate s2 v = (if page_base v = ?va then entry_result ((pstart + of_nat n * X86_PAGE_SIZE AND PHYS_ADDR_MASK) OR bits) v else translate s1 v)"
      using P f by (simp add: page_mapped_def)
    then show "translate s2 v = (if page_base v \<in> page_range start (Suc n)
        then entry_result ((pstart + (page_base v - start) AND PHYS_ADDR_MASK) OR bits) v else translate s v)"
      using R delta by (auto simp: region_mapped_def page_range_Suc)
  next
    show "xm_tlb s2 = xm_tlb s - page_range start (Suc n)"
      using P R f by (auto simp: page_mapped_def region_mapped_def page_range_Suc)
    show "unat (pt_pool_next s2) = unat (pt_pool_next s) + card (missing s start (Suc n))"
      using P R card by (simp add: page_mapped_def region_mapped_def)
  next
    fix d :: u32 assume d: "d < 1024"
    have cr: "pde s2 d = pde s1 d" if "d \<noteq> pd_index ?va" using P d that by (simp add: page_mapped_def)
    have "if d \<in> ?D then has_table s1 d else pde s1 d = pde s d" using R d by (simp add: region_mapped_def)
    moreover have "has_table s2 (pd_index ?va)" using P by (simp add: page_mapped_def)
    ultimately show "if d \<in> pd_index ` page_range start (Suc n) then has_table s2 d else pde s2 d = pde s d"
      using cr by (cases "d = pd_index ?va") (simp_all add: page_range_Suc)
  qed
qed

lemma map_pages:
  assumes T: "tables_ok pool s" and f: "frame start" and n: "n \<le> 2 ^ 20"
    and nl: "\<And>d. d \<in> pd_index ` page_range start n \<Longrightarrow> present (pde s d) \<Longrightarrow> \<not> large (pde s d)"
    and room: "unat (pt_pool_next s) + card (missing s start n) \<le> 64"
  shows "\<exists>s'. for_pages (\<lambda>i. map_page pool bits (start + i * X86_PAGE_SIZE) (pstart + i * X86_PAGE_SIZE)) (map of_nat [0..<n]) s = Ok s' \<and>
    region_mapped pool bits start pstart n s s'"
  using n nl room
proof (induction n)
  case 0
  then show ?case using T by (simp add: region_mapped_def page_range_def missing_def)
next
  case (Suc n)
  let ?va = "nth_page start n"
  have sub: "missing s start n \<subseteq> missing s start (Suc n)" "finite (missing s start (Suc n))"
    by (auto simp: missing_def page_range_Suc page_range_def)
  have "card (missing s start n) \<le> card (missing s start (Suc n))" by (rule card_mono [OF sub(2,1)])
  then obtain s1 where s1: "for_pages (\<lambda>i. map_page pool bits (start + i * X86_PAGE_SIZE) (pstart + i * X86_PAGE_SIZE)) (map of_nat [0..<n]) s = Ok s1"
    and R: "region_mapped pool bits start pstart n s s1"
    using Suc by (auto simp: page_range_Suc)
  have d: "if pd_index ?va \<in> pd_index ` page_range start n then has_table s1 (pd_index ?va) else pde s1 (pd_index ?va) = pde s (pd_index ?va)"
    using R index_small(1) [of ?va] by (simp add: region_mapped_def)
  have nl1: "\<not> large (pde s1 (pd_index ?va))" if "present (pde s1 (pd_index ?va))"
    using d that Suc.prems(2) [of "pd_index ?va"] by (auto simp: page_range_Suc split: if_splits)
  have room1: "pt_pool_next s1 < 64" if np: "\<not> present (pde s1 (pd_index ?va))"
  proof -
    have "pd_index ?va \<notin> pd_index ` page_range start n" "\<not> present (pde s (pd_index ?va))"
      using d np by (auto split: if_splits)
    then have "missing s start (Suc n) = insert (pd_index ?va) (missing s start n)" "pd_index ?va \<notin> missing s start n"
      by (auto simp: missing_def page_range_Suc)
    then have "card (missing s start (Suc n)) = card (missing s start n) + 1" using sub by (simp add: finite_subset)
    then show ?thesis using R Suc.prems(3) by (simp add: region_mapped_def word_less_nat_alt)
  qed
  have T1: "tables_ok pool s1" using R by (simp add: region_mapped_def)
  obtain s2 where s2: "map_page pool bits ?va (pstart + of_nat n * X86_PAGE_SIZE) s1 = Ok s2"
    and P: "page_mapped pool bits ?va (pstart + of_nat n * X86_PAGE_SIZE) s1 s2"
    using map_page_ok [OF T1 nl1 room1] by blast
  have "region_mapped pool bits start pstart (Suc n) s s2" using map_page_step [OF R f _ P] Suc.prems(1) by simp
  then show ?case using s1 s2 by (simp add: for_pages_append nth_page_def)
qed

section \<open>Mapping a region\<close>

text \<open>The addresses of the pages that hold \<open>len\<close> bytes from \<open>virt\<close>.\<close>

definition in_pages :: "u32 \<Rightarrow> u32 \<Rightarrow> u32 \<Rightarrow> bool" where
  "in_pages virt len v \<longleftrightarrow>
     unat virt div 4096 \<le> unat v div 4096 \<and> unat v div 4096 < (unat virt + unat len + 4095) div 4096"

definition fits_space :: "u32 \<Rightarrow> u32 \<Rightarrow> bool" where
  "fits_space virt len \<longleftrightarrow> unat len + unat virt mod 4096 + 4095 < 2 ^ 32 \<and> unat virt + unat len \<le> 2 ^ 32"

definition tables_needed :: "x86_state \<Rightarrow> u32 \<Rightarrow> u32 \<Rightarrow> u32 set" where
  "tables_needed s virt len = {d \<in> pd_index ` {v. in_pages virt len v}. \<not> present (pde s d)}"

lemma pages_bound: "(x :: nat) \<le> 2 ^ 32 + 4095 \<Longrightarrow> x div 4096 \<le> 2 ^ 20"
  using less_mult_imp_div_less [of x 1048577 4096] by simp

lemma unat_page_count:
  assumes "fits_space virt len"
  shows "unat (page_count virt len) = (unat len + unat virt mod 4096 + 4095) div 4096"
proof -
  have "unat len + unat (page_offset virt) + 4095 < 2 ^ 32" using assms by (simp add: fits_space_def unat_page_offset)
  then have "unat (len + page_offset virt + 4095) = unat len + unat (page_offset virt) + 4095" by (simp add: unat_add_small)
  moreover have "len + page_offset virt + X86_PAGE_SIZE - 1 = len + page_offset virt + 4095" by (simp add: X86_PAGE_SIZE_def)
  ultimately have "unat (len + page_offset virt + X86_PAGE_SIZE - 1) = unat len + unat virt mod 4096 + 4095"
    by (simp only: unat_page_offset) simp
  then show ?thesis by (simp only: page_count_def unat_div) (simp add: X86_PAGE_SIZE_def)
qed

lemma page_range_iff:
  assumes "fits_space virt len"
  shows "page_base v \<in> page_range (page_base virt) (unat (page_count virt len)) \<longleftrightarrow> in_pages virt len v"
proof -
  define a b n where "a = unat virt div 4096" and "b = unat v div 4096" and "n = unat (page_count virt len)"
  have vv: "unat virt = a * 4096 + unat virt mod 4096" by (simp add: a_def)
  have "unat virt + unat len + 4095 = (unat len + unat virt mod 4096 + 4095) + a * 4096" using vv by linarith
  then have fin: "(unat virt + unat len + 4095) div 4096 = a + n"
    using unat_page_count [OF assms] by (simp only: n_def div_mult_self1 zero_neq_numeral not_False_eq_True add.commute)
  have top: "a * 4096 + n * 4096 \<le> 2 ^ 32"
  proof -
    have "(unat virt + unat len + 4095) div 4096 \<le> 2 ^ 20" using assms unfolding fits_space_def by (intro pages_bound) simp
    then show ?thesis using fin by simp
  qed
  have nth: "unat (nth_page (page_base virt) i) = (a + i) * 4096" if "i < n" for i
  proof -
    have "a * 4096 + i * 4096 < 2 ^ 32" using that top by simp
    moreover have "unat (of_nat i * X86_PAGE_SIZE :: u32) = i * 4096"
      using that top by (simp add: X86_PAGE_SIZE_def unat_word_ariths unat_of_nat)
    moreover have "unat (page_base virt) = a * 4096" by (simp add: unat_page a_def)
    ultimately show ?thesis by (simp add: nth_page_def unat_add_small)
  qed
  have "page_base v \<in> page_range (page_base virt) n \<longleftrightarrow> (\<exists>i<n. unat (page_base v) = unat (nth_page (page_base virt) i))"
    by (auto simp: page_range_def word_unat_eq_iff)
  also have "\<dots> \<longleftrightarrow> (\<exists>i<n. b = a + i)" using nth by (auto simp: unat_page b_def)
  also have "\<dots> \<longleftrightarrow> a \<le> b \<and> b < a + n" by (auto simp: le_iff_add)
  also have "\<dots> \<longleftrightarrow> in_pages virt len v" unfolding in_pages_def fin by (simp add: a_def b_def)
  finally show ?thesis by (simp add: n_def)
qed

lemma page_range_pages:
  assumes "fits_space virt len"
  shows "page_range (page_base virt) (unat (page_count virt len)) = {p. in_pages virt len p \<and> page_base p = p}" (is "?R = _")
proof (intro set_eqI iffI)
  fix p assume p: "p \<in> ?R"
  then have e: "page_base p = p" by (auto simp: page_range_def)
  have "page_base p \<in> ?R" using p by (simp only: e)
  then show "p \<in> {p. in_pages virt len p \<and> page_base p = p}" using page_range_iff [OF assms, of p] e by blast
next
  fix p assume "p \<in> {p. in_pages virt len p \<and> page_base p = p}"
  then have e: "in_pages virt len p" "page_base p = p" by blast+
  then have "page_base p \<in> ?R" using page_range_iff [OF assms, of p] by blast
  then show "p \<in> ?R" by (simp only: e(2))
qed

lemma page_range_indices:
  assumes "fits_space virt len"
  shows "pd_index ` page_range (page_base virt) (unat (page_count virt len)) = pd_index ` {v. in_pages virt len v}"
proof -
  have pg: "pd_index (page_base v) = pd_index v" for v using same_page [of "page_base v" v] by (simp add: and.assoc)
  let ?R = "page_range (page_base virt) (unat (page_count virt len))"
  have "?R = page_base ` {v. in_pages virt len v}"
  proof (intro set_eqI iffI)
    fix w assume "w \<in> ?R"
    then have "in_pages virt len w" "w = page_base w" unfolding page_range_pages [OF assms] by simp_all
    then show "w \<in> page_base ` {v. in_pages virt len v}" by blast
  next
    fix w assume "w \<in> page_base ` {v. in_pages virt len v}"
    then obtain v where "w = page_base v" "in_pages virt len v" by blast
    then show "w \<in> ?R" by (simp only: page_range_iff [OF assms])
  qed
  then show ?thesis by (simp add: image_image pg)
qed

lemma entry_result_mapped:
  assumes "frame a" "flag_bits bits"
  shows "entry_result (a OR bits) v = Some (a + page_offset v, bits)"
proof -
  have b: "bits AND PHYS_ADDR_MASK = 0" "bits AND X86_PRESENT \<noteq> 0" "bits AND 0xFFF = bits" using assms(2) by (simp_all add: flag_bits_def)
  have "a AND page_offset v = 0"
  proof -
    have "a AND page_offset v = a AND (PHYS_ADDR_MASK AND (v AND 0xFFF))"
      using frame_masked [OF assms(1)] by (metis and.assoc page_offset_def)
    also have "PHYS_ADDR_MASK AND (v AND 0xFFF) = v AND (PHYS_ADDR_MASK AND 0xFFF)" by (simp only: ac_simps)
    also have "PHYS_ADDR_MASK AND 0xFFF = (0 :: u32)" by (simp add: PHYS_ADDR_MASK_def)
    finally show ?thesis by simp
  qed
  then have "a OR page_offset v = a + page_offset v" by (simp add: disjunctive_add_eq_or)
  then show ?thesis
    using mask_split [OF b(1), of a] pte_bits [OF b, of a] frame_masked [OF assms(1)]
    by (simp add: entry_result_def present_def)
qed

lemma page_plus_offset: "page_base v + page_offset v = v"
  by (simp add: word_unat_eq_iff unat_word_ariths unat_page unat_page_offset unat_less [of v, simplified])

text \<open>
  C31. Mapping a region on the PC.  If the page tables are well formed, the region does not wrap
  around the address space, none of its pages lies in a 4 MB mapping and the pool has a frame for
  every missing page table, the call succeeds and keeps the tables well formed.  Afterwards every
  address of the region's pages translates to the same distance from the physical start, and the
  rights in force there, those that both levels of the tables allow, are the requested ones; no page
  of the region is left in the TLB, and every other address translates as before.
\<close>

theorem x86_map_region_translates:
  assumes T: "tables_ok pool s" and F: "fits_space virt len"
    and nl: "\<forall>v. in_pages virt len v \<longrightarrow> \<not> (present (pde s (pd_index v)) \<and> large (pde s (pd_index v)))"
    and room: "unat (pt_pool_next s) + card (tables_needed s virt len) \<le> 64"
  shows "\<exists>s'. x86_map_region pool virt phys len flags s = Ok s' \<and> tables_ok pool s' \<and>
    (\<forall>v. translate s' v =
      (if in_pages virt len v then Some (page_base phys + (v - page_base virt), map_flags_to_x86 flags) else translate s v)) \<and>
    xm_tlb s' = xm_tlb s - {p. in_pages virt len p \<and> page_base p = p}"
proof -
  let ?n = "unat (page_count virt len)" and ?b = "map_flags_to_x86 flags"
  have np: "(x AND NOT 0xFFF) = page_base x" for x by (simp only: PHYS_ADDR_MASK_def mask_12)
  have small: "?n \<le> 2 ^ 20" using F unfolding unat_page_count [OF F] fits_space_def by (intro pages_bound) simp
  have miss: "missing s (page_base virt) ?n = tables_needed s virt len"
    by (simp add: missing_def tables_needed_def page_range_indices [OF F])
  have "\<And>d. d \<in> pd_index ` page_range (page_base virt) ?n \<Longrightarrow> present (pde s d) \<Longrightarrow> \<not> large (pde s d)"
    using nl unfolding page_range_indices [OF F] by blast
  then obtain s' where s': "x86_map_region pool virt phys len flags s = Ok s'"
    and R: "region_mapped pool ?b (page_base virt) (page_base phys) ?n s s'"
    using map_pages [OF T frame_page small, of virt ?b "page_base phys"] room
    unfolding miss x86_map_region_def Let_def np by blast
  have fb: "flag_bits ?b" by (simp add: flag_bits_def map_flags_bits)
  have "translate s' v = (if in_pages virt len v then Some (page_base phys + (v - page_base virt), ?b) else translate s v)" for v
  proof -
    have fr: "frame (page_base phys + (page_base v - page_base virt))" by (intro frame_add frame_diff frame_page)
    have "page_base phys + (page_base v - page_base virt) + page_offset v = page_base phys + (v - page_base virt)"
      using page_plus_offset [of v] by (simp add: algebra_simps)
    then show ?thesis
      using R entry_result_mapped [OF fr fb, of v] frame_masked [OF fr]
      by (simp add: region_mapped_def page_range_iff [OF F])
  qed
  moreover have "page_range (page_base virt) ?n = {p. in_pages virt len p \<and> page_base p = p}" by (rule page_range_pages [OF F])
  ultimately show ?thesis using s' R by (intro exI [of _ s']) (simp add: region_mapped_def)
qed

text \<open>An empty directory with all of the pool free.\<close>

definition empty_tables :: x86_state where
  "empty_tables = \<lparr>xm_mem = (\<lambda>_. 0), xm_cr0 = 1, xm_cr3 = 0x100000, xm_cr4 = 0, xm_tlb = {}, pt_pool_next = 0\<rparr>"

lemma ent_empty [simp]: "ent empty_tables f i = 0" "\<not> present 0" "pt_pool_next empty_tables = 0" "xm_tlb empty_tables = {}"
  by (simp_all add: ent_def empty_tables_def read_u32_def from_le32_def present_def)

lemma empty_tables_ok: "tables_ok 0x200000 empty_tables"
proof -
  have "0x200000 + k * 4096 \<noteq> (0x100000 :: u32)" if "k < 64" for k :: u32
    using pool_frame(2) [of "0x200000" k] that by (auto simp: word_unat_eq_iff)
  then show ?thesis by (simp add: tables_ok_def) (simp add: empty_tables_def PHYS_ADDR_MASK_def)
qed

theorem x86_map_region_translates_witness:
  "\<exists>s'. x86_map_region 0x200000 0x10000123 0x20000000 16 MAP_WRITE empty_tables = Ok s' \<and>
    translate s' 0x10000FFF = Some (0x20000FFF, 3) \<and> translate s' 0x10001000 = None"
proof -
  have F: "fits_space 0x10000123 16" by (simp add: fits_space_def)
  have I: "in_pages 0x10000123 16 v \<longleftrightarrow> unat v div 4096 = 65536" for v by (auto simp: in_pages_def)
  have "pd_index v = 64" if "unat v div 4096 = 65536" for v
  proof -
    have "unat v div 4096 div 1024 = 64" using that by simp
    then have "unat v div 2 ^ 22 = 64" by (simp only: div_mult2_eq [symmetric]) simp
    then show ?thesis by (simp only: word_unat_eq_iff unat_pd_index) simp
  qed
  then have "tables_needed empty_tables 0x10000123 16 \<subseteq> {64}" by (auto simp: tables_needed_def I)
  then have "card (tables_needed empty_tables 0x10000123 16) \<le> 1" using card_mono [of "{64 :: u32}"] by fastforce
  then have c: "unat (pt_pool_next empty_tables) + card (tables_needed empty_tables 0x10000123 16) \<le> 64" by simp
  have "translate empty_tables 0x10001000 = None" by (rule translate_none) simp
  moreover have "map_flags_to_x86 MAP_WRITE = 3"
    by (simp add: map_flags_to_x86_def map_contains_def MAP_WRITE_def MAP_USER_def MAP_DEVICE_def X86_PRESENT_def X86_WRITABLE_def)
  moreover have "page_base 0x20000000 = 0x20000000" "page_base 0x10000123 = 0x10000000" by (simp_all add: PHYS_ADDR_MASK_def)
  ultimately show ?thesis
    using x86_map_region_translates [OF empty_tables_ok F _ c, of "0x20000000" MAP_WRITE] by (auto simp: I)
qed

section \<open>Unmapping a region\<close>

text \<open>The CPU caches only translations that exist.\<close>

definition tlb_ok :: "x86_state \<Rightarrow> bool" where
  "tlb_ok s \<longleftrightarrow> (\<forall>p\<in>xm_tlb s. page_base p = p \<and> translate s p \<noteq> None)"

definition pages_unmapped :: "u32 \<Rightarrow> u32 set \<Rightarrow> x86_state \<Rightarrow> x86_state \<Rightarrow> bool" where
  "pages_unmapped pool ps s s' \<longleftrightarrow>
     tables_ok pool s' \<and> tlb_ok s' \<and> (\<forall>v. translate s' v = (if page_base v \<in> ps then None else translate s v)) \<and>
     (\<forall>k<1024. pde s' k = pde s k)"

lemma unmap_page_ok:
  assumes T: "tables_ok pool s" and C: "tlb_ok s" and nl: "present (pde s (pd_index va)) \<Longrightarrow> \<not> large (pde s (pd_index va))"
  shows "\<exists>s'. unmap_page va s = Ok s' \<and> pages_unmapped pool {page_base va} s s'"
proof (cases "present (pde s (pd_index va))")
  case False
  then have "unmap_page va s = Ok s" by (simp add: unmap_page_def read_cr3_def ent_def present_def Let_def)
  moreover have "translate s v = None" if "page_base v = page_base va" for v
    using that False translate_none [of s v] same_page [of v va] by simp
  ultimately show ?thesis using T C by (simp add: pages_unmapped_def)
next
  case True
  then have h: "has_table s (pd_index va)" using nl by simp
  define s' where "s' = invlpg va (poke (tab s (pd_index va) + pt_index va * 4) 0 s)"
  have "unmap_page va s = Ok s'"
    using h by (simp add: unmap_page_def read_cr3_def ent_def present_def large_def s'_def Let_def)
  note P = set_pte [OF T index_small(1) h index_small(2) [of va], where v = 0]
  have tr: "translate s' v = (if page_base v = page_base va then None else translate s v)" for v
    using P(3) same_page [of v va] by (simp add: s'_def entry_result_def present_def)
  have "tlb_ok s'"
    using C tr unfolding tlb_ok_def s'_def tlb_invlpg by auto
  then have "pages_unmapped pool {page_base va} s s'"
    using P(1,2) tr by (simp add: pages_unmapped_def s'_def)
  then show ?thesis using \<open>unmap_page va s = Ok s'\<close> by blast
qed

lemma unmap_pages:
  assumes T: "tables_ok pool s" and C: "tlb_ok s" and f: "frame start"
    and nl: "\<And>d. d \<in> pd_index ` page_range start n \<Longrightarrow> present (pde s d) \<Longrightarrow> \<not> large (pde s d)"
  shows "\<exists>s'. for_pages (\<lambda>i. unmap_page (start + i * X86_PAGE_SIZE)) (map of_nat [0..<n]) s = Ok s' \<and>
    pages_unmapped pool (page_range start n) s s'"
  using nl
proof (induction n)
  case 0
  then show ?case using T C by (simp add: pages_unmapped_def page_range_def)
next
  case (Suc n)
  let ?va = "nth_page start n"
  obtain s1 where s1: "for_pages (\<lambda>i. unmap_page (start + i * X86_PAGE_SIZE)) (map of_nat [0..<n]) s = Ok s1"
    and R: "pages_unmapped pool (page_range start n) s s1"
    using Suc by (auto simp: page_range_Suc)
  have e: "pde s1 (pd_index ?va) = pde s (pd_index ?va)" using R by (simp add: pages_unmapped_def)
  obtain s2 where s2: "unmap_page ?va s1 = Ok s2" and P: "pages_unmapped pool {page_base ?va} s1 s2"
    using unmap_page_ok [of pool s1 ?va] R Suc.prems [of "pd_index ?va"] unfolding e
    by (auto simp: pages_unmapped_def page_range_Suc)
  have "pages_unmapped pool (page_range start (Suc n)) s s2"
    using R P f by (simp add: pages_unmapped_def page_range_Suc)
  then show ?case using s1 s2 by (simp add: for_pages_append nth_page_def)
qed

text \<open>
  Unmapping a region on the PC.  Under the same conditions on the region the call succeeds, no
  address of the region's pages translates any more, no translation of them stays in the TLB, and
  every other address translates as before.
\<close>

lemma x86_unmap_region_removes:
  assumes T: "tables_ok pool s" and C: "tlb_ok s" and F: "fits_space virt len"
    and nl: "\<forall>v. in_pages virt len v \<longrightarrow> \<not> (present (pde s (pd_index v)) \<and> large (pde s (pd_index v)))"
  shows "\<exists>s'. x86_unmap_region virt len s = Ok s' \<and> tables_ok pool s' \<and> tlb_ok s' \<and>
    (\<forall>v. translate s' v = (if in_pages virt len v then None else translate s v)) \<and>
    xm_tlb s' \<inter> {v. in_pages virt len v} = {}"
proof -
  let ?n = "unat (page_count virt len)"
  have np: "(virt AND NOT 0xFFF) = page_base virt" by (simp only: PHYS_ADDR_MASK_def mask_12)
  have "\<And>d. d \<in> pd_index ` page_range (page_base virt) ?n \<Longrightarrow> present (pde s d) \<Longrightarrow> \<not> large (pde s d)"
    using nl unfolding page_range_indices [OF F] by blast
  then obtain s' where s': "x86_unmap_region virt len s = Ok s'"
    and R: "pages_unmapped pool (page_range (page_base virt) ?n) s s'"
    using unmap_pages [OF T C frame_page, of virt ?n]
    unfolding x86_unmap_region_def Let_def np by blast
  have tr: "translate s' v = (if in_pages virt len v then None else translate s v)" for v
    using R page_range_iff [OF F, of v] by (simp add: pages_unmapped_def)
  then have "v \<notin> xm_tlb s'" if "in_pages virt len v" for v
    using R that by (auto simp: pages_unmapped_def tlb_ok_def)
  then show ?thesis using s' R tr by (auto simp: pages_unmapped_def)
qed

lemma x86_unmap_region_removes_witness:
  "\<exists>s s'. translate s 0x10000123 = Some (0x20000123, 3) \<and> x86_unmap_region 0x10000000 4096 s = Ok s' \<and>
    translate s' 0x10000123 = None"
proof -
  obtain s where s: "page_mapped 0x200000 3 0x10000000 0x20000000 empty_tables s"
    using map_page_ok [OF empty_tables_ok, of "0x10000000"] by auto
  have T: "tables_ok 0x200000 s" and C: "tlb_ok s" using s by (simp_all add: page_mapped_def tlb_ok_def)
  have t: "translate s 0x10000123 = Some (0x20000123, 3)"
    using s by (simp add: page_mapped_def entry_result_def present_def page_offset_def PHYS_ADDR_MASK_def X86_PRESENT_def)
  have F: "fits_space 0x10000000 4096" by (simp add: fits_space_def)
  have I: "in_pages 0x10000000 4096 v \<longleftrightarrow> unat v div 4096 = 65536" for v by (auto simp: in_pages_def)
  have "\<not> (present (pde s (pd_index v)) \<and> large (pde s (pd_index v)))" for v
  proof (cases "pd_index v = pd_index 0x10000000")
    case True
    then show ?thesis using s by (simp only: page_mapped_def) simp
  next
    case False
    then have "pde s (pd_index v) = 0" using s by (simp add: page_mapped_def)
    then show ?thesis by simp
  qed
  then show ?thesis
    using x86_unmap_region_removes [OF T C F] t by (auto simp: I)
qed

end
