(* ===== verification/Arm_Mmu.thy ===== *)
theory Arm_Mmu
  imports X86_Mmu Platform
begin

text \<open>
  The section tables of the Raspberry Pi (\<^verbatim>\<open>kernel/src/arch/arm/mmu.rs\<close>).  The state is the memory with the
  first-level table, the address of the table that the boot code published, the system control
  registers and the sections whose translation the CPU may hold in its TLB.  The address of the
  vector table is a symbol of the linker.
\<close>

section \<open>Entries\<close>

definition NUM_L1_ENTRIES :: nat where "NUM_L1_ENTRIES = 4096"
definition SECTION_SIZE :: u32 where "SECTION_SIZE = 0x100000"
definition SECTION_MASK :: u32 where "SECTION_MASK = 0xFFF00000"
definition ARM_PAGE_MASK :: u32 where "ARM_PAGE_MASK = 0xFFFFF000"

definition AP_NO_ACCESS :: u32 where "AP_NO_ACCESS = 0"
definition AP_PRIV_RW :: u32 where "AP_PRIV_RW = 1"
definition AP_PRIV_RW_USER_RO :: u32 where "AP_PRIV_RW_USER_RO = 2"
definition AP_FULL :: u32 where "AP_FULL = 3"
definition AP_PRIV_RO :: u32 where "AP_PRIV_RO = 5"
definition AP_ALL_RO :: u32 where "AP_ALL_RO = 7"

definition DOMAIN_KERNEL :: u32 where "DOMAIN_KERNEL = 0"
definition DOMAIN_USER :: u32 where "DOMAIN_USER = 1"
definition DOMAIN_HW :: u32 where "DOMAIN_HW = 2"

definition MEM_STRONGLY_ORDERED :: u32 where "MEM_STRONGLY_ORDERED = push_bit 12 0 OR push_bit 3 0 OR push_bit 2 0"
definition MEM_DEVICE :: u32 where "MEM_DEVICE = push_bit 12 0 OR push_bit 3 0 OR push_bit 2 1"
definition MEM_NORMAL_UNCACHED :: u32 where "MEM_NORMAL_UNCACHED = push_bit 12 1 OR push_bit 3 0 OR push_bit 2 0"
definition MEM_NORMAL_WRITEBACK :: u32 where "MEM_NORMAL_WRITEBACK = push_bit 12 1 OR push_bit 3 1 OR push_bit 2 1"

definition ap_bits :: "u32 \<Rightarrow> u32" where
  "ap_bits ap = push_bit 13 (ap AND 4) OR push_bit 10 (ap AND 3)"

definition section_entry :: "u32 \<Rightarrow> u32 \<Rightarrow> u32 \<Rightarrow> u32 \<Rightarrow> bool \<Rightarrow> u32" where
  "section_entry phys_addr mem_type ap domain exec =
     (let xn = (if exec then 0 else push_bit 4 1) in
      (phys_addr AND SECTION_MASK) OR mem_type OR ap_bits ap OR push_bit 5 domain OR xn OR 2)"

definition coarse_entry :: "u32 \<Rightarrow> u32 \<Rightarrow> u32" where
  "coarse_entry l2_phys domain = (l2_phys AND 0xFFFFFC00) OR push_bit 5 domain OR 1"

definition l2_page_entry :: "u32 \<Rightarrow> u32 \<Rightarrow> u32" where
  "l2_page_entry phys_addr ap =
     (let base = phys_addr AND ARM_PAGE_MASK;
          ap_l2 = push_bit 7 (ap AND 4) OR push_bit 4 (ap AND 3) in
      base OR ap_l2 OR push_bit 3 1 OR push_bit 2 1 OR 2)"

definition l1_index :: "u32 \<Rightarrow> u32" where
  "l1_index va = drop_bit 20 va"

definition l2_index :: "u32 \<Rightarrow> u32" where
  "l2_index va = drop_bit 12 va AND 0xFF"

definition coarse_base :: "u32 \<Rightarrow> u32" where
  "coarse_base l1_entry = l1_entry AND 0xFFFFFC00"

definition is_section_entry :: "u32 \<Rightarrow> bool" where
  "is_section_entry entry \<longleftrightarrow> entry AND 3 = 2"

definition is_coarse_entry :: "u32 \<Rightarrow> bool" where
  "is_coarse_entry entry \<longleftrightarrow> entry AND 3 = 1"

section \<open>Operations\<close>

record arm_state =
  ar_mem :: memory
  ar_l1 :: u32
  ar_ttbr0 :: u32
  ar_ttbcr :: u32
  ar_dacr :: u32
  ar_sctlr :: u32
  ar_tlb :: "u32 set"

definition arm_poke :: "u32 \<Rightarrow> u32 \<Rightarrow> arm_state \<Rightarrow> arm_state" where
  "arm_poke a v s = s\<lparr>ar_mem := write_u32 (ar_mem s) a v\<rparr>"

text \<open>\<^verbatim>\<open>while addr < end { f(addr); addr += SECTION_SIZE; }\<close>\<close>

partial_function (option) section_loop :: "(u32 \<Rightarrow> arm_state \<Rightarrow> arm_state) \<Rightarrow> u32 \<Rightarrow> u32 \<Rightarrow> arm_state \<Rightarrow> arm_state option" where
  "section_loop f addr end' s =
     (if addr < end' then section_loop f (addr + SECTION_SIZE) end' (f addr s) else Some s)"

declare section_loop.simps [code]

definition arm_invalidate_tlb_entry :: "u32 \<Rightarrow> arm_state \<Rightarrow> arm_state" where
  "arm_invalidate_tlb_entry va s = s\<lparr>ar_tlb := ar_tlb s - {l1_index va}\<rparr>"

definition arm_invalidate_tlb_all :: "arm_state \<Rightarrow> arm_state" where
  "arm_invalidate_tlb_all s = s\<lparr>ar_tlb := {}\<rparr>"

definition enable_mmu :: "u32 \<Rightarrow> arm_state \<Rightarrow> arm_state" where
  "enable_mmu ttbr0 s =
     (let s = arm_invalidate_tlb_all s;
          b = ttbr0 OR push_bit 6 1 OR push_bit 0 1;
          s = s\<lparr>ar_ttbr0 := b, ar_ttbcr := 0, ar_dacr := 1\<rparr>;
          s = s\<lparr>ar_sctlr := ar_sctlr s AND NOT (push_bit 29 1)\<rparr> in
      s\<lparr>ar_sctlr := ar_sctlr s OR push_bit 0 1 OR push_bit 2 1 OR push_bit 12 1\<rparr>)"

definition section_end :: "u32 \<Rightarrow> u32 \<Rightarrow> u32" where
  "section_end base len = (base + len + SECTION_SIZE - 1) AND SECTION_MASK"

definition arm_init :: "memory_map \<Rightarrow> u32 \<Rightarrow> u32 \<Rightarrow> arm_state \<Rightarrow> arm_state call" where
  "arm_init mm vectors l1 s =
     obind (of_loop (section_loop
         (\<lambda>addr. arm_poke (l1 + l1_index addr * 4) (section_entry addr MEM_NORMAL_WRITEBACK AP_PRIV_RW DOMAIN_KERNEL True))
         (ram_start mm AND SECTION_MASK) (section_end (ram_start mm) (ram_size mm)) s)) (\<lambda>s.
     let v = vectors AND SECTION_MASK;
         s = arm_poke (l1 + l1_index v * 4) (section_entry v MEM_NORMAL_WRITEBACK AP_PRIV_RW DOMAIN_KERNEL True) s in
     obind (of_loop (section_loop
         (\<lambda>addr. arm_poke (l1 + l1_index addr * 4) (section_entry addr MEM_DEVICE AP_PRIV_RW DOMAIN_HW False))
         (peripheral_base mm AND SECTION_MASK) (section_end (peripheral_base mm) (peripheral_size mm)) s)) (\<lambda>s.
     Ok (enable_mmu l1 s)))"

definition arm_ap :: "u32 \<Rightarrow> u32" where
  "arm_ap flags =
     (if map_contains flags MAP_USER then (if map_contains flags MAP_WRITE then AP_FULL else AP_PRIV_RW_USER_RO)
      else if map_contains flags MAP_WRITE then AP_PRIV_RW else AP_PRIV_RO)"

definition arm_mem_type :: "u32 \<Rightarrow> u32" where
  "arm_mem_type flags =
     (if map_contains flags MAP_DEVICE then MEM_DEVICE
      else if map_contains flags MAP_CACHED then MEM_NORMAL_WRITEBACK else MEM_NORMAL_UNCACHED)"

definition arm_domain :: "u32 \<Rightarrow> u32" where
  "arm_domain flags = (if map_contains flags MAP_USER then DOMAIN_USER else DOMAIN_KERNEL)"

definition aligned_size :: "u32 \<Rightarrow> u32" where
  "aligned_size len = (len + SECTION_SIZE - 1) AND SECTION_MASK"

definition arm_map_region :: "u32 \<Rightarrow> u32 \<Rightarrow> u32 \<Rightarrow> u32 \<Rightarrow> arm_state \<Rightarrow> arm_state call" where
  "arm_map_region virt phys len flags s =
     (let ap = arm_ap flags; mem_type = arm_mem_type flags; exec = map_contains flags MAP_EXEC; domain = arm_domain flags;
          l1 = ar_l1 s in
      obind (of_loop (section_loop
          (\<lambda>offset. arm_poke (l1 + l1_index (virt + offset) * 4) (section_entry (phys + offset) mem_type ap domain exec))
          0 (aligned_size len) s)) (\<lambda>s.
      Ok (arm_invalidate_tlb_all s)))"

definition arm_unmap_region :: "u32 \<Rightarrow> u32 \<Rightarrow> arm_state \<Rightarrow> arm_state call" where
  "arm_unmap_region virt len s =
     (let l1 = ar_l1 s in
      of_loop (section_loop
        (\<lambda>offset s. arm_invalidate_tlb_entry (virt + offset) (arm_poke (l1 + l1_index (virt + offset) * 4) 0 s))
        0 (aligned_size len) s))"

definition arm_mmu :: "memory_map \<Rightarrow> u32 \<Rightarrow> arm_state mmu_ops" where
  "arm_mmu mm vectors =
     \<lparr>mmu_init = arm_init mm vectors, mmu_map_region = arm_map_region, mmu_unmap_region = arm_unmap_region,
      mmu_invalidate_tlb_entry = arm_invalidate_tlb_entry, mmu_invalidate_tlb_all = arm_invalidate_tlb_all\<rparr>"

section \<open>What the CPU does with the table\<close>

text \<open>
  Translation of a privileged read or write through a section, as the architecture manual defines
  it: the domain of the entry must be a client or manager domain, and a client obeys the access
  permissions.  The result is the physical address and the attributes of the section.
\<close>

definition domain_access :: "u32 \<Rightarrow> u32 \<Rightarrow> u32" where
  "domain_access dacr entry = shr dacr (2 * unat (drop_bit 5 entry AND 0xF)) AND 3"

definition priv_readable :: "u32 \<Rightarrow> bool" where
  "priv_readable entry \<longleftrightarrow> drop_bit 10 entry AND 3 \<noteq> 0"

definition arm_walk :: "memory \<Rightarrow> u32 \<Rightarrow> u32 \<Rightarrow> u32 \<Rightarrow> (u32 \<times> u32) option" where
  "arm_walk m ttbr0 dacr va =
     (let entry = read_u32 m ((ttbr0 AND 0xFFFFC000) + l1_index va * 4) in
      if is_section_entry entry \<and>
         (domain_access dacr entry = 3 \<or> domain_access dacr entry = 1 \<and> priv_readable entry)
      then Some ((entry AND SECTION_MASK) OR (va AND 0xFFFFF), entry AND 0xFFFFF) else None)"

end
