(* ===== verification/Arm_Mmu_Properties.thy ===== *)
theory Arm_Mmu_Properties
  imports Arm_Mmu
begin

text \<open>
  What the section table translates after initialisation and after mapping a region.
\<close>

section \<open>Slots of the table\<close>

definition slot :: "arm_state \<Rightarrow> u32 \<Rightarrow> nat \<Rightarrow> u32" where
  "slot s l1 j = read_u32 (ar_mem s) (l1 + of_nat j * 4)"

lemma unat_l1_slot:
  assumes "2 ^ 14 dvd unat (l1 :: u32)" "j < 4096"
  shows "unat (l1 + of_nat j * 4) = unat l1 + 4 * j" "unat l1 + 4 * j + 4 \<le> 2 ^ 32"
proof -
  obtain k where k: "unat l1 = 2 ^ 14 * k" using assms(1) by auto
  then have "k < 2 ^ 18" using unat_less [of l1] by simp
  then show fit: "unat l1 + 4 * j + 4 \<le> 2 ^ 32" using k assms(2) by simp
  have "unat (of_nat j * 4 :: u32) = 4 * j" using assms(2) by (simp add: unat_word_ariths unat_of_nat)
  then show "unat (l1 + of_nat j * 4) = unat l1 + 4 * j" using fit by (simp add: unat_add_small)
qed

lemma slot_poke:
  assumes "2 ^ 14 dvd unat l1" "i < 4096" "j < 4096"
  shows "slot (arm_poke (l1 + of_nat i * 4) v s) l1 j = (if j = i then v else slot s l1 j)"
proof (cases "j = i")
  case False
  note U = unat_l1_slot [OF assms(1,2)] unat_l1_slot [OF assms(1,3)]
  have "cells (l1 + of_nat i * 4) \<subseteq> span (unat l1 + 4 * i) 4" "cells (l1 + of_nat j * 4) \<subseteq> span (unat l1 + 4 * j) 4"
    using cells_span [of 4 "l1 + of_nat i * 4"] cells_span [of 4 "l1 + of_nat j * 4"] U by simp_all
  moreover have "span (unat l1 + 4 * i) 4 \<inter> span (unat l1 + 4 * j) 4 = {}"
    using False by (intro span_disjoint) linarith
  ultimately have "cells (l1 + of_nat i * 4) \<inter> cells (l1 + of_nat j * 4) = {}" by blast
  then show ?thesis using False by (simp add: slot_def arm_poke_def read_write_u32_other)
qed (simp add: slot_def arm_poke_def read_write_u32_same)

definition sect :: "nat \<Rightarrow> u32" where
  "sect j = of_nat j * SECTION_SIZE"

lemma unat_sect: "j < 4096 \<Longrightarrow> unat (sect j) = j * 2 ^ 20"
  by (simp add: sect_def SECTION_SIZE_def unat_word_ariths unat_of_nat)

lemma unat_l1_index: "unat (l1_index va) = unat va div 2 ^ 20"
  by (simp only: l1_index_def unat_drop_bit)

lemma l1_index_less: "unat (va :: u32) div 2 ^ 20 < 4096"
  using unat_less [of va] by (simp add: less_mult_imp_div_less)

lemma l1_index_of_nat: "l1_index va = of_nat (unat va div 2 ^ 20)"
  by (simp only: word_unat_eq_iff unat_l1_index unat_of_nat) (use l1_index_less [of va] in simp)

section \<open>The loops\<close>

lemma section_loop_fold:
  assumes "unat e = unat a + n * 2 ^ 20"
  shows "section_loop f a e s = Some (fold f (map (\<lambda>i. a + of_nat i * SECTION_SIZE) [0..<n]) s)"
  using assms
proof (induction n arbitrary: a s)
  case 0
  then have "\<not> a < e" by (simp add: word_less_nat_alt)
  then show ?case by (subst section_loop.simps) simp
next
  case (Suc n)
  have "unat a + 2 ^ 20 < 2 ^ 32" using Suc.prems unat_less [of e] by simp
  then have "unat (a + SECTION_SIZE) = unat a + 2 ^ 20" by (simp add: SECTION_SIZE_def unat_add_small)
  then have IH: "section_loop f (a + SECTION_SIZE) e (f a s) =
      Some (fold f (map (\<lambda>i. (a + SECTION_SIZE) + of_nat i * SECTION_SIZE) [0..<n]) (f a s))"
    using Suc.prems by (intro Suc.IH) simp
  have "a < e" using Suc.prems by (simp add: word_less_nat_alt)
  moreover have "map (\<lambda>i. a + of_nat i * SECTION_SIZE) [0..<Suc n] = a # map (\<lambda>i. (a + SECTION_SIZE) + of_nat i * SECTION_SIZE) [0..<n]"
    by (simp only: upt_conv_Cons map_Suc_upt [symmetric] zero_less_Suc) (simp add: algebra_simps)
  ultimately show ?case using IH by (subst section_loop.simps) simp
qed

lemma section_loop_empty: "e \<le> a \<Longrightarrow> section_loop f a e s = Some s"
  by (subst section_loop.simps) (simp add: not_less [symmetric])

text \<open>Writing the sections \<open>i\<close> to \<open>i + n\<close>, each entry computed from its number.\<close>

lemma slot_fold:
  assumes "2 ^ 14 dvd unat l1" "i + n \<le> 4096" "j < 4096"
  shows "slot (fold (\<lambda>k. arm_poke (l1 + of_nat k * 4) (g k)) [i..<i + n] s) l1 j =
    (if i \<le> j \<and> j < i + n then g j else slot s l1 j)"
  using assms(2)
proof (induction n)
  case (Suc n)
  have up: "[i..<i + Suc n] = [i..<i + n] @ [i + n]" by simp
  have lt: "i + n < 4096" using Suc.prems by simp
  show ?case
    unfolding up fold_append using slot_poke [OF assms(1) lt assms(3)] Suc by (simp add: less_Suc_eq)
qed auto

lemma ar_fold [simp]:
  "ar_l1 (fold (\<lambda>k. arm_poke (a k) (g k)) ks s) = ar_l1 s" "ar_dacr (fold (\<lambda>k. arm_poke (a k) (g k)) ks s) = ar_dacr s"
  "ar_ttbr0 (fold (\<lambda>k. arm_poke (a k) (g k)) ks s) = ar_ttbr0 s"
  by (induction ks arbitrary: s) (simp_all add: arm_poke_def)

section \<open>Entries\<close>

lemma mask_20: "(0xFFF00000 :: u32) = NOT (mask 20)" "(0xFFFFF :: u32) = mask 20" "(0xFFFFC000 :: u32) = NOT (mask 14)"
  by (simp_all add: mask_eq_exp_minus_1)

lemma section_masked: "a AND SECTION_MASK = sect (unat a div 2 ^ 20)"
  using unat_sect [OF l1_index_less [of a]] by (simp only: word_unat_eq_iff SECTION_MASK_def mask_20 unat_and_not_mask)

lemma entry_parts:
  assumes "c AND SECTION_MASK = 0"
  shows "((a AND SECTION_MASK) OR c) AND SECTION_MASK = a AND SECTION_MASK"
    "x AND SECTION_MASK = 0 \<Longrightarrow> ((a AND SECTION_MASK) OR c) AND x = c AND x"
proof -
  show "((a AND SECTION_MASK) OR c) AND SECTION_MASK = a AND SECTION_MASK"
    using assms by (simp add: bit.conj_disj_distrib2 and.assoc)
  assume x: "x AND SECTION_MASK = 0"
  have "(a AND SECTION_MASK) AND x = a AND (x AND SECTION_MASK)" by (simp only: ac_simps)
  then show "((a AND SECTION_MASK) OR c) AND x = c AND x" by (simp add: bit.conj_disj_distrib2 x)
qed

lemma drop_and: "drop_bit n e AND drop_bit n x = drop_bit n (e AND (x :: u32))"
  by (rule drop_bit_and [symmetric])

lemma sect_add: "sect i + of_nat k * SECTION_SIZE = sect (i + k)"
  by (simp add: sect_def distrib_right)

lemma l1_index_sect: "k < 4096 \<Longrightarrow> l1_index (sect k) = of_nat k"
  by (simp add: l1_index_of_nat unat_sect)

lemma section_loop_sections:
  assumes "i \<le> n" "n < 4096"
  shows "section_loop (\<lambda>addr. arm_poke (l1 + l1_index addr * 4) (h addr)) (sect i) (sect n) s =
    Some (fold (\<lambda>k. arm_poke (l1 + of_nat k * 4) (h (sect k))) [i..<n] s)"
proof -
  have "unat (sect n) = unat (sect i) + (n - i) * 2 ^ 20" using assms by (simp add: unat_sect flip: distrib_right)
  moreover have "map (\<lambda>k. sect i + of_nat k * SECTION_SIZE) [0..<n - i] = map sect [i..<n]"
  proof -
    have "[i..<n] = map (\<lambda>k. k + i) [0..<n - i]" using map_add_upt [of i "n - i"] assms(1) by simp
    then show ?thesis by (simp add: sect_add add.commute)
  qed
  moreover have "fold (\<lambda>addr. arm_poke (l1 + l1_index addr * 4) (h addr)) (map sect [i..<n]) s =
      fold (\<lambda>k. arm_poke (l1 + of_nat k * 4) (h (sect k))) [i..<n] s"
    using assms(2) by (simp add: fold_map comp_def) (intro fold_cong, auto simp: l1_index_sect)
  ultimately show ?thesis using section_loop_fold by simp
qed

lemma section_end_sect:
  assumes "unat base + unat len + 2 ^ 20 \<le> 2 ^ 32"
  shows "section_end base len = sect ((unat base + unat len + (2 ^ 20 - 1)) div 2 ^ 20)"
proof -
  have "unat (base + len + 0xFFFFF) = unat base + unat len + (2 ^ 20 - 1)" using assms by (simp add: unat_add_small)
  moreover have "base + len + SECTION_SIZE - 1 = base + len + 0xFFFFF" by (simp add: SECTION_SIZE_def)
  ultimately show ?thesis by (simp only: section_end_def section_masked)
qed

section \<open>Initialisation\<close>

text \<open>The numbers of the sections that hold \<open>len\<close> bytes from \<open>base\<close>.\<close>

definition sections :: "u32 \<Rightarrow> u32 \<Rightarrow> nat set" where
  "sections base len = {unat base div 2 ^ 20..<(unat base + unat len + (2 ^ 20 - 1)) div 2 ^ 20}"

definition ram_entry :: "nat \<Rightarrow> u32" where
  "ram_entry j = section_entry (sect j) MEM_NORMAL_WRITEBACK AP_PRIV_RW DOMAIN_KERNEL True"

definition device_entry :: "nat \<Rightarrow> u32" where
  "device_entry j = section_entry (sect j) MEM_DEVICE AP_PRIV_RW DOMAIN_HW False"

definition arm_translate :: "arm_state \<Rightarrow> u32 \<Rightarrow> (u32 \<times> u32) option" where
  "arm_translate s va = arm_walk (ar_mem s) (ar_ttbr0 s) (ar_dacr s) va"

lemma section_loop_region:
  assumes l1: "2 ^ 14 dvd unat l1" and fit: "unat base + unat len + 2 ^ 20 \<le> 2 ^ 32"
  obtains s' where "section_loop (\<lambda>addr. arm_poke (l1 + l1_index addr * 4) (h addr)) (base AND SECTION_MASK) (section_end base len) s = Some s'"
    and "\<And>j. j < 4096 \<Longrightarrow> slot s' l1 j = (if j \<in> sections base len then h (sect j) else slot s l1 j)"
    and "ar_dacr s' = ar_dacr s" "ar_ttbr0 s' = ar_ttbr0 s" "ar_l1 s' = ar_l1 s"
proof -
  let ?i = "unat base div 2 ^ 20" and ?n = "(unat base + unat len + (2 ^ 20 - 1)) div 2 ^ 20"
  have n: "?n < 4096" using fit by (intro less_mult_imp_div_less) simp
  have le: "?i \<le> ?n" by (rule div_le_mono) simp
  note L = section_loop_sections [OF le n, of l1 h s]
  let ?s = "fold (\<lambda>k. arm_poke (l1 + of_nat k * 4) (h (sect k))) [?i..<?n] s"
  have "slot ?s l1 j = (if j \<in> sections base len then h (sect j) else slot s l1 j)" if "j < 4096" for j
  proof -
    have "?i + (?n - ?i) = ?n" using le by simp
    then show ?thesis using slot_fold [OF l1 _ that, of ?i "?n - ?i" "\<lambda>k. h (sect k)" s] n by (simp add: sections_def)
  qed
  then show thesis using that [of ?s] L by (simp add: section_masked section_end_sect [OF fit])
qed

lemma arm_init_slots:
  assumes l1: "2 ^ 14 dvd unat l1"
    and fit: "unat (ram_start mm) + unat (ram_size mm) + 2 ^ 20 \<le> 2 ^ 32" "unat (peripheral_base mm) + unat (peripheral_size mm) + 2 ^ 20 \<le> 2 ^ 32"
  shows "\<exists>s'. arm_init mm vectors l1 s = Ok (enable_mmu l1 s') \<and>
    (\<forall>j<4096. slot s' l1 j =
      (if j \<in> sections (peripheral_base mm) (peripheral_size mm) then device_entry j
       else if j \<in> sections (ram_start mm) (ram_size mm) \<or> j = unat vectors div 2 ^ 20 then ram_entry j
       else slot s l1 j))"
proof -
  obtain s1 where s1: "section_loop (\<lambda>addr. arm_poke (l1 + l1_index addr * 4) (section_entry addr MEM_NORMAL_WRITEBACK AP_PRIV_RW DOMAIN_KERNEL True))
      (ram_start mm AND SECTION_MASK) (section_end (ram_start mm) (ram_size mm)) s = Some s1"
    "\<And>j. j < 4096 \<Longrightarrow> slot s1 l1 j = (if j \<in> sections (ram_start mm) (ram_size mm) then ram_entry j else slot s l1 j)"
    using section_loop_region [OF l1 fit(1), where h = "\<lambda>addr. section_entry addr MEM_NORMAL_WRITEBACK AP_PRIV_RW DOMAIN_KERNEL True" and s = s]
    unfolding ram_entry_def by blast
  let ?v = "unat vectors div 2 ^ 20"
  define s2 where "s2 = arm_poke (l1 + l1_index (vectors AND SECTION_MASK) * 4)
    (section_entry (vectors AND SECTION_MASK) MEM_NORMAL_WRITEBACK AP_PRIV_RW DOMAIN_KERNEL True) s1"
  have v: "?v < 4096" by (rule l1_index_less)
  have "s2 = arm_poke (l1 + of_nat ?v * 4) (ram_entry ?v) s1"
    unfolding s2_def section_masked ram_entry_def by (simp only: l1_index_sect [OF v])
  then have s2: "slot s2 l1 j = (if j = ?v then ram_entry ?v else slot s1 l1 j)" if "j < 4096" for j
    using slot_poke [OF l1 v that] by (simp only:)
  obtain s3 where s3: "section_loop (\<lambda>addr. arm_poke (l1 + l1_index addr * 4) (section_entry addr MEM_DEVICE AP_PRIV_RW DOMAIN_HW False))
      (peripheral_base mm AND SECTION_MASK) (section_end (peripheral_base mm) (peripheral_size mm)) s2 = Some s3"
    "\<And>j. j < 4096 \<Longrightarrow> slot s3 l1 j = (if j \<in> sections (peripheral_base mm) (peripheral_size mm) then device_entry j else slot s2 l1 j)"
    using section_loop_region [OF l1 fit(2), where h = "\<lambda>addr. section_entry addr MEM_DEVICE AP_PRIV_RW DOMAIN_HW False" and s = s2]
    unfolding device_entry_def by blast
  have "arm_init mm vectors l1 s = Ok (enable_mmu l1 s3)"
    by (simp add: arm_init_def s1(1) s3(1) Let_def flip: s2_def)
  then show ?thesis using s1(2) s2 s3(2) by auto
qed

lemma section_entry_parts:
  "section_entry a MEM_NORMAL_WRITEBACK AP_PRIV_RW DOMAIN_KERNEL True = (a AND SECTION_MASK) OR 0x140E"
  "section_entry a MEM_DEVICE AP_PRIV_RW DOMAIN_HW False = (a AND SECTION_MASK) OR 0x456"
  by (simp_all add: section_entry_def ap_bits_def MEM_NORMAL_WRITEBACK_def MEM_DEVICE_def AP_PRIV_RW_def DOMAIN_KERNEL_def DOMAIN_HW_def
      Let_def or.assoc)

lemma section_bits:
  assumes "c AND SECTION_MASK = 0"
  shows "((a AND SECTION_MASK) OR c) AND 3 = c AND 3"
    "drop_bit 5 ((a AND SECTION_MASK) OR c) AND 0xF = drop_bit 5 c AND 0xF"
    "drop_bit 10 ((a AND SECTION_MASK) OR c) AND 3 = drop_bit 10 c AND 3"
    "((a AND SECTION_MASK) OR c) AND 0xFFFFF = c AND 0xFFFFF"
proof -
  have z: "(3 :: u32) AND SECTION_MASK = 0" "(0x1E0 :: u32) AND SECTION_MASK = 0" "(0xC00 :: u32) AND SECTION_MASK = 0"
    "(0xFFFFF :: u32) AND SECTION_MASK = 0" by (simp_all add: SECTION_MASK_def)
  show "((a AND SECTION_MASK) OR c) AND 3 = c AND 3" "((a AND SECTION_MASK) OR c) AND 0xFFFFF = c AND 0xFFFFF"
    by (rule entry_parts(2) [OF assms], rule z)+
  have d: "drop_bit 5 (0x1E0 :: u32) = 0xF" "drop_bit 10 (0xC00 :: u32) = 3" by simp_all
  show "drop_bit 5 ((a AND SECTION_MASK) OR c) AND 0xF = drop_bit 5 c AND 0xF"
    unfolding d(1) [symmetric] drop_and by (simp only: entry_parts(2) [OF assms z(2)])
  show "drop_bit 10 ((a AND SECTION_MASK) OR c) AND 3 = drop_bit 10 c AND 3"
    unfolding d(2) [symmetric] drop_and by (simp only: entry_parts(2) [OF assms z(3)])
qed

lemma entry_walks:
  assumes "j = unat va div 2 ^ 20"
  shows "is_section_entry (ram_entry j)" "domain_access 1 (ram_entry j) = 1" "priv_readable (ram_entry j)"
    "(ram_entry j AND SECTION_MASK) OR (va AND 0xFFFFF) = va" "ram_entry j AND 0xFFFFF = 0x140E"
    "domain_access 1 (device_entry j) = 0"
proof -
  have s: "sect j = va AND SECTION_MASK" using assms by (simp only: section_masked)
  have c: "(0x140E :: u32) AND SECTION_MASK = 0" "(0x456 :: u32) AND SECTION_MASK = 0" by (simp_all add: SECTION_MASK_def)
  have idem: "(va AND SECTION_MASK) AND SECTION_MASK = va AND SECTION_MASK" by (simp add: and.assoc)
  have e: "ram_entry j = (va AND SECTION_MASK) OR 0x140E" "device_entry j = (va AND SECTION_MASK) OR 0x456"
    unfolding ram_entry_def device_entry_def s section_entry_parts idem by (rule refl)+
  show "is_section_entry (ram_entry j)" unfolding is_section_entry_def e section_bits(1) [OF c(1)] by simp
  show "domain_access 1 (ram_entry j) = 1" unfolding domain_access_def e section_bits(2) [OF c(1)] by (simp add: shr_def)
  show "domain_access 1 (device_entry j) = 0" unfolding domain_access_def e section_bits(2) [OF c(2)] by (simp add: shr_def)
  show "priv_readable (ram_entry j)" unfolding priv_readable_def e section_bits(3) [OF c(1)] by simp
  show "ram_entry j AND 0xFFFFF = 0x140E" unfolding e section_bits(4) [OF c(1)] by simp
  have "(va AND NOT (mask 20)) OR (va AND mask 20) = va" by (simp add: bit.conj_disj_distrib [symmetric])
  then show "(ram_entry j AND SECTION_MASK) OR (va AND 0xFFFFF) = va"
    unfolding e entry_parts(1) [OF c(1)] by (simp only: SECTION_MASK_def mask_20)
qed

lemma enable_mmu_translate:
  assumes "2 ^ 14 dvd unat l1"
  shows "arm_translate (enable_mmu l1 s) va =
    (let e = slot s l1 (unat va div 2 ^ 20) in
     if is_section_entry e \<and> (domain_access 1 e = 3 \<or> domain_access 1 e = 1 \<and> priv_readable e)
     then Some ((e AND SECTION_MASK) OR (va AND 0xFFFFF), e AND 0xFFFFF) else None)"
proof -
  have "l1 AND NOT (mask 14) = l1" using assms by (simp only: word_unat_eq_iff unat_and_not_mask dvd_div_mult_self)
  then have "(l1 OR 0x41) AND 0xFFFFC000 = l1" by (simp add: bit.conj_disj_distrib2 mask_20 del: mask_eq_exp_minus_1) (simp flip: mask_20)
  then show ?thesis
    by (simp add: arm_translate_def arm_walk_def enable_mmu_def arm_invalidate_tlb_all_def slot_def l1_index_of_nat or.assoc Let_def)
qed

text \<open>
  C35. The Raspberry Pi's address space after initialisation.  For a zeroed, 16 KB-aligned table the
  loops end, the MMU is on, and every address of the RAM sections and of the vector section
  translates to itself as executable write-back memory.  Every other address faults -- among them
  the whole peripheral window: its sections are filled in, but in a domain that the domain access
  register leaves without access.
\<close>

theorem arm_init_translates:
  assumes l1: "2 ^ 14 dvd unat l1" and zero: "\<forall>j<4096. slot s l1 j = 0"
    and fit: "unat (ram_start mm) + unat (ram_size mm) + 2 ^ 20 \<le> 2 ^ 32"
      "unat (peripheral_base mm) + unat (peripheral_size mm) + 2 ^ 20 \<le> 2 ^ 32"
  shows "\<exists>s'. arm_init mm vectors l1 s = Ok s' \<and> bit (ar_sctlr s') 0 \<and> ar_tlb s' = {} \<and>
    (\<forall>va. arm_translate s' va =
      (if unat va div 2 ^ 20 \<notin> sections (peripheral_base mm) (peripheral_size mm) \<and>
          (unat va div 2 ^ 20 \<in> sections (ram_start mm) (ram_size mm) \<or> unat va div 2 ^ 20 = unat vectors div 2 ^ 20)
       then Some (va, 0x140E) else None))"
proof -
  obtain s1 where s1: "arm_init mm vectors l1 s = Ok (enable_mmu l1 s1)" "\<And>j. j < 4096 \<Longrightarrow> slot s1 l1 j =
      (if j \<in> sections (peripheral_base mm) (peripheral_size mm) then device_entry j
       else if j \<in> sections (ram_start mm) (ram_size mm) \<or> j = unat vectors div 2 ^ 20 then ram_entry j
       else slot s l1 j)" using arm_init_slots [OF l1 fit] by blast
  have z: "\<not> is_section_entry 0" by (simp add: is_section_entry_def)
  have "arm_translate (enable_mmu l1 s1) va =
      (if unat va div 2 ^ 20 \<notin> sections (peripheral_base mm) (peripheral_size mm) \<and>
          (unat va div 2 ^ 20 \<in> sections (ram_start mm) (ram_size mm) \<or> unat va div 2 ^ 20 = unat vectors div 2 ^ 20)
       then Some (va, 0x140E) else None)" for va
    unfolding enable_mmu_translate [OF l1] s1(2) [OF l1_index_less]
    using zero l1_index_less [of va] entry_walks [OF refl, of va] z by (simp add: Let_def)
  moreover have "bit (ar_sctlr (enable_mmu l1 s1)) 0" "ar_tlb (enable_mmu l1 s1) = {}"
    by (simp_all add: enable_mmu_def arm_invalidate_tlb_all_def Let_def bit_or_iff)
  ultimately show ?thesis using s1(1) by blast
qed

text \<open>The board of the Raspberry Pi Zero, with the table behind the kernel at 1 MB.\<close>

definition pi_map :: memory_map where
  "pi_map = \<lparr>ram_start = 0, ram_size = 0x20000000, peripheral_base = 0x20000000, peripheral_size = 0x1000000\<rparr>"

definition cold_arm :: arm_state where
  "cold_arm = \<lparr>ar_mem = (\<lambda>_. 0), ar_l1 = 0x100000, ar_ttbr0 = 0, ar_ttbcr = 0, ar_dacr = 0, ar_sctlr = 0, ar_tlb = {}\<rparr>"

theorem arm_init_translates_witness:
  "\<exists>s'. arm_init pi_map 0x8000 0x100000 cold_arm = Ok s' \<and> arm_translate s' 0x1FFFFFFF = Some (0x1FFFFFFF, 0x140E) \<and>
    arm_translate s' 0x20201000 = None"
proof -
  have z: "\<forall>j<4096. slot cold_arm 0x100000 j = 0" by (simp add: slot_def cold_arm_def read_u32_def from_le32_def)
  have "(2::nat) ^ 14 dvd unat (0x100000 :: u32)" by simp
  from arm_init_translates [OF this z, of pi_map "0x8000"] show ?thesis
    by (auto simp: pi_map_def sections_def)
qed

section \<open>Mapping a region\<close>

lemma aligned_size_sections:
  assumes "unat len + (2 ^ 20 - 1) < 2 ^ 32"
  shows "unat (aligned_size len) = (unat len + (2 ^ 20 - 1)) div 2 ^ 20 * 2 ^ 20"
proof -
  have "unat (len + 0xFFFFF) = unat len + (2 ^ 20 - 1)" using assms by (simp add: unat_add_small)
  moreover have "len + SECTION_SIZE - 1 = len + 0xFFFFF" by (simp add: SECTION_SIZE_def)
  ultimately show ?thesis by (simp only: aligned_size_def SECTION_MASK_def mask_20 unat_and_not_mask)
qed

lemma l1_index_offset:
  assumes "unat virt div 2 ^ 20 + k < 4096"
  shows "l1_index (virt + of_nat k * SECTION_SIZE) = of_nat (unat virt div 2 ^ 20 + k)"
proof -
  have k: "unat (of_nat k * SECTION_SIZE :: u32) = k * 2 ^ 20" using assms unat_sect [of k] by (simp add: sect_def)
  have "unat virt < (unat virt div 2 ^ 20 + 1) * 2 ^ 20" by (simp add: dividend_less_div_times)
  also have "\<dots> \<le> (4096 - k) * 2 ^ 20" using assms by (intro mult_right_mono) simp_all
  finally have "unat virt + k * 2 ^ 20 < 2 ^ 32" using assms by (simp add: diff_mult_distrib)
  then have "unat (virt + of_nat k * SECTION_SIZE) = unat virt + k * 2 ^ 20" using k by (simp add: unat_add_small)
  then show ?thesis by (simp only: l1_index_of_nat div_mult_self1 zero_less_numeral zero_less_power) simp
qed

text \<open>
  Mapping writes one entry for each of the \<open>\<lceil>len / 1 MB\<rceil>\<close> sections from the one that holds \<open>virt\<close> on;
  so the region is covered when \<open>virt\<close> is the start of a section, and may lack its last section
  otherwise.
\<close>

lemma arm_map_region_slots:
  assumes l1: "2 ^ 14 dvd unat (ar_l1 s)" and len: "unat len + (2 ^ 20 - 1) < 2 ^ 32"
    and fit: "unat virt div 2 ^ 20 + (unat len + (2 ^ 20 - 1)) div 2 ^ 20 \<le> 4096"
  defines "v \<equiv> unat virt div 2 ^ 20" and "n \<equiv> (unat len + (2 ^ 20 - 1)) div 2 ^ 20"
  shows "\<exists>s'. arm_map_region virt phys len flags s = Ok s' \<and> ar_tlb s' = {} \<and> (\<forall>j<4096. slot s' (ar_l1 s) j =
    (if v \<le> j \<and> j < v + n
     then section_entry (phys + of_nat (j - v) * SECTION_SIZE) (arm_mem_type flags) (arm_ap flags) (arm_domain flags) (map_contains flags MAP_EXEC)
     else slot s (ar_l1 s) j))"
proof -
  define g where "g = (\<lambda>j. section_entry (phys + of_nat (j - v) * SECTION_SIZE) (arm_mem_type flags) (arm_ap flags) (arm_domain flags)
    (map_contains flags MAP_EXEC))"
  define f where "f = (\<lambda>offset. arm_poke (ar_l1 s + l1_index (virt + offset) * 4)
    (section_entry (phys + offset) (arm_mem_type flags) (arm_ap flags) (arm_domain flags) (map_contains flags MAP_EXEC)))"
  have "unat (aligned_size len) = unat (0 :: u32) + n * 2 ^ 20" using aligned_size_sections [OF len] by (simp add: n_def)
  then have loop: "section_loop f 0 (aligned_size len) s = Some (fold f (map (\<lambda>i. 0 + of_nat i * SECTION_SIZE) [0..<n]) s)"
    by (rule section_loop_fold)
  have "fold f (map (\<lambda>i. 0 + of_nat i * SECTION_SIZE) [0..<n]) s = fold (\<lambda>k. arm_poke (ar_l1 s + of_nat k * 4) (g k)) (map (\<lambda>k. k + v) [0..<n]) s"
    unfolding fold_map using fit
    by (intro fold_cong) (auto simp: f_def g_def v_def n_def l1_index_offset add.commute)
  also have "map (\<lambda>k. k + v) [0..<n] = [v..<v + n]" by (simp add: map_add_upt add.commute)
  finally have F: "section_loop f 0 (aligned_size len) s = Some (fold (\<lambda>k. arm_poke (ar_l1 s + of_nat k * 4) (g k)) [v..<v + n] s)"
    using loop by simp
  have "v + n \<le> 4096" using fit by (simp add: v_def n_def)
  note S = slot_fold [OF l1 this, of _ g s]
  have "arm_map_region virt phys len flags s =
      Ok (arm_invalidate_tlb_all (fold (\<lambda>k. arm_poke (ar_l1 s + of_nat k * 4) (g k)) [v..<v + n] s))"
    using F by (simp add: arm_map_region_def f_def Let_def)
  then show ?thesis using S by (auto simp: slot_def arm_invalidate_tlb_all_def g_def)
qed

end
