(* ===== verification/Kernel_Memory.thy ===== *)
theory Kernel_Memory
  imports Boot_Properties Page_Properties Heap_Properties
begin

text \<open>
  The memory layout of the running kernel (\<^verbatim>\<open>setup_memory_management\<close> of \<^verbatim>\<open>kernel/src/kcore/init.rs\<close>): the page
  table, the heap and the pages behind the kernel image.  The end of the kernel image is a symbol
  of the linker and so a parameter; an \<^verbatim>\<open>assert!\<close> that fails is a panic.
\<close>

section \<open>Operations\<close>

record kernel_memory =
  km_mem :: memory
  km_heap :: "buddy_allocator option"
  km_pages :: "buddy_allocator option"
  km_table :: u32

record memory_layout =
  kernel_end :: u32
  heap_start :: u32
  heap_end :: u32
  page_alloc_start :: u32
  page_alloc_end :: u32
  page_table :: "(u32 \<times> u32) option"

definition get_kernel_end_address :: "architecture \<Rightarrow> u32 \<Rightarrow> u32" where
  "get_kernel_end_address target symbol =
     (if target = X86 then (if 0x100000 < symbol \<and> symbol < 0x6400000 then symbol else 0x100000 + 2 * 1024 * 1024)
      else if target = Arm then symbol
      else 0x200000)"

definition page_up :: "u32 \<Rightarrow> u32" where
  "page_up a = (a + 0xFFF) AND NOT 0xFFF"

text \<open>\<^verbatim>\<open>assert!\<close>, and the check that an interval does not overlap the peripheral window.\<close>

definition assert_that :: "bool \<Rightarrow> unit call" where
  "assert_that c = (if c then Ok () else Panic)"

definition assert_no_mmio :: "memory_map \<Rightarrow> u32 \<Rightarrow> u32 \<Rightarrow> unit call" where
  "assert_no_mmio mm start end' =
     (if 0 < peripheral_size mm
      then let periph_end = peripheral_base mm + peripheral_size mm in
        assert_that (end' \<le> peripheral_base mm \<or> periph_end \<le> start)
      else Ok ())"

definition table_size :: "architecture \<Rightarrow> u32" where
  "table_size target = (if target = Arm then 16 * 1024 else 4 * 1024)"

text \<open>Reserving the page table; on a target without one nothing is reserved.\<close>

definition reserve_table :: "architecture \<Rightarrow> memory_map \<Rightarrow> u32 \<Rightarrow> kernel_memory \<Rightarrow> (u32 \<times> kernel_memory) call" where
  "reserve_table target mm free_mem_start s =
     (if target = Arm \<or> target = X86 then
        let size' = table_size target;
            start = (free_mem_start + size' - 1) AND NOT (size' - 1);
            end' = start + size' in
        obind (assert_no_mmio mm start end') (\<lambda>_.
          Ok (page_up end', s\<lparr>km_mem := write_bytes (km_mem s) start 0 size', km_table := start\<rparr>))
      else Ok (free_mem_start, s))"

definition setup_memory_management ::
  "architecture \<Rightarrow> u32 \<Rightarrow> platform \<Rightarrow> kernel_memory \<Rightarrow> (memory_layout \<times> kernel_memory) call" where
  "setup_memory_management target symbol p s =
     obind (get_memory_map p) (\<lambda>mm.
     let k_end = get_kernel_end_address target symbol;
         free_mem_start = page_up k_end;
         ram_end = ram_start mm + ram_size mm in
     obind (assert_that (ram_start mm \<le> free_mem_start \<and> free_mem_start < ram_end)) (\<lambda>_.
     obind (if 0 < peripheral_size mm
            then assert_that (free_mem_start < peripheral_base mm \<or> peripheral_base mm + peripheral_size mm \<le> free_mem_start)
            else Ok ()) (\<lambda>_.
     obind (reserve_table target mm free_mem_start s) (\<lambda>(post_table_start, s).
     let usable_ram_end =
           (if 0 < peripheral_size mm \<and> post_table_start \<le> peripheral_base mm \<and> peripheral_base mm < ram_end
            then peripheral_base mm else ram_end);
         available_ram = saturating_sub usable_ram_end post_table_start;
         heap_size = min (16 * 1024 * 1024) (available_ram div 10);
         h_start = post_table_start;
         h_end = h_start + heap_size;
         p_start = page_up h_end;
         p_end = usable_ram_end in
     obind (assert_no_mmio mm p_start p_end) (\<lambda>_.
     obind (init_heap (km_heap s, km_mem s) h_start h_end) (\<lambda>(heap, m).
     obind (page_allocator_init (km_pages s, m) p_start p_end) (\<lambda>(pages, m).
     let s = s\<lparr>km_mem := m, km_heap := heap, km_pages := pages\<rparr> in
     Ok (\<lparr>kernel_end = k_end, heap_start = h_start, heap_end = h_end, page_alloc_start = p_start, page_alloc_end = p_end,
          page_table = (if target = Arm \<or> target = X86 then Some (km_table s, km_table s + table_size target) else None)\<rparr>, s))))))))"

end
