(* ===== verification/Kernel_Memory_Properties.thy ===== *)
theory Kernel_Memory_Properties
  imports Kernel_Memory
begin

text \<open>
  The memory layout is sound: page table, heap and page region are disjoint parts of the RAM
  behind the kernel image and outside the peripheral window, and both allocators start on their
  regions without disturbing each other.
\<close>

section \<open>What initialising an allocator writes\<close>

lemma unat_less_32: "unat (a :: u32) < 2 ^ 32"
  using unat_less [of a] by simp

lemma add_to_free_list_frame:
  fixes e :: u32
  assumes "unat x \<notin> {unat c..<unat e}" "unat c + 8 \<le> unat e"
  shows "snd (add_to_free_list s c i) x = snd s x"
proof -
  have "cells c \<subseteq> span (unat c) 4" using assms(2) unat_less_32 [of e] by (intro cells_span) simp_all
  then have "x \<notin> cells c" using assms by (auto simp: span_def)
  then show ?thesis by (cases s) (simp add: add_to_free_list_def write_u32_other)
qed

lemma add_to_free_list_mbs: "min_block_size (fst (add_to_free_list s c i)) = min_block_size (fst s)"
  by (cases s) (simp add: add_to_free_list_def)

lemmas init_loop_induct = init_loop.raw_induct [rotated, consumes 1, case_names step]

lemma init_loop_frame:
  assumes "init_loop s c e = Some s'" "3 \<le> k" "k + MAX_ORDER < 32"
    and "min_block_size (fst s) = 2 ^ k" "unat c \<le> unat e" "unat e + 2 ^ k < 2 ^ 32" "unat x \<notin> {unat c..<unat e}"
  shows "snd s' x = snd s x"
  using assms
proof (induction s c e s' rule: init_loop_induct)
  case (step rec s c e s')
  have k8: "8 \<le> (2::nat) ^ k" using power_increasing [of 3 k "2::nat"] step.prems(1) by simp
  have um: "unat ((2::u32) ^ k) = 2 ^ k" using step.prems(2) by (intro unat_pow2) simp
  have cm: "unat (c + 2 ^ k) = unat c + 2 ^ k" using step.prems(4,5) um by (simp add: unat_add_small)
  show ?case
  proof (cases "c + 2 ^ k \<le> e")
    case False
    then show ?thesis using step.hyps step.prems(3) by (simp add: Let_def)
  next
    case True
    define i where "i = init_order (2 ^ k) (e - c) c MAX_ORDER"
    have le: "unat c + 2 ^ k \<le> unat e" using True cm by (simp add: word_le_nat_alt)
    have rem: "unat (e - c) = unat e - unat c" using le by (simp add: unat_sub_le word_le_nat_alt)
    have deeper: "snd s' x = snd (add_to_free_list s c j) x"
      if r: "rec (add_to_free_list s c j) (c + d) e = Some s'" and d: "unat c + unat d \<le> unat e" for j d
    proof -
      have "unat (c + d) = unat c + unat d" using d unat_less_32 [of e] by (simp add: unat_add_small)
      then show ?thesis
        using step.IH [OF r step.prems(1,2)] step.prems d by (auto simp: add_to_free_list_mbs)
    qed
    have keep: "snd (add_to_free_list s c j) x = snd s x" for j
      using add_to_free_list_frame [of x c e s j] step.prems(6) le k8 by simp
    show ?thesis
    proof (cases "0 < i")
      case True
      note f = init_order_fits [OF step.prems(2) order.refl, of "e - c" c, folded i_def, OF True]
      have "unat (shl (2 ^ k :: u32) i) = bsize k i"
        using shl_pow2 [of k i, where 'a = 32] f(1) step.prems(2) by (simp add: unat_pow2 bsize_def)
      then have "unat c + unat (shl (2 ^ k :: u32) i) \<le> unat e" using f(2) rem le by simp
      moreover have "rec (add_to_free_list s c i) (c + shl (2 ^ k) i) e = Some s'"
        using step.hyps step.prems(3) \<open>c + 2 ^ k \<le> e\<close> True by (simp add: Let_def i_def)
      ultimately show ?thesis using deeper keep by simp
    next
      case False
      have "2 ^ k \<le> e - c" using rem le um by (simp add: word_le_nat_alt)
      then have "rec (add_to_free_list s c 0) (c + 2 ^ k) e = Some s'"
        using step.hyps step.prems(3) \<open>c + 2 ^ k \<le> e\<close> False by (simp add: Let_def i_def)
      then show ?thesis using deeper [of 0 "2 ^ k"] keep le um by simp
    qed
  qed
qed

lemma buddy_init_frame:
  assumes "region_ok k st en" "buddy_init (buddy_new (2 ^ k), m) st en = Some s"
    and "unat x \<notin> {round_up k (unat st)..<round_down k (unat en)}"
  shows "snd s x = m x"
proof -
  let ?st = "(st + 2 ^ k - 1) AND NOT (2 ^ k - 1) :: u32" and ?en = "en AND NOT (2 ^ k - 1) :: u32"
  have r: "3 \<le> k" "k + MAX_ORDER < 32" "unat st + 2 ^ k \<le> 2 ^ 32" "round_up k (unat st) \<le> round_down k (unat en)"
    "unat en + 2 ^ k < 2 ^ 32" using assms(1) by (auto simp: region_ok_def)
  have u: "unat ?st = round_up k (unat st)" "unat ?en = round_down k (unat en)"
    using r(2,3) unat_round_up [of st k] unat_round_down [of en k] by simp_all
  have "round_down k (unat en) + 2 ^ k < 2 ^ 32" using r(5) round_down_le [of k "unat en"] by simp
  moreover have "init_loop (buddy_new (2 ^ k)\<lparr>base_addr := ?st, total_size := ?en - ?st,
      free_lists := replicate (MAX_ORDER + 1) 0\<rparr>, m) ?st ?en = Some s"
    using assms(2) by (simp add: buddy_init_def buddy_new_def Let_def)
  ultimately show ?thesis
    using init_loop_frame [of _ ?st ?en s k x] r u assms(3) by (simp add: buddy_new_def)
qed

lemma buddy_inv_frame:
  assumes I: "buddy_inv k (b, m) F A"
    and eq: "\<And>x. unat x \<in> {unat (base_addr b)..<unat (base_addr b) + unat (total_size b)} \<Longrightarrow> m' x = m x"
  shows "buddy_inv k (b, m') F A"
proof -
  have k: "3 \<le> k" and fit: "unat (base_addr b) + unat (total_size b) < 2 ^ 32"
    and T: "tiling k (unat (base_addr b)) (unat (base_addr b) + unat (total_size b)) (frees F \<union> A)" and l: "length F = MAX_ORDER + 1"
    using I by (auto simp: buddy_inv_def)
  have "chain m' (free_lists b ! order) (F ! order) = chain m (free_lists b ! order) (F ! order)" if o: "order \<le> MAX_ORDER" for order
  proof (rule seg_frame)
    fix a x assume a: "a \<in> set (F ! order)" and x: "x \<in> cells a"
    have "block_ok k (unat (base_addr b)) (unat (base_addr b) + unat (total_size b)) (a, order)"
      using T a o l by (auto simp: tiling_def frees_def)
    then have B: "unat (base_addr b) \<le> unat a" "unat a + bsize k order \<le> unat (base_addr b) + unat (total_size b)"
      by (simp_all add: block_ok_def)
    have "4 \<le> bsize k order" using power_increasing [of 2 "k + order" "2::nat"] k by (simp add: bsize_def)
    then have "cells a \<subseteq> span (unat a) (bsize k order)" using B fit by (intro cells_span) simp_all
    then show "m' x = m x" using x B by (intro eq) (auto simp: span_def)
  qed
  then show ?thesis using I by (auto simp: buddy_inv_def)
qed

lemma heap_start_state:
  assumes "region_ok 5 st en"
  obtains b m' where "heap_init (None, m) st en = Ok (Some b, m')"
    and "\<And>m''. (\<And>x. unat x \<in> {round_up 5 (unat st)..<round_down 5 (unat en)} \<Longrightarrow> m'' x = m' x) \<Longrightarrow> heap_inv st en (Some b, m'') {}"
    and "\<And>x. unat x \<notin> {round_up 5 (unat st)..<round_down 5 (unat en)} \<Longrightarrow> m' x = m x"
proof -
  obtain t where t: "buddy_init (buddy_new (2 ^ 5), m) st en = Some t" using buddy_init_establishes [OF assms] by metis
  obtain F where F: "machine_inv 5 st en t F {}" using reachable_inv [OF reach_init [OF assms t]] by auto
  obtain b m' where t': "t = (b, m')" by (cases t)
  show thesis
  proof (rule that)
    show "heap_init (None, m) st en = Ok (Some b, m')" using t t' by (simp add: heap_init_def MIN_BLOCK_SIZE_def)
    show "heap_inv st en (Some b, m'') {}"
      if "\<And>x. unat x \<in> {round_up 5 (unat st)..<round_down 5 (unat en)} \<Longrightarrow> m'' x = m' x" for m''
    proof -
      have "buddy_inv 5 (b, m) F {} \<Longrightarrow> buddy_inv 5 (b, m'') F {}" if "m = m'" for m
        by (rule buddy_inv_frame) (use \<open>\<And>x. unat x \<in> {round_up 5 (unat st)..<round_down 5 (unat en)} \<Longrightarrow> m'' x = m' x\<close>
            F t' that in \<open>simp_all add: machine_inv_def\<close>)
      then have "machine_inv 5 st en (b, m'') F {}" using F t' by (simp add: machine_inv_def)
      then show ?thesis by (auto simp: heap_inv_def)
    qed
    show "m' x = m x" if "unat x \<notin> {round_up 5 (unat st)..<round_down 5 (unat en)}" for x
      using buddy_init_frame [OF assms t that] t' by simp
  qed
qed

lemma page_start_state:
  assumes "region_ok 12 st en"
  obtains b m' where "page_allocator_init (None, m) st en = Ok (Some b, m')" "page_inv st en (Some b, m') {}"
    and "\<And>x. unat x \<notin> {round_up 12 (unat st)..<round_down 12 (unat en)} \<Longrightarrow> m' x = m x"
proof -
  obtain s where s: "page_allocator_init (None, m) st en = Ok s" "page_inv st en s {}" using page_init_inv [OF assms] by metis
  then obtain b m' where s': "s = (Some b, m')" by (auto simp: page_inv_def)
  have "buddy_init (buddy_new (2 ^ 12), m) st en = Some (b, m')"
    using s(1) s' by (auto simp: page_allocator_init_def PAGE_SIZE_def split: option.splits prod.splits)
  then show thesis using that [of b m'] s s' buddy_init_frame [OF assms, of m "(b, m')"] by simp
qed

section \<open>The layout\<close>

text \<open>The addresses that the layout is made of, as numbers, for a kernel image that ends at \<open>e\<close>.\<close>

definition table_bits :: "architecture \<Rightarrow> nat" where
  "table_bits target = (if target = Arm then 14 else 12)"

definition table_from :: "architecture \<Rightarrow> nat \<Rightarrow> nat" where
  "table_from target e = round_up (table_bits target) (round_up 12 e)"

definition table_to :: "architecture \<Rightarrow> nat \<Rightarrow> nat" where
  "table_to target e = table_from target e + 2 ^ table_bits target"

abbreviation ram_to :: "memory_map \<Rightarrow> nat" where
  "ram_to mm \<equiv> unat (ram_start mm) + unat (ram_size mm)"

definition usable_to :: "architecture \<Rightarrow> memory_map \<Rightarrow> nat \<Rightarrow> nat" where
  "usable_to target mm e =
     (if 0 < peripheral_size mm \<and> table_to target e \<le> unat (peripheral_base mm) \<and> unat (peripheral_base mm) < ram_to mm
      then unat (peripheral_base mm) else ram_to mm)"

definition layout_fits :: "architecture \<Rightarrow> memory_map \<Rightarrow> nat \<Rightarrow> bool" where
  "layout_fits target mm e \<longleftrightarrow>
     0 < e \<and> unat (ram_start mm) \<le> e \<and> ram_to mm + 4096 < 2 ^ 32 \<and>
     unat (peripheral_base mm) + unat (peripheral_size mm) < 2 ^ 32 \<and>
     (peripheral_size mm = 0 \<or> unat (peripheral_base mm) + unat (peripheral_size mm) \<le> e \<or>
      table_to target e \<le> unat (peripheral_base mm)) \<and>
     table_to target e + 4096 \<le> usable_to target mm e"

lemma round_up_mult [simp]: "2 ^ k dvd round_up k n" "2 ^ k dvd round_down k n"
  by (simp_all add: round_up_def round_down_def)

lemma round_down_dvd: "2 ^ k dvd n \<Longrightarrow> round_down k n = n"
  by (auto simp: round_down_def)

lemma round_up_less: "round_up k n < n + 2 ^ k"
proof -
  have "round_up k n \<le> n + 2 ^ k - 1" by (simp add: round_up_def)
  then show ?thesis by (simp add: less_le_trans [of _ "n + 2 ^ k"]) (metis Suc_leI Suc_pred add_gr_0 less_Suc_eq_le zero_less_numeral zero_less_power)
qed

lemma round_up_dvd: "2 ^ k dvd n \<Longrightarrow> round_up k n = n"
proof -
  assume "2 ^ k dvd n"
  then have "2 ^ k dvd round_up k n - n" by (simp add: dvd_diff_nat)
  moreover have "round_up k n - n < 2 ^ k" using round_up_less [of k n] round_up_ge [of n k] by linarith
  ultimately have "round_up k n - n = 0" using nat_dvd_not_less by blast
  then show ?thesis using round_up_ge [of n k] by simp
qed

lemma unat_page_up: "unat a + 4096 \<le> 2 ^ 32 \<Longrightarrow> unat (page_up a) = round_up 12 (unat a)"
  using unat_round_up [of a 12] by (simp add: page_up_def add.commute)

lemma table_size_pow: "table_size target = 2 ^ table_bits target" "table_bits target \<le> 14" "12 \<le> table_bits target"
  by (simp_all add: table_size_def table_bits_def)

lemma layout_order:
  assumes "layout_fits target mm e"
  shows "e \<le> round_up 12 e" "round_up 12 e \<le> table_from target e" "table_to target e < 2 ^ 32"
    "2 ^ table_bits target dvd table_from target e" "2 ^ 12 dvd table_to target e" "usable_to target mm e \<le> ram_to mm"
proof -
  show "e \<le> round_up 12 e" "round_up 12 e \<le> table_from target e" by (simp_all add: table_from_def round_up_ge)
  show d: "2 ^ table_bits target dvd table_from target e" by (simp add: table_from_def)
  show "usable_to target mm e \<le> ram_to mm" by (simp add: usable_to_def)
  then show "table_to target e < 2 ^ 32" using assms by (simp add: layout_fits_def)
  have "(2::nat) ^ 12 dvd 2 ^ table_bits target" using table_size_pow(3) by (rule le_imp_power_dvd)
  then show "2 ^ 12 dvd table_to target e" using d by (auto simp: table_to_def intro: dvd_add dvd_trans)
qed

text \<open>The heap takes at most a tenth of what is left, so at least half of the pages remain.\<close>

lemma page_region_left:
  fixes t u h :: nat
  assumes "2 ^ 12 dvd t" "t + 4096 \<le> u" "h \<le> (u - t) div 10"
  shows "t + h \<le> round_up 12 (t + h)" "round_up 12 (t + h) \<le> round_down 12 u"
proof -
  obtain a where a: "t = 4096 * a" using assms(1) by auto
  define q where "q = (u - t) div 4096"
  have q: "1 \<le> q" "u - t < 4096 * q + 4096" "4096 * q \<le> u - t" using assms(2) by (simp_all add: q_def)
  have "h \<le> 4096 * q - 1" using assms(3) q by linarith
  then have "t + h + 4095 < 4096 * (a + q) + 4095" using a q(1) by simp
  then have "(t + h + 4095) div 4096 \<le> a + q" using less_mult_imp_div_less [of "t + h + 4095" "a + q + 1" 4096] by simp
  then have "(t + h + 4095) div 4096 * 4096 \<le> (a + q) * 4096" by (rule mult_right_mono) simp
  then have up: "round_up 12 (t + h) \<le> 4096 * (a + q)" by (simp add: round_up_def add.commute)
  have "u = 4096 * (a + q) + (u - t - 4096 * q)" using a q(3) assms(2) by simp
  then have "u div 4096 = a + q" using q(2) by (simp add: div_nat_eqI)
  then have "round_down 12 u = 4096 * (a + q)" by (simp add: round_down_def)
  then show "round_up 12 (t + h) \<le> round_down 12 u" using up by simp
  show "t + h \<le> round_up 12 (t + h)" by (rule round_up_ge)
qed

lemma assert_no_mmio_ok:
  assumes "unat (peripheral_base mm) + unat (peripheral_size mm) < 2 ^ 32"
    and "peripheral_size mm = 0 \<or> unat b \<le> unat (peripheral_base mm) \<or> unat (peripheral_base mm) + unat (peripheral_size mm) \<le> unat a"
  shows "assert_no_mmio mm a b = Ok ()"
proof -
  have "unat (peripheral_base mm + peripheral_size mm) = unat (peripheral_base mm) + unat (peripheral_size mm)"
    using assms(1) by (simp add: unat_add_small)
  then show ?thesis using assms(2) by (auto simp: assert_no_mmio_def assert_that_def word_le_nat_alt word_less_nat_alt Let_def)
qed

lemma layout_fitsD:
  assumes "layout_fits target mm e"
  shows "0 < e" "unat (ram_start mm) \<le> e" "ram_to mm + 4096 < 2 ^ 32"
    and "unat (peripheral_base mm) + unat (peripheral_size mm) < 2 ^ 32"
    and "peripheral_size mm = 0 \<or> unat (peripheral_base mm) + unat (peripheral_size mm) \<le> e \<or> table_to target e \<le> unat (peripheral_base mm)"
    and "table_to target e + 4096 \<le> usable_to target mm e"
  using assms by (auto simp: layout_fits_def)

lemma reserve_table_ok:
  assumes target: "target = X86 \<or> target = Arm" and fits: "layout_fits target mm e" and fm: "unat fm = round_up 12 e"
  defines "t0 \<equiv> (fm + table_size target - 1) AND NOT (table_size target - 1)"
  shows "unat t0 = table_from target e" "unat (t0 + table_size target) = table_to target e"
    "reserve_table target mm fm s = Ok (t0 + table_size target,
       s\<lparr>km_mem := write_bytes (km_mem s) t0 0 (table_size target), km_table := t0\<rparr>)"
proof -
  note o = layout_order [OF fits] and F = layout_fitsD [OF fits]
  have tb: "table_bits target < 32" using table_size_pow(2) [of target] by simp
  have to: "table_to target e = table_from target e + 2 ^ table_bits target" by (simp add: table_to_def)
  have "unat fm + 2 ^ table_bits target \<le> 2 ^ 32" using fm o(2,3) to by simp
  then show t0: "unat t0 = table_from target e"
    using unat_round_up [of fm "table_bits target"] tb fm by (simp add: t0_def table_size_pow table_from_def)
  have "unat (table_size target) = 2 ^ table_bits target" using tb by (simp add: table_size_pow unat_pow2)
  then show t1: "unat (t0 + table_size target) = table_to target e"
    using t0 to o(3) by (simp add: unat_add_small)
  have "unat (page_up (t0 + table_size target)) = unat (t0 + table_size target)"
    using t1 o(5,6) F(3,6) round_up_dvd [of 12 "table_to target e"] unat_page_up [of "t0 + table_size target"] by simp
  then have up: "page_up (t0 + table_size target) = t0 + table_size target" by (simp only: word_unat_eq_iff)
  have "assert_no_mmio mm t0 (t0 + table_size target) = Ok ()"
    using F(4,5) o(1,2) t0 t1 by (intro assert_no_mmio_ok) auto
  then show "reserve_table target mm fm s = Ok (t0 + table_size target,
       s\<lparr>km_mem := write_bytes (km_mem s) t0 0 (table_size target), km_table := t0\<rparr>)"
    using target up by (auto simp: reserve_table_def t0_def Let_def)
qed

lemma table_written:
  assumes t: "unat t0 = table_from target e" "unat (t0 + table_size target) = table_to target e"
    and m2: "\<And>x. unat x < unat (t0 + table_size target) \<Longrightarrow> m2 x = write_bytes m t0 0 (table_size target) x"
  shows "\<And>x. unat x \<in> {unat t0..<unat (t0 + table_size target)} \<Longrightarrow> m2 x = 0" "\<And>x. unat x < unat t0 \<Longrightarrow> m2 x = m x"
proof -
  have len: "unat (table_size target) = 2 ^ table_bits target" using table_size_pow(1,2) [of target] by (simp add: unat_pow2)
  have fit: "unat t0 + unat (table_size target) \<le> 2 ^ 32"
    using t len unat_less_32 [of "t0 + table_size target"] by (simp add: table_to_def)
  have to: "unat (t0 + table_size target) = unat t0 + unat (table_size target)" using t len by (simp add: table_to_def)
  show "m2 x = 0" if "unat x \<in> {unat t0..<unat (t0 + table_size target)}" for x
    using m2 [of x] that to write_bytes_in [of t0 x "table_size target" m 0] by simp
  show "m2 x = m x" if "unat x < unat t0" for x
    using m2 [of x] that to write_bytes_out [of t0 "table_size target" x m 0] fit by simp
qed

text \<open>The two allocators on a table end \<open>t1\<close> and an end \<open>u\<close> of the usable memory.\<close>

lemma allocators_ok:
  assumes d: "2 ^ 12 dvd unat t1" "0 < unat t1" and room: "unat t1 + 4096 \<le> unat u" "unat u + 4096 < 2 ^ 32"
  defines "h \<equiv> t1 + min (16 * 1024 * 1024) (saturating_sub u t1 div 10)"
  shows "t1 \<le> h" "h \<le> page_up h" "page_up h \<le> u"
    and "\<exists>b m1 c m2. init_heap (None, m) t1 h = Ok (Some b, m1) \<and> page_allocator_init (None, m1) (page_up h) u = Ok (Some c, m2) \<and>
      heap_inv t1 h (Some b, m2) {} \<and> page_inv (page_up h) u (Some c, m2) {} \<and> (\<forall>x. unat x < unat t1 \<longrightarrow> m2 x = m x)"
proof -
  have av: "unat (saturating_sub u t1) = unat u - unat t1"
    using room by (simp add: saturating_sub_alt word_le_nat_alt unat_sub_le)
  define n where "n = unat (min (16 * 1024 * 1024) (saturating_sub u t1 div 10))"
  have n: "n \<le> (unat u - unat t1) div 10"
    by (simp add: n_def min_def unat_div av word_le_nat_alt)
  have h: "unat h = unat t1 + n" using n room unat_add_small [of t1] by (simp add: h_def n_def)
  have up: "unat (page_up h) = round_up 12 (unat h)" using h n room by (intro unat_page_up) simp
  note L = page_region_left [OF d(1) room(1) n, folded h]
  show le: "t1 \<le> h" "h \<le> page_up h" using h up L(1) by (simp_all add: word_le_nat_alt)
  have "round_up 12 (unat h) \<le> unat u" using L(2) round_down_le [of 12 "unat u"] by linarith
  then show "page_up h \<le> u" by (simp add: word_le_nat_alt up)
  have d5: "2 ^ 5 dvd unat t1" using d(1) by (rule dvd_trans [rotated]) simp
  have r5: "round_up 5 (unat t1) = unat t1" using d5 by (rule round_up_dvd)
  have "round_down 5 (unat t1) \<le> round_down 5 (unat h)" using le(1) by (simp add: round_down_def word_le_nat_alt div_le_mono)
  then have H: "region_ok 5 t1 h"
    using r5 round_down_dvd [OF d5] d(2) h n room by (auto simp: region_ok_def MAX_ORDER_def)
  have r12: "round_up 12 (unat (page_up h)) = unat (page_up h)" unfolding up by (rule round_up_dvd, rule round_up_mult)
  have P: "region_ok 12 (page_up h) u"
    using r12 up L d(2) h room \<open>round_up 12 (unat h) \<le> unat u\<close> by (auto simp: region_ok_def MAX_ORDER_def)
  obtain b m1 where b: "heap_init (None, m) t1 h = Ok (Some b, m1)"
    "\<And>m'. (\<And>x. unat x \<in> {unat t1..<round_down 5 (unat h)} \<Longrightarrow> m' x = m1 x) \<Longrightarrow> heap_inv t1 h (Some b, m') {}"
    "\<And>x. unat x \<notin> {unat t1..<round_down 5 (unat h)} \<Longrightarrow> m1 x = m x"
    using heap_start_state [OF H, unfolded r5] by metis
  obtain c m2 where c: "page_allocator_init (None, m1) (page_up h) u = Ok (Some c, m2)" "page_inv (page_up h) u (Some c, m2) {}"
    "\<And>x. unat x \<notin> {unat (page_up h)..<round_down 12 (unat u)} \<Longrightarrow> m2 x = m1 x"
    using page_start_state [OF P, unfolded r12] by metis
  have low: "m2 x = m1 x" if "unat x < unat h" for x using that L(1) up by (intro c(3)) auto
  have "heap_inv t1 h (Some b, m2) {}"
    by (rule b(2)) (use low round_down_le [of 5 "unat h"] in auto)
  moreover have "m2 x = m x" if "unat x < unat t1" for x
    using that low [of x] b(3) [of x] le(1) by (simp add: word_le_nat_alt)
  ultimately show "\<exists>b m1 c m2. init_heap (None, m) t1 h = Ok (Some b, m1) \<and> page_allocator_init (None, m1) (page_up h) u = Ok (Some c, m2) \<and>
      heap_inv t1 h (Some b, m2) {} \<and> page_inv (page_up h) u (Some c, m2) {} \<and> (\<forall>x. unat x < unat t1 \<longrightarrow> m2 x = m x)"
    using b(1) c(1,2) by (auto simp: init_heap_def)
qed

text \<open>The set-up succeeds, and what it leaves.\<close>

lemma setup_memory_ok:
  assumes target: "target = X86 \<or> target = Arm" and mm: "get_memory_map p = Ok mm"
    and e: "e = unat (get_kernel_end_address target symbol)" and fits: "layout_fits target mm e"
    and fresh: "km_heap s = None" "km_pages s = None"
  shows "\<exists>lay s'. setup_memory_management target symbol p s = Ok (lay, s') \<and>
    (\<exists>t0 t1. page_table lay = Some (t0, t1) \<and> e \<le> unat t0 \<and> 2 ^ table_bits target dvd unat t0 \<and>
       unat t1 = unat t0 + 2 ^ table_bits target \<and> unat t1 = unat (heap_start lay) \<and>
       (\<forall>x. unat x \<in> {unat t0..<unat t1} \<longrightarrow> km_mem s' x = 0) \<and> (\<forall>x. unat x < unat t0 \<longrightarrow> km_mem s' x = km_mem s x) \<and>
       {unat t0..<unat (page_alloc_end lay)} \<inter> peripheral_bytes mm = {}) \<and>
    heap_start lay \<le> heap_end lay \<and> heap_end lay \<le> page_alloc_start lay \<and> page_alloc_start lay \<le> page_alloc_end lay \<and>
    unat (page_alloc_end lay) \<le> ram_to mm \<and>
    heap_inv (heap_start lay) (heap_end lay) (km_heap s', km_mem s') {} \<and> page_inv (page_alloc_start lay) (page_alloc_end lay) (km_pages s', km_mem s') {}"
proof -
  note o = layout_order [OF fits] and F = layout_fitsD [OF fits]
  define fm where "fm = page_up (get_kernel_end_address target symbol)"
  have fm: "unat fm = round_up 12 e"
    using unat_page_up [of "get_kernel_end_address target symbol"] o(1,2,6) F(3,6) by (simp add: fm_def e table_to_def)
  define t0 where "t0 = (fm + table_size target - 1) AND NOT (table_size target - 1)"
  define t1 where "t1 = t0 + table_size target"
  note R = reserve_table_ok [OF target fits fm, folded t0_def, folded t1_def]
  define u where "u = (if 0 < peripheral_size mm \<and> t1 \<le> peripheral_base mm \<and> peripheral_base mm < ram_start mm + ram_size mm
    then peripheral_base mm else ram_start mm + ram_size mm)"
  have ram: "unat (ram_start mm + ram_size mm) = ram_to mm" using F(3) by (simp add: unat_add_small)
  have u: "unat u = usable_to target mm e"
    using R(2) ram by (simp add: u_def usable_to_def word_le_nat_alt word_less_nat_alt)
  define h where "h = t1 + min (16 * 1024 * 1024) (saturating_sub u t1 div 10)"
  define s1 where "s1 = s\<lparr>km_mem := write_bytes (km_mem s) t0 0 (table_size target), km_table := t0\<rparr>"
  have fr1: "km_heap s1 = None" "km_pages s1 = None" using fresh by (simp_all add: s1_def)
  have "2 ^ 12 dvd unat t1" "0 < unat t1" "unat t1 + 4096 \<le> unat u" "unat u + 4096 < 2 ^ 32"
    using R(2) u o F(3,6) by (auto simp: table_to_def)
  note A = allocators_ok [OF this, folded h_def]
  obtain b m1 c m2 where al: "init_heap (None, km_mem s1) t1 h = Ok (Some b, m1)"
    "page_allocator_init (None, m1) (page_up h) u = Ok (Some c, m2)" "heap_inv t1 h (Some b, m2) {}" "page_inv (page_up h) u (Some c, m2) {}"
    "\<And>x. unat x < unat t1 \<Longrightarrow> m2 x = km_mem s1 x" using A(4) by blast
  define lay where "lay = \<lparr>kernel_end = get_kernel_end_address target symbol, heap_start = t1, heap_end = h, page_alloc_start = page_up h,
    page_alloc_end = u, page_table = Some (t0, t1)\<rparr>"
  have tt: "table_from target e < table_to target e" by (simp add: table_to_def)
  have pend: "unat (peripheral_base mm + peripheral_size mm) = unat (peripheral_base mm) + unat (peripheral_size mm)"
    using F(4) by (simp add: unat_add_small)
  have a1: "ram_start mm \<le> fm" "fm < ram_start mm + ram_size mm"
    using fm ram o F(2,6) by (auto simp: word_le_nat_alt word_less_nat_alt table_to_def)
  have a2: "0 < peripheral_size mm \<Longrightarrow> fm < peripheral_base mm \<or> peripheral_base mm + peripheral_size mm \<le> fm"
    using F(5) fm o(1,2) pend tt by (auto simp: word_le_nat_alt word_less_nat_alt)
  have a3: "assert_no_mmio mm (page_up h) u = Ok ()"
  proof (rule assert_no_mmio_ok [OF F(4)])
    have "e \<le> unat (page_up h)" using A(1,2) R(2) o by (simp add: word_le_nat_alt table_to_def)
    then show "peripheral_size mm = 0 \<or> unat u \<le> unat (peripheral_base mm) \<or>
        unat (peripheral_base mm) + unat (peripheral_size mm) \<le> unat (page_up h)"
      using F(5) u by (auto simp: usable_to_def word_gt_0)
  qed
  define s2 where "s2 = s1\<lparr>km_mem := m2, km_heap := Some b, km_pages := Some c\<rparr>"
  have run: "setup_memory_management target symbol p s = Ok (lay, s2)"
  proof -
    have hd: "t1 + min 16777216 (saturating_sub u t1 div 10) = h" by (simp add: h_def)
    have tab: "km_table s1 = t0" "target = Arm \<or> target = X86" using target by (auto simp: s1_def)
    show ?thesis
      using a2 by (simp add: setup_memory_management_def mm assert_that_def Let_def a1 R(3) hd a3 fr1 al(1,2) tab
          flip: fm_def u_def s1_def t1_def) (simp add: lay_def s2_def)
  qed
  have m2: "m2 x = write_bytes (km_mem s) t0 0 (table_size target) x" if "unat x < unat t1" for x
    using al(5) [OF that] by (simp add: s1_def)
  note Z = table_written [OF R(1) R(2) [unfolded t1_def] m2 [unfolded t1_def], folded t1_def]
  have mmio: "{unat t0..<unat u} \<inter> peripheral_bytes mm = {}"
    using F(5) u R(1) o(1,2) by (auto simp: peripheral_bytes_def usable_to_def word_gt_0)
  have "unat t1 = unat t0 + 2 ^ table_bits target" using R(1,2) by (simp add: table_to_def)
  then have "page_table lay = Some (t0, t1) \<and> e \<le> unat t0 \<and> 2 ^ table_bits target dvd unat t0 \<and>
       unat t1 = unat t0 + 2 ^ table_bits target \<and> unat t1 = unat (heap_start lay) \<and>
       (\<forall>x. unat x \<in> {unat t0..<unat t1} \<longrightarrow> km_mem s2 x = 0) \<and> (\<forall>x. unat x < unat t0 \<longrightarrow> km_mem s2 x = km_mem s x) \<and>
       {unat t0..<unat (page_alloc_end lay)} \<inter> peripheral_bytes mm = {}"
    using Z mmio R(1) o(1,2,4) by (simp add: lay_def s2_def)
  then show ?thesis
    using run A(1-3) al(3,4) u o(6) by (intro exI [of _ lay] exI [of _ s2] conjI) (auto simp: lay_def s2_def)
qed

text \<open>
  C32. The memory layout at boot.  If the RAM region and the peripheral window do not wrap around, the
  kernel image lies in RAM and outside the window, and at least one page is left behind the page
  table, the set-up succeeds.  Page table, heap and page region follow each other behind the kernel
  image, inside RAM and outside the peripheral window; the page table is aligned to its size and
  zero; nothing below the page table is written.  Both allocators manage exactly their region of the
  layout, from its first whole block to its last (32-byte blocks for the heap, pages for the page
  allocator), and all of it is free.
\<close>

theorem kernel_memory_layout:
  assumes target: "target = X86 \<or> target = Arm" and mm: "get_memory_map p = Ok mm"
    and e: "e = unat (get_kernel_end_address target symbol)" and fits: "layout_fits target mm e"
    and fresh: "km_heap s = None" "km_pages s = None"
  shows "\<exists>lay s'. setup_memory_management target symbol p s = Ok (lay, s') \<and>
    (\<exists>t0 t1. page_table lay = Some (t0, t1) \<and> e \<le> unat t0 \<and> 2 ^ table_bits target dvd unat t0 \<and>
       unat t1 = unat t0 + 2 ^ table_bits target \<and> unat t1 = unat (heap_start lay) \<and>
       (\<forall>x. unat x \<in> {unat t0..<unat t1} \<longrightarrow> km_mem s' x = 0) \<and> (\<forall>x. unat x < unat t0 \<longrightarrow> km_mem s' x = km_mem s x) \<and>
       {unat t0..<unat (page_alloc_end lay)} \<inter> peripheral_bytes mm = {}) \<and>
    heap_start lay \<le> heap_end lay \<and> heap_end lay \<le> page_alloc_start lay \<and> page_alloc_start lay \<le> page_alloc_end lay \<and>
    unat (page_alloc_end lay) \<le> ram_to mm \<and>
    heap_inv (heap_start lay) (heap_end lay) (km_heap s', km_mem s') {} \<and> page_inv (page_alloc_start lay) (page_alloc_end lay) (km_pages s', km_mem s') {}"
  by (rule setup_memory_ok [OF assms])

text \<open>A PC whose kernel image ends at 2 MB, with the fixed tables of the probing path.\<close>

definition pc_map :: memory_map where
  "pc_map = \<lparr>ram_start = 0x100000, ram_size = 0x7F00000, peripheral_base = 0xA0000, peripheral_size = 0x60000\<rparr>"

definition cold_memory :: kernel_memory where
  "cold_memory = \<lparr>km_mem = (\<lambda>_. 0xFF), km_heap = None, km_pages = None, km_table = 0\<rparr>"

theorem kernel_memory_layout_witness:
  "\<exists>lay s'. setup_memory_management X86 0x200000 (register_standard_pc_devices platform_statics) cold_memory = Ok (lay, s') \<and>
    (\<exists>t0 t1. page_table lay = Some (t0, t1) \<and> 0x200000 \<le> unat t0) \<and> unat (page_alloc_end lay) \<le> 0x8000000 \<and>
    heap_inv (heap_start lay) (heap_end lay) (km_heap s', km_mem s') {}"
proof -
  have m: "get_memory_map (register_standard_pc_devices platform_statics) = Ok pc_map" by code_simp
  have e: "0x200000 = unat (get_kernel_end_address X86 0x200000)" by (simp add: get_kernel_end_address_def)
  have f: "layout_fits X86 pc_map 0x200000"
    by (simp add: layout_fits_def pc_map_def usable_to_def table_to_def table_from_def table_bits_def round_up_def)
  have "km_heap cold_memory = None" "km_pages cold_memory = None" "ram_to pc_map = 0x8000000"
    by (simp_all add: cold_memory_def pc_map_def)
  then show ?thesis using kernel_memory_layout [OF _ m e f, of cold_memory] by auto
qed

end
