(* ===== verification/Mailbox.thy ===== *)
theory Mailbox
  imports Device_Io
begin

text \<open>
  The mailbox between the ARM core and the VideoCore GPU
  (\<^verbatim>\<open>drivers/src/peripheral/bcm2835/mailbox.rs\<close>).  Registers and request buffers are both reached by
  volatile 32-bit accesses, so one bus carries them; the addresses of the static request buffers are
  parameters.
\<close>

section \<open>Registers\<close>

definition MAILBOX_BASE :: u32 where "MAILBOX_BASE = 0x2000B880"

definition MBOX_REG_READ :: u32 where "MBOX_REG_READ = 0x00"
definition MBOX_REG_STATUS :: u32 where "MBOX_REG_STATUS = 0x18"
definition MBOX_REG_WRITE :: u32 where "MBOX_REG_WRITE = 0x20"

definition STATUS_EMPTY :: u32 where "STATUS_EMPTY = 0x40000000"
definition STATUS_FULL :: u32 where "STATUS_FULL = 0x80000000"

definition CHANNEL_MASK :: u32 where "CHANNEL_MASK = 0xF"
definition DATA_MASK :: u32 where "DATA_MASK = 0xFFFFFFF0"

datatype mbox_channel = Power | Framebuffer | VirtualUart | Vchiq | Leds | Buttons | Touchscreen | Unused | Property

fun channel_num :: "mbox_channel \<Rightarrow> u8" where
  "channel_num Power = 0"
| "channel_num Framebuffer = 1"
| "channel_num VirtualUart = 2"
| "channel_num Vchiq = 3"
| "channel_num Leds = 4"
| "channel_num Buttons = 5"
| "channel_num Touchscreen = 6"
| "channel_num Unused = 7"
| "channel_num Property = 8"

definition RESPONSE_SUCCESS :: u32 where "RESPONSE_SUCCESS = 0x80000000"
definition RESPONSE_ERROR :: u32 where "RESPONSE_ERROR = 0x80000001"

section \<open>Property tags\<close>

definition GET_FIRMWARE_REVISION :: u32 where "GET_FIRMWARE_REVISION = 0x00000001"
definition GET_BOARD_MODEL :: u32 where "GET_BOARD_MODEL = 0x00010001"
definition GET_BOARD_REVISION :: u32 where "GET_BOARD_REVISION = 0x00010002"
definition GET_BOARD_MAC_ADDRESS :: u32 where "GET_BOARD_MAC_ADDRESS = 0x00010003"
definition GET_BOARD_SERIAL :: u32 where "GET_BOARD_SERIAL = 0x00010004"
definition GET_ARM_MEMORY :: u32 where "GET_ARM_MEMORY = 0x00010005"
definition GET_VC_MEMORY :: u32 where "GET_VC_MEMORY = 0x00010006"
definition GET_CLOCKS :: u32 where "GET_CLOCKS = 0x00010007"
definition GET_COMMAND_LINE :: u32 where "GET_COMMAND_LINE = 0x00050001"
definition GET_DMA_CHANNELS :: u32 where "GET_DMA_CHANNELS = 0x00060001"
definition GET_POWER_STATE :: u32 where "GET_POWER_STATE = 0x00020001"
definition SET_POWER_STATE :: u32 where "SET_POWER_STATE = 0x00028001"
definition ALLOCATE_BUFFER :: u32 where "ALLOCATE_BUFFER = 0x00040001"
definition RELEASE_BUFFER :: u32 where "RELEASE_BUFFER = 0x00048001"
definition GET_PHYSICAL_SIZE :: u32 where "GET_PHYSICAL_SIZE = 0x00040003"
definition SET_PHYSICAL_SIZE :: u32 where "SET_PHYSICAL_SIZE = 0x00048003"
definition GET_VIRTUAL_SIZE :: u32 where "GET_VIRTUAL_SIZE = 0x00040004"
definition SET_VIRTUAL_SIZE :: u32 where "SET_VIRTUAL_SIZE = 0x00048004"
definition GET_DEPTH :: u32 where "GET_DEPTH = 0x00040005"
definition SET_DEPTH :: u32 where "SET_DEPTH = 0x00048005"
definition GET_PIXEL_ORDER :: u32 where "GET_PIXEL_ORDER = 0x00040006"
definition SET_PIXEL_ORDER :: u32 where "SET_PIXEL_ORDER = 0x00048006"
definition GET_PITCH :: u32 where "GET_PITCH = 0x00040008"

section \<open>The driver\<close>

record mailbox =
  mbox_base :: u32

definition mailbox_new :: mailbox where
  "mailbox_new = \<lparr>mbox_base = MAILBOX_BASE\<rparr>"

definition mailbox_with_base :: "u32 \<Rightarrow> mailbox" where
  "mailbox_with_base base = \<lparr>mbox_base = base\<rparr>"

datatype mailbox_error = UnalignedBuffer | CallFailed | InvalidResponse

definition mbox_read_status :: "(u32, 'd) bus \<Rightarrow> mailbox \<Rightarrow> ('d, u32) state" where
  "mbox_read_status io mb = load io (mbox_base mb + MBOX_REG_STATUS)"

definition mbox_read_data :: "(u32, 'd) bus \<Rightarrow> mailbox \<Rightarrow> ('d, u32) state" where
  "mbox_read_data io mb = load io (mbox_base mb + MBOX_REG_READ)"

definition mbox_write_data :: "(u32, 'd) bus \<Rightarrow> mailbox \<Rightarrow> u32 \<Rightarrow> ('d, unit) state" where
  "mbox_write_data io mb v = store io (mbox_base mb + MBOX_REG_WRITE) v"

definition wait_for_write :: "(u32, 'd) bus \<Rightarrow> mailbox \<Rightarrow> ('d, u32, 'e) io" where
  "wait_for_write io mb = spin_while (mbox_read_status io mb) (\<lambda>st. st AND STATUS_FULL \<noteq> 0)"

definition wait_for_read :: "(u32, 'd) bus \<Rightarrow> mailbox \<Rightarrow> ('d, u32, 'e) io" where
  "wait_for_read io mb = spin_while (mbox_read_status io mb) (\<lambda>st. st AND STATUS_EMPTY \<noteq> 0)"

text \<open>
  The loop of \<^verbatim>\<open>call\<close>: it takes messages from the mailbox until one is for the channel.  \<open>None\<close> when
  it does not end.
\<close>

partial_function (option) response_loop :: "(u32, 'd) bus \<Rightarrow> mailbox \<Rightarrow> u32 \<Rightarrow> 'd \<Rightarrow> (u32 \<times> 'd) option" where
  "response_loop io mb channel d =
     (case run_state (wait_for_read io mb :: ('d, u32, unit) io) d of
        (Ok _, d1) \<Rightarrow>
          (case run_state (mbox_read_data io mb) d1 of
             (resp, d2) \<Rightarrow>
               if resp AND CHANNEL_MASK = channel then Some (resp, d2) else response_loop io mb channel d2)
      | _ \<Rightarrow> None)"

declare response_loop.simps [code]

definition take_response :: "(u32, 'd) bus \<Rightarrow> mailbox \<Rightarrow> u32 \<Rightarrow> ('d, u32, 'e) io" where
  "take_response io mb channel =
     State (\<lambda>d. case response_loop io mb channel d of None \<Rightarrow> (Diverge, d) | Some (resp, d') \<Rightarrow> (Ok resp, d'))"

definition mailbox_call :: "(u32, 'd) bus \<Rightarrow> mailbox \<Rightarrow> mbox_channel \<Rightarrow> u32 \<Rightarrow> ('d, bool, 'e) io" where
  "mailbox_call io mb channel buffer_phys =
     (let msg = (buffer_phys AND DATA_MASK) OR (ucast (channel_num channel) AND CHANNEL_MASK) in
      io_bind (wait_for_write io mb) (\<lambda>_. do {
        mbox_write_data io mb msg;
        io_bind (take_response io mb (ucast (channel_num channel))) (\<lambda>resp.
          let resp_addr = resp AND DATA_MASK in
          if resp_addr \<noteq> buffer_phys AND DATA_MASK then ok False
          else do {
            response_code \<leftarrow> load io (buffer_phys + 4);
            ok (response_code = RESPONSE_SUCCESS)
          })
      }))"

text \<open>The buffer's contents play no role in \<^verbatim>\<open>call_with_buffer\<close>; its address does.\<close>

definition call_with_buffer :: "(u32, 'd) bus \<Rightarrow> mailbox \<Rightarrow> mbox_channel \<Rightarrow> u32 \<Rightarrow> ('d, unit, mailbox_error) io" where
  "call_with_buffer io mb channel buffer_ptr =
     (if buffer_ptr AND 0xF \<noteq> 0 then fail UnalignedBuffer
      else io_bind (mailbox_call io mb channel buffer_ptr) (\<lambda>r. if r then ok () else fail CallFailed))"

section \<open>Queries\<close>

text \<open>
  A request is a static of 32 bytes, aligned to 16: the list gives its initial words in the order of
  the struct's fields.  A query never resets them.
\<close>

definition arm_memory_request :: "u32 list" where
  "arm_memory_request = [32, 0, GET_ARM_MEMORY, 8, 0, 0, 0, 0]"

definition vc_memory_request :: "u32 list" where
  "vc_memory_request = [32, 0, GET_VC_MEMORY, 8, 0, 0, 0, 0]"

definition firmware_request :: "u32 list" where
  "firmware_request = [32, 0, GET_FIRMWARE_REVISION, 4, 0, 0, 0]"

definition serial_request :: "u32 list" where
  "serial_request = [32, 0, GET_BOARD_SERIAL, 8, 0, 0, 0, 0]"

definition get_arm_memory :: "(u32, 'd) bus \<Rightarrow> u32 \<Rightarrow> ('d, (u32 \<times> u32) option, 'e) io" where
  "get_arm_memory io req =
     io_bind (mailbox_call io mailbox_new Property req) (\<lambda>r.
       if r then do {
         base \<leftarrow> load io (req + 20);
         size \<leftarrow> load io (req + 24);
         ok (Some (base, size))
       } else ok None)"

definition get_vc_memory :: "(u32, 'd) bus \<Rightarrow> u32 \<Rightarrow> ('d, (u32 \<times> u32) option, 'e) io" where
  "get_vc_memory io req =
     io_bind (mailbox_call io mailbox_new Property req) (\<lambda>r.
       if r then do {
         base \<leftarrow> load io (req + 20);
         size \<leftarrow> load io (req + 24);
         ok (Some (base, size))
       } else ok None)"

definition get_firmware_revision :: "(u32, 'd) bus \<Rightarrow> u32 \<Rightarrow> ('d, u32 option, 'e) io" where
  "get_firmware_revision io req =
     io_bind (mailbox_call io mailbox_new Property req) (\<lambda>r.
       if r then do {
         revision \<leftarrow> load io (req + 20);
         ok (Some revision)
       } else ok None)"

definition get_board_serial :: "(u32, 'd) bus \<Rightarrow> u32 \<Rightarrow> ('d, u64 option, 'e) io" where
  "get_board_serial io req =
     io_bind (mailbox_call io mailbox_new Property req) (\<lambda>r.
       if r then do {
         low \<leftarrow> load io (req + 20);
         high \<leftarrow> load io (req + 24);
         ok (Some (push_bit 32 (ucast high) OR ucast low))
       } else ok None)"

end
