(* ===== verification/Mailbox_Properties.thy ===== *)
theory Mailbox_Properties
  imports Mailbox
begin

text \<open>
  The mailbox against the firmware.  The view of the hardware is the queue \<open>pend\<close> of the messages
  that the GPU has sent or is about to send, the words \<open>word\<close> of the memory both sides share, and a
  number \<open>lat\<close> that bounds how long the mailbox stays full or a message stays in flight.  The
  firmware is a function \<open>gpu\<close> of a message and the memory to its replies and the new memory.
\<close>

section \<open>The hardware\<close>

text \<open>
  Nothing is promised of a data register without a look at the status: a message can be taken right
  after a status that is not empty, and one is accepted right after a status that is not full.
\<close>

definition mailbox_regs :: "u32 \<Rightarrow> u32 set" where
  "mailbox_regs base = {base, base + 0x18, base + 0x20}"

definition mailbox_laws ::
  "(u32, 'd) bus \<Rightarrow> u32 \<Rightarrow> (u32 \<Rightarrow> (u32 \<Rightarrow> u32) \<Rightarrow> u32 list \<times> (u32 \<Rightarrow> u32)) \<Rightarrow>
   ('d \<Rightarrow> u32 list) \<Rightarrow> ('d \<Rightarrow> u32 \<Rightarrow> u32) \<Rightarrow> ('d \<Rightarrow> nat) \<Rightarrow> bool" where
  "mailbox_laws io base gpu pend word lat \<longleftrightarrow>
     (\<forall>d v d'. bus_read io (base + 0x18) d = (v, d') \<longrightarrow>
        pend d' = pend d \<and> word d' = word d \<and>
        (v AND STATUS_FULL \<noteq> 0 \<longrightarrow> lat d' < lat d) \<and>
        (v AND STATUS_EMPTY \<noteq> 0 \<longrightarrow> pend d \<noteq> [] \<longrightarrow> lat d' < lat d) \<and>
        (pend d = [] \<longrightarrow> v AND STATUS_EMPTY \<noteq> 0) \<and>
        (v AND STATUS_EMPTY = 0 \<longrightarrow>
           (\<exists>d''. bus_read io base d' = (hd (pend d), d'') \<and> pend d'' = tl (pend d) \<and> word d'' = word d)) \<and>
        (v AND STATUS_FULL = 0 \<longrightarrow>
           (\<forall>msg. pend (bus_write io (base + 0x20) msg d') = pend d @ fst (gpu msg (word d)) \<and>
              word (bus_write io (base + 0x20) msg d') = snd (gpu msg (word d))))) \<and>
     (\<forall>d a. a \<notin> mailbox_regs base \<longrightarrow>
        (\<exists>d'. bus_read io a d = (word d a, d') \<and> pend d' = pend d \<and> word d' = word d) \<and>
        (\<forall>v. pend (bus_write io a v d) = pend d \<and> word (bus_write io a v d) = (word d)(a := v)))"

text \<open>A message for a channel carries the channel's number in its low four bits.\<close>

definition for_channel :: "mbox_channel \<Rightarrow> u32 \<Rightarrow> bool" where
  "for_channel channel w \<longleftrightarrow> w AND CHANNEL_MASK = ucast (channel_num channel)"

definition request_msg :: "mbox_channel \<Rightarrow> u32 \<Rightarrow> u32" where
  "request_msg channel buf = (buf AND DATA_MASK) OR (ucast (channel_num channel) AND CHANNEL_MASK)"

section \<open>Calls\<close>

lemma mailbox_status:
  assumes "mailbox_laws io base gpu pend word lat" "bus_read io (base + 0x18) d = (v, d')"
  shows "pend d' = pend d" "word d' = word d" "v AND STATUS_FULL \<noteq> 0 \<Longrightarrow> lat d' < lat d"
    "v AND STATUS_EMPTY \<noteq> 0 \<Longrightarrow> pend d \<noteq> [] \<Longrightarrow> lat d' < lat d"
    "v AND STATUS_EMPTY = 0 \<Longrightarrow>
       \<exists>d''. bus_read io base d' = (hd (pend d), d'') \<and> pend d'' = tl (pend d) \<and> word d'' = word d"
    "v AND STATUS_FULL = 0 \<Longrightarrow> pend (bus_write io (base + 0x20) msg d') = pend d @ fst (gpu msg (word d))"
    "v AND STATUS_FULL = 0 \<Longrightarrow> word (bus_write io (base + 0x20) msg d') = snd (gpu msg (word d))"
  using assms unfolding mailbox_laws_def by blast+

lemma wait_for_write_ends:
  assumes L: "mailbox_laws io (mbox_base mb) gpu pend word lat"
  obtains v d1 where "run_state (wait_for_write io mb :: ('d, u32, 'e) io) d = (Ok v, d1)"
    "\<And>msg. pend (bus_write io (mbox_base mb + 0x20) msg d1) = pend d @ fst (gpu msg (word d))"
    "\<And>msg. word (bus_write io (mbox_base mb + 0x20) msg d1) = snd (gpu msg (word d))"
proof -
  obtain d0 v d1 where d0: "pend d0 = pend d \<and> word d0 = word d"
    "run_state (mbox_read_status io mb) d0 = (v, d1)" "\<not> v AND STATUS_FULL \<noteq> 0"
    "run_state (wait_for_write io mb :: ('d, u32, 'e) io) d = (Ok v, d1)"
    unfolding wait_for_write_def
    by (rule spin_ends [where I = "\<lambda>x. pend x = pend d \<and> word x = word d" and lat = lat
          and rd = "mbox_read_status io mb" and again = "\<lambda>st. st AND STATUS_FULL \<noteq> 0" and d = d])
      (use mailbox_status [OF L] in \<open>auto simp: mbox_read_status_def MBOX_REG_STATUS_def io_simps\<close>)
  then have "bus_read io (mbox_base mb + 0x18) d0 = (v, d1)" "v AND STATUS_FULL = 0"
    by (simp_all add: mbox_read_status_def MBOX_REG_STATUS_def io_simps)
  then show ?thesis using that [OF d0(4)] mailbox_status(6,7) [OF L, of d0 v d1] d0(1) by simp
qed

lemma take_message:
  assumes L: "mailbox_laws io (mbox_base mb) gpu pend word lat" and p: "pend d = m # ms"
  obtains v d1 d2 where "run_state (wait_for_read io mb :: ('d, u32, 'e) io) d = (Ok v, d1)"
    "run_state (mbox_read_data io mb) d1 = (m, d2)" "pend d2 = ms" "word d2 = word d"
proof -
  obtain d0 v d1 where d0: "pend d0 = pend d \<and> word d0 = word d"
    and rd: "run_state (mbox_read_status io mb) d0 = (v, d1)" and v: "\<not> v AND STATUS_EMPTY \<noteq> 0"
    and w: "run_state (wait_for_read io mb :: ('d, u32, 'e) io) d = (Ok v, d1)"
    unfolding wait_for_read_def
    by (rule spin_ends [where I = "\<lambda>x. pend x = pend d \<and> word x = word d" and lat = lat
          and rd = "mbox_read_status io mb" and again = "\<lambda>st. st AND STATUS_EMPTY \<noteq> 0" and d = d])
      (use mailbox_status [OF L] p in \<open>auto simp: mbox_read_status_def MBOX_REG_STATUS_def io_simps\<close>)
  then obtain d2 where "bus_read io (mbox_base mb) d1 = (m, d2)" "pend d2 = ms" "word d2 = word d"
    using mailbox_status(5) [OF L, of d0 v d1] p
    by (auto simp: mbox_read_status_def MBOX_REG_STATUS_def io_simps)
  then show ?thesis
    using that [OF w] by (simp add: mbox_read_data_def MBOX_REG_READ_def io_simps)
qed

lemma response_loop_skips:
  assumes L: "mailbox_laws io (mbox_base mb) gpu pend word lat"
    and "pend d = xs @ r # ys" "\<forall>x \<in> set xs. \<not> for_channel channel x" "for_channel channel r"
  shows "\<exists>d'. response_loop io mb (ucast (channel_num channel)) d = Some (r, d') \<and> pend d' = ys \<and> word d' = word d"
  using assms(2-)
proof (induction xs arbitrary: d)
  case Nil
  then obtain v d1 d2 where "run_state (wait_for_read io mb :: (_, _, unit) io) d = (Ok v, d1)"
    "run_state (mbox_read_data io mb) d1 = (r, d2)" "pend d2 = ys" "word d2 = word d"
    using take_message [OF L, of d r ys, where 'e = unit] by auto
  then show ?case using Nil by (subst response_loop.simps) (simp add: for_channel_def)
next
  case (Cons x xs)
  obtain v d1 d2 where 1: "run_state (wait_for_read io mb :: (_, _, unit) io) d = (Ok v, d1)"
    "run_state (mbox_read_data io mb) d1 = (x, d2)" "pend d2 = xs @ r # ys" "word d2 = word d"
    by (rule take_message [OF L, of d x "xs @ r # ys"]) (use Cons.prems in simp_all)
  with Cons have "\<exists>d'. response_loop io mb (ucast (channel_num channel)) d2 = Some (r, d') \<and> pend d' = ys \<and> word d' = word d2"
    using Cons.IH [of d2] by simp
  then show ?case using 1 Cons.prems by (subst response_loop.simps) (simp add: for_channel_def)
qed

lemma mailbox_call_run:
  assumes L: "mailbox_laws io (mbox_base mb) gpu pend word lat"
    and gpu: "gpu (request_msg channel buf) (word d) = (replies, word')"
    and queue: "pend d @ replies = xs @ r # ys"
    and skipped: "\<forall>x \<in> set xs. \<not> for_channel channel x" and mine: "for_channel channel r"
    and ram: "buf + 4 \<notin> mailbox_regs (mbox_base mb)"
  shows "\<exists>d'. run_state (mailbox_call io mb channel buf :: ('d, bool, 'e) io) d =
      (Ok (r AND DATA_MASK = buf AND DATA_MASK \<and> word' (buf + 4) = RESPONSE_SUCCESS), d') \<and>
    pend d' = ys \<and> word d' = word'"
proof -
  obtain v d1 where w: "run_state (wait_for_write io mb :: ('d, u32, 'e) io) d = (Ok v, d1)"
    "\<And>msg. pend (bus_write io (mbox_base mb + 0x20) msg d1) = pend d @ fst (gpu msg (word d))"
    "\<And>msg. word (bus_write io (mbox_base mb + 0x20) msg d1) = snd (gpu msg (word d))"
    using wait_for_write_ends [OF L, of d] by metis
  define d2 where "d2 = bus_write io (mbox_base mb + 0x20) (request_msg channel buf) d1"
  have d2: "pend d2 = xs @ r # ys" "word d2 = word'"
    using w gpu queue unfolding d2_def by simp_all
  obtain d3 where d3: "response_loop io mb (ucast (channel_num channel)) d2 = Some (r, d3)" "pend d3 = ys" "word d3 = word'"
    using response_loop_skips [OF L d2(1) skipped mine] d2(2) by auto
  obtain d4 where "bus_read io (buf + 4) d3 = (word' (buf + 4), d4)" "pend d4 = ys" "word d4 = word'"
    using L ram d3(2,3) unfolding mailbox_laws_def by metis
  then show ?thesis
    using w d3 unfolding mailbox_call_def Let_def request_msg_def [symmetric]
    by (simp add: io_simps run_io_bind mbox_write_data_def MBOX_REG_WRITE_def d2_def [symmetric] take_response_def)
qed

text \<open>
  C37. A mailbox call returns whenever a message for its channel is on the way: it drops the messages
  of other channels before it, takes the first one of its own, leaves the later ones queued, and
  reports success exactly when that message carries the address of the request and the firmware
  stored the success code in the second word of the buffer.
\<close>

theorem mailbox_call_correct:
  assumes L: "mailbox_laws io (mbox_base mb) gpu pend word lat"
    and gpu: "gpu (request_msg channel buf) (word d) = (replies, word')"
    and queue: "pend d @ replies = xs @ r # ys"
    and skipped: "\<forall>x \<in> set xs. \<not> for_channel channel x" and mine: "for_channel channel r"
    and ram: "buf + 4 \<notin> mailbox_regs (mbox_base mb)"
  shows "\<exists>d'. run_state (mailbox_call io mb channel buf :: ('d, bool, 'e) io) d =
      (Ok (r AND DATA_MASK = buf AND DATA_MASK \<and> word' (buf + 4) = RESPONSE_SUCCESS), d') \<and>
    pend d' = ys \<and> word d' = word'"
  by (rule mailbox_call_run [where gpu = gpu and pend = pend and word = word and lat = lat, OF assms])

text \<open>
  A mailbox that answers with the message it was sent and the success code, that stays full for the
  first number of looks at its status and loses what is written to it then, and that holds a
  message of another channel.
\<close>

definition echo_gpu :: "u32 \<Rightarrow> (u32 \<Rightarrow> u32) \<Rightarrow> u32 list \<times> (u32 \<Rightarrow> u32)" where
  "echo_gpu msg w = ([msg], w((msg AND DATA_MASK) + 4 := RESPONSE_SUCCESS))"

definition echo_bus :: "u32 \<Rightarrow> (u32, nat \<times> u32 list \<times> (u32 \<Rightarrow> u32)) bus" where
  "echo_bus base =
     \<lparr>bus_read = (\<lambda>a (n, q, w).
        if a = base + 0x18 then ((if q = [] then STATUS_EMPTY else 0) OR (if 0 < n then STATUS_FULL else 0), n - 1, q, w)
        else if a = base then (hd q, n, tl q, w)
        else (w a, n, q, w)),
      bus_write = (\<lambda>a v (n, q, w).
        if a = base + 0x20 then (if 0 < n then (n, q, w) else (n, q @ fst (echo_gpu v w), snd (echo_gpu v w)))
        else (n, q, w(a := v)))\<rparr>"

lemma echo_laws: "mailbox_laws (echo_bus base) base echo_gpu (fst \<circ> snd) (snd \<circ> snd) fst"
  by (auto simp: mailbox_laws_def echo_bus_def mailbox_regs_def STATUS_EMPTY_def STATUS_FULL_def split: if_splits)

theorem mailbox_call_correct_witness:
  "\<exists>d'. run_state (mailbox_call (echo_bus MAILBOX_BASE) mailbox_new Property 0x1000 :: (_, _, unit) io) (2, [0x31], \<lambda>_. 0) =
      (Ok True, d') \<and> fst (snd d') = [] \<and> snd (snd d') = (\<lambda>_. 0)(0x1004 := RESPONSE_SUCCESS)"
proof -
  have L: "mailbox_laws (echo_bus MAILBOX_BASE) (mbox_base mailbox_new) echo_gpu (fst \<circ> snd) (snd \<circ> snd) fst"
    by (simp add: echo_laws mailbox_new_def)
  have msg: "request_msg Property 0x1000 = 0x1008"
    by (simp add: request_msg_def DATA_MASK_def CHANNEL_MASK_def)
  show ?thesis
    using mailbox_call_correct [OF L, where channel = Property and buf = "0x1000" and d = "(2, [0x31], \<lambda>_. 0)"
        and xs = "[0x31]" and r = "0x1008" and ys = "[]"
        and replies = "fst (echo_gpu 0x1008 (\<lambda>_. 0))" and word' = "snd (echo_gpu 0x1008 (\<lambda>_. 0))"]
    by (simp add: msg echo_gpu_def DATA_MASK_def CHANNEL_MASK_def for_channel_def mailbox_regs_def
        mailbox_new_def MAILBOX_BASE_def)
qed

section \<open>Queries\<close>

text \<open>
  What firmware that follows the property protocol does with a request at \<open>req\<close>: it sends the
  message back and reports success in the request, whose values are then the answer.
\<close>

lemma query_answered:
  assumes L: "mailbox_laws io MAILBOX_BASE gpu pend word lat"
    and gpu: "gpu (request_msg Property req) (word d) = ([request_msg Property req], word')"
    and idle: "\<forall>x \<in> set (pend d). \<not> for_channel Property x"
    and ram: "req + 4 \<notin> mailbox_regs MAILBOX_BASE"
  shows "\<exists>d'. run_state (mailbox_call io mailbox_new Property req :: ('d, bool, 'e) io) d =
      (Ok (word' (req + 4) = RESPONSE_SUCCESS), d') \<and> pend d' = [] \<and> word d' = word'"
proof -
  have "for_channel Property (request_msg Property req)"
    unfolding for_channel_def request_msg_def CHANNEL_MASK_def DATA_MASK_def
    by (simp add: bit.conj_disj_distrib2 and.assoc)
  moreover have "request_msg Property req AND DATA_MASK = req AND DATA_MASK"
    unfolding request_msg_def CHANNEL_MASK_def DATA_MASK_def
    by (simp add: bit.conj_disj_distrib2 and.assoc)
  ultimately show ?thesis
    using mailbox_call_run [of io mailbox_new gpu pend word lat Property req d "[request_msg Property req]" word'
        "pend d" "request_msg Property req" "[]", where 'e = 'e] assms
    by (simp add: mailbox_new_def)
qed

lemma load_shared:
  assumes "mailbox_laws io base gpu pend word lat" "a \<notin> mailbox_regs base"
  obtains d' where "bus_read io a d = (word d a, d')" "pend d' = pend d" "word d' = word d"
  using assms unfolding mailbox_laws_def by metis

text \<open>
  A query returns the values of the answered request, and nothing when the firmware refused it.  The
  request lies in memory, outside the mailbox registers.
\<close>

definition request_in_ram :: "u32 \<Rightarrow> bool" where
  "request_in_ram req \<longleftrightarrow> (\<forall>i \<in> {1, 5, 6}. req + 4 * i \<notin> mailbox_regs MAILBOX_BASE)"

lemma get_arm_memory_answer:
  assumes L: "mailbox_laws io MAILBOX_BASE gpu pend word lat"
    and gpu: "gpu (request_msg Property req) (word d) = ([request_msg Property req], word')"
    and idle: "\<forall>x \<in> set (pend d). \<not> for_channel Property x" and ram: "request_in_ram req"
  shows "\<exists>d'. run_state (get_arm_memory io req :: ('d, _, 'e) io) d =
      (Ok (if word' (req + 4) = RESPONSE_SUCCESS then Some (word' (req + 20), word' (req + 24)) else None), d') \<and>
    pend d' = [] \<and> word d' = word'"
proof -
  have r: "req + 4 \<notin> mailbox_regs MAILBOX_BASE" "req + 20 \<notin> mailbox_regs MAILBOX_BASE" "req + 24 \<notin> mailbox_regs MAILBOX_BASE"
    using ram by (simp_all add: request_in_ram_def)
  obtain d1 where d1: "run_state (mailbox_call io mailbox_new Property req :: ('d, bool, 'e) io) d =
      (Ok (word' (req + 4) = RESPONSE_SUCCESS), d1)" "pend d1 = []" "word d1 = word'"
    using query_answered [where 'e = 'e and gpu = gpu and pend = pend and word = word and lat = lat, OF L gpu idle r(1)] by blast
  obtain d2 where d2: "bus_read io (req + 20) d1 = (word' (req + 20), d2)" "pend d2 = []" "word d2 = word'"
    using load_shared [OF L r(2), of d1] d1(2,3) by auto
  obtain d3 where "bus_read io (req + 24) d2 = (word' (req + 24), d3)" "pend d3 = []" "word d3 = word'"
    using load_shared [OF L r(3), of d2] d2(2,3) by auto
  with d1 d2 show ?thesis by (simp add: get_arm_memory_def run_io_bind io_simps)
qed

text \<open>The memory of the GPU is asked for in the same way; the requests differ in their tag.\<close>

lemma get_vc_memory_same: "get_vc_memory io req = get_arm_memory io req"
  by (simp add: get_vc_memory_def get_arm_memory_def)

lemma get_board_serial_joins:
  assumes "run_state (get_arm_memory io req :: ('d, _, 'e) io) d = (Ok (Some (low, high)), d')"
  shows "run_state (get_board_serial io req :: ('d, _, 'e) io) d =
    (Ok (Some (push_bit 32 (ucast high) OR ucast low)), d')"
  using assms by (auto simp: get_arm_memory_def get_board_serial_def run_io_bind io_simps
      split: prod.splits outcome.splits if_splits)

end
