(* ===== verification/Bcm_Fb.thy ===== *)
theory Bcm_Fb
  imports Mailbox Mb2_Fb
begin

text \<open>
  The framebuffer of the Raspberry Pi (\<^verbatim>\<open>drivers/src/peripheral/bcm2835/framebuffer.rs\<close>).  The display
  is set up by a request to the firmware, through the mailbox; the request lies on the stack, at an
  address that is a parameter.  The driver then owns a slice of 32-bit words; it never changes
  itself, so the state of the display is the memory.
\<close>

section \<open>Setting up the display\<close>

record bcm_fb =
  bf_info :: frame_buffer_info
  bf_buffer :: u32
  bf_len :: u32
  bf_pixel_format :: pixel_format

text \<open>
  The words of \<^verbatim>\<open>FbRequest\<close> in the order of its fields, as the struct literal fills them; its size is
  rounded up to its alignment of 16.
\<close>

definition fb_request :: "u32 list" where
  "fb_request =
     [128, 0,
      SET_PHYSICAL_SIZE, 8, 0, 0, 0,
      SET_VIRTUAL_SIZE, 8, 0, 0, 0,
      SET_DEPTH, 4, 0, 0,
      SET_PIXEL_ORDER, 4, 0, 1,
      ALLOCATE_BUFFER, 8, 0, 0, 0,
      GET_PITCH, 4, 0, 0,
      0]"

fun store_words :: "(u32, 'd) bus \<Rightarrow> u32 \<Rightarrow> u32 list \<Rightarrow> ('d, unit) state" where
  "store_words io a [] = State_Monad.return ()"
| "store_words io a (w # ws) = do { store io a w; store_words io (a + 4) ws }"

definition prepare_request :: "(u32, 'd) bus \<Rightarrow> u32 \<Rightarrow> frame_buffer_config \<Rightarrow> ('d, unit) state" where
  "prepare_request io req config = do {
     store_words io req fb_request;
     store io (req + 20) (fc_width config);
     store io (req + 24) (fc_height config);
     store io (req + 40) (fc_virtual_width config);
     store io (req + 44) (fc_virtual_height config);
     store io (req + 60) (fc_depth config)
   }"

definition bcm_fb_of :: "frame_buffer_config \<Rightarrow> u32 \<Rightarrow> u32 \<Rightarrow> u32 \<Rightarrow> u32 \<Rightarrow> bcm_fb" where
  "bcm_fb_of config fb_addr sz pitch pixel_order =
     (let fb_addr = fb_addr AND 0x3FFFFFFF;
          format = (if pixel_order = 0 then Bgr else Rgb) in
      \<lparr>bf_info = \<lparr>fi_width = fc_width config, fi_height = fc_height config, fi_pitch = pitch, fi_depth = fc_depth config,
         fi_pixel_format = format, fi_address = fb_addr, fi_size = sz\<rparr>,
       bf_buffer = fb_addr, bf_len = sz div 4, bf_pixel_format = format\<rparr>)"

definition bcm_fb_new :: "(u32, 'd) bus \<Rightarrow> u32 \<Rightarrow> frame_buffer_config \<Rightarrow> ('d, bcm_fb, frame_buffer_error) io" where
  "bcm_fb_new io req config = do {
     prepare_request io req config;
     io_bind (mailbox_call io mailbox_new Property req) (\<lambda>r.
       if \<not> r then fail MailboxFailed
       else do {
         fb_addr \<leftarrow> load io (req + 92);
         sz \<leftarrow> load io (req + 96);
         pitch \<leftarrow> load io (req + 112);
         pixel_order \<leftarrow> load io (req + 76);
         if fb_addr = 0 \<or> sz = 0 then fail AllocationFailed
         else ok (bcm_fb_of config fb_addr sz pitch pixel_order)
       })
   }"

section \<open>Pixels\<close>

definition pixel_offset :: "bcm_fb \<Rightarrow> u32 \<Rightarrow> u32 \<Rightarrow> u32 option" where
  "pixel_offset fb x y =
     (if fi_width (bf_info fb) \<le> x \<or> fi_height (bf_info fb) \<le> y then None
      else
        let offset = y * (fi_pitch (bf_info fb) div 4) + x in
        if offset < bf_len fb then Some offset else None)"

text \<open>\<^verbatim>\<open>buffer[i]\<close>, and \<^verbatim>\<open>buffer[a..b].fill(v)\<close>, which panics when the range is not in the slice.\<close>

definition buffer_get :: "bcm_fb \<Rightarrow> u32 \<Rightarrow> memory \<Rightarrow> u32 call" where
  "buffer_get fb i m = (if i < bf_len fb then Ok (read_u32 m (bf_buffer fb + 4 * i)) else Panic)"

definition buffer_set :: "bcm_fb \<Rightarrow> u32 \<Rightarrow> u32 \<Rightarrow> memory \<Rightarrow> memory call" where
  "buffer_set fb i v m = (if i < bf_len fb then Ok (write_u32 m (bf_buffer fb + 4 * i) v) else Panic)"

definition buffer_fill :: "bcm_fb \<Rightarrow> u32 \<Rightarrow> u32 \<Rightarrow> u32 \<Rightarrow> memory \<Rightarrow> memory call" where
  "buffer_fill fb a b v m =
     (if b < a \<or> bf_len fb < b then Panic else fill_words (bf_buffer fb + 4 * a) v (u32_range 0 (b - a)) m)"

definition bcm_clear :: "bcm_fb \<Rightarrow> u32 \<Rightarrow> memory \<Rightarrow> memory call" where
  "bcm_clear fb color m = fill_words (bf_buffer fb) color (u32_range 0 (bf_len fb)) m"

definition bcm_set_pixel :: "bcm_fb \<Rightarrow> u32 \<Rightarrow> u32 \<Rightarrow> u32 \<Rightarrow> memory \<Rightarrow> (bool \<times> memory) call" where
  "bcm_set_pixel fb x y color m =
     (case pixel_offset fb x y of
        Some offset \<Rightarrow> obind (buffer_set fb offset color m) (\<lambda>m. Ok (True, m))
      | None \<Rightarrow> Ok (False, m))"

definition bcm_get_pixel :: "bcm_fb \<Rightarrow> u32 \<Rightarrow> u32 \<Rightarrow> memory \<Rightarrow> u32 option call" where
  "bcm_get_pixel fb x y m =
     (case pixel_offset fb x y of
        None \<Rightarrow> Ok None
      | Some offset \<Rightarrow> obind (buffer_get fb offset m) (\<lambda>c. Ok (Some c)))"

section \<open>Lines and rectangles\<close>

definition bcm_draw_hline :: "bcm_fb \<Rightarrow> u32 \<Rightarrow> u32 \<Rightarrow> u32 \<Rightarrow> u32 \<Rightarrow> memory \<Rightarrow> memory call" where
  "bcm_draw_hline fb x1 x2 y color m =
     (if fi_height (bf_info fb) \<le> y then Ok m
      else
        let x1 = min x1 (fi_width (bf_info fb) - 1);
            x2 = min x2 (fi_width (bf_info fb) - 1);
            (x1, x2) = (if x1 \<le> x2 then (x1, x2) else (x2, x1)) in
        case pixel_offset fb x1 y of
          Some start_offset \<Rightarrow>
            let len = x2 - x1 + 1 in buffer_fill fb start_offset (start_offset + len) color m
        | None \<Rightarrow> Ok m)"

definition bcm_draw_vline :: "bcm_fb \<Rightarrow> u32 \<Rightarrow> u32 \<Rightarrow> u32 \<Rightarrow> u32 \<Rightarrow> memory \<Rightarrow> memory call" where
  "bcm_draw_vline fb x y1 y2 color m =
     (if fi_width (bf_info fb) \<le> x then Ok m
      else
        let y1 = min y1 (fi_height (bf_info fb) - 1);
            y2 = min y2 (fi_height (bf_info fb) - 1);
            (y1, y2) = (if y1 \<le> y2 then (y1, y2) else (y2, y1)) in
        for_each (\<lambda>y m. obind (bcm_set_pixel fb x y color m) (\<lambda>r. Ok (snd r))) (u32_range_incl y1 y2) m)"

definition bcm_draw_rect :: "bcm_fb \<Rightarrow> u32 \<Rightarrow> u32 \<Rightarrow> u32 \<Rightarrow> u32 \<Rightarrow> u32 \<Rightarrow> memory \<Rightarrow> memory call" where
  "bcm_draw_rect fb x y width height color m =
     (let x2 = min (saturating_add x width) (fi_width (bf_info fb));
          y2 = min (saturating_add y height) (fi_height (bf_info fb)) in
      for_each (\<lambda>py. bcm_draw_hline fb x (x2 - 1) py color) (u32_range y y2) m)"

section \<open>The trait\<close>

definition bcm_frame_buffer :: "bcm_fb \<Rightarrow> memory frame_buffer" where
  "bcm_frame_buffer fb =
     \<lparr>fb_width = fi_width (bf_info fb), fb_height = fi_height (bf_info fb),
      fb_bytes_per_pixel = fi_depth (bf_info fb) div 8, fb_pitch = fi_pitch (bf_info fb),
      fb_size = default_size (fi_pitch (bf_info fb)) (fi_height (bf_info fb)),
      fb_buffer_ptr = fi_address (bf_info fb), fb_pixel_format = bf_pixel_format fb,
      fb_clear = bcm_clear fb, fb_set_pixel = bcm_set_pixel fb, fb_get_pixel = bcm_get_pixel fb,
      fb_draw_hline = bcm_draw_hline fb, fb_draw_vline = bcm_draw_vline fb, fb_draw_rect = bcm_draw_rect fb\<rparr>"

end
