(* ===== verification/Bcm_Fb_Properties.thy ===== *)
theory Bcm_Fb_Properties
  imports Bcm_Fb Mailbox_Properties
begin

text \<open>
  The Raspberry Pi framebuffer: its operations as updates of the words of the buffer, what a filled
  rectangle paints, and what setting up the display returns.
\<close>

section \<open>The words of the buffer\<close>

definition bcm_word :: "bcm_fb \<Rightarrow> memory \<Rightarrow> nat \<Rightarrow> u32" where
  "bcm_word fb m i = read_u32 m (bf_buffer fb + 4 * of_nat i)"

definition bcm_bytes :: "bcm_fb \<Rightarrow> u32 set" where
  "bcm_bytes fb = span (unat (bf_buffer fb)) (4 * unat (bf_len fb))"

text \<open>Words per row, and a display whose rows fit into the pitch and into the buffer.\<close>

definition bcm_stride :: "bcm_fb \<Rightarrow> nat" where
  "bcm_stride fb = unat (fi_pitch (bf_info fb) div 4)"

definition bcm_wf :: "bcm_fb \<Rightarrow> bool" where
  "bcm_wf fb \<longleftrightarrow>
     unat (bf_buffer fb) + 4 * unat (bf_len fb) \<le> 2 ^ 32 \<and>
     unat (fi_width (bf_info fb)) \<le> bcm_stride fb \<and>
     unat (fi_height (bf_info fb)) * bcm_stride fb \<le> unat (bf_len fb)"

lemma word_addr:
  assumes "bcm_wf fb" "i < unat (bf_len fb)"
  shows "unat (bf_buffer fb + 4 * of_nat i) = unat (bf_buffer fb) + 4 * i"
proof -
  have "unat (bf_buffer fb + 4 * of_nat i) = (unat (bf_buffer fb) + 4 * i) mod 2 ^ 32"
    by (simp add: unat_word_ariths unat_of_nat mod_simps)
  moreover have "unat (bf_buffer fb) + 4 * i < 2 ^ 32" using assms unfolding bcm_wf_def by linarith
  ultimately show ?thesis by simp
qed

lemma word_cells:
  assumes "bcm_wf fb" "i < unat (bf_len fb)"
  shows "cells (bf_buffer fb + 4 * of_nat i) \<subseteq> span (unat (bf_buffer fb) + 4 * i) 4"
proof -
  have "unat (bf_buffer fb + 4 * of_nat i) + 4 \<le> 2 ^ 32"
    using word_addr [OF assms] assms unfolding bcm_wf_def by linarith
  then show ?thesis using cells_span [of 4 "bf_buffer fb + 4 * of_nat i"] word_addr [OF assms] by simp
qed

lemma write_word:
  assumes "bcm_wf fb" "i < unat (bf_len fb)"
  shows "j < unat (bf_len fb) \<Longrightarrow>
      bcm_word fb (write_u32 m (bf_buffer fb + 4 * of_nat i) v) j = (if j = i then v else bcm_word fb m j)"
    and "a \<notin> bcm_bytes fb \<Longrightarrow> write_u32 m (bf_buffer fb + 4 * of_nat i) v a = m a"
proof -
  assume j: "j < unat (bf_len fb)"
  show "bcm_word fb (write_u32 m (bf_buffer fb + 4 * of_nat i) v) j = (if j = i then v else bcm_word fb m j)"
  proof (cases "j = i")
    case False
    then have "unat (bf_buffer fb) + 4 * i + 4 \<le> unat (bf_buffer fb) + 4 * j \<or>
        unat (bf_buffer fb) + 4 * j + 4 \<le> unat (bf_buffer fb) + 4 * i" by linarith
    then have "cells (bf_buffer fb + 4 * of_nat i) \<inter> cells (bf_buffer fb + 4 * of_nat j) = {}"
      using word_cells [OF assms] word_cells [OF assms(1) j] span_disjoint by blast
    with False show ?thesis by (simp add: bcm_word_def read_write_u32_other)
  qed (simp add: bcm_word_def read_write_u32_same)
next
  assume "a \<notin> bcm_bytes fb"
  moreover have "span (unat (bf_buffer fb) + 4 * i) 4 \<subseteq> bcm_bytes fb"
    using assms(2) by (auto simp: span_def bcm_bytes_def)
  ultimately show "write_u32 m (bf_buffer fb + 4 * of_nat i) v a = m a"
    using word_cells [OF assms] by (intro write_u32_other) blast
qed

text \<open>\<open>m'\<close> is \<open>m\<close> with the words of \<open>S\<close> set to \<open>v\<close>.\<close>

definition painted :: "bcm_fb \<Rightarrow> u32 \<Rightarrow> nat set \<Rightarrow> memory \<Rightarrow> memory \<Rightarrow> bool" where
  "painted fb v S m m' \<longleftrightarrow>
     (\<forall>j < unat (bf_len fb). bcm_word fb m' j = (if j \<in> S then v else bcm_word fb m j)) \<and>
     (\<forall>a. a \<notin> bcm_bytes fb \<longrightarrow> m' a = m a)"

lemma painted_refl [simp]: "painted fb v {} m m"
  by (simp add: painted_def)

lemma painted_trans: "painted fb v S m m' \<Longrightarrow> painted fb v T m' m'' \<Longrightarrow> painted fb v (S \<union> T) m m''"
  by (auto simp: painted_def)

lemma painted_write:
  "bcm_wf fb \<Longrightarrow> i < unat (bf_len fb) \<Longrightarrow> painted fb v {i} m (write_u32 m (bf_buffer fb + 4 * of_nat i) v)"
  using write_word [of fb i] by (simp add: painted_def)

text \<open>A loop whose iterations each paint something.\<close>

lemma for_each_painted:
  assumes "\<And>x m. x \<in> set xs \<Longrightarrow> \<exists>m'. f x m = Ok m' \<and> painted fb v (S x) m m'"
  shows "\<exists>m'. for_each f xs m = Ok m' \<and> painted fb v (\<Union> (S ` set xs)) m m'"
  using assms
proof (induction xs arbitrary: m)
  case (Cons x xs)
  obtain m1 where "f x m = Ok m1" "painted fb v (S x) m m1" using Cons.prems [of x m] by auto
  moreover obtain m2 where "for_each f xs m1 = Ok m2" "painted fb v (\<Union> (S ` set xs)) m1 m2"
    using Cons.IH [of m1] Cons.prems by auto
  ultimately show ?case by (auto dest: painted_trans)
qed simp

lemma unat_u32_range: "unat ` set (u32_range a b) = {unat a..<unat b}"
proof -
  have "unat (of_nat i :: u32) = i" if "i < unat b" for i
    using that unat_less [of b] by (simp add: unat_of_nat)
  then have "unat ` (of_nat :: nat \<Rightarrow> u32) ` {unat a..<unat b} = {unat a..<unat b}"
    unfolding image_image by (intro image_cong [THEN trans, OF refl _ image_ident]) simp
  then show ?thesis by (simp add: u32_range_def)
qed

lemma fill_painted:
  assumes wf: "bcm_wf fb" and len: "a + unat n \<le> unat (bf_len fb)"
  shows "\<exists>m'. fill_words (bf_buffer fb + 4 * of_nat a) v (u32_range 0 n) m = Ok m' \<and> painted fb v {a..<a + unat n} m m'"
proof -
  have "\<exists>m'. Ok (write_u32 m (bf_buffer fb + 4 * of_nat a + 4 * i) v) = Ok m' \<and> painted fb v {a + unat i} m m'"
    if "i \<in> set (u32_range 0 n)" for i m
  proof -
    have "unat i < unat n" using that by (metis atLeastLessThan_iff imageI unat_u32_range)
    then have "painted fb v {a + unat i} m (write_u32 m (bf_buffer fb + 4 * of_nat (a + unat i)) v)"
      using len by (intro painted_write [OF wf]) simp
    then show ?thesis by (simp add: algebra_simps)
  qed
  from for_each_painted [where f = "\<lambda>i m. Ok (write_u32 m (bf_buffer fb + 4 * of_nat a + 4 * i) v)", OF this]
  obtain m' where "fill_words (bf_buffer fb + 4 * of_nat a) v (u32_range 0 n) m = Ok m'"
    "painted fb v (\<Union>i \<in> set (u32_range 0 n). {a + unat i}) m m'"
    unfolding fill_words_def by blast
  moreover have "(\<Union>i \<in> set (u32_range 0 n). {a + unat i}) = {a..<a + unat n}"
  proof -
    have "(\<Union>i \<in> set (u32_range 0 n). {a + unat i}) = (\<lambda>i. a + i) ` unat ` set (u32_range 0 n)" by auto
    then show ?thesis by (simp add: unat_u32_range add.commute)
  qed
  ultimately show ?thesis by auto
qed

section \<open>Pixels\<close>

definition bcm_index :: "bcm_fb \<Rightarrow> nat \<Rightarrow> nat \<Rightarrow> nat" where
  "bcm_index fb x y = y * bcm_stride fb + x"

lemma index_in_row:
  assumes "bcm_wf fb" "x < unat (fi_width (bf_info fb))" "y < unat (fi_height (bf_info fb))"
  shows "y * bcm_stride fb + unat (fi_width (bf_info fb)) \<le> unat (bf_len fb)" "bcm_index fb x y < unat (bf_len fb)"
proof -
  have "Suc y * bcm_stride fb \<le> unat (fi_height (bf_info fb)) * bcm_stride fb"
    using assms(3) by (intro mult_le_mono1) simp
  then show "y * bcm_stride fb + unat (fi_width (bf_info fb)) \<le> unat (bf_len fb)"
    using assms(1) by (simp add: bcm_wf_def)
  then show "bcm_index fb x y < unat (bf_len fb)" using assms(2) by (simp add: bcm_index_def)
qed

lemma offset_index:
  assumes "bcm_wf fb" "x < fi_width (bf_info fb)" "y < fi_height (bf_info fb)"
  obtains i where "pixel_offset fb x y = Some i" "unat i = bcm_index fb (unat x) (unat y)" "i < bf_len fb"
proof -
  define P where "P = fi_pitch (bf_info fb) div 4"
  let ?i = "y * P + x"
  have lt: "bcm_index fb (unat x) (unat y) < unat (bf_len fb)"
    using index_in_row [OF assms(1)] assms(2,3) by (simp add: word_less_nat_alt)
  have "unat ?i = bcm_index fb (unat x) (unat y) mod 2 ^ 32"
    by (simp add: unat_word_ariths bcm_index_def bcm_stride_def mod_simps flip: P_def)
  also have "\<dots> = bcm_index fb (unat x) (unat y)" using lt unat_less [of "bf_len fb"] by simp
  finally have u: "unat ?i = bcm_index fb (unat x) (unat y)" .
  then have "?i < bf_len fb" using lt by (simp add: word_less_nat_alt)
  then show ?thesis using that [OF _ u] assms(2,3) by (simp add: pixel_offset_def Let_def not_le P_def)
qed

lemma get_pixel_word:
  assumes "bcm_wf fb" "x < fi_width (bf_info fb)" "y < fi_height (bf_info fb)"
  shows "bcm_get_pixel fb x y m = Ok (Some (bcm_word fb m (bcm_index fb (unat x) (unat y))))"
proof (rule offset_index [OF assms])
  fix i assume "pixel_offset fb x y = Some i" and u: "unat i = bcm_index fb (unat x) (unat y)" and "i < bf_len fb"
  then show ?thesis by (simp add: bcm_get_pixel_def buffer_get_def bcm_word_def flip: u)
qed

lemma set_pixel_painted:
  assumes "bcm_wf fb" "x < fi_width (bf_info fb)" "y < fi_height (bf_info fb)"
  shows "\<exists>m'. bcm_set_pixel fb x y v m = Ok (True, m') \<and> painted fb v {bcm_index fb (unat x) (unat y)} m m'"
proof (rule offset_index [OF assms])
  fix i assume "pixel_offset fb x y = Some i" and u: "unat i = bcm_index fb (unat x) (unat y)" and i: "i < bf_len fb"
  then show ?thesis using painted_write [OF assms(1), of "unat i" v m]
    by (simp add: bcm_set_pixel_def buffer_set_def word_less_nat_alt flip: u)
qed

lemma index_between:
  assumes "x < bcm_stride fb" "hi < bcm_stride fb"
  shows "bcm_index fb lo y \<le> bcm_index fb x y' \<and> bcm_index fb x y' \<le> bcm_index fb hi y \<longleftrightarrow> y' = y \<and> lo \<le> x \<and> x \<le> hi"
proof -
  have "y' = y" if "y * bcm_stride fb \<le> y' * bcm_stride fb + x" "y' * bcm_stride fb + x \<le> y * bcm_stride fb + hi"
  proof -
    have "(y' * bcm_stride fb + x) div bcm_stride fb = y'" "(y * bcm_stride fb + hi) div bcm_stride fb = y"
      "(y * bcm_stride fb) div bcm_stride fb = y"
      using assms by simp_all
    then show ?thesis using that div_le_mono [OF that(1), of "bcm_stride fb"] div_le_mono [OF that(2), of "bcm_stride fb"]
      by linarith
  qed
  then show ?thesis unfolding bcm_index_def by auto
qed

section \<open>Lines and rectangles\<close>

text \<open>A row from \<open>lo\<close> to \<open>hi\<close>, both inside the screen.\<close>

lemma row_painted:
  assumes "bcm_wf fb" "lo \<le> hi" "hi < fi_width (bf_info fb)" "y < fi_height (bf_info fb)"
  shows "\<exists>i m'. pixel_offset fb lo y = Some i \<and> buffer_fill fb i (i + (hi - lo + 1)) v m = Ok m' \<and>
    painted fb v {bcm_index fb (unat lo) (unat y)..bcm_index fb (unat hi) (unat y)} m m'"
proof (rule offset_index [OF assms(1) _ assms(4)])
  show "lo < fi_width (bf_info fb)" using assms(2,3) by simp
  fix i assume i: "pixel_offset fb lo y = Some i" and u: "unat i = bcm_index fb (unat lo) (unat y)" and "i < bf_len fb"
  have le: "unat lo \<le> unat hi" "unat hi < unat (fi_width (bf_info fb))"
    using assms(2,3) by (simp_all add: word_le_nat_alt word_less_nat_alt)
  have n: "unat (hi - lo + 1) = unat hi - unat lo + 1"
  proof -
    have "unat (hi - lo) = unat hi - unat lo" using assms(2) by (rule unat_sub_le)
    moreover have "unat hi - unat lo + 1 < 2 ^ 32" using le unat_less [of "fi_width (bf_info fb)"] by simp
    ultimately show ?thesis by (simp add: unat_word_ariths)
  qed
  have e: "unat i + unat (hi - lo + 1) \<le> unat (bf_len fb)"
    using index_in_row(2) [OF assms(1) le(2), of "unat y"] assms(4) le unfolding n u
    by (simp add: bcm_index_def word_less_nat_alt Suc_le_eq)
  then have s: "unat (i + (hi - lo + 1)) = unat i + unat (hi - lo + 1)"
    using unat_less [of "bf_len fb"] by (subst unat_word_ariths) simp
  then have "\<not> i + (hi - lo + 1) < i" "\<not> bf_len fb < i + (hi - lo + 1)"
    using e by (simp_all add: word_less_nat_alt not_less)
  moreover obtain m' where "fill_words (bf_buffer fb + 4 * of_nat (unat i)) v (u32_range 0 (hi - lo + 1)) m = Ok m'"
      "painted fb v {unat i..<unat i + unat (hi - lo + 1)} m m'"
    using fill_painted [OF assms(1) e] by blast
  moreover have "{unat i..<unat i + unat (hi - lo + 1)} = {bcm_index fb (unat lo) (unat y)..bcm_index fb (unat hi) (unat y)}"
    using le unfolding u n bcm_index_def by auto
  ultimately show ?thesis using i by (simp add: buffer_fill_def)
qed

lemma less_sub1: "(x :: u32) < w \<Longrightarrow> x \<le> w - 1"
  by unat_arith

lemma hline_painted:
  assumes "bcm_wf fb" "x1 \<le> x2" "x2 < fi_width (bf_info fb)" "y < fi_height (bf_info fb)"
  shows "\<exists>m'. bcm_draw_hline fb x1 x2 y v m = Ok m' \<and>
    painted fb v {bcm_index fb (unat x1) (unat y)..bcm_index fb (unat x2) (unat y)} m m'"
proof -
  have "x2 \<le> fi_width (bf_info fb) - 1" using assms(3) by (rule less_sub1)
  then have "min x1 (fi_width (bf_info fb) - 1) = x1" "min x2 (fi_width (bf_info fb) - 1) = x2"
    using assms(2) by auto
  then show ?thesis using row_painted [OF assms, of v m] assms(2,4)
    by (auto simp: bcm_draw_hline_def Let_def not_le)
qed

lemma unat_clip: "unat (min (saturating_add x w) b) = min (unat x + unat w) (unat b)"
proof (cases "unat x + unat w < 2 ^ 32")
  case False
  then have "min (saturating_add x w) b = b" "unat b \<le> unat x + unat w"
    using unat_less [of b] by (simp_all add: saturating_add_def min.absorb2)
  then show ?thesis by simp
qed (simp add: saturating_add_def min_def word_le_nat_alt unat_word_ariths)

lemma draw_rect_painted:
  fixes x y w h :: u32
  assumes wf: "bcm_wf fb" and x: "x < fi_width (bf_info fb)" and w: "0 < w"
  defines "x2 \<equiv> min (unat x + unat w) (unat (fi_width (bf_info fb)))"
    and "y2 \<equiv> min (unat y + unat h) (unat (fi_height (bf_info fb)))"
  shows "\<exists>m'. bcm_draw_rect fb x y w h c m = Ok m' \<and>
    painted fb c (\<Union>py \<in> {unat y..<y2}. {bcm_index fb (unat x) py..bcm_index fb (x2 - 1) py}) m m'"
proof -
  let ?x2 = "min (saturating_add x w) (fi_width (bf_info fb))" and ?y2 = "min (saturating_add y h) (fi_height (bf_info fb))"
  have x2: "unat ?x2 = x2" "unat ?y2 = y2" by (simp_all add: unat_clip x2_def y2_def)
  have pos: "unat x < x2" "x2 \<le> unat (fi_width (bf_info fb))"
    using x w by (auto simp: x2_def word_less_nat_alt)
  have sub: "unat (?x2 - 1) = x2 - 1"
    using pos(1) x2(1) by (subst unat_sub_le) (auto simp: word_le_nat_alt)
  have b: "x \<le> ?x2 - 1" "?x2 - 1 < fi_width (bf_info fb)"
    using pos sub by (simp_all add: word_le_nat_alt word_less_nat_alt)
  have row: "\<exists>m'. bcm_draw_hline fb x (?x2 - 1) py c m = Ok m' \<and>
      painted fb c {bcm_index fb (unat x) (unat py)..bcm_index fb (x2 - 1) (unat py)} m m'"
    if "py \<in> set (u32_range y ?y2)" for py m
  proof -
    have "unat py \<in> {unat y..<y2}" using that unat_u32_range [of y ?y2] x2(2) by blast
    then have "py < fi_height (bf_info fb)" by (simp add: y2_def word_less_nat_alt)
    then show ?thesis using hline_painted [OF wf b, of py c m] sub by simp
  qed
  have "(\<Union>py \<in> set (u32_range y ?y2). {bcm_index fb (unat x) (unat py)..bcm_index fb (x2 - 1) (unat py)}) =
      (\<Union>py \<in> unat ` set (u32_range y ?y2). {bcm_index fb (unat x) py..bcm_index fb (x2 - 1) py})" by simp
  also have "\<dots> = (\<Union>py \<in> {unat y..<y2}. {bcm_index fb (unat x) py..bcm_index fb (x2 - 1) py})"
    unfolding unat_u32_range x2 ..
  finally have S: "(\<Union>py \<in> set (u32_range y ?y2). {bcm_index fb (unat x) (unat py)..bcm_index fb (x2 - 1) (unat py)}) =
      (\<Union>py \<in> {unat y..<y2}. {bcm_index fb (unat x) py..bcm_index fb (x2 - 1) py})" .
  show ?thesis
    using for_each_painted [of "u32_range y ?y2" "\<lambda>py. bcm_draw_hline fb x (?x2 - 1) py c" fb c
        "\<lambda>py. {bcm_index fb (unat x) (unat py)..bcm_index fb (x2 - 1) (unat py)}" m] row
    unfolding bcm_draw_rect_def Let_def S by blast
qed

lemma get_pixel_outside:
  "\<not> (x < fi_width (bf_info fb) \<and> y < fi_height (bf_info fb)) \<Longrightarrow> bcm_get_pixel fb x y m = Ok None"
  by (auto simp: bcm_get_pixel_def pixel_offset_def not_less)

text \<open>
  C38. A filled rectangle: on a display whose rows fit into the pitch and the buffer, \<^verbatim>\<open>draw_rect\<close> with
  a corner inside the screen and a positive width returns, paints exactly the pixels of the
  rectangle that lie on the screen, keeps the colour of every other pixel and touches no byte
  outside the buffer.
\<close>

theorem bcm_draw_rect_exact:
  assumes "bcm_wf fb" "x < fi_width (bf_info fb)" "0 < w"
  shows "\<exists>m'. bcm_draw_rect fb x y w h c m = Ok m' \<and>
    (\<forall>px py. bcm_get_pixel fb px py m' =
       (if px < fi_width (bf_info fb) \<and> py < fi_height (bf_info fb) \<and>
           unat x \<le> unat px \<and> unat px < unat x + unat w \<and> unat y \<le> unat py \<and> unat py < unat y + unat h
        then Ok (Some c) else bcm_get_pixel fb px py m)) \<and>
    (\<forall>a. a \<notin> bcm_bytes fb \<longrightarrow> m' a = m a)"
proof -
  define x2 where "x2 = min (unat x + unat w) (unat (fi_width (bf_info fb)))"
  define y2 where "y2 = min (unat y + unat h) (unat (fi_height (bf_info fb)))"
  obtain m' where r: "bcm_draw_rect fb x y w h c m = Ok m'"
    and p: "painted fb c (\<Union>py \<in> {unat y..<y2}. {bcm_index fb (unat x) py..bcm_index fb (x2 - 1) py}) m m'"
    using draw_rect_painted [OF assms, of y h c m] unfolding x2_def y2_def by blast
  have get: "bcm_get_pixel fb px py m' =
       (if px < fi_width (bf_info fb) \<and> py < fi_height (bf_info fb) \<and>
           unat x \<le> unat px \<and> unat px < unat x + unat w \<and> unat y \<le> unat py \<and> unat py < unat y + unat h
        then Ok (Some c) else bcm_get_pixel fb px py m)" for px py
  proof (cases "px < fi_width (bf_info fb) \<and> py < fi_height (bf_info fb)")
    case True
    then have u: "unat px < unat (fi_width (bf_info fb))" "unat py < unat (fi_height (bf_info fb))"
      by (simp_all add: word_less_nat_alt)
    have x2: "unat x < x2" "x2 \<le> unat (fi_width (bf_info fb))"
      using assms(2,3) by (auto simp: x2_def word_less_nat_alt)
    have s: "unat px < bcm_stride fb" "x2 - 1 < bcm_stride fb"
      using assms(1) u(1) x2 unfolding bcm_wf_def by linarith+
    have "bcm_index fb (unat px) (unat py) \<in> (\<Union>py \<in> {unat y..<y2}. {bcm_index fb (unat x) py..bcm_index fb (x2 - 1) py}) \<longleftrightarrow>
        unat py \<in> {unat y..<y2} \<and> unat x \<le> unat px \<and> unat px \<le> x2 - 1"
      using index_between [OF s] by auto
    also have "\<dots> \<longleftrightarrow> unat x \<le> unat px \<and> unat px < unat x + unat w \<and> unat y \<le> unat py \<and> unat py < unat y + unat h"
      using u x2(1) by (auto simp: x2_def y2_def)
    finally show ?thesis
      using True p index_in_row(2) [OF assms(1) u] get_pixel_word [OF assms(1)] by (simp add: painted_def)
  qed (auto simp: get_pixel_outside)
  show ?thesis using r get p by (auto simp: painted_def)
qed

text \<open>A screen of 640 by 480 pixels, 32 bits each.\<close>

definition demo_bcm :: bcm_fb where
  "demo_bcm = bcm_fb_of \<lparr>fc_width = 640, fc_height = 480, fc_virtual_width = 640, fc_virtual_height = 480, fc_depth = 32\<rparr>
     0xC0100000 1228800 2560 1"

theorem bcm_draw_rect_exact_witness:
  "\<exists>m'. bcm_draw_rect demo_bcm 600 470 100 100 0x123456 (\<lambda>_. 0) = Ok m' \<and>
     bcm_get_pixel demo_bcm 639 479 m' = Ok (Some 0x123456) \<and>
     bcm_get_pixel demo_bcm 599 479 m' = bcm_get_pixel demo_bcm 599 479 (\<lambda>_. 0)"
proof -
  have "bcm_wf demo_bcm" "600 < fi_width (bf_info demo_bcm)"
    and s: "fi_width (bf_info demo_bcm) = 640" "fi_height (bf_info demo_bcm) = 480"
    by (simp_all add: demo_bcm_def bcm_fb_of_def bcm_wf_def bcm_stride_def)
  from bcm_draw_rect_exact [OF this(1,2), of 100 470 100 "0x123456" "\<lambda>_. 0"]
  obtain m' where "bcm_draw_rect demo_bcm 600 470 100 100 0x123456 (\<lambda>_. 0) = Ok m'"
    and g: "\<forall>px py. bcm_get_pixel demo_bcm px py m' =
       (if px < fi_width (bf_info demo_bcm) \<and> py < fi_height (bf_info demo_bcm) \<and>
           unat (600 :: u32) \<le> unat px \<and> unat px < unat (600 :: u32) + unat (100 :: u32) \<and>
           unat (470 :: u32) \<le> unat py \<and> unat py < unat (470 :: u32) + unat (100 :: u32)
        then Ok (Some 0x123456) else bcm_get_pixel demo_bcm px py (\<lambda>_. 0))" by auto
  then show ?thesis using g [rule_format, of 639 479] g [rule_format, of 599 479] s by auto
qed

text \<open>
  Where the corner or the width is out of range the routine paints what was not asked for: a
  rectangle of width 0 at the left edge covers whole rows, and one to the right of the screen the
  last column.
\<close>

lemma draw_rect_zero_width: "bcm_draw_rect fb 0 y 0 h c m = bcm_draw_rect fb 0 y (fi_width (bf_info fb)) h c m"
proof -
  have "bcm_draw_hline fb 0 (min (saturating_add 0 0) (fi_width (bf_info fb)) - 1) py c =
      bcm_draw_hline fb 0 (min (saturating_add 0 (fi_width (bf_info fb))) (fi_width (bf_info fb)) - 1) py c" for py
    using unat_less [of "fi_width (bf_info fb)"] by (intro ext) (simp add: bcm_draw_hline_def saturating_add_def)
  then show ?thesis by (simp add: bcm_draw_rect_def Let_def)
qed

lemma draw_rect_off_screen:
  assumes "0 < fi_width (bf_info fb)" "fi_width (bf_info fb) \<le> x"
  shows "bcm_draw_rect fb x y w h c m = bcm_draw_rect fb (fi_width (bf_info fb) - 1) y 1 h c m"
proof -
  let ?W = "fi_width (bf_info fb)"
  have "unat (min (saturating_add x w) ?W) = unat ?W" "unat (min (saturating_add (?W - 1) 1) ?W) = unat ?W"
    using assms unfolding unat_clip by (simp_all add: word_le_nat_alt word_less_nat_alt unat_sub_le)
  then have c: "min (saturating_add x w) ?W = ?W" "min (saturating_add (?W - 1) 1) ?W = ?W"
    by (simp_all only: word_unat_eq_iff)
  have "?W - 1 \<le> x" using assms by unat_arith
  then have "bcm_draw_hline fb x (?W - 1) py c = bcm_draw_hline fb (?W - 1) (?W - 1) py c" for py
    by (intro ext) (simp add: bcm_draw_hline_def min.absorb2)
  then show ?thesis by (simp add: bcm_draw_rect_def c)
qed

section \<open>Setting up the display\<close>

text \<open>The memory after the request was written, and requests that lie outside the mailbox registers.\<close>

fun put_words :: "(u32 \<Rightarrow> u32) \<Rightarrow> u32 \<Rightarrow> u32 list \<Rightarrow> u32 \<Rightarrow> u32" where
  "put_words f a [] = f"
| "put_words f a (w # ws) = put_words (f(a := w)) (a + 4) ws"

definition request_memory :: "(u32 \<Rightarrow> u32) \<Rightarrow> u32 \<Rightarrow> frame_buffer_config \<Rightarrow> u32 \<Rightarrow> u32" where
  "request_memory f req config =
     (put_words f req fb_request)
       (req + 20 := fc_width config, req + 24 := fc_height config, req + 40 := fc_virtual_width config,
        req + 44 := fc_virtual_height config, req + 60 := fc_depth config)"

definition fb_request_in_ram :: "u32 \<Rightarrow> bool" where
  "fb_request_in_ram req \<longleftrightarrow> (\<forall>i < 30. req + 4 * of_nat i \<notin> mailbox_regs MAILBOX_BASE)"

lemma store_shared:
  assumes "mailbox_laws io base gpu pend word lat" "a \<notin> mailbox_regs base"
  shows "pend (bus_write io a v d) = pend d" "word (bus_write io a v d) = (word d)(a := v)"
  using assms unfolding mailbox_laws_def by blast+

lemma store_words_shared:
  assumes L: "mailbox_laws io base gpu pend word lat" and "\<forall>i < length ws. a + 4 * of_nat i \<notin> mailbox_regs base"
  shows "\<exists>d'. run_state (store_words io a ws) d = ((), d') \<and> pend d' = pend d \<and> word d' = put_words (word d) a ws"
  using assms(2)
proof (induction ws arbitrary: a d)
  case (Cons w ws)
  have "a \<notin> mailbox_regs base" using Cons.prems [rule_format, of 0] by simp
  note s = store_shared [OF L this]
  have "\<forall>i < length ws. a + 4 + 4 * of_nat i \<notin> mailbox_regs base"
    using Cons.prems [rule_format, of "Suc _"] by (simp add: algebra_simps)
  from Cons.IH [OF this, of "bus_write io a w d"] show ?case by (auto simp: run_store s fun_upd_def)
qed simp

lemma prepare_request_shared:
  assumes L: "mailbox_laws io MAILBOX_BASE gpu pend word lat" and ram: "fb_request_in_ram req"
  shows "\<exists>d'. run_state (prepare_request io req config) d = ((), d') \<and> pend d' = pend d \<and>
    word d' = request_memory (word d) req config"
proof -
  have "length fb_request = 30" by (simp add: fb_request_def)
  then obtain d1 where d1: "run_state (store_words io req fb_request) d = ((), d1)" "pend d1 = pend d"
      "word d1 = put_words (word d) req fb_request"
    using store_words_shared [OF L, of fb_request req d] ram by (auto simp: fb_request_in_ram_def)
  have "req + 20 \<notin> mailbox_regs MAILBOX_BASE" "req + 24 \<notin> mailbox_regs MAILBOX_BASE" "req + 40 \<notin> mailbox_regs MAILBOX_BASE"
    "req + 44 \<notin> mailbox_regs MAILBOX_BASE" "req + 60 \<notin> mailbox_regs MAILBOX_BASE"
    using ram [unfolded fb_request_in_ram_def, rule_format, of 5] ram [unfolded fb_request_in_ram_def, rule_format, of 6]
      ram [unfolded fb_request_in_ram_def, rule_format, of 10] ram [unfolded fb_request_in_ram_def, rule_format, of 11]
      ram [unfolded fb_request_in_ram_def, rule_format, of 15] by simp_all
  note s = this [THEN store_shared(1) [OF L]] this [THEN store_shared(2) [OF L]]
  show ?thesis using d1 by (simp add: prepare_request_def run_store s request_memory_def)
qed

text \<open>
  Firmware that answers the request gives a display at the address, with the size and the pitch
  that it reported; a refused call and an empty buffer are told apart.
\<close>

lemma bcm_fb_new_result:
  assumes L: "mailbox_laws io MAILBOX_BASE gpu pend word lat" and ram: "fb_request_in_ram req"
    and gpu: "gpu (request_msg Property req) (request_memory (word d) req config) = ([request_msg Property req], w)"
    and idle: "\<forall>x \<in> set (pend d). \<not> for_channel Property x"
  shows "\<exists>d'. run_state (bcm_fb_new io req config) d =
    (if w (req + 4) \<noteq> RESPONSE_SUCCESS then Err MailboxFailed
     else if w (req + 92) = 0 \<or> w (req + 96) = 0 then Err AllocationFailed
     else Ok (bcm_fb_of config (w (req + 92)) (w (req + 96)) (w (req + 112)) (w (req + 76))), d')"
proof -
  have r: "req + 4 \<notin> mailbox_regs MAILBOX_BASE" "req + 92 \<notin> mailbox_regs MAILBOX_BASE" "req + 96 \<notin> mailbox_regs MAILBOX_BASE"
    "req + 112 \<notin> mailbox_regs MAILBOX_BASE" "req + 76 \<notin> mailbox_regs MAILBOX_BASE"
    using ram [unfolded fb_request_in_ram_def, rule_format, of 1] ram [unfolded fb_request_in_ram_def, rule_format, of 23]
      ram [unfolded fb_request_in_ram_def, rule_format, of 24] ram [unfolded fb_request_in_ram_def, rule_format, of 28]
      ram [unfolded fb_request_in_ram_def, rule_format, of 19] by simp_all
  obtain d1 where d1: "run_state (prepare_request io req config) d = ((), d1)" "pend d1 = pend d"
      "word d1 = request_memory (word d) req config"
    using prepare_request_shared [OF L ram] by blast
  obtain d2 where d2: "run_state (mailbox_call io mailbox_new Property req :: ('a, bool, frame_buffer_error) io) d1 =
      (Ok (w (req + 4) = RESPONSE_SUCCESS), d2)" "word d2 = w"
    using query_answered [where gpu = gpu and pend = pend and word = word and lat = lat and d = d1 and req = req
        and word' = w, OF L _ _ r(1)] gpu idle d1(2,3) by auto
  obtain d3 where d3: "bus_read io (req + 92) d2 = (w (req + 92), d3)" "word d3 = w"
    using load_shared [OF L r(2), of d2] d2(2) by auto
  obtain d4 where d4: "bus_read io (req + 96) d3 = (w (req + 96), d4)" "word d4 = w"
    using load_shared [OF L r(3), of d3] d3(2) by auto
  obtain d5 where d5: "bus_read io (req + 112) d4 = (w (req + 112), d5)" "word d5 = w"
    using load_shared [OF L r(4), of d4] d4(2) by auto
  obtain d6 where d6: "bus_read io (req + 76) d5 = (w (req + 76), d6)"
    using load_shared [OF L r(5), of d5] d5(2) by auto
  show ?thesis using d1(1) d2(1) d3(1) d4(1) d5(1) d6
    by (simp add: bcm_fb_new_def run_io_bind io_simps)
qed

end
