(* ===== verification/Emmc_Properties.thy ===== *)
theory Emmc_Properties
  imports Emmc
begin

text \<open>
  The SD card driver against its controller.  The controller with the card behind it is specified as
  a small machine: a phase, the registers that set up a transfer, and the blocks of the card; beside
  it the busy bits of its lines and the interrupt flag.  The hardware refines the machine when each
  access the machine describes has its effect; \<open>lat\<close> bounds how often a bit can be polled before it
  changes, and stays below the driver's limits.  A controller that is not \<open>clean\<close> can report errors.
\<close>

section \<open>The controller\<close>

datatype sd_phase =
  SdIdle
| SdReadCmd u32 | SdReadWait u32 | SdReadData u32 nat
| SdWriteCmd u32 | SdWriteWait u32 | SdWriteData u32 "u8 list"

record sd_view =
  sv_phase :: sd_phase
  sv_blk :: u32
  sv_arg :: u32
  sv_card :: "u32 \<Rightarrow> u8 list"

text \<open>The busy bits of the command and data lines, and whether the interrupt flag that ends the phase is up.\<close>

record sd_lines =
  sl_cmd_inhibit :: bool
  sl_dat_inhibit :: bool
  sl_raised :: bool

text \<open>The interrupt flag that ends a phase, and what follows when the driver acknowledges it.\<close>

fun sd_expect :: "sd_phase \<Rightarrow> u32 option" where
  "sd_expect SdIdle = None"
| "sd_expect (SdReadCmd a) = Some INT_CMD_DONE"
| "sd_expect (SdReadWait a) = Some INT_READ_READY"
| "sd_expect (SdReadData a n) = (if n = 512 then Some INT_DATA_DONE else None)"
| "sd_expect (SdWriteCmd a) = Some INT_CMD_DONE"
| "sd_expect (SdWriteWait a) = Some INT_WRITE_READY"
| "sd_expect (SdWriteData a bs) = (if length bs = 512 then Some INT_DATA_DONE else None)"

fun sd_ack :: "sd_phase \<Rightarrow> sd_view \<Rightarrow> sd_view" where
  "sd_ack SdIdle v = v"
| "sd_ack (SdReadCmd a) v = v\<lparr>sv_phase := SdReadWait a\<rparr>"
| "sd_ack (SdReadWait a) v = v\<lparr>sv_phase := SdReadData a 0\<rparr>"
| "sd_ack (SdReadData a n) v = v\<lparr>sv_phase := SdIdle\<rparr>"
| "sd_ack (SdWriteCmd a) v = v\<lparr>sv_phase := SdWriteWait a\<rparr>"
| "sd_ack (SdWriteWait a) v = v\<lparr>sv_phase := SdWriteData a []\<rparr>"
| "sd_ack (SdWriteData a bs) v = v\<lparr>sv_phase := SdIdle, sv_card := (sv_card v)(a := bs)\<rparr>"

definition CMDTM_READ :: u32 where "CMDTM_READ = 0x113A0010"
definition CMDTM_WRITE :: u32 where "CMDTM_WRITE = 0x183A0000"

text \<open>
  Register writes; \<open>None\<close> for a write that the specification leaves open.  A transfer command is
  accepted when both lines are free, and a flag can be acknowledged once it is up.
\<close>

definition sd_write :: "u32 \<Rightarrow> u32 \<Rightarrow> sd_lines \<Rightarrow> sd_view \<Rightarrow> sd_view option" where
  "sd_write off w ln v =
     (case sv_phase v of
        SdIdle \<Rightarrow>
          if off = REG_INTERRUPT \<or> off = REG_ARG2 then Some v
          else if off = REG_BLKSIZECNT then Some (v\<lparr>sv_blk := w\<rparr>)
          else if off = REG_ARG1 then Some (v\<lparr>sv_arg := w\<rparr>)
          else if off = REG_CMDTM \<and> \<not> sl_cmd_inhibit ln \<and> \<not> sl_dat_inhibit ln \<and> sv_blk v = 0x10200 then
            if w = CMDTM_READ then Some (v\<lparr>sv_phase := SdReadCmd (sv_arg v)\<rparr>)
            else if w = CMDTM_WRITE then Some (v\<lparr>sv_phase := SdWriteCmd (sv_arg v)\<rparr>)
            else None
          else None
      | p \<Rightarrow>
          if off = REG_INTERRUPT \<and> sl_raised ln \<and> sd_expect p = Some w then Some (sd_ack p v)
          else (case p of
              SdWriteData a bs \<Rightarrow>
                if off = REG_DATA \<and> length bs < 512 then Some (v\<lparr>sv_phase := SdWriteData a (bs @ to_le32 w)\<rparr>) else None
            | _ \<Rightarrow> None))"

text \<open>While no command runs, a line that is free stays free.\<close>

definition calmer :: "sd_lines \<Rightarrow> sd_lines \<Rightarrow> bool" where
  "calmer a b \<longleftrightarrow> (sl_cmd_inhibit b \<longrightarrow> sl_cmd_inhibit a) \<and> (sl_dat_inhibit b \<longrightarrow> sl_dat_inhibit a)"

definition sd_laws :: "'d sd_host \<Rightarrow> u32 \<Rightarrow> bool \<Rightarrow> ('d \<Rightarrow> sd_view) \<Rightarrow> ('d \<Rightarrow> sd_lines) \<Rightarrow> ('d \<Rightarrow> nat) \<Rightarrow> bool" where
  "sd_laws hw base clean view lines lat \<longleftrightarrow>
     (\<forall>d. lat d < 100000) \<and>
     (\<forall>d n. view (sh_idle hw n d) = view d \<and> lat (sh_idle hw n d) \<le> lat d \<and>
        (sv_phase (view d) = SdIdle \<longrightarrow> calmer (lines d) (lines (sh_idle hw n d)))) \<and>
     (\<forall>d off w v. sd_write off w (lines d) (view d) = Some v \<longrightarrow>
        view (bus_write (sh_bus hw) (base + off) w d) = v \<and>
        (sv_phase (view d) = SdIdle \<longrightarrow> sv_phase v = SdIdle \<longrightarrow> calmer (lines d) (lines (bus_write (sh_bus hw) (base + off) w d)))) \<and>
     (\<forall>d s d'. sv_phase (view d) = SdIdle \<longrightarrow> bus_read (sh_bus hw) (base + REG_STATUS) d = (s, d') \<longrightarrow>
        view d' = view d \<and> calmer (lines d) (lines d') \<and>
        s AND STATUS_CARD_INSERTED \<noteq> 0 \<and> s AND STATUS_CARD_STATE_STABLE \<noteq> 0 \<and>
        (sl_cmd_inhibit (lines d') \<longleftrightarrow> s AND STATUS_CMD_INHIBIT \<noteq> 0) \<and>
        (sl_dat_inhibit (lines d') \<longleftrightarrow> s AND STATUS_DAT_INHIBIT \<noteq> 0) \<and>
        (sl_cmd_inhibit (lines d') \<or> sl_dat_inhibit (lines d') \<longrightarrow> lat d' < lat d)) \<and>
     (\<forall>d f i d'. sd_expect (sv_phase (view d)) = Some f \<longrightarrow> bus_read (sh_bus hw) (base + REG_INTERRUPT) d = (i, d') \<longrightarrow>
        (clean \<longrightarrow> i AND INT_ERROR = 0) \<and>
        (i AND INT_ERROR = 0 \<longrightarrow> view d' = view d \<and> (sl_raised (lines d') \<longleftrightarrow> i AND f \<noteq> 0) \<and>
           (\<not> sl_raised (lines d') \<longrightarrow> lat d' < lat d))) \<and>
     (\<forall>d a n w d'. sv_phase (view d) = SdReadData a n \<longrightarrow> n + 4 \<le> length (sv_card (view d) a) \<longrightarrow>
        bus_read (sh_bus hw) (base + REG_DATA) d = (w, d') \<longrightarrow>
        to_le32 w = take 4 (drop n (sv_card (view d) a)) \<and> view d' = (view d)\<lparr>sv_phase := SdReadData a (n + 4)\<rparr>)"

section \<open>Results\<close>

text \<open>
  A call ends well, or with an error when the controller can report one; \<open>Q\<close> relates the value and
  the state of a good end.
\<close>

definition ends :: "bool \<Rightarrow> ('d, 'a, 'e) io \<Rightarrow> 'd \<Rightarrow> ('a \<Rightarrow> 'd \<Rightarrow> bool) \<Rightarrow> bool" where
  "ends clean m d Q \<longleftrightarrow>
     (\<exists>x d'. run_state m d = (Ok x, d') \<and> Q x d') \<or> (\<not> clean \<and> (\<exists>err d'. run_state m d = (Err err, d')))"

lemma ends_bind:
  assumes "ends clean m d Q" "\<And>x d'. Q x d' \<Longrightarrow> ends clean (k x) d' R"
  shows "ends clean (io_bind m k) d R"
proof (cases "\<exists>x d'. run_state m d = (Ok x, d') \<and> Q x d'")
  case True
  then obtain x d' where "run_state m d = (Ok x, d')" "Q x d'" by blast
  then show ?thesis using assms(2) [of x d'] by (simp add: ends_def run_io_bind_Ok)
next
  case False
  then show ?thesis using assms(1) by (auto simp: ends_def run_io_bind_Err)
qed

lemma ends_mono: "ends clean m d Q \<Longrightarrow> (\<And>x d'. Q x d' \<Longrightarrow> R x d') \<Longrightarrow> ends clean m d R"
  by (auto simp: ends_def)

lemma ends_ok: "Q x d \<Longrightarrow> ends clean (ok x) d Q"
  by (auto simp: ends_def run_ok)

lemma ends_run: "run_state m d = run_state m' d' \<Longrightarrow> ends clean m' d' Q \<Longrightarrow> ends clean m d Q"
  by (simp add: ends_def)

lemma ends_map_err: "ends clean m d Q \<Longrightarrow> ends clean (io_map_err h m) d Q"
  by (auto simp: ends_def run_io_map_err)

section \<open>Waiting\<close>

lemma poll_for_ends:
  assumes "lat d < (n :: nat)" "I d"
    and step: "\<And>d. I d \<Longrightarrow> (\<exists>r d'. run_state step d = (Some r, d') \<and> Q r d') \<or>
      (\<exists>d'. run_state step d = (None, d') \<and> I (snd (run_state pause d')) \<and> lat (snd (run_state pause d')) < lat d)"
  shows "\<exists>r d'. run_state (poll_for n step pause e) d = (r, d') \<and> Q r d'"
  using assms(1,2)
proof (induction n arbitrary: d)
  case (Suc n)
  from step [OF Suc.prems(2)] show ?case
  proof (elim disjE exE conjE)
    fix d' assume s: "run_state step d = (None, d')" and i: "I (snd (run_state pause d'))"
      and l: "lat (snd (run_state pause d')) < lat d"
    have "lat (snd (run_state pause d')) < n" using l Suc.prems(1) by simp
    from Suc.IH [OF this i] show ?thesis using s by (simp add: split_beta)
  qed auto
qed simp

text \<open>The laws one by one.\<close>

lemma sd_lat: "sd_laws hw base clean view lines lat \<Longrightarrow> lat d < 100000"
  unfolding sd_laws_def by blast

lemma sd_idle:
  assumes "sd_laws hw base clean view lines lat"
  shows "view (sh_idle hw n d) = view d" "lat (sh_idle hw n d) \<le> lat d"
    "sv_phase (view d) = SdIdle \<Longrightarrow> calmer (lines d) (lines (sh_idle hw n d))"
  using assms unfolding sd_laws_def by blast+

lemma sd_write_view:
  assumes "sd_laws hw base clean view lines lat" "sd_write off w (lines d) (view d) = Some v"
  shows "view (bus_write (sh_bus hw) (base + off) w d) = v"
    "sv_phase (view d) = SdIdle \<Longrightarrow> sv_phase v = SdIdle \<Longrightarrow> calmer (lines d) (lines (bus_write (sh_bus hw) (base + off) w d))"
  using assms unfolding sd_laws_def by blast+

lemma sd_read_status:
  assumes "sd_laws hw base clean view lines lat" "sv_phase (view d) = SdIdle"
  obtains s d' where "bus_read (sh_bus hw) (base + REG_STATUS) d = (s, d')" "view d' = view d" "calmer (lines d) (lines d')"
    "s AND STATUS_CARD_INSERTED \<noteq> 0" "s AND STATUS_CARD_STATE_STABLE \<noteq> 0"
    "sl_cmd_inhibit (lines d') \<longleftrightarrow> s AND STATUS_CMD_INHIBIT \<noteq> 0" "sl_dat_inhibit (lines d') \<longleftrightarrow> s AND STATUS_DAT_INHIBIT \<noteq> 0"
    "sl_cmd_inhibit (lines d') \<or> sl_dat_inhibit (lines d') \<Longrightarrow> lat d' < lat d"
proof (cases "bus_read (sh_bus hw) (base + REG_STATUS) d")
  case (Pair s d')
  then show ?thesis using that [of s d'] assms unfolding sd_laws_def by blast
qed

lemma sd_read_interrupt:
  assumes "sd_laws hw base clean view lines lat" "sd_expect (sv_phase (view d)) = Some f"
  obtains i d' where "bus_read (sh_bus hw) (base + REG_INTERRUPT) d = (i, d')" "clean \<Longrightarrow> i AND INT_ERROR = 0"
    "i AND INT_ERROR = 0 \<Longrightarrow> view d' = view d" "i AND INT_ERROR = 0 \<Longrightarrow> sl_raised (lines d') \<longleftrightarrow> i AND f \<noteq> 0"
    "i AND INT_ERROR = 0 \<Longrightarrow> \<not> sl_raised (lines d') \<Longrightarrow> lat d' < lat d"
proof (cases "bus_read (sh_bus hw) (base + REG_INTERRUPT) d")
  case (Pair i d')
  then show ?thesis using that [of i d'] assms unfolding sd_laws_def by blast
qed

lemma sd_read_data:
  assumes "sd_laws hw base clean view lines lat" "sv_phase (view d) = SdReadData a n" "n + 4 \<le> length (sv_card (view d) a)"
  obtains w d' where "bus_read (sh_bus hw) (base + REG_DATA) d = (w, d')"
    "to_le32 w = take 4 (drop n (sv_card (view d) a))" "view d' = (view d)\<lparr>sv_phase := SdReadData a (n + 4)\<rparr>"
proof (cases "bus_read (sh_bus hw) (base + REG_DATA) d")
  case (Pair w d')
  then show ?thesis using that [of w d'] assms unfolding sd_laws_def by blast
qed

lemma calmer_trans: "calmer a b \<Longrightarrow> calmer b c \<Longrightarrow> calmer a c"
  by (auto simp: calmer_def)

text \<open>On an idle controller the wait for a line ends with the line free.\<close>

definition inhibited :: "u32 \<Rightarrow> sd_lines \<Rightarrow> bool" where
  "inhibited flag ln \<longleftrightarrow> (if flag = STATUS_CMD_INHIBIT then sl_cmd_inhibit ln else sl_dat_inhibit ln)"

lemma wait_status_clear_idle:
  assumes L: "sd_laws hw (em_base e) clean view lines lat" and f: "flag = STATUS_CMD_INHIBIT \<or> flag = STATUS_DAT_INHIBIT"
    and "sv_phase (view d) = SdIdle" "lat d < n"
  shows "\<exists>d'. run_state (wait_status_clear n hw e flag us) d = ((), d') \<and> view d' = view d \<and> calmer (lines d) (lines d') \<and>
    \<not> inhibited flag (lines d')"
  using assms(3,4)
proof (induction n arbitrary: d)
  case (Suc n)
  obtain s d1 where s: "bus_read (sh_bus hw) (em_base e + REG_STATUS) d = (s, d1)" "view d1 = view d" "calmer (lines d) (lines d1)"
    "sl_cmd_inhibit (lines d1) \<longleftrightarrow> s AND STATUS_CMD_INHIBIT \<noteq> 0" "sl_dat_inhibit (lines d1) \<longleftrightarrow> s AND STATUS_DAT_INHIBIT \<noteq> 0"
    and l: "sl_cmd_inhibit (lines d1) \<or> sl_dat_inhibit (lines d1) \<longrightarrow> lat d1 < lat d"
    by (rule sd_read_status [OF L Suc.prems(1)]) blast
  have i: "inhibited flag (lines d1) \<longleftrightarrow> s AND flag \<noteq> 0" using f s(4,5) by (auto simp: inhibited_def)
  let ?d = "sh_idle hw (us * 50) d1"
  have v: "view ?d = view d" "calmer (lines d) (lines ?d)"
    using sd_idle(1,3) [OF L] s(2,3) Suc.prems(1) calmer_trans by auto
  show ?case
  proof (cases "s AND flag = 0")
    case True
    then show ?thesis using s i by (simp add: em_read_reg_def io_simps)
  next
    case False
    then have "lat d1 < lat d" using i l by (auto simp: inhibited_def split: if_splits)
    then have "lat ?d < n" using Suc.prems(2) sd_idle(2) [OF L, of "us * 50" d1] by simp
    with Suc.IH [of ?d] v Suc.prems(1)
    obtain d2 where "run_state (wait_status_clear n hw e flag us) ?d = ((), d2)" "view d2 = view d" "calmer (lines ?d) (lines d2)"
      "\<not> inhibited flag (lines d2)" by auto
    then show ?thesis using s(1) False calmer_trans [OF v(2)] by (auto simp: em_read_reg_def em_delay_us_def io_simps)
  qed
qed simp

text \<open>
  Waiting for the flag of the current phase ends, and acknowledging it enters the next phase; an
  error of the controller is reported.
\<close>

lemma wait_flag_ack:
  assumes L: "sd_laws hw (em_base e) clean view lines lat" and x: "sd_expect (sv_phase (view d)) = Some f"
    and step: "\<And>d i d1. bus_read (sh_bus hw) (em_base e + REG_INTERRUPT) d = (i, d1) \<Longrightarrow> i AND INT_ERROR = 0 \<Longrightarrow>
      run_state step d = (if i AND f \<noteq> 0 then (Some (Ok ()), bus_write (sh_bus hw) (em_base e + REG_INTERRUPT) f d1) else (None, d1))"
    and bad: "\<And>d i d1. bus_read (sh_bus hw) (em_base e + REG_INTERRUPT) d = (i, d1) \<Longrightarrow> i AND INT_ERROR \<noteq> 0 \<Longrightarrow>
      \<exists>er d2. run_state step d = (Some (Err er), d2)"
  shows "ends clean (poll_for 100000 step (em_delay_us hw us) err) d (\<lambda>_ d'. view d' = sd_ack (sv_phase (view d)) (view d))"
proof -
  let ?v = "view d"
  have ack: "sd_write REG_INTERRUPT f ln ?v = Some (sd_ack (sv_phase ?v) ?v)" if "sl_raised ln" for ln
    using x that by (cases "sv_phase ?v") (auto simp: sd_write_def split: if_splits)
  have "\<exists>r d'. run_state (poll_for 100000 step (em_delay_us hw us) err) d = (r, d') \<and>
      (r = Ok () \<and> view d' = sd_ack (sv_phase ?v) ?v \<or> \<not> clean \<and> (\<exists>er. r = Err er))"
  proof (rule poll_for_ends [where lat = lat and I = "\<lambda>d. view d = ?v"])
    fix d0 assume d0: "view d0 = ?v"
    obtain i d1 where i: "bus_read (sh_bus hw) (em_base e + REG_INTERRUPT) d0 = (i, d1)"
      and c: "clean \<Longrightarrow> i AND INT_ERROR = 0" and v1: "i AND INT_ERROR = 0 \<Longrightarrow> view d1 = ?v"
      and r: "i AND INT_ERROR = 0 \<Longrightarrow> sl_raised (lines d1) \<longleftrightarrow> i AND f \<noteq> 0"
      and l: "i AND INT_ERROR = 0 \<Longrightarrow> \<not> sl_raised (lines d1) \<Longrightarrow> lat d1 < lat d0"
      using sd_read_interrupt [OF L, of d0 f] x d0 by metis
    show "(\<exists>r d'. run_state step d0 = (Some r, d') \<and> (r = Ok () \<and> view d' = sd_ack (sv_phase ?v) ?v \<or> \<not> clean \<and> (\<exists>er. r = Err er))) \<or>
      (\<exists>d'. run_state step d0 = (None, d') \<and> view (snd (run_state (em_delay_us hw us) d')) = ?v \<and>
        lat (snd (run_state (em_delay_us hw us) d')) < lat d0)"
    proof (cases "i AND INT_ERROR = 0")
      case err: False
      then show ?thesis using bad [OF i err] c by blast
    next
      case good: True
      show ?thesis
      proof (cases "i AND f = 0")
        case True
        then have "lat (sh_idle hw (us * 50) d1) < lat d0"
          using l [OF good] r [OF good] sd_idle(2) [OF L, of "us * 50" d1] by simp
        then show ?thesis using step [OF i good] True v1 [OF good] sd_idle(1) [OF L] by (simp add: em_delay_us_def)
      next
        case False
        then show ?thesis
          using step [OF i good] sd_write_view(1) [OF L, of REG_INTERRUPT f d1] v1 [OF good] ack r [OF good] by simp
      qed
    qed
  qed (use sd_lat [OF L] in simp_all)
  then show ?thesis by (auto simp: ends_def)
qed

lemma wait_cmd_done_ack:
  assumes L: "sd_laws hw (em_base e) clean view lines lat" and "sd_expect (sv_phase (view d)) = Some INT_CMD_DONE"
  shows "ends clean (wait_cmd_done hw e) d (\<lambda>_ d'. view d' = sd_ack (sv_phase (view d)) (view d))"
  unfolding wait_cmd_done_def
  by (rule wait_flag_ack [OF assms]) (auto simp: em_read_reg_def em_write_reg_def io_simps)

lemma wait_data_ready_ack:
  assumes L: "sd_laws hw (em_base e) clean view lines lat" and "sd_expect (sv_phase (view d)) = Some INT_READ_READY"
  shows "ends clean (wait_data_ready hw e) d (\<lambda>_ d'. view d' = sd_ack (sv_phase (view d)) (view d))"
  unfolding wait_data_ready_def
  by (rule wait_flag_ack [OF assms]) (auto simp: em_read_reg_def em_write_reg_def io_simps)

lemma wait_flag_ack':
  assumes L: "sd_laws hw (em_base e) clean view lines lat" and "sd_expect (sv_phase (view d)) = Some f"
  shows "ends clean (wait_flag hw e f) d (\<lambda>_ d'. view d' = sd_ack (sv_phase (view d)) (view d))"
  unfolding wait_flag_def
  by (rule wait_flag_ack [OF assms]) (auto simp: em_read_reg_def em_write_reg_def io_simps)

section \<open>Commands and data\<close>

text \<open>Registers that set up a transfer can be written at any time while the controller is idle.\<close>

definition set_up :: "u32 \<Rightarrow> u32 \<Rightarrow> sd_view \<Rightarrow> sd_view" where
  "set_up off w v = (if off = REG_BLKSIZECNT then v\<lparr>sv_blk := w\<rparr> else if off = REG_ARG1 then v\<lparr>sv_arg := w\<rparr> else v)"

lemma set_up_write:
  assumes L: "sd_laws hw base clean view lines lat" and idle: "sv_phase (view d) = SdIdle"
    and off: "off \<in> {REG_INTERRUPT, REG_ARG2, REG_BLKSIZECNT, REG_ARG1}"
  shows "view (bus_write (sh_bus hw) (base + off) w d) = set_up off w (view d)"
    "calmer (lines d) (lines (bus_write (sh_bus hw) (base + off) w d))"
proof -
  have w: "sd_write off w (lines d) (view d) = Some (set_up off w (view d))" "sv_phase (set_up off w (view d)) = SdIdle"
    using idle off by (auto simp: sd_write_def set_up_def sd_regs)
  show "view (bus_write (sh_bus hw) (base + off) w d) = set_up off w (view d)"
    "calmer (lines d) (lines (bus_write (sh_bus hw) (base + off) w d))"
    using sd_write_view [OF L w(1)] idle w(2) by simp_all
qed

lemma set_up_regs [simp]:
  "set_up REG_INTERRUPT w v = v" "set_up REG_ARG2 w v = v" "set_up REG_BLKSIZECNT w v = v\<lparr>sv_blk := w\<rparr>"
  "set_up REG_ARG1 w v = v\<lparr>sv_arg := w\<rparr>"
  by (simp_all add: set_up_def sd_regs)

lemma send_cmd_starts:
  assumes L: "sd_laws hw (em_base e) clean view lines lat" and idle: "sv_phase (view d) = SdIdle" "\<not> sl_dat_inhibit (lines d)"
    and w: "\<And>ln. \<not> sl_cmd_inhibit ln \<Longrightarrow> \<not> sl_dat_inhibit ln \<Longrightarrow>
      sd_write REG_CMDTM (push_bit (unat CMD_INDEX_SHIFT) cmd OR flags) ln ((view d)\<lparr>sv_arg := ucast arg\<rparr>) = Some v"
    and x: "sd_expect (sv_phase v) = Some INT_CMD_DONE"
  shows "ends clean (send_cmd hw e cmd arg flags) d (\<lambda>_ d'. view d' = sd_ack (sv_phase v) v)"
proof -
  let ?W = "bus_write (sh_bus hw)" and ?b = "em_base e"
  obtain d1 where d1: "run_state (wait_status_clear 100000 hw e STATUS_CMD_INHIBIT 1) d = ((), d1)" "view d1 = view d"
    "calmer (lines d) (lines d1)" "\<not> sl_cmd_inhibit (lines d1)"
    using wait_status_clear_idle [OF L _ idle(1) sd_lat [OF L], of STATUS_CMD_INHIBIT] by (auto simp: inhibited_def)
  define d2 where "d2 = ?W (?b + REG_INTERRUPT) 0xFFFFFFFF d1"
  define d3 where "d3 = ?W (?b + REG_ARG2) (ucast (drop_bit 32 arg)) d2"
  define d4 where "d4 = ?W (?b + REG_ARG1) (ucast arg) d3"
  define d5 where "d5 = ?W (?b + REG_CMDTM) (push_bit (unat CMD_INDEX_SHIFT) cmd OR flags) d4"
  have v2: "view d2 = view d" "calmer (lines d1) (lines d2)"
    using set_up_write [OF L, of d1 REG_INTERRUPT] d1(2) idle(1) by (simp_all add: d2_def)
  have v3: "view d3 = view d" "calmer (lines d2) (lines d3)"
    using set_up_write [OF L, of d2 REG_ARG2] v2(1) idle(1) by (simp_all add: d3_def)
  have v4: "view d4 = (view d)\<lparr>sv_arg := ucast arg\<rparr>" "calmer (lines d3) (lines d4)"
    using set_up_write [OF L, of d3 REG_ARG1] v3(1) idle(1) by (simp_all add: d4_def)
  have "\<not> sl_cmd_inhibit (lines d4)" "\<not> sl_dat_inhibit (lines d4)"
    using d1(3,4) v2(2) v3(2) v4(2) idle(2) by (auto simp: calmer_def)
  then have v5: "view d5 = v" unfolding d5_def using v4(1) w by (intro sd_write_view(1) [OF L]) simp
  have "ends clean (wait_cmd_done hw e) d5 (\<lambda>_ d'. view d' = sd_ack (sv_phase v) v)"
    using wait_cmd_done_ack [OF L, of d5] v5 x by simp
  then show ?thesis
    by (rule ends_run [rotated]) (simp add: send_cmd_def em_write_reg_def run_store d1(1) flip: d2_def d3_def d4_def d5_def)
qed

lemma byte_chunks: "P [] \<Longrightarrow> (\<And>b bs. P (drop 3 bs) \<Longrightarrow> P (b # bs)) \<Longrightarrow> P (bs :: u8 list)"
proof (induction "length bs" arbitrary: bs rule: less_induct)
  case less
  then show ?case by (cases bs) auto
qed

lemma chunk_lengths: "4 dvd length (b # bs) \<Longrightarrow> 3 \<le> length bs \<and> 4 dvd length bs - 3"
  unfolding list.size(4) by presburger

lemma read_words_block:
  assumes L: "sd_laws hw (em_base e) clean view lines lat"
    and "sv_phase (view d) = SdReadData a n" "length (sv_card (view d) a) = 512" "n + length buf = 512" "4 dvd length buf"
  shows "\<exists>d'. run_state (read_words hw e buf) d = (drop n (sv_card (view d) a), d') \<and>
    view d' = (view d)\<lparr>sv_phase := SdReadData a 512\<rparr>"
  using assms(2-)
proof (induction buf arbitrary: n d rule: byte_chunks)
  case 1
  then show ?case by simp
next
  case (2 b bs)
  have len: "3 \<le> length bs" "4 dvd length (drop 3 bs)" using "2.prems"(4) chunk_lengths by auto
  then have n: "n + 4 \<le> 512" "n + 4 + length (drop 3 bs) = 512" using "2.prems"(3) by auto
  obtain w d1 where r: "bus_read (sh_bus hw) (em_base e + REG_DATA) d = (w, d1)"
    "to_le32 w = take 4 (drop n (sv_card (view d) a))" "view d1 = (view d)\<lparr>sv_phase := SdReadData a (n + 4)\<rparr>"
    using sd_read_data [OF L "2.prems"(1)] n(1) "2.prems"(2) by auto
  obtain d2 where "run_state (read_words hw e (drop 3 bs)) d1 = (drop (n + 4) (sv_card (view d) a), d2)"
      "view d2 = (view d)\<lparr>sv_phase := SdReadData a 512\<rparr>"
    using "2.IH" [of d1 "n + 4"] r(3) "2.prems"(2) n(2) len(2) by auto
  moreover have "take 4 (drop n (sv_card (view d) a)) @ drop (n + 4) (sv_card (view d) a) = drop n (sv_card (view d) a)"
    by (metis append_take_drop_id drop_drop add.commute)
  ultimately show ?case using r len(1) by (simp add: em_read_reg_def run_load min_def)
qed

lemma to_le32_from_le32 [simp]: "to_le32 (from_le32 a b c d) = [a, b, c, d]"
  unfolding to_le32_def le_byte_def from_le32_def list.inject
  by (intro conjI bit_word_eqI refl) (auto simp: bit_simps dest: bit_imp_le_length)

lemma chunk_bytes:
  assumes "length c = 4"
  shows "to_le32 (chunk_word c) = c"
proof -
  obtain x y z w where "c = [x, y, z, w]"
    using assms by (auto simp: numeral_eq_Suc length_Suc_conv)
  then show ?thesis by (simp add: chunk_word_def)
qed

lemma write_words_block:
  assumes L: "sd_laws hw (em_base e) clean view lines lat"
    and "sv_phase (view d) = SdWriteData a ws" "length ws + length buf = 512" "4 dvd length buf"
  shows "\<exists>d'. run_state (write_words hw e buf) d = ((), d') \<and> view d' = (view d)\<lparr>sv_phase := SdWriteData a (ws @ buf)\<rparr>"
  using assms(2-)
proof (induction buf arbitrary: ws d rule: byte_chunks)
  case 1
  then show ?case by simp
next
  case (2 b bs)
  have len: "3 \<le> length bs" "4 dvd length (drop 3 bs)" using "2.prems"(3) chunk_lengths by auto
  let ?c = "take 4 (b # bs)"
  define d1 where "d1 = bus_write (sh_bus hw) (em_base e + REG_DATA) (chunk_word ?c) d"
  have "length ?c = 4" using len(1) by simp
  then have "sd_write REG_DATA (chunk_word ?c) (lines d) (view d) = Some ((view d)\<lparr>sv_phase := SdWriteData a (ws @ ?c)\<rparr>)"
    using "2.prems"(1,2) chunk_bytes by (simp add: sd_write_def sd_regs)
  then have v1: "view d1 = (view d)\<lparr>sv_phase := SdWriteData a (ws @ ?c)\<rparr>"
    unfolding d1_def by (rule sd_write_view(1) [OF L])
  have "length (ws @ ?c) + length (drop 3 bs) = 512" using "2.prems"(2) len(1) by simp
  then obtain d2 where "run_state (write_words hw e (drop 3 bs)) d1 = ((), d2)"
      "view d2 = (view d)\<lparr>sv_phase := SdWriteData a ((ws @ ?c) @ drop 3 bs)\<rparr>"
    using "2.IH" [of d1 "ws @ ?c"] v1 len(2) by auto
  moreover have "?c @ drop 3 bs = b # bs" by simp
  moreover have "run_state (write_words hw e (b # bs)) d = run_state (write_words hw e (drop 3 bs)) d1"
    by (simp add: em_write_reg_def run_store d1_def)
  ultimately show ?case by simp
qed

section \<open>Blocks\<close>

text \<open>The interrupt flags and commands as the transfers use them.\<close>

lemma transfer_words:
  "push_bit (unat CMD_INDEX_SHIFT) CMD17 OR (FLAGS_R1 OR CMD_ISDATA OR TM_DAT_DIR_READ) = CMDTM_READ"
  "push_bit (unat CMD_INDEX_SHIFT) CMD24 OR (FLAGS_R1 OR CMD_ISDATA) = CMDTM_WRITE"
  "push_bit 16 1 OR BLOCK_SIZE = 0x10200" "unat BLOCK_SIZE = 512"
  by (simp_all add: CMD_INDEX_SHIFT_def CMD17_def CMD24_def FLAGS_R1_def CMD_RESPONSE_48_def CMD_CRCCHK_EN_def
      CMD_IXCHK_EN_def CMD_ISDATA_def TM_DAT_DIR_READ_def CMDTM_READ_def CMDTM_WRITE_def BLOCK_SIZE_def)

text \<open>The state in which a command is sent: the block size is set and the lines are free.\<close>

lemma transfer_prepared:
  assumes L: "sd_laws hw (em_base e) clean view lines lat" and idle: "sv_phase (view d) = SdIdle"
  shows "\<exists>d'. run_state (do {
      wait_status_clear 100000 hw e STATUS_DAT_INHIBIT 10;
      em_write_reg hw e REG_BLKSIZECNT (push_bit 16 1 OR BLOCK_SIZE);
      em_write_reg hw e REG_INTERRUPT 0xFFFFFFFF;
      k
    }) d = run_state k d' \<and> view d' = (view d)\<lparr>sv_blk := 0x10200\<rparr> \<and> \<not> sl_dat_inhibit (lines d')"
proof -
  have "inhibited STATUS_DAT_INHIBIT ln \<longleftrightarrow> sl_dat_inhibit ln" for ln
    by (simp add: inhibited_def STATUS_DAT_INHIBIT_def STATUS_CMD_INHIBIT_def)
  then obtain d1 where d1: "run_state (wait_status_clear 100000 hw e STATUS_DAT_INHIBIT 10) d = ((), d1)" "view d1 = view d"
    "\<not> sl_dat_inhibit (lines d1)"
    using wait_status_clear_idle [OF L _ idle sd_lat [OF L], of STATUS_DAT_INHIBIT] by auto
  define d2 where "d2 = bus_write (sh_bus hw) (em_base e + REG_BLKSIZECNT) 0x10200 d1"
  have v2: "view d2 = (view d)\<lparr>sv_blk := 0x10200\<rparr>" "calmer (lines d1) (lines d2)"
    using set_up_write [OF L, of d1 REG_BLKSIZECNT] d1(2) idle by (simp_all add: d2_def)
  define d3 where "d3 = bus_write (sh_bus hw) (em_base e + REG_INTERRUPT) 0xFFFFFFFF d2"
  have v3: "view d3 = view d2" "calmer (lines d2) (lines d3)"
    using set_up_write [OF L, of d2 REG_INTERRUPT] v2(1) idle by (simp_all add: d3_def)
  then show ?thesis using v2 d1(3)
    by (intro exI [of _ d3]) (auto simp: em_write_reg_def run_store d1(1) d2_def d3_def BLOCK_SIZE_def calmer_def)
qed

lemma read_block_internal_reads:
  assumes L: "sd_laws hw (em_base e) clean view lines lat" and idle: "sv_phase (view d) = SdIdle"
    and card: "length (sv_card (view d) (ucast (card_address e lba))) = 512" and len: "length buf = 512"
  shows "ends clean (read_block_internal hw e lba buf) d (\<lambda>block d'. block = sv_card (view d) (ucast (card_address e lba)) \<and>
    sv_phase (view d') = SdIdle \<and> sv_card (view d') = sv_card (view d))"
proof -
  let ?a = "ucast (card_address e lba) :: u32" and ?v = "view d"
  let ?k = "io_bind (send_cmd hw e CMD17 (card_address e lba) (FLAGS_R1 OR CMD_ISDATA OR TM_DAT_DIR_READ)) (\<lambda>_.
        io_bind (wait_data_ready hw e) (\<lambda>_. do {
          block \<leftarrow> read_words hw e (take (unat BLOCK_SIZE) buf);
          io_bind (wait_data_done hw e) (\<lambda>_. ok (block @ drop (unat BLOCK_SIZE) buf))
        }))"
  obtain d1 where d1: "run_state (read_block_internal hw e lba buf) d = run_state ?k d1" "view d1 = ?v\<lparr>sv_blk := 0x10200\<rparr>"
    "\<not> sl_dat_inhibit (lines d1)"
    using transfer_prepared [OF L idle, of ?k] len by (auto simp: read_block_internal_def transfer_words(4))
  define v1 where "v1 = ?v\<lparr>sv_blk := 0x10200, sv_arg := ?a\<rparr>"
  have w: "sd_write REG_CMDTM CMDTM_READ ln v1 = Some (v1\<lparr>sv_phase := SdReadCmd ?a\<rparr>)"
    if "\<not> sl_cmd_inhibit ln" "\<not> sl_dat_inhibit ln" for ln
    using idle that by (simp add: v1_def sd_write_def sd_regs)
  have finish: "ends clean (do {
        block \<leftarrow> read_words hw e (take (unat BLOCK_SIZE) buf);
        io_bind (wait_data_done hw e) (\<lambda>_. ok (block @ drop (unat BLOCK_SIZE) buf)) }) d3
      (\<lambda>block d'. block = sv_card ?v ?a \<and> sv_phase (view d') = SdIdle \<and> sv_card (view d') = sv_card ?v)"
    if d3: "view d3 = v1\<lparr>sv_phase := SdReadData ?a 0\<rparr>" for d3
  proof -
    obtain d4 where d4: "run_state (read_words hw e buf) d3 = (sv_card ?v ?a, d4)" "view d4 = v1\<lparr>sv_phase := SdReadData ?a 512\<rparr>"
      using read_words_block [OF L, of d3 ?a 0 buf] d3 card len by (auto simp: v1_def)
    have "ends clean (wait_data_done hw e) d4 (\<lambda>_ d'. view d' = v1\<lparr>sv_phase := SdIdle\<rparr>)"
      using wait_flag_ack' [OF L, of d4 INT_DATA_DONE] d4(2) unfolding wait_data_done_def by simp
    then have "ends clean (io_bind (wait_data_done hw e) (\<lambda>_. ok (sv_card ?v ?a @ drop (unat BLOCK_SIZE) buf))) d4
        (\<lambda>block d'. block = sv_card ?v ?a \<and> sv_phase (view d') = SdIdle \<and> sv_card (view d') = sv_card ?v)"
      by (rule ends_bind) (rule ends_ok, simp add: len transfer_words(4) v1_def)
    then show ?thesis by (rule ends_run [rotated]) (simp add: d4(1) len transfer_words(4))
  qed
  have "ends clean ?k d1 (\<lambda>block d'. block = sv_card ?v ?a \<and> sv_phase (view d') = SdIdle \<and> sv_card (view d') = sv_card ?v)"
  proof (rule ends_bind)
    show "ends clean (send_cmd hw e CMD17 (card_address e lba) (FLAGS_R1 OR CMD_ISDATA OR TM_DAT_DIR_READ)) d1
        (\<lambda>_ d'. view d' = v1\<lparr>sv_phase := SdReadWait ?a\<rparr>)"
      using send_cmd_starts [OF L, of d1 CMD17 "FLAGS_R1 OR CMD_ISDATA OR TM_DAT_DIR_READ" "card_address e lba"
          "v1\<lparr>sv_phase := SdReadCmd ?a\<rparr>"] d1(2,3) idle w by (simp add: transfer_words(1) v1_def)
  next
    fix x d2 assume "view d2 = v1\<lparr>sv_phase := SdReadWait ?a\<rparr>"
    then have "ends clean (wait_data_ready hw e) d2 (\<lambda>_ d'. view d' = v1\<lparr>sv_phase := SdReadData ?a 0\<rparr>)"
      using wait_data_ready_ack [OF L, of d2] by simp
    then show "ends clean (io_bind (wait_data_ready hw e) (\<lambda>_. do {
          block \<leftarrow> read_words hw e (take (unat BLOCK_SIZE) buf);
          io_bind (wait_data_done hw e) (\<lambda>_. ok (block @ drop (unat BLOCK_SIZE) buf)) })) d2
        (\<lambda>block d'. block = sv_card ?v ?a \<and> sv_phase (view d') = SdIdle \<and> sv_card (view d') = sv_card ?v)"
      by (rule ends_bind) (rule finish)
  qed
  then show ?thesis by (rule ends_run [OF d1(1)])
qed

lemma write_block_internal_writes:
  assumes L: "sd_laws hw (em_base e) clean view lines lat" and idle: "sv_phase (view d) = SdIdle" and len: "length buf = 512"
  shows "ends clean (write_block_internal hw e lba buf) d (\<lambda>_ d'. sv_phase (view d') = SdIdle \<and>
    sv_card (view d') = (sv_card (view d))(ucast (card_address e lba) := buf))"
proof -
  let ?a = "ucast (card_address e lba) :: u32" and ?v = "view d"
  let ?k = "io_bind (send_cmd hw e CMD24 (card_address e lba) (FLAGS_R1 OR CMD_ISDATA)) (\<lambda>_.
        io_bind (wait_write_ready hw e) (\<lambda>_. do {
          write_words hw e (take (unat BLOCK_SIZE) buf);
          wait_data_done hw e
        }))"
  obtain d1 where d1: "run_state (write_block_internal hw e lba buf) d = run_state ?k d1" "view d1 = ?v\<lparr>sv_blk := 0x10200\<rparr>"
    "\<not> sl_dat_inhibit (lines d1)"
    using transfer_prepared [OF L idle, of ?k] len by (auto simp: write_block_internal_def transfer_words(4))
  define v1 where "v1 = ?v\<lparr>sv_blk := 0x10200, sv_arg := ?a\<rparr>"
  have w: "sd_write REG_CMDTM CMDTM_WRITE ln v1 = Some (v1\<lparr>sv_phase := SdWriteCmd ?a\<rparr>)"
    if "\<not> sl_cmd_inhibit ln" "\<not> sl_dat_inhibit ln" for ln
    using idle that by (simp add: v1_def sd_write_def sd_regs CMDTM_READ_def CMDTM_WRITE_def)
  have finish: "ends clean (do { write_words hw e (take (unat BLOCK_SIZE) buf); wait_data_done hw e }) d3
      (\<lambda>_ d'. sv_phase (view d') = SdIdle \<and> sv_card (view d') = (sv_card ?v)(?a := buf))"
    if d3: "view d3 = v1\<lparr>sv_phase := SdWriteData ?a []\<rparr>" for d3
  proof -
    obtain d4 where d4: "run_state (write_words hw e buf) d3 = ((), d4)" "view d4 = v1\<lparr>sv_phase := SdWriteData ?a buf\<rparr>"
      using write_words_block [OF L, of d3 ?a "[]" buf] d3 len by auto
    have "ends clean (wait_data_done hw e) d4 (\<lambda>_ d'. view d' = v1\<lparr>sv_phase := SdIdle, sv_card := (sv_card ?v)(?a := buf)\<rparr>)"
      using wait_flag_ack' [OF L, of d4 INT_DATA_DONE] d4(2) len unfolding wait_data_done_def by (simp add: v1_def)
    then have "ends clean (wait_data_done hw e) d4 (\<lambda>_ d'. sv_phase (view d') = SdIdle \<and> sv_card (view d') = (sv_card ?v)(?a := buf))"
      by (rule ends_mono) simp
    then show ?thesis by (rule ends_run [rotated]) (simp add: d4(1) len transfer_words(4))
  qed
  have "ends clean ?k d1 (\<lambda>_ d'. sv_phase (view d') = SdIdle \<and> sv_card (view d') = (sv_card ?v)(?a := buf))"
  proof (rule ends_bind)
    show "ends clean (send_cmd hw e CMD24 (card_address e lba) (FLAGS_R1 OR CMD_ISDATA)) d1
        (\<lambda>_ d'. view d' = v1\<lparr>sv_phase := SdWriteWait ?a\<rparr>)"
      using send_cmd_starts [OF L, of d1 CMD24 "FLAGS_R1 OR CMD_ISDATA" "card_address e lba"
          "v1\<lparr>sv_phase := SdWriteCmd ?a\<rparr>"] d1(2,3) idle w by (simp add: transfer_words(2) v1_def)
  next
    fix x d2 assume "view d2 = v1\<lparr>sv_phase := SdWriteWait ?a\<rparr>"
    then have "ends clean (wait_write_ready hw e) d2 (\<lambda>_ d'. view d' = v1\<lparr>sv_phase := SdWriteData ?a []\<rparr>)"
      using wait_flag_ack' [OF L, of d2 INT_WRITE_READY] unfolding wait_write_ready_def by simp
    then show "ends clean (io_bind (wait_write_ready hw e) (\<lambda>_. do {
          write_words hw e (take (unat BLOCK_SIZE) buf); wait_data_done hw e })) d2
        (\<lambda>_ d'. sv_phase (view d') = SdIdle \<and> sv_card (view d') = (sv_card ?v)(?a := buf))"
      by (rule ends_bind) (rule finish)
  qed
  then show ?thesis by (rule ends_run [OF d1(1)])
qed

section \<open>The card as a disk\<close>

text \<open>
  Block \<open>k\<close> of the card, and cards whose blocks all have an address of 32 bits: the argument of a
  command holds no more.
\<close>

definition emmc_disk :: "emmc \<Rightarrow> sd_view \<Rightarrow> u64 \<Rightarrow> u8 list" where
  "emmc_disk e v k = sv_card v (ucast (card_address e (ucast k)))"

definition card_fits :: "emmc \<Rightarrow> bool" where
  "card_fits e \<longleftrightarrow> unat (csd_block_count (em_csd e)) \<le> (if csd_ver (em_csd e) = V1_0 then 2 ^ 23 else 2 ^ 32)"

lemma unat_ucast_fit:
  fixes x :: "'a::len word"
  assumes "unat x < 2 ^ LENGTH('b)"
  shows "unat (ucast x :: 'b::len word) = unat x"
  using assms by (simp add: unsigned_ucast_eq take_bit_nat_eq_self)

lemma card_address_low:
  assumes "card_fits e" "unat k < unat (csd_block_count (em_csd e))"
  shows "unat (ucast (card_address e (ucast k)) :: u32) = unat k * (if csd_ver (em_csd e) = V1_0 then 512 else 1)"
proof -
  define x :: u32 where "x = ucast k"
  have "unat k < 2 ^ 32" using assms by (auto simp: card_fits_def split: if_splits)
  then have x: "unat x = unat k" unfolding x_def by (intro unat_ucast_fit) simp
  then have u: "unat (ucast x :: u64) = unat k" using unat_less [of x] by (subst unat_ucast_fit) simp_all
  show ?thesis
  proof (cases "csd_ver (em_csd e) = V1_0")
    case True
    then have k: "unat k < 2 ^ 23" using assms by (simp add: card_fits_def)
    have "unat (ucast x * 512 :: u64) = unat k * 512"
      using k u by (simp add: unat_word_ariths)
    then have "unat (ucast (ucast x * 512 :: u64) :: u32) = unat k * 512" using k by (subst unat_ucast_fit) simp_all
    then show ?thesis using True unfolding x_def [symmetric] by (simp add: card_address_def BLOCK_SIZE_def)
  next
    case False
    then have "card_address e x = ucast x" by (cases "csd_ver (em_csd e)") (simp_all add: card_address_def)
    moreover have "unat (ucast (ucast x :: u64) :: u32) = unat k"
      using u x unat_less [of x] by (subst unat_ucast_fit) simp_all
    ultimately show ?thesis using False unfolding x_def [symmetric] by simp
  qed
qed

lemma card_address_inj:
  assumes "card_fits e" "unat j < unat (csd_block_count (em_csd e))" "unat k < unat (csd_block_count (em_csd e))"
  shows "(ucast (card_address e (ucast j)) :: u32) = ucast (card_address e (ucast k)) \<longleftrightarrow> j = k"
proof
  assume "(ucast (card_address e (ucast j)) :: u32) = ucast (card_address e (ucast k))"
  then have "unat j * (if csd_ver (em_csd e) = V1_0 then 512 else 1) = unat k * (if csd_ver (em_csd e) = V1_0 then 512 else 1)"
    using card_address_low [OF assms(1,2)] card_address_low [OF assms(1,3)] by metis
  then show "j = k" by (cases "csd_ver (em_csd e) = V1_0") (simp_all add: word_unat_eq_iff)
qed simp

text \<open>An idle controller with a card of whole blocks.\<close>

definition sd_up :: "sd_view \<Rightarrow> bool" where
  "sd_up v \<longleftrightarrow> sv_phase v = SdIdle \<and> (\<forall>a. length (sv_card v a) = 512)"

lemma read_each_reads:
  assumes L: "sd_laws hw (em_base e) clean view lines lat" and "sd_up (view d)" "\<forall>b \<in> set bufs. length b = 512"
  shows "ends clean (read_each hw e k bufs) d (\<lambda>blocks d'.
    blocks = map (\<lambda>i. emmc_disk e (view d) (k + of_nat i)) [0..<length bufs] \<and>
    sd_up (view d') \<and> sv_card (view d') = sv_card (view d))"
  using assms(2,3)
proof (induction bufs arbitrary: k d)
  case (Cons b bufs)
  let ?D = "emmc_disk e (view d)"
  have rest: "ends clean (io_bind (read_each hw e (k + 1) bufs) (\<lambda>bs. ok (?D k # bs))) d1 (\<lambda>blocks d'.
      blocks = map (\<lambda>i. ?D (k + of_nat i)) [0..<length (b # bufs)] \<and> sd_up (view d') \<and> sv_card (view d') = sv_card (view d))"
    if d1: "sv_phase (view d1) = SdIdle" "sv_card (view d1) = sv_card (view d)" for d1
  proof (rule ends_bind)
    have "sd_up (view d1)" using Cons.prems(1) d1 by (simp add: sd_up_def)
    then show "ends clean (read_each hw e (k + 1) bufs) d1 (\<lambda>blocks d'.
        blocks = map (\<lambda>i. ?D (k + 1 + of_nat i)) [0..<length bufs] \<and> sd_up (view d') \<and> sv_card (view d') = sv_card (view d))"
      using Cons.IH [of d1 "k + 1"] Cons.prems(2) d1(2) by (simp add: emmc_disk_def)
  qed (rule ends_ok, simp add: map_upt_Suc add.assoc del: upt_Suc)
  have "ends clean (read_block_internal hw e (ucast k) b) d (\<lambda>block d'. block = ?D k \<and>
      sv_phase (view d') = SdIdle \<and> sv_card (view d') = sv_card (view d))"
    using read_block_internal_reads [OF L, of d "ucast k" b] Cons.prems by (simp add: sd_up_def emmc_disk_def)
  then show ?case unfolding read_each.simps by (rule ends_bind) (use rest in simp)
qed (simp add: ends_ok)

lemma write_each_writes:
  assumes L: "sd_laws hw (em_base e) clean view lines lat" and fits: "card_fits e"
    and "sd_up (view d)" "\<forall>b \<in> set bufs. length b = 512" "unat k + length bufs \<le> unat (csd_block_count (em_csd e))"
  shows "ends clean (write_each hw e k bufs) d (\<lambda>_ d'. sd_up (view d') \<and>
    (\<forall>j. unat j < unat (csd_block_count (em_csd e)) \<longrightarrow>
       emmc_disk e (view d') j =
         (if unat k \<le> unat j \<and> unat j < unat k + length bufs then bufs ! (unat j - unat k) else emmc_disk e (view d) j)))"
  using assms(3-)
proof (induction bufs arbitrary: k d)
  case (Cons b bufs)
  let ?n = "unat (csd_block_count (em_csd e))"
  have k: "unat k < ?n" using Cons.prems(3) by simp
  then have k1: "unat (k + 1) = unat k + 1"
    using unat_less [of "csd_block_count (em_csd e)"] by (subst unat_word_ariths) simp
  have rest: "ends clean (write_each hw e (k + 1) bufs) d1 (\<lambda>_ d'. sd_up (view d') \<and>
      (\<forall>j. unat j < ?n \<longrightarrow> emmc_disk e (view d') j = (if unat k \<le> unat j \<and> unat j < unat k + length (b # bufs)
        then (b # bufs) ! (unat j - unat k) else emmc_disk e (view d) j)))"
    if d1: "sv_phase (view d1) = SdIdle" "sv_card (view d1) = (sv_card (view d))(ucast (card_address e (ucast k)) := b)" for d1
  proof -
    have up: "sd_up (view d1)" using Cons.prems(1,2) d1 by (simp add: sd_up_def)
    have one: "emmc_disk e (view d1) j = (if j = k then b else emmc_disk e (view d) j)" if "unat j < ?n" for j
      using card_address_inj [OF fits that k] d1(2) by (simp add: emmc_disk_def)
    have "ends clean (write_each hw e (k + 1) bufs) d1 (\<lambda>_ d'. sd_up (view d') \<and>
      (\<forall>j. unat j < ?n \<longrightarrow> emmc_disk e (view d') j =
         (if unat k + 1 \<le> unat j \<and> unat j < unat k + 1 + length bufs then bufs ! (unat j - (unat k + 1))
          else emmc_disk e (view d1) j)))"
      using Cons.IH [OF up, of "k + 1"] Cons.prems(2,3) k1 by (simp cong: if_cong split del: if_split)
    then show ?thesis
    proof (rule ends_mono, intro conjI allI impI)
      fix d2 j
      assume d2: "sd_up (view d2) \<and> (\<forall>j. unat j < ?n \<longrightarrow> emmc_disk e (view d2) j =
         (if unat k + 1 \<le> unat j \<and> unat j < unat k + 1 + length bufs then bufs ! (unat j - (unat k + 1))
          else emmc_disk e (view d1) j))" and j: "unat (j :: u64) < ?n"
      consider "j = k" | "unat k < unat j" | "unat j < unat k"
        by (metis linorder_neqE_nat word_unat_eq_iff)
      then show "emmc_disk e (view d2) j = (if unat k \<le> unat j \<and> unat j < unat k + length (b # bufs)
          then (b # bufs) ! (unat j - unat k) else emmc_disk e (view d) j)"
        using conjunct2 [OF d2, rule_format, OF j] one [OF j] by cases (auto simp: nth_Cons')
    qed simp
  qed
  have "ends clean (write_block_internal hw e (ucast k) b) d (\<lambda>_ d'. sv_phase (view d') = SdIdle \<and>
      sv_card (view d') = (sv_card (view d))(ucast (card_address e (ucast k)) := b))"
    using write_block_internal_writes [OF L, of d b "ucast k"] Cons.prems by (simp add: sd_up_def)
  then show ?case unfolding write_each.simps by (rule ends_bind) (use rest in simp)
qed (auto intro: ends_ok)

lemma emmc_ready:
  assumes L: "sd_laws hw (em_base e) clean view lines lat" and up: "sd_up (view d)"
  obtains d1 where "run_state (emmc_is_ready hw e) d = (True, d1)" "view d1 = view d"
proof -
  obtain s d1 where "bus_read (sh_bus hw) (em_base e + REG_STATUS) d = (s, d1)" "view d1 = view d"
    "s AND STATUS_CARD_INSERTED \<noteq> 0" "s AND STATUS_CARD_STATE_STABLE \<noteq> 0"
    using up by (auto simp: sd_up_def elim: sd_read_status [OF L])
  then show ?thesis using that by (simp add: emmc_is_ready_def em_read_reg_def run_load)
qed

text \<open>A range of blocks inside the card passes the check, which does not wrap around.\<close>

lemma range_check:
  fixes c k :: u64
  assumes "unat k + n \<le> unat c"
  shows "\<not> c < k + of_nat n"
proof -
  have "unat (k + of_nat n) = unat k + n"
    using assms unat_less [of c] by (simp add: unat_word_ariths unat_of_nat mod_simps)
  then show ?thesis using assms by (simp add: word_less_nat_alt)
qed

text \<open>
  C39. The SD card is a disk.  The controller accepts a command only while both of its lines are
  free and an acknowledge only of a flag it has raised, and takes its time to do either; the laws
  leave open what any other access does.  Over it, through the type-erased block device, reading a
  range of blocks of the card returns their contents and changes none, and writing a range replaces
  exactly those blocks; both return within the driver's polling limits and leave the controller
  idle.  On a controller that can report an error both either end so or return an error.
\<close>

theorem emmc_refines_disk:
  assumes L: "sd_laws hw (em_base e) clean view lines lat" and fits: "card_fits e" and up: "sd_up (view d)"
    and bufs: "\<forall>b \<in> set bufs. length b = 512"
    and range: "unat k + length bufs \<le> unat (csd_block_count (em_csd e))"
  shows "ends clean (dbd_read_blocks (dyn_block emmc_into (emmc_block_device hw e)) k bufs) d (\<lambda>blocks d'.
      blocks = map (\<lambda>i. emmc_disk e (view d) (k + of_nat i)) [0..<length bufs] \<and>
      sd_up (view d') \<and> (\<forall>j. emmc_disk e (view d') j = emmc_disk e (view d) j)) \<and>
    ends clean (dbd_write_blocks (dyn_block emmc_into (emmc_block_device hw e)) k bufs) d (\<lambda>_ d'.
      sd_up (view d') \<and>
      (\<forall>j. unat j < unat (csd_block_count (em_csd e)) \<longrightarrow>
         emmc_disk e (view d') j =
           (if unat k \<le> unat j \<and> unat j < unat k + length bufs then bufs ! (unat j - unat k)
            else emmc_disk e (view d) j)))"
proof -
  obtain d1 where d1: "run_state (emmc_is_ready hw e) d = (True, d1)" "view d1 = view d"
    by (rule emmc_ready [OF L up])
  have b: "\<not> (\<exists>b \<in> set bufs. length b < unat BLOCK_SIZE)" using bufs by (simp add: transfer_words(4))
  note c = range_check [OF range]
  have r: "ends clean (read_each hw e k bufs) d1 (\<lambda>blocks d'.
      blocks = map (\<lambda>i. emmc_disk e (view d) (k + of_nat i)) [0..<length bufs] \<and>
      sd_up (view d') \<and> (\<forall>j. emmc_disk e (view d') j = emmc_disk e (view d) j))"
    using ends_mono [OF read_each_reads [OF L, of d1 bufs k]] d1(2) up bufs by (simp add: emmc_disk_def)
  have w: "ends clean (write_each hw e k bufs) d1 (\<lambda>_ d'. sd_up (view d') \<and>
      (\<forall>j. unat j < unat (csd_block_count (em_csd e)) \<longrightarrow> emmc_disk e (view d') j =
         (if unat k \<le> unat j \<and> unat j < unat k + length bufs then bufs ! (unat j - unat k) else emmc_disk e (view d) j)))"
    using write_each_writes [OF L fits, of d1 bufs k] d1(2) up bufs range by (simp cong: if_cong split del: if_split)
  show ?thesis
  proof
    show "ends clean (dbd_read_blocks (dyn_block emmc_into (emmc_block_device hw e)) k bufs) d (\<lambda>blocks d'.
        blocks = map (\<lambda>i. emmc_disk e (view d) (k + of_nat i)) [0..<length bufs] \<and>
        sd_up (view d') \<and> (\<forall>j. emmc_disk e (view d') j = emmc_disk e (view d) j))"
      using ends_map_err [OF r, of emmc_into] b c
      by (elim ends_run [rotated]) (simp add: dyn_block_def emmc_block_device_def emmc_read_blocks_def d1(1) run_io_map_err)
    show "ends clean (dbd_write_blocks (dyn_block emmc_into (emmc_block_device hw e)) k bufs) d (\<lambda>_ d'. sd_up (view d') \<and>
        (\<forall>j. unat j < unat (csd_block_count (em_csd e)) \<longrightarrow> emmc_disk e (view d') j =
           (if unat k \<le> unat j \<and> unat j < unat k + length bufs then bufs ! (unat j - unat k) else emmc_disk e (view d) j)))"
      using ends_map_err [OF w, of emmc_into] b c
      by (elim ends_run [rotated]) (simp add: dyn_block_def emmc_block_device_def emmc_write_blocks_def d1(1) run_io_map_err)
  qed
qed

text \<open>
  A slow controller with a card of 4 MB: after each register write the next poll still finds it
  busy.  A command that is sent while a line is busy is lost, as is an early acknowledge.
\<close>

record demo_sd_state =
  dm_view :: sd_view
  dm_lines :: sd_lines
  dm_slow :: bool

definition demo_status :: "sd_lines \<Rightarrow> u32" where
  "demo_status ln = STATUS_CARD_INSERTED OR STATUS_CARD_STATE_STABLE OR
     (if sl_cmd_inhibit ln then STATUS_CMD_INHIBIT else 0) OR (if sl_dat_inhibit ln then STATUS_DAT_INHIBIT else 0)"

definition demo_calm :: "demo_sd_state \<Rightarrow> demo_sd_state" where
  "demo_calm d = (if dm_slow d then d\<lparr>dm_slow := False\<rparr> else d\<lparr>dm_lines := \<lparr>sl_cmd_inhibit = False, sl_dat_inhibit = False, sl_raised = False\<rparr>\<rparr>)"

definition demo_raise :: "demo_sd_state \<Rightarrow> demo_sd_state" where
  "demo_raise d = d\<lparr>dm_lines := (dm_lines d)\<lparr>sl_raised := \<not> dm_slow d\<rparr>, dm_slow := False\<rparr>"

definition demo_sd :: "demo_sd_state sd_host" where
  "demo_sd =
     \<lparr>sh_bus =
       \<lparr>bus_read = (\<lambda>a d.
          if a = EMMC_BASE + REG_STATUS then (demo_status (dm_lines (demo_calm d)), demo_calm d)
          else if a = EMMC_BASE + REG_INTERRUPT then
            (case sd_expect (sv_phase (dm_view d)) of Some f \<Rightarrow> if dm_slow d then 0 else f | None \<Rightarrow> 0, demo_raise d)
          else (case sv_phase (dm_view d) of
              SdReadData c n \<Rightarrow>
                (chunk_word (take 4 (drop n (sv_card (dm_view d) c))), d\<lparr>dm_view := (dm_view d)\<lparr>sv_phase := SdReadData c (n + 4)\<rparr>\<rparr>)
            | _ \<Rightarrow> (0, d))),
        bus_write = (\<lambda>a w d. case sd_write (a - EMMC_BASE) w (dm_lines d) (dm_view d) of
            Some v \<Rightarrow> d\<lparr>dm_view := v, dm_slow := True,
              dm_lines := if a = EMMC_BASE + REG_CMDTM then \<lparr>sl_cmd_inhibit = True, sl_dat_inhibit = True, sl_raised = False\<rparr>
                else (dm_lines d)\<lparr>sl_raised := False\<rparr>\<rparr>
          | None \<Rightarrow> d)\<rparr>,
      sh_idle = (\<lambda>_ d. d)\<rparr>"

lemma expect_flags:
  "sd_expect p = Some f \<Longrightarrow> f AND INT_ERROR = 0 \<and> f \<noteq> 0"
  by (cases p) (auto simp: INT_CMD_DONE_def INT_READ_READY_def INT_DATA_DONE_def INT_WRITE_READY_def INT_ERROR_def
      split: if_splits)

lemma demo_status_bits:
  "demo_status ln AND STATUS_CARD_INSERTED \<noteq> 0" "demo_status ln AND STATUS_CARD_STATE_STABLE \<noteq> 0"
  "demo_status ln AND STATUS_CMD_INHIBIT = 0 \<longleftrightarrow> \<not> sl_cmd_inhibit ln"
  "demo_status ln AND STATUS_DAT_INHIBIT = 0 \<longleftrightarrow> \<not> sl_dat_inhibit ln"
  by (simp_all add: demo_status_def STATUS_CARD_INSERTED_def STATUS_CARD_STATE_STABLE_def
      STATUS_CMD_INHIBIT_def STATUS_DAT_INHIBIT_def)

text \<open>A command makes the lines busy, and leaves the idle phase.\<close>

lemma cmdtm_leaves_idle:
  "sv_phase v = SdIdle \<Longrightarrow> sd_write REG_CMDTM w ln v = Some v' \<Longrightarrow> sv_phase v' \<noteq> SdIdle"
  by (auto simp: sd_write_def sd_regs split: if_splits)

lemma demo_sd_laws: "sd_laws demo_sd EMMC_BASE True dm_view dm_lines (\<lambda>d. of_bool (dm_slow d))"
  unfolding sd_laws_def
proof (intro conjI allI impI)
  fix d :: demo_sd_state and off w v
  assume "sd_write off w (dm_lines d) (dm_view d) = Some v"
  then show "dm_view (bus_write (sh_bus demo_sd) (EMMC_BASE + off) w d) = v"
    by (simp add: demo_sd_def)
next
  fix d :: demo_sd_state and off w v
  assume "sd_write off w (dm_lines d) (dm_view d) = Some v" "sv_phase (dm_view d) = SdIdle" "sv_phase v = SdIdle"
  moreover from this have "off \<noteq> REG_CMDTM" using cmdtm_leaves_idle by blast
  ultimately show "calmer (dm_lines d) (dm_lines (bus_write (sh_bus demo_sd) (EMMC_BASE + off) w d))"
    by (simp add: demo_sd_def calmer_def)
qed (use expect_flags in \<open>auto simp: demo_sd_def sd_regs demo_status_bits demo_calm_def demo_raise_def calmer_def chunk_bytes
    split: if_splits\<close>)

definition demo_emmc :: emmc where
  "demo_emmc = (the_ok (emmc_new EMMC_BASE))\<lparr>em_csd := csd_default\<lparr>csd_ver := V2_0, csd_capacity := 0x400000\<rparr>\<rparr>"

definition demo_card :: demo_sd_state where
  "demo_card = \<lparr>dm_view = \<lparr>sv_phase = SdIdle, sv_blk = 0, sv_arg = 0, sv_card = (\<lambda>_. replicate 512 0)\<rparr>,
     dm_lines = \<lparr>sl_cmd_inhibit = True, sl_dat_inhibit = True, sl_raised = False\<rparr>, dm_slow = True\<rparr>"

theorem emmc_refines_disk_witness:
  "\<exists>d'. run_state (dbd_write_blocks (dyn_block emmc_into (emmc_block_device demo_sd demo_emmc)) 8190
      [replicate 512 1, replicate 512 2]) demo_card = (Ok (), d') \<and> emmc_disk demo_emmc (dm_view d') 8191 = replicate 512 2"
proof -
  have e: "em_base demo_emmc = EMMC_BASE" "unat (csd_block_count (em_csd demo_emmc)) = 8192" "card_fits demo_emmc"
    by (simp_all add: demo_emmc_def emmc_new_def card_fits_def csd_block_count_def)
  have "sd_laws demo_sd (em_base demo_emmc) True dm_view dm_lines (\<lambda>d. of_bool (dm_slow d))" using demo_sd_laws e(1) by simp
  from emmc_refines_disk [OF this e(3), of demo_card "[replicate 512 1, replicate 512 2]" 8190]
  obtain d' where "run_state (dbd_write_blocks (dyn_block emmc_into (emmc_block_device demo_sd demo_emmc)) 8190
      [replicate 512 1, replicate 512 2]) demo_card = (Ok (), d')"
    and "\<forall>j. unat j < 8192 \<longrightarrow> emmc_disk demo_emmc (dm_view d') j =
      (if unat (8190 :: u64) \<le> unat j \<and> unat j < unat (8190 :: u64) + 2
       then [replicate 512 1, replicate 512 2] ! (unat j - unat (8190 :: u64)) else emmc_disk demo_emmc (dm_view demo_card) j)"
    using e(2) by (auto simp: sd_up_def demo_card_def ends_def)
  then show ?thesis by auto
qed

section \<open>Errors and limits\<close>

text \<open>
  A driver that was created but whose \<^verbatim>\<open>init\<close> has not run refuses every range of blocks: its card has
  none.  The check adds in 64 bits, so a range that wraps around passes it.
\<close>

lemma emmc_uninitialised:
  assumes "emmc_new base = Ok e" "bufs \<noteq> []" "\<forall>b \<in> set bufs. 512 \<le> length b" "unat k + length bufs < 2 ^ 64"
  shows "emmc_read_blocks hw e k bufs = fail EmmcReadError" "emmc_write_blocks hw e k bufs = fail EmmcWriteError"
proof -
  have "unat (k + of_nat (length bufs)) = unat k + length bufs"
    using assms(4) by (simp add: unat_word_ariths unat_of_nat mod_simps)
  moreover have "0 < length bufs" using assms(2) by simp
  ultimately have "0 < k + of_nat (length bufs)" by (simp only: word_less_nat_alt) simp
  moreover have "csd_block_count (em_csd e) = 0"
    using assms(1) by (auto simp: emmc_new_def csd_default_def csd_block_count_def split: if_splits)
  moreover have "\<not> (\<exists>b \<in> set bufs. length b < unat BLOCK_SIZE)" using assms(3) by (auto simp: transfer_words(4))
  ultimately show "emmc_read_blocks hw e k bufs = fail EmmcReadError" "emmc_write_blocks hw e k bufs = fail EmmcWriteError"
    by (simp_all add: emmc_read_blocks_def emmc_write_blocks_def)
qed

lemma emmc_range_wraps:
  assumes "length buf = 512"
  shows "emmc_read_blocks hw e (- 1) [buf] =
    do { ready \<leftarrow> emmc_is_ready hw e; if \<not> ready then fail NoCard else read_each hw e (- 1) [buf] }"
  using assms by (simp add: emmc_read_blocks_def transfer_words(4))

text \<open>
  The divisor is the smallest that keeps the clock at or below the requested frequency, for every
  frequency that ten bits of divisor can reach.
\<close>

lemma clock_divisor_nat:
  assumes "122190 \<le> unat freq" "unat freq \<le> 125000000"
  shows "unat (clock_divisor freq) = 250000000 div (2 * unat freq) + (if 250000000 mod (2 * unat freq) = 0 then 0 else 1)"
proof -
  let ?q = "BASE_CLOCK div (2 * freq)" and ?r = "BASE_CLOCK mod (2 * freq)"
  have f: "unat (2 * freq) = 2 * unat freq" using assms(2) by (simp add: unat_word_ariths)
  have q: "unat ?q = 250000000 div (2 * unat freq)" and r: "unat ?r = 250000000 mod (2 * unat freq)"
    by (simp_all add: unat_div unat_mod f BASE_CLOCK_def)
  have le: "1 \<le> unat ?q" "unat ?q \<le> 1022"
    using assms div_le_mono2 [of 244380 "2 * unat freq" 250000000] unfolding q
    by (simp_all add: less_eq_div_iff_mult_less_eq)
  then have "unat (?q + 1) = unat ?q + 1" by (simp add: unat_word_ariths)
  moreover have "min (max x 1) 1023 = x" if "1 \<le> unat x" "unat x \<le> 1023" for x :: u32
    using that by (simp add: min_def max_def word_le_nat_alt word_unat_eq_iff)
  moreover have "?r = 0 \<longleftrightarrow> unat ?r = 0" by (simp add: unat_eq_0)
  ultimately show ?thesis using le unfolding clock_divisor_def Let_def
    by (auto simp flip: q r)
qed

lemma round_up_div:
  fixes b f n :: nat
  assumes "0 < f"
  shows "b \<le> f * n \<longleftrightarrow> b div f + (if b mod f = 0 then 0 else 1) \<le> n"
proof (cases "b mod f = 0")
  case True
  then obtain q where "b = f * q" by auto
  then show ?thesis using assms by simp
next
  case False
  have b: "b = f * (b div f) + b mod f" "b mod f < f" using assms by simp_all
  have "f * (b div f) + f \<le> f * n" if "b div f < n"
    using mult_le_mono2 [of "Suc (b div f)" n f] that by simp
  moreover have "f * n \<le> f * (b div f)" if "\<not> b div f < n" using that by simp
  ultimately have "b \<le> f * n \<longleftrightarrow> b div f < n" using b False by linarith
  then show ?thesis using False by (simp add: Suc_le_eq)
qed

lemma clock_divisor_least:
  assumes "122190 \<le> unat freq" "unat freq \<le> 125000000"
  shows "250000000 \<le> 2 * unat freq * n \<longleftrightarrow> unat (clock_divisor freq) \<le> n"
  using clock_divisor_nat [OF assms] round_up_div [of "2 * unat freq" 250000000 n] assms(1) by simp

text \<open>What the two frequencies of \<^verbatim>\<open>init\<close> put into the divider fields of the control register.\<close>

lemma clock_settings:
  "clock_divisor 400000 = 313" "divisor_bits 313 = 0x4E40"
  "clock_divisor 25000000 = 5" "divisor_bits 5 = 0x0140"
  by (simp_all add: clock_divisor_def BASE_CLOCK_def divisor_bits_def)

end
