(* ===== verification/Subsystems.thy ===== *)
theory Subsystems
  imports Platform Emmc_Properties Mb2_Fb
begin

text \<open>
  The kernel's global devices (\<^verbatim>\<open>kernel/src/subsystems/mod.rs\<close>), the picture that \<^verbatim>\<open>kernel_main\<close> draws and the
  panic handler's text output (\<^verbatim>\<open>kernel/src/main.rs\<close>).  The cell \<^verbatim>\<open>DEVICE_MANAGER\<close> is written once; its
  lock is held for one query only, except where \<open>Kernel_Init\<close> shows it.
\<close>

section \<open>The device manager\<close>

type_synonym device_cell = "driver device_manager option"

definition subsys_init_devices :: "architecture \<Rightarrow> platform \<Rightarrow> device_cell \<Rightarrow> device_cell call" where
  "subsys_init_devices target p cell =
     (case cell of
        Some _ \<Rightarrow> Panic
      | None \<Rightarrow>
          (case init_devices target p device_manager_new of
             (Ok _, dm) \<Rightarrow> Ok (Some dm)
           | (Err _, dm) \<Rightarrow> Panic
           | (Panic, dm) \<Rightarrow> Panic
           | (Diverge, dm) \<Rightarrow> Diverge))"

definition the_device_manager :: "device_cell \<Rightarrow> driver device_manager call" where
  "the_device_manager cell = (case cell of None \<Rightarrow> Panic | Some dm \<Rightarrow> Ok dm)"

definition subsys_serial_console :: "device_cell \<Rightarrow> driver option call" where
  "subsys_serial_console cell = obind (the_device_manager cell) (\<lambda>dm. Ok (serial_console dm))"

definition subsys_system_timer :: "device_cell \<Rightarrow> driver option call" where
  "subsys_system_timer cell = obind (the_device_manager cell) (\<lambda>dm. Ok (system_timer dm))"

definition subsys_irq_controller :: "device_cell \<Rightarrow> driver option call" where
  "subsys_irq_controller cell = obind (the_device_manager cell) (\<lambda>dm. Ok (irq_controller dm))"

fun device_type_name :: "'h device \<Rightarrow> string" where
  "device_type_name (Serial h) = ''Serial''"
| "device_type_name (Block h) = ''Block''"
| "device_type_name (FrameBuffer h) = ''FrameBuffer''"
| "device_type_name (Timer h) = ''Timer''"
| "device_type_name (InterruptController h) = ''InterruptController''"

fun fb_error_name :: "frame_buffer_error \<Rightarrow> string" where
  "fb_error_name MailboxFailed = ''MailboxFailed''"
| "fb_error_name AllocationFailed = ''AllocationFailed''"
| "fb_error_name FbInvalidConfig = ''InvalidConfig''"
| "fb_error_name FbNotSupported = ''NotSupported''"

text \<open>\<open>handle\<close> makes the shared handle of the new framebuffer.\<close>

definition enable_graphical_framebuffer ::
  "(mb2_fb \<Rightarrow> 'h) \<Rightarrow> mb2_fb_tag option \<Rightarrow> 'h device_manager \<Rightarrow> (unit, string) outcome \<times> 'h device_manager" where
  "enable_graphical_framebuffer handle tag_cell dm =
     (case ok_or ''No graphical framebuffer available'' tag_cell of
        Ok tag \<Rightarrow>
          (case map_err (\<lambda>e. ''Framebuffer init failed: '' @ fb_error_name e) (mb2_fb_new tag) of
             Ok fb \<Rightarrow> register_framebuffer dm ''framebuffer'' (handle fb)
           | Err e \<Rightarrow> (Err e, dm)
           | Panic \<Rightarrow> (Panic, dm)
           | Diverge \<Rightarrow> (Diverge, dm))
      | Err e \<Rightarrow> (Err e, dm)
      | Panic \<Rightarrow> (Panic, dm)
      | Diverge \<Rightarrow> (Diverge, dm))"

section \<open>The kernel's picture\<close>

text \<open>What \<^verbatim>\<open>kernel_main\<close> draws when a framebuffer is registered, before it loops forever.\<close>

definition draw_splash :: "'f frame_buffer \<Rightarrow> 'f \<Rightarrow> 'f call" where
  "draw_splash fb s =
     obind (fb_clear fb 0x00001A s) (\<lambda>s.
       let cx = fb_width fb div 2 - 50;
           cy = fb_height fb div 2 - 50 in
       obind (fb_draw_rect fb cx cy 100 100 0xFFFFFF s) (\<lambda>s.
         let width = fb_width fb;
             height = fb_height fb in
         obind (fb_draw_hline fb 0 (width - 1) (height div 2) 0xFF0000 s) (\<lambda>s.
           fb_draw_vline fb (width div 2) 0 (height - 1) 0x00FF00 s)))"

section \<open>The panic handler\<close>

text \<open>\<^verbatim>\<open>VgaPanic\<close>: a cell index and the text buffer, one 16-bit cell per byte.\<close>

record vga_panic =
  vp_col :: nat
  vp_mem :: memory

definition panic_put :: "u8 \<Rightarrow> vga_panic \<Rightarrow> vga_panic" where
  "panic_put byte p =
     (if vp_col p < 80 * 25 then
        let a = 0xB8000 + 2 * of_nat (vp_col p) in
        p\<lparr>vp_mem := (vp_mem p)(a := byte, a + 1 := 0x0F), vp_col := vp_col p + 1\<rparr>
      else p)"

definition panic_write_str :: "u8 list \<Rightarrow> vga_panic \<Rightarrow> vga_panic" where
  "panic_write_str s p = fold panic_put s p"

section \<open>Lemmas\<close>

text \<open>
  The panic text fills the screen from its first cell, is cut at the last one and leaves the rest of
  the memory alone.
\<close>

lemma panic_put_frame:
  assumes "unat a < 0xB8000 \<or> 0xB8FA0 \<le> unat a"
  shows "vp_mem (panic_put b p) a = vp_mem p a" "vp_col p \<le> 2000 \<Longrightarrow> vp_col (panic_put b p) \<le> 2000"
proof -
  have "a \<noteq> 0xB8000 + 2 * of_nat c \<and> a \<noteq> 0xB8000 + 2 * of_nat c + 1" if "c < 2000" for c :: nat
  proof -
    have "unat (0xB8000 + 2 * of_nat c :: u32) = 0xB8000 + 2 * c" "unat (0xB8000 + 2 * of_nat c + 1 :: u32) = 0xB8001 + 2 * c"
      using that by (simp_all add: unat_word_ariths unat_of_nat mod_simps)
    then show ?thesis using that assms by auto
  qed
  then show "vp_mem (panic_put b p) a = vp_mem p a" by (simp add: panic_put_def Let_def)
  show "vp_col p \<le> 2000 \<Longrightarrow> vp_col (panic_put b p) \<le> 2000" by (simp add: panic_put_def Let_def)
qed

lemma panic_write_frame:
  assumes "unat a < 0xB8000 \<or> 0xB8FA0 \<le> unat a"
  shows "vp_mem (panic_write_str s p) a = vp_mem p a"
  unfolding panic_write_str_def by (induction s arbitrary: p) (simp_all add: panic_put_frame [OF assms])

text \<open>
  The block devices that the platform registers are SD card drivers that were created but never
  initialised, so every access through them fails.
\<close>

definition fresh_emmc :: "driver device_manager \<Rightarrow> bool" where
  "fresh_emmc dm \<longleftrightarrow> (\<forall>name h. dm_get dm name = Some (Block h) \<longrightarrow> (\<exists>base e. h = EmmcDriver e \<and> emmc_new base = Ok e))"

lemma fresh_emmc_register:
  assumes "dm_ok dm" "fresh_emmc dm" "\<And>h. dev = Block h \<Longrightarrow> \<exists>base e. h = EmmcDriver e \<and> emmc_new base = Ok e"
  shows "fresh_emmc (dm_register dm name dev)"
  using assms by (auto simp: fresh_emmc_def dm_get_register)

definition fresh_dm :: "driver device_manager \<Rightarrow> bool" where
  "fresh_dm dm \<longleftrightarrow> dm_ok dm \<and> fresh_emmc dm"

lemma fresh_dm_register:
  "fresh_dm dm \<Longrightarrow> (\<And>h. dev = Block h \<Longrightarrow> \<exists>base e. h = EmmcDriver e \<and> emmc_new base = Ok e) \<Longrightarrow> fresh_dm (dm_register dm name dev)"
  using fresh_emmc_register by (auto simp: fresh_dm_def dm_register_ok)

lemma fresh_dm_timer: "fresh_dm dm \<Longrightarrow> fresh_dm (dm\<lparr>dm_sys_timer_channel := c\<rparr>)"
  by (simp add: fresh_dm_def dm_ok_def fresh_emmc_def dm_get_def)

lemma fresh_if: "fresh_dm (snd x) \<Longrightarrow> fresh_dm (snd y) \<Longrightarrow> fresh_dm (snd (if b then x else y))"
  by simp

lemma init_device_fresh:
  assumes "fresh_dm dm"
  shows "fresh_dm (snd (init_device target device dm))"
proof -
  have block: "fresh_dm (snd (case emmc_new base of
           Ok block_dev \<Rightarrow> register_block dm name (EmmcDriver block_dev)
         | Err e \<Rightarrow> (Err (''Emmc init failed: '' @ emmc_error_name e), dm)
         | Panic \<Rightarrow> (Panic, dm)
         | Diverge \<Rightarrow> (Diverge, dm)))" for base name
    using assms by (auto simp: register_block_def new_block_def intro!: fresh_dm_register split: outcome.split)
  have timer: "fresh_dm (snd (register_timer dm name h (Some 1)))" for name h
    using assms by (auto simp: register_timer_def new_timer_def intro!: fresh_dm_register fresh_dm_timer split: option.split)
  have other: "fresh_dm (snd (register_serial dm name h))" "fresh_dm (snd (register_interrupt_controller dm name h))" for name h
    using assms by (auto simp: register_serial_def register_interrupt_controller_def new_serial_def
        new_interrupt_controller_def intro!: fresh_dm_register)
  show ?thesis
    unfolding init_device_def Let_def by (intro fresh_if block timer other) (simp_all add: assms)
qed

lemma init_devices_fresh: "fresh_dm dm \<Longrightarrow> fresh_dm (snd (init_loop_devices target ds dm))"
proof (induction ds arbitrary: dm)
  case (Cons d ds)
  have "fresh_dm (snd (init_device target d dm))" using Cons.prems by (rule init_device_fresh)
  then show ?case using Cons.IH by (auto split: prod.split outcome.split)
qed simp

lemma registered_block_unusable:
  assumes "subsys_init_devices target p None = Ok (Some dm)" "dm_get dm name = Some (Block h)" "length buf = 512"
    "unat k + 1 < 2 ^ 64"
  shows "\<exists>e. h = EmmcDriver e \<and> emmc_read_blocks hw e k [buf] = fail EmmcReadError"
proof -
  have "fresh_dm (device_manager_new :: driver device_manager)"
    by (simp add: fresh_dm_def fresh_emmc_def dm_ok_def device_manager_new_def dm_get_def bt_ok_def bt_keys_def)
  then have "fresh_dm dm"
    using assms(1) init_devices_fresh [of device_manager_new target "devices p"]
    by (auto simp: subsys_init_devices_def init_devices_def split: prod.splits outcome.splits)
  then obtain base e where "h = EmmcDriver e" "emmc_new base = Ok e"
    using assms(2) unfolding fresh_dm_def fresh_emmc_def by blast
  then show ?thesis using emmc_uninitialised(1) [of base e "[buf]" k hw] assms(3,4) by simp
qed

end
