(* ===== verification/Kernel_Init.thy ===== *)
theory Kernel_Init
  imports Logger Subsystems Kernel_Memory Uart_Drivers
begin

text \<open>
  The boot sequence as a whole: \<^verbatim>\<open>kernel_init\<close> with its log texts (\<^verbatim>\<open>kernel/src/kcore/init.rs\<close>),
  \<^verbatim>\<open>print_devices\<close> (\<^verbatim>\<open>kernel/src/subsystems/mod.rs\<close>) and \<^verbatim>\<open>kernel_main\<close> (\<^verbatim>\<open>kernel/src/main.rs\<close>).  The lock of the device
  manager is part of the state: it is a spin lock, so taking it a second time on the only CPU never
  returns.  Allocations that the standard containers make are not part of the state.
\<close>

section \<open>State\<close>

text \<open>
  What the board provides: the target of the build, the CPU identification register, the linker's
  symbol for the end of the kernel, port and memory accesses of the serial drivers, and the
  framebuffer behind a handle.
\<close>

record 'h board =
  bd_target :: architecture
  bd_midr :: u32
  bd_symbol :: u32
  bd_inb :: "u16 \<Rightarrow> 'h \<Rightarrow> u8 \<times> 'h"
  bd_outb :: "u16 \<Rightarrow> u8 \<Rightarrow> 'h \<Rightarrow> 'h"
  bd_mmio8 :: "(u8, 'h) bus"
  bd_mmio32 :: "(u32, 'h) bus"
  bd_frame_buffer :: "driver \<Rightarrow> 'h frame_buffer"

text \<open>What a sink of the logger can change: memory, the console's ports, the hardware, the device manager.\<close>

record 'h kworld =
  kw_memory :: kernel_memory
  kw_ports :: "(u16 \<times> u8) list"
  kw_hw :: 'h
  kw_cell :: device_cell
  kw_locked :: bool

record 'h kernel =
  k_boot :: boot_state
  k_logger :: "'h kworld kernel_logger"
  k_world :: "'h kworld"

definition on_hw :: "('h, 'a, unit) io \<Rightarrow> ('h kworld, 'a, unit) io" where
  "on_hw m = State (\<lambda>w. case run_state m (kw_hw w) of (r, h) \<Rightarrow> (r, w\<lparr>kw_hw := h\<rparr>))"

definition on_screen :: "(memory \<times> (u16 \<times> u8) list, 'a, unit) io \<Rightarrow> ('h kworld, 'a, unit) io" where
  "on_screen m = State (\<lambda>w. case run_state m (km_mem (kw_memory w), kw_ports w) of
     (r, (mem, ports)) \<Rightarrow> (r, w\<lparr>kw_memory := (kw_memory w)\<lparr>km_mem := mem\<rparr>, kw_ports := ports\<rparr>))"

definition on_world :: "('h kworld, 'a, unit) io \<Rightarrow> ('h kernel, 'a, unit) io" where
  "on_world m = State (\<lambda>k. case run_state m (k_world k) of (r, w) \<Rightarrow> (r, k\<lparr>k_world := w\<rparr>))"

definition k_get :: "('h kernel \<Rightarrow> 'a) \<Rightarrow> ('h kernel, 'a, unit) io" where
  "k_get f = State (\<lambda>k. (Ok (f k), k))"

section \<open>The device manager and its lock\<close>

definition lock_dm :: "('h kworld, driver device_manager, unit) io" where
  "lock_dm = State (\<lambda>w.
     case the_device_manager (kw_cell w) of
       Ok dm \<Rightarrow> if kw_locked w then (Diverge, w) else (Ok dm, w\<lparr>kw_locked := True\<rparr>)
     | _ \<Rightarrow> (Panic, w))"

definition unlock_dm :: "('h kworld, unit, unit) io" where
  "unlock_dm = State (\<lambda>w. (Ok (), w\<lparr>kw_locked := False\<rparr>))"

definition with_dm :: "(driver device_manager \<Rightarrow> ('h kworld, 'a, unit) io) \<Rightarrow> ('h kworld, 'a, unit) io" where
  "with_dm f = io_bind lock_dm (\<lambda>dm. io_bind (f dm) (\<lambda>r. io_bind unlock_dm (\<lambda>_. ok r)))"

section \<open>Sinks\<close>

text \<open>The serial port behind the handle of a driver.\<close>

fun driver_port :: "'h board \<Rightarrow> driver \<Rightarrow> 'h dyn_serial_port option" where
  "driver_port board (Uart16550Pio base) =
     Some (dyn_serial uart16550_into (u16_port (Pio (bd_inb board) (bd_outb board)) (uart16550_new base)))"
| "driver_port board (Uart16550Mmio base) = Some (dyn_serial uart16550_into (u16_port (Uart_Drivers.Mmio (bd_mmio8 board)) (uart16550_new base)))"
| "driver_port board (Pl011 base) = Some (dyn_serial pl011_into (pl_port (bd_mmio32 board) (pl011_new base)))"
| "driver_port board _ = None"

definition SERIAL_SINK :: "'h board \<Rightarrow> u8 list \<Rightarrow> ('h kworld, unit, unit) io" where
  "SERIAL_SINK board s =
     io_bind (with_dm (\<lambda>dm. ok (serial_console dm))) (\<lambda>console.
       on_hw (serial_log_sink (Option.bind console (driver_port board)) s))"

definition boot_console :: "architecture \<Rightarrow> u8 list \<Rightarrow> ('h kworld, unit, unit) io" where
  "boot_console target s =
     (if target = X86 then on_screen (x86_boot_sink s) else if target = Arm then arm_boot_sink s else null_boot_sink s)"

text \<open>\<^verbatim>\<open>log::info!\<close> and \<^verbatim>\<open>log::warn!\<close>: the macro asks the level of the crate and calls the registered logger.\<close>

definition klog :: "'h board \<Rightarrow> log_level \<Rightarrow> string \<Rightarrow> string \<Rightarrow> ('h kernel, unit, unit) io" where
  "klog board level module msg = io_bind (k_get k_logger) (\<lambda>lg.
     if lg_registered lg \<and> level_num level \<le> filter_num (lg_global_level lg)
     then on_world (logger_log (boot_console (bd_target board)) lg level (text_bytes module) [text_bytes msg])
     else ok ())"

section \<open>Texts\<close>

fun hex_digits :: "nat \<Rightarrow> string" where
  "hex_digits n = (if n < 16 then [''0123456789abcdef'' ! n] else hex_digits (n div 16) @ [''0123456789abcdef'' ! (n mod 16)])"

declare hex_digits.simps [simp del]

definition hex08 :: "u32 \<Rightarrow> string" where
  "hex08 a = (let s = hex_digits (unat a) in replicate (8 - length s) (CHR ''0'') @ s)"

definition udec :: "u32 \<Rightarrow> string" where
  "udec a = dec_digits (unat a)"

definition pad12 :: "string \<Rightarrow> string" where
  "pad12 s = s @ replicate (12 - length s) (CHR '' '')"

definition log_memory_layout :: "memory_layout \<Rightarrow> string list" where
  "log_memory_layout lay =
     [''Memory Layout:'', ''  Kernel End:     0x'' @ hex08 (kernel_end lay)] @
     (case page_table lay of
        Some (pt_start, pt_end) \<Rightarrow>
          [''  Page Table:     0x'' @ hex08 pt_start @ '' - 0x'' @ hex08 pt_end @ '' ('' @ udec (pt_end - pt_start) @ '' B)'']
      | None \<Rightarrow> []) @
     [''  Heap:           0x'' @ hex08 (heap_start lay) @ '' - 0x'' @ hex08 (heap_end lay) @ '' ('' @
        udec ((heap_end lay - heap_start lay) div 1024) @ '' KB)'',
      ''  Page Allocator: 0x'' @ hex08 (page_alloc_start lay) @ '' - 0x'' @ hex08 (page_alloc_end lay) @ '' ('' @
        udec ((page_alloc_end lay - page_alloc_start lay) div (1024 * 1024)) @ '' MB)'']"

definition log_system_info :: "platform \<Rightarrow> string list" where
  "log_system_info p =
     [''System Information:'', ''  Platform:     '' @ pf_name p, ''  Architecture: '' @ platform_arch p,
      ''  Total RAM:    '' @ udec (total_ram p div (1024 * 1024)) @ '' MB''] @
     (case pf_cmdline p of Some cmdline \<Rightarrow> [''  Command Line: '' @ cmdline] | None \<Rightarrow> [])"

fun memory_type_name :: "memory_type \<Rightarrow> string" where
  "memory_type_name Available = ''Available''"
| "memory_type_name Reserved = ''Reserved''"
| "memory_type_name memory_type.Mmio = ''MMIO''"
| "memory_type_name Kernel = ''Kernel''"
| "memory_type_name Framebuffer = ''Framebuffer''"

definition region_line :: "memory_region \<Rightarrow> string" where
  "region_line region = ''    '' @ pad12 (memory_type_name (reg_type region)) @ '' : 0x'' @ hex08 (reg_base region) @ '' - 0x'' @
     hex08 (reg_base region + reg_size region) @ '' ('' @ udec (reg_size region div 1024) @ '' KB)''"

definition device_line :: "device_info \<Rightarrow> string" where
  "device_line device = ''    '' @ dev_name device @ '' ('' @ dev_compatible device @ '') @ 0x'' @ hex08 (dev_base device) @
     (case dev_irq device of Some irq \<Rightarrow> '' IRQ '' @ udec irq | None \<Rightarrow> [])"

definition log_discovered_hardware :: "platform \<Rightarrow> string list" where
  "log_discovered_hardware p =
     [''Discovered Hardware:'', ''  Memory Regions:''] @ map region_line (memory_regions p) @
     [''  Devices:''] @ map device_line (devices p)"

definition log_available_devices :: "string list \<Rightarrow> string list" where
  "log_available_devices names = ''Registered Devices:'' # map (\<lambda>name. ''  - '' @ name) names"

section \<open>Creating the devices\<close>

definition KNOWN_DEVICES :: "string list" where
  "KNOWN_DEVICES =
     [''arm,pl011'', ''arm,primecell'', ''16550a-uart'', ''ns16550a'', ''brcm,bcm2835-system-timer'', ''arm,armv7-timer'',
      ''arm,armv8-timer'', ''i8254-pit'', ''intel,8254'', ''brcm,bcm2835-armctrl-ic'', ''brcm,bcm2836-armctrl-ic'',
      ''arm,gic-400'', ''arm,cortex-a15-gic'', ''arm,gic-v3'', ''i8259-pic'', ''intel,8259'', ''multiboot2-fb'',
      ''simple-framebuffer'', ''brcm,bcm2835-sdhost'', ''brcm,bcm2711-emmc2'', ''vga-text'']"

definition unknown_device :: "device_info \<Rightarrow> string" where
  "unknown_device device = ''Unknown device '' @ [CHR 0x27] @ dev_name device @ [CHR 0x27] @ '' (compatible: '' @ [CHR 0x27] @
     dev_compatible device @ [CHR 0x27] @ '') at 0x'' @ hex_digits (unat (dev_base device)) @
     '' (size: 0x'' @ hex_digits (unat (dev_size device)) @ '')''"

text \<open>One round of the loop, on the manager in the cell; an error ends the loop and \<^verbatim>\<open>expect\<close> panics.\<close>

definition create_device :: "'h board \<Rightarrow> device_info \<Rightarrow> ('h kernel, unit, unit) io" where
  "create_device board device =
     io_bind (if dev_compatible device \<in> set KNOWN_DEVICES then ok ()
              else klog board LevelWarn ''drivers::platform'' (unknown_device device)) (\<lambda>_.
     on_world (State (\<lambda>w.
       case kw_cell w of
         None \<Rightarrow> (Panic, w)
       | Some dm \<Rightarrow>
           (case init_device (bd_target board) device dm of
              (Ok _, dm) \<Rightarrow> (Ok (), w\<lparr>kw_cell := Some dm\<rparr>)
            | (Diverge, dm) \<Rightarrow> (Diverge, w\<lparr>kw_cell := Some dm\<rparr>)
            | (_, dm) \<Rightarrow> (Panic, w\<lparr>kw_cell := Some dm\<rparr>)))))"

definition create_devices :: "'h board \<Rightarrow> ('h kernel, unit, unit) io" where
  "create_devices board =
     io_bind (on_world (State (\<lambda>w. case kw_cell w of
       Some _ \<Rightarrow> (Panic, w) | None \<Rightarrow> (Ok (), w\<lparr>kw_cell := Some device_manager_new, kw_locked := True\<rparr>)))) (\<lambda>_.
     io_bind (k_get (\<lambda>k. devices (bs_platform (k_boot k)))) (\<lambda>ds.
     io_bind (each (create_device board) ds) (\<lambda>_. on_world unlock_dm)))"

section \<open>\<^verbatim>\<open>kernel_init\<close>\<close>

definition k_boot_init :: "'h board \<Rightarrow> u32 \<Rightarrow> u32 \<Rightarrow> ('h kernel, unit, unit) io" where
  "k_boot_init board machine_type atags_addr = State (\<lambda>k.
     let m = km_mem (kw_memory (k_world k)) in
     case boot_init (bd_target board) (bd_midr board) m (determine_boot_info (bd_target board) m machine_type atags_addr) (k_boot k) of
       (Ok _, b) \<Rightarrow> (Ok (), k\<lparr>k_boot := b\<rparr>)
     | (Diverge, b) \<Rightarrow> (Diverge, k\<lparr>k_boot := b\<rparr>)
     | (_, b) \<Rightarrow> (Panic, k\<lparr>k_boot := b\<rparr>))"

definition k_logger_init :: "level_filter \<Rightarrow> ('h kernel, unit, unit) io" where
  "k_logger_init level = State (\<lambda>k. case logger_init level (k_logger k) of Ok lg \<Rightarrow> (Ok (), k\<lparr>k_logger := lg\<rparr>) | _ \<Rightarrow> (Panic, k))"

definition k_setup_memory :: "'h board \<Rightarrow> ('h kernel, memory_layout, unit) io" where
  "k_setup_memory board = State (\<lambda>k.
     case setup_memory_management (bd_target board) (bd_symbol board) (bs_platform (k_boot k)) (kw_memory (k_world k)) of
       Ok (lay, s) \<Rightarrow> (Ok lay, k\<lparr>k_world := (k_world k)\<lparr>kw_memory := s\<rparr>\<rparr>)
     | Err e \<Rightarrow> (Err e, k) | Panic \<Rightarrow> (Panic, k) | Diverge \<Rightarrow> (Diverge, k))"

definition k_attach :: "'h board \<Rightarrow> ('h kernel, unit, unit) io" where
  "k_attach board = State (\<lambda>k. (Ok (), k\<lparr>k_logger := attach_runtime [SERIAL_SINK board] (k_logger k)\<rparr>))"

abbreviation init_info :: "'h board \<Rightarrow> string \<Rightarrow> ('h kernel, unit, unit) io" where
  "init_info board \<equiv> klog board LevelInfo ''kernel::kcore::init''"

text \<open>The messages after the sinks are attached, and the whole function.\<close>

definition log_runtime :: "'h board \<Rightarrow> memory_layout \<Rightarrow> ('h kernel, unit, unit) io" where
  "log_runtime board layout =
     io_bind (init_info board (''Runtime logger attached'' @ [CHR 0x0A])) (\<lambda>_.
     io_bind (each (init_info board) (log_memory_layout layout)) (\<lambda>_.
     io_bind (k_get (\<lambda>k. bs_platform (k_boot k))) (\<lambda>p.
     io_bind (each (init_info board) (log_system_info p)) (\<lambda>_.
     io_bind (each (init_info board) (log_discovered_hardware p)) (\<lambda>_.
     io_bind (on_world (with_dm (\<lambda>dm. ok (dm_list dm)))) (\<lambda>names.
     each (init_info board) (log_available_devices names)))))))"

definition kernel_init :: "'h board \<Rightarrow> u32 \<Rightarrow> u32 \<Rightarrow> ('h kernel, unit, unit) io" where
  "kernel_init board machine_type atags_addr =
     io_bind (k_boot_init board machine_type atags_addr) (\<lambda>_.
     io_bind (k_logger_init FilterInfo) (\<lambda>_.
     io_bind (k_setup_memory board) (\<lambda>layout.
     io_bind (create_devices board) (\<lambda>_.
     io_bind (init_info board (''Kernel Early Initialization Complete'' @ [CHR 0x0A])) (\<lambda>_.
     io_bind (k_attach board) (\<lambda>_.
     log_runtime board layout))))))"

section \<open>\<^verbatim>\<open>kernel_main\<close>\<close>

text \<open>The guard on the device manager lives to the end of the function, also while it logs.\<close>

definition print_device :: "'h board \<Rightarrow> driver device_manager \<Rightarrow> string \<Rightarrow> ('h kernel, unit, unit) io" where
  "print_device board dm name =
     (case dm_get dm name of
        None \<Rightarrow> panic
      | Some dev \<Rightarrow> klog board LevelInfo ''kernel::subsystems'' (''  '' @ name @ '' ('' @ device_type_name dev @ '')'' @ [CHR 0x0A]))"

definition print_devices :: "'h board \<Rightarrow> ('h kernel, unit, unit) io" where
  "print_devices board =
     io_bind (on_world lock_dm) (\<lambda>dm.
     io_bind (klog board LevelInfo ''kernel::subsystems''
       (''Registered Devices ('' @ dec_digits (dm_count dm) @ '' total):'' @ [CHR 0x0A])) (\<lambda>_.
     io_bind (each (print_device board dm) (dm_list dm)) (\<lambda>_.
     on_world unlock_dm)))"

definition draw_registered :: "'h board \<Rightarrow> ('h kworld, unit, unit) io" where
  "draw_registered board = with_dm (\<lambda>dm.
     case dm_get dm ''framebuffer'' of
       Some (FrameBuffer fb) \<Rightarrow>
         on_hw (State (\<lambda>d. case draw_splash (bd_frame_buffer board fb) d of
           Ok d \<Rightarrow> (Ok (), d) | Err e \<Rightarrow> (Err e, d) | Panic \<Rightarrow> (Panic, d) | Diverge \<Rightarrow> (Diverge, d)))
     | _ \<Rightarrow> ok ())"

text \<open>Up to the call of \<^verbatim>\<open>kernel_main_loop\<close>, and with that loop, which does nothing forever.\<close>

definition kernel_main_body :: "'h board \<Rightarrow> ('h kernel, unit, unit) io" where
  "kernel_main_body board =
     io_bind (k_get (\<lambda>k. pf_name (bs_platform (k_boot k)))) (\<lambda>name.
     io_bind (klog board LevelInfo ''kernel'' (''Booting '' @ name @ '' kernel'')) (\<lambda>_.
     io_bind (print_devices board) (\<lambda>_.
     on_world (draw_registered board))))"

definition kernel_main_loop :: "('h kernel, unit, unit) io" where
  "kernel_main_loop = State (\<lambda>k. (Diverge, k))"

definition kernel_main :: "'h board \<Rightarrow> ('h kernel, unit, unit) io" where
  "kernel_main board = io_bind (kernel_main_body board) (\<lambda>_. kernel_main_loop)"

end
