(* ===== verification/Kernel_Init_Properties.thy ===== *)
theory Kernel_Init_Properties
  imports Kernel_Init Kernel_Memory_Properties Uart_Properties
begin

text \<open>
  What the boot sequence does on the two targets: on the PC initialisation completes, its messages
  reach the serial line, and the kernel then waits forever for a lock that it holds; on the
  Raspberry Pi initialisation panics.
\<close>

section \<open>Running the parts\<close>

lemma run_on_world: "run_state (on_world m) k = (case run_state m (k_world k) of (r, w) \<Rightarrow> (r, k\<lparr>k_world := w\<rparr>))"
  by (simp add: on_world_def)

lemma on_world_ok [simp]: "on_world (ok x) = ok x"
  by (rule state_ext) (simp add: run_on_world run_ok)

lemma run_k_get: "run_state (k_get f) k = (Ok (f k), k)"
  by (simp add: k_get_def)

lemma run_on_hw: "run_state (on_hw m) w = (case run_state m (kw_hw w) of (r, h) \<Rightarrow> (r, w\<lparr>kw_hw := h\<rparr>))"
  by (simp add: on_hw_def)

lemma run_k_get_bind [simp]: "run_state (io_bind (k_get f) g) k = run_state (g (f k)) k"
  by (rule run_io_bind_Ok) (rule run_k_get)

lemma run_with_dm_query:
  assumes "kw_cell w = Some dm" "\<not> kw_locked w"
  shows "run_state (with_dm (\<lambda>dm. ok (f dm))) w = (Ok (f dm), w)"
proof -
  have "run_state lock_dm w = (Ok dm, w\<lparr>kw_locked := True\<rparr>)" using assms by (simp add: lock_dm_def the_device_manager_def)
  moreover have "run_state unlock_dm (w\<lparr>kw_locked := True\<rparr>) = (Ok (), w)"
    using assms(2) by (cases w) (simp add: unlock_dm_def)
  ultimately show ?thesis by (simp add: with_dm_def run_io_bind_Ok run_ok)
qed

lemma lock_held: "kw_cell w = Some dm \<Longrightarrow> kw_locked w \<Longrightarrow> run_state lock_dm w = (Diverge, w)"
  by (simp add: lock_dm_def the_device_manager_def)

lemma run_io_bind_Diverge: "run_state m d = (Diverge, d') \<Longrightarrow> run_state (io_bind m k) d = (Diverge, d')"
  by (simp add: run_io_bind)

section \<open>Messages on the serial line\<close>

text \<open>The bytes of a message, and a kernel whose messages go to the serial line.\<close>

definition serial_line :: "string \<Rightarrow> string \<Rightarrow> u8 list" where
  "serial_line module msg = take 512 (concat (log_pieces LevelInfo (text_bytes module) [text_bytes msg]))"

definition info_on :: "'w kernel_logger \<Rightarrow> bool" where
  "info_on lg \<longleftrightarrow> lg_registered lg \<and> lg_global_level lg = FilterInfo \<and> lg_max_level lg = 3"

definition serial_live ::
  "'h board \<Rightarrow> ('h \<Rightarrow> u8 list) \<Rightarrow> ('h \<Rightarrow> bool) \<Rightarrow> ('h \<Rightarrow> nat) \<Rightarrow> 'h kernel \<Rightarrow> driver device_manager \<Rightarrow> bool" where
  "serial_live board sent up lat k dm \<longleftrightarrow>
     info_on (k_logger k) \<and> lg_mode (k_logger k) = Runtime [SERIAL_SINK board] \<and> kw_cell (k_world k) = Some dm \<and>
     up (kw_hw (k_world k)) \<and>
     (\<exists>base. serial_console dm = Some (Uart16550Pio base) \<and>
        u16_tx (Pio (bd_inb board) (bd_outb board)) (uart16550_new base) sent up lat)"

abbreviation set_hw :: "'h \<Rightarrow> 'h kernel \<Rightarrow> 'h kernel" where
  "set_hw h k \<equiv> k\<lparr>k_world := (k_world k)\<lparr>kw_hw := h\<rparr>\<rparr>"

lemma klog_runtime:
  assumes "info_on (k_logger k)" "lg_mode (k_logger k) = Runtime [SERIAL_SINK board]"
  shows "run_state (klog board LevelInfo module msg) k = run_state (on_world (SERIAL_SINK board (serial_line module msg))) k"
proof -
  have "log_enabled (k_logger k) LevelInfo" using assms(1) by (simp add: info_on_def log_enabled_def level_from_u8_def)
  moreover have "io_bind m (\<lambda>_. ok ()) = m" for m :: "('h kworld, unit, unit) io"
    using io_bind_ok_right [of m] by (simp add: unit_eq cong: if_cong)
  ultimately show ?thesis
    using assms by (simp add: klog_def info_on_def logger_log_line serial_line_def Let_def)
qed

lemma serial_sink_sends:
  assumes "serial_live board sent up lat k dm" "\<not> kw_locked (k_world k)"
  shows "\<exists>h. run_state (SERIAL_SINK board s) (k_world k) = (Ok (), (k_world k)\<lparr>kw_hw := h\<rparr>) \<and>
    sent h = sent (kw_hw (k_world k)) @ s \<and> up h"
proof -
  obtain base where b: "serial_console dm = Some (Uart16550Pio base)"
    "u16_tx (Pio (bd_inb board) (bd_outb board)) (uart16550_new base) sent up lat" "up (kw_hw (k_world k))" "kw_cell (k_world k) = Some dm"
    using assms(1) unfolding serial_live_def by blast
  define port where "port = u16_port (Pio (bd_inb board) (bd_outb board)) (uart16550_new base)"
  have "u16_tx (Pio (bd_inb board) (bd_outb board)) (uart16550_new base) sent up lat \<and> up (kw_hw (k_world k))" using b by simp
  moreover have "sp_write_byte port = u16_write_byte (Pio (bd_inb board) (bd_outb board)) (uart16550_new base)"
    by (simp add: port_def u16_port_def)
  ultimately obtain h where h: "run_state (ds_write (dyn_serial uart16550_into port) s) (kw_hw (k_world k)) = (Ok (of_nat (length s)), h)"
    "sent h = sent (kw_hw (k_world k)) @ s" "up h"
    by (rule u16_sink.write_sends) blast
  have "run_state (serial_log_sink (Some (dyn_serial uart16550_into port)) s) (kw_hw (k_world k)) = (Ok (), h)"
    using h(1) by (simp add: serial_log_sink_def run_ok)
  then have "run_state (SERIAL_SINK board s) (k_world k) = (Ok (), (k_world k)\<lparr>kw_hw := h\<rparr>)"
    using run_with_dm_query [OF b(4) assms(2), of serial_console] b(1)
    by (simp add: SERIAL_SINK_def run_io_bind_Ok run_on_hw port_def)
  then show ?thesis using h by blast
qed

lemma klog_sends:
  assumes "serial_live board sent up lat k dm" "\<not> kw_locked (k_world k)"
  shows "\<exists>h. run_state (klog board LevelInfo module msg) k = (Ok (), set_hw h k) \<and>
    sent h = sent (kw_hw (k_world k)) @ serial_line module msg \<and> serial_live board sent up lat (set_hw h k) dm"
  using serial_sink_sends [OF assms, of "serial_line module msg"] assms(1)
  by (auto simp: klog_runtime serial_live_def run_on_world)

lemma klogs_send:
  assumes "serial_live board sent up lat k dm" "\<not> kw_locked (k_world k)"
  shows "\<exists>h. run_state (each (klog board LevelInfo module) msgs) k = (Ok (), set_hw h k) \<and>
    sent h = sent (kw_hw (k_world k)) @ concat (map (serial_line module) msgs) \<and> serial_live board sent up lat (set_hw h k) dm"
  using assms
proof (induction msgs arbitrary: k)
  case Nil
  then show ?case by (intro exI [of _ "kw_hw (k_world k)"]) (simp add: run_ok)
next
  case (Cons msg msgs)
  obtain h where h: "run_state (klog board LevelInfo module msg) k = (Ok (), set_hw h k)"
    "sent h = sent (kw_hw (k_world k)) @ serial_line module msg" "serial_live board sent up lat (set_hw h k) dm"
    using klog_sends [OF Cons.prems] by blast
  then show ?case using Cons.IH [OF h(3)] Cons.prems(2) by (auto simp: run_io_bind_Ok)
qed

text \<open>While the device manager is locked, a message never gets out.\<close>

lemma klog_stuck:
  assumes "serial_live board sent up lat k dm" "kw_locked (k_world k)"
  shows "run_state (klog board LevelInfo module msg) k = (Diverge, k)"
proof -
  have "run_state (with_dm (\<lambda>dm. ok (serial_console dm))) (k_world k) = (Diverge, k_world k)"
    using lock_held assms by (auto simp: with_dm_def serial_live_def intro!: run_io_bind_Diverge)
  then have "run_state (SERIAL_SINK board (serial_line module msg)) (k_world k) = (Diverge, k_world k)"
    by (simp add: SERIAL_SINK_def run_io_bind_Diverge)
  then show ?thesis using assms(1) by (simp add: klog_runtime serial_live_def run_on_world)
qed

section \<open>Before the serial line is attached\<close>

text \<open>On the PC a message of the boot phase changes the screen only.\<close>

abbreviation set_screen :: "memory \<Rightarrow> (u16 \<times> u8) list \<Rightarrow> 'h kernel \<Rightarrow> 'h kernel" where
  "set_screen m ports k \<equiv>
     k\<lparr>k_world := (k_world k)\<lparr>kw_memory := (kw_memory (k_world k))\<lparr>km_mem := m\<rparr>, kw_ports := ports\<rparr>\<rparr>"

lemma klog_boot:
  assumes "bd_target board = X86" "lg_mode (k_logger k) = Boot"
  shows "\<exists>m ports. run_state (klog board level module msg) k = (Ok (), set_screen m ports k)"
proof -
  have same: "\<exists>m ports. k = set_screen m ports k"
    by (intro exI [of _ "km_mem (kw_memory (k_world k))"] exI [of _ "kw_ports (k_world k)"]) simp
  have "\<exists>m ports. run_state (on_world (on_screen (x86_boot_sink s))) k = (Ok (), set_screen m ports k)" for s
    by (auto simp: run_on_world on_screen_def x86_boot_sink_def Let_def)
  then show ?thesis
    using same assms by (auto simp: klog_def logger_log_line boot_console_def Let_def run_ok)
qed

text \<open>The loop over the devices registers what the platform's loop registers.\<close>

lemma create_device_boot:
  assumes "bd_target board = X86" "lg_mode (k_logger k) = Boot" "kw_cell (k_world k) = Some dm"
    and "init_device X86 d dm = (Ok (), dm')"
  shows "\<exists>m ports. run_state (create_device board d) k = (Ok (), (set_screen m ports k)\<lparr>k_world := (k_world (set_screen m ports k))\<lparr>kw_cell := Some dm'\<rparr>\<rparr>)"
proof -
  have same: "\<exists>m ports. k = set_screen m ports k"
    by (intro exI [of _ "km_mem (kw_memory (k_world k))"] exI [of _ "kw_ports (k_world k)"]) simp
  have "\<exists>m ports. run_state (if dev_compatible d \<in> set KNOWN_DEVICES then ok ()
      else klog board LevelWarn ''drivers::platform'' (unknown_device d)) k = (Ok (), set_screen m ports k)"
    using klog_boot [OF assms(1,2)] same by (simp add: run_ok)
  then obtain m ports where "run_state (if dev_compatible d \<in> set KNOWN_DEVICES then ok ()
      else klog board LevelWarn ''drivers::platform'' (unknown_device d)) k = (Ok (), set_screen m ports k)" by blast
  note step = run_io_bind_Ok [OF this]
  show ?thesis
    unfolding create_device_def step using assms by (intro exI [of _ m] exI [of _ ports]) (simp add: run_on_world)
qed

lemma create_loop_boot:
  assumes "bd_target board = X86" "lg_mode (k_logger k) = Boot" "kw_cell (k_world k) = Some dm"
    and "init_loop_devices X86 ds dm = (Ok (), dm')"
  shows "\<exists>m ports. run_state (each (create_device board) ds) k =
    (Ok (), (set_screen m ports k)\<lparr>k_world := (k_world (set_screen m ports k))\<lparr>kw_cell := Some dm'\<rparr>\<rparr>)"
  using assms(2-)
proof (induction ds arbitrary: k dm)
  case Nil
  then show ?case
    by (intro exI [of _ "km_mem (kw_memory (k_world k))"] exI [of _ "kw_ports (k_world k)"]) (simp add: run_ok)
next
  case (Cons d ds)
  obtain dm1 where d: "init_device X86 d dm = (Ok (), dm1)" "init_loop_devices X86 ds dm1 = (Ok (), dm')"
    using Cons.prems(3) by (auto split: prod.splits outcome.splits)
  obtain m ports where r: "run_state (create_device board d) k =
      (Ok (), (set_screen m ports k)\<lparr>k_world := (k_world (set_screen m ports k))\<lparr>kw_cell := Some dm1\<rparr>\<rparr>)"
    using create_device_boot [OF assms(1) Cons.prems(1,2) d(1)] by blast
  show ?case
    using Cons.IH [OF _ _ d(2), of "(set_screen m ports k)\<lparr>k_world := (k_world (set_screen m ports k))\<lparr>kw_cell := Some dm1\<rparr>\<rparr>"]
      Cons.prems(1) by (simp add: run_io_bind_Ok [OF r])
qed

lemma create_devices_boot:
  assumes "bd_target board = X86" "lg_mode (k_logger k) = Boot" "kw_cell (k_world k) = None"
    and "init_devices X86 (bs_platform (k_boot k)) device_manager_new = (Ok (), dm)"
  shows "\<exists>m ports. run_state (create_devices board) k = (Ok (), (set_screen m ports k)\<lparr>k_world :=
    (k_world (set_screen m ports k))\<lparr>kw_cell := Some dm, kw_locked := False\<rparr>\<rparr>)"
proof -
  let ?k = "k\<lparr>k_world := (k_world k)\<lparr>kw_cell := Some device_manager_new, kw_locked := True\<rparr>\<rparr>"
  obtain m ports where r: "run_state (each (create_device board) (devices (bs_platform (k_boot k)))) ?k =
      (Ok (), (set_screen m ports ?k)\<lparr>k_world := (k_world (set_screen m ports ?k))\<lparr>kw_cell := Some dm\<rparr>\<rparr>)"
    using create_loop_boot [OF assms(1), of ?k device_manager_new "devices (bs_platform (k_boot k))" dm] assms(2,4)
    by (auto simp: init_devices_def)
  have "run_state (create_devices board) k = run_state (io_bind (each (create_device board) (devices (bs_platform (k_boot k)))) (\<lambda>_. on_world unlock_dm)) ?k"
    using assms(3) by (simp add: create_devices_def run_io_bind_Ok run_on_world)
  then show ?thesis by (intro exI [of _ m] exI [of _ ports]) (simp add: run_io_bind_Ok [OF r] run_on_world unlock_dm_def)
qed

section \<open>The PC\<close>

text \<open>What \<^verbatim>\<open>kernel_init\<close> says once the serial line is attached.\<close>

definition runtime_messages :: "memory_layout \<Rightarrow> platform \<Rightarrow> driver device_manager \<Rightarrow> string list" where
  "runtime_messages lay p dm =
     [''Runtime logger attached'' @ [CHR 0x0A]] @ log_memory_layout lay @ log_system_info p @ log_discovered_hardware p @
     log_available_devices (dm_list dm)"

lemma log_runtime_sends:
  assumes L: "serial_live board sent up lat k dm" and "\<not> kw_locked (k_world k)"
  shows "\<exists>h. run_state (log_runtime board lay) k = (Ok (), set_hw h k) \<and>
    sent h = sent (kw_hw (k_world k)) @
      concat (map (serial_line ''kernel::kcore::init'') (runtime_messages lay (bs_platform (k_boot k)) dm)) \<and>
    serial_live board sent up lat (set_hw h k) dm"
proof -
  let ?p = "bs_platform (k_boot k)" and ?line = "serial_line ''kernel::kcore::init''"
  have q: "run_state (on_world (with_dm (\<lambda>dm. ok (dm_list dm)))) (set_hw h k) = (Ok (dm_list dm), set_hw h k)" for h
    using run_with_dm_query [of "(k_world k)\<lparr>kw_hw := h\<rparr>" dm dm_list] assms by (simp add: run_on_world serial_live_def)
  obtain h1 where h1: "run_state (init_info board (''Runtime logger attached'' @ [CHR 0x0A])) k = (Ok (), set_hw h1 k)"
    "sent h1 = sent (kw_hw (k_world k)) @ ?line (''Runtime logger attached'' @ [CHR 0x0A])" "serial_live board sent up lat (set_hw h1 k) dm"
    using klog_sends [OF L assms(2)] by blast
  have more: "\<exists>h'. run_state (each (init_info board) msgs) (set_hw h k) = (Ok (), set_hw h' k) \<and>
      sent h' = sent h @ concat (map ?line msgs) \<and> serial_live board sent up lat (set_hw h' k) dm"
    if "serial_live board sent up lat (set_hw h k) dm" for h msgs
    using klogs_send [OF that] assms(2) by simp
  obtain h2 where h2: "run_state (each (init_info board) (log_memory_layout lay)) (set_hw h1 k) = (Ok (), set_hw h2 k)"
    "sent h2 = sent h1 @ concat (map ?line (log_memory_layout lay))" "serial_live board sent up lat (set_hw h2 k) dm"
    using more [OF h1(3)] by blast
  obtain h3 where h3: "run_state (each (init_info board) (log_system_info ?p)) (set_hw h2 k) = (Ok (), set_hw h3 k)"
    "sent h3 = sent h2 @ concat (map ?line (log_system_info ?p))" "serial_live board sent up lat (set_hw h3 k) dm"
    using more [OF h2(3)] by blast
  obtain h4 where h4: "run_state (each (init_info board) (log_discovered_hardware ?p)) (set_hw h3 k) = (Ok (), set_hw h4 k)"
    "sent h4 = sent h3 @ concat (map ?line (log_discovered_hardware ?p))" "serial_live board sent up lat (set_hw h4 k) dm"
    using more [OF h3(3)] by blast
  obtain h5 where h5: "run_state (each (init_info board) (log_available_devices (dm_list dm))) (set_hw h4 k) = (Ok (), set_hw h5 k)"
    "sent h5 = sent h4 @ concat (map ?line (log_available_devices (dm_list dm)))" "serial_live board sent up lat (set_hw h5 k) dm"
    using more [OF h4(3)] by blast
  have p: "bs_platform (k_boot (set_hw h2 k)) = ?p" by simp
  have "run_state (log_runtime board lay) k = (Ok (), set_hw h5 k)"
    by (simp only: log_runtime_def run_io_bind_Ok [OF h1(1)] run_io_bind_Ok [OF h2(1)] run_k_get_bind p run_io_bind_Ok [OF h3(1)]
        run_io_bind_Ok [OF h4(1)] run_io_bind_Ok [OF q] h5(1))
  then show ?thesis using h1(2) h2(2) h3(2) h4(2) h5(2,3)
    by (intro exI [of _ h5] conjI) (simp_all add: runtime_messages_def)
qed

text \<open>A machine after power-on.\<close>

definition power_on :: "kernel_memory \<Rightarrow> 'h \<Rightarrow> 'h kernel" where
  "power_on mem h =
     \<lparr>k_boot = boot_statics, k_logger = LOGGER,
      k_world = \<lparr>kw_memory = mem, kw_ports = [], kw_hw = h, kw_cell = None, kw_locked = False\<rparr>\<rparr>"

lemma kernel_init_attaches:
  assumes pc: "bd_target board = X86"
    and boot: "boot_init X86 (bd_midr board) (km_mem mem) (determine_boot_info X86 (km_mem mem) machine_type atags) boot_statics = (Ok (), b)"
    and layout: "setup_memory_management X86 (bd_symbol board) (bs_platform b) mem = Ok (lay, s')"
    and dm: "init_devices X86 (bs_platform b) device_manager_new = (Ok (), dm)" "serial_console dm = Some (Uart16550Pio base)"
    and uart: "u16_tx (Pio (bd_inb board) (bd_outb board)) (uart16550_new base) sent up lat" "up h"
  shows "\<exists>k. run_state (kernel_init board machine_type atags) (power_on mem h) = run_state (log_runtime board lay) k \<and>
    serial_live board sent up lat k dm \<and> \<not> kw_locked (k_world k) \<and> kw_hw (k_world k) = h \<and> k_boot k = b"
proof -
  define lg where "lg = (LOGGER :: 'a kworld kernel_logger)\<lparr>lg_max_level := 3, lg_mode := Boot, lg_registered := True, lg_global_level := FilterInfo\<rparr>"
  define k1 where "k1 = (power_on mem h)\<lparr>k_boot := b\<rparr>"
  define k2 where "k2 = k1\<lparr>k_logger := lg\<rparr>"
  define k3 where "k3 = k2\<lparr>k_world := (k_world k2)\<lparr>kw_memory := s'\<rparr>\<rparr>"
  have s1: "run_state (k_boot_init board machine_type atags) (power_on mem h) = (Ok (), k1)"
    using boot pc by (simp add: k_boot_init_def power_on_def k1_def)
  have s2: "run_state (k_logger_init FilterInfo) k1 = (Ok (), k2)"
    by (simp add: k_logger_init_def logger_init_def Let_def k1_def k2_def power_on_def LOGGER_def lg_def)
  have s3: "run_state (k_setup_memory board) k2 = (Ok lay, k3)"
    using layout pc by (simp add: k_setup_memory_def k2_def k1_def k3_def power_on_def)
  have "lg_mode (k_logger k3) = Boot" "kw_cell (k_world k3) = None" "k_boot k3 = b"
    by (simp_all add: k3_def k2_def k1_def power_on_def lg_def)
  then obtain m ports where s4: "run_state (create_devices board) k3 = (Ok (), (set_screen m ports k3)\<lparr>k_world :=
      (k_world (set_screen m ports k3))\<lparr>kw_cell := Some dm, kw_locked := False\<rparr>\<rparr>)" (is "_ = (_, ?k4)")
    using create_devices_boot [OF pc, of k3 dm] dm(1) by blast
  have "lg_mode (k_logger ?k4) = Boot" by (simp add: k3_def k2_def lg_def)
  then obtain m' ports' where s5: "run_state (init_info board (''Kernel Early Initialization Complete'' @ [CHR 0x0A])) ?k4 =
      (Ok (), set_screen m' ports' ?k4)" (is "_ = (_, ?k5)")
    using klog_boot [OF pc] by blast
  define k6 where "k6 = ?k5\<lparr>k_logger := attach_runtime [SERIAL_SINK board] (k_logger ?k5)\<rparr>"
  have s6: "run_state (k_attach board) ?k5 = (Ok (), k6)" by (simp add: k_attach_def k6_def)
  have "run_state (kernel_init board machine_type atags) (power_on mem h) = run_state (log_runtime board lay) k6"
    by (simp only: kernel_init_def run_io_bind_Ok [OF s1] run_io_bind_Ok [OF s2] run_io_bind_Ok [OF s3] run_io_bind_Ok [OF s4]
        run_io_bind_Ok [OF s5] run_io_bind_Ok [OF s6])
  moreover have "serial_live board sent up lat k6 dm" "\<not> kw_locked (k_world k6)" "kw_hw (k_world k6) = h" "k_boot k6 = b"
    using dm(2) uart by (auto simp: serial_live_def k6_def k3_def k2_def k1_def lg_def info_on_def attach_runtime_def power_on_def)
  ultimately show ?thesis by blast
qed

text \<open>\<^verbatim>\<open>print_devices\<close> logs while it holds the lock that the serial sink needs.\<close>

lemma kernel_main_stuck:
  assumes L: "serial_live board sent up lat k dm" and "\<not> kw_locked (k_world k)"
  shows "\<exists>h. run_state (kernel_main_body board) k =
      (Diverge, (set_hw h k)\<lparr>k_world := (k_world (set_hw h k))\<lparr>kw_locked := True\<rparr>\<rparr>) \<and>
    sent h = sent (kw_hw (k_world k)) @ serial_line ''kernel'' (''Booting '' @ pf_name (bs_platform (k_boot k)) @ '' kernel'')"
proof -
  let ?m = "''Booting '' @ pf_name (bs_platform (k_boot k)) @ '' kernel''"
  obtain h where h: "run_state (klog board LevelInfo ''kernel'' ?m) k = (Ok (), set_hw h k)"
    "sent h = sent (kw_hw (k_world k)) @ serial_line ''kernel'' ?m" "serial_live board sent up lat (set_hw h k) dm"
    using klog_sends [OF assms] by blast
  let ?k = "(set_hw h k)\<lparr>k_world := (k_world (set_hw h k))\<lparr>kw_locked := True\<rparr>\<rparr>"
  have l: "run_state (on_world lock_dm) (set_hw h k) = (Ok dm, ?k)"
    using h(3) assms(2) by (simp add: run_on_world lock_dm_def the_device_manager_def serial_live_def)
  have "serial_live board sent up lat ?k dm" using h(3) by (simp add: serial_live_def)
  then have "run_state (klog board LevelInfo ''kernel::subsystems'' msg) ?k = (Diverge, ?k)" for msg by (rule klog_stuck) simp
  then have "run_state (print_devices board) (set_hw h k) = (Diverge, ?k)"
    by (simp only: print_devices_def run_io_bind_Ok [OF l] run_io_bind_Diverge)
  then have "run_state (kernel_main_body board) k = (Diverge, ?k)"
    by (simp only: kernel_main_body_def run_k_get_bind run_io_bind_Ok [OF h(1)] run_io_bind_Diverge)
  then show ?thesis using h(2) by blast
qed

text \<open>
  C40. Booting the PC.  If discovery finds RAM for the layout and a 16550 UART that transmits as its
  data sheet says, \<^verbatim>\<open>kernel_init\<close> returns and has sent exactly the messages of the memory layout, the
  system, the hardware and the registered devices.  \<^verbatim>\<open>kernel_main\<close> then sends one more line and never
  reaches its loop: \<^verbatim>\<open>print_devices\<close> logs while it holds the device manager, and the serial sink waits
  for the same lock.
\<close>

theorem pc_boot_log_deadlocks:
  assumes pc: "bd_target board = X86"
    and boot: "boot_init X86 (bd_midr board) (km_mem mem) (determine_boot_info X86 (km_mem mem) machine_type atags) boot_statics = (Ok (), b)"
    and mm: "get_memory_map (bs_platform b) = Ok mm" "layout_fits X86 mm (unat (get_kernel_end_address X86 (bd_symbol board)))"
    and fresh: "km_heap mem = None" "km_pages mem = None"
    and dm: "init_devices X86 (bs_platform b) device_manager_new = (Ok (), dm)" "serial_console dm = Some (Uart16550Pio base)"
    and uart: "u16_tx (Pio (bd_inb board) (bd_outb board)) (uart16550_new base) sent up lat" "up h"
  shows "\<exists>lay s' k1 k2. setup_memory_management X86 (bd_symbol board) (bs_platform b) mem = Ok (lay, s') \<and>
    run_state (kernel_init board machine_type atags) (power_on mem h) = (Ok (), k1) \<and>
    sent (kw_hw (k_world k1)) = sent h @ concat (map (serial_line ''kernel::kcore::init'') (runtime_messages lay (bs_platform b) dm)) \<and>
    run_state (kernel_main_body board) k1 = (Diverge, k2) \<and> kw_locked (k_world k2) \<and>
    sent (kw_hw (k_world k2)) = sent (kw_hw (k_world k1)) @ serial_line ''kernel'' (''Booting '' @ pf_name (bs_platform b) @ '' kernel'')"
proof -
  obtain lay s' where lay: "setup_memory_management X86 (bd_symbol board) (bs_platform b) mem = Ok (lay, s')"
    using setup_memory_ok [OF _ mm(1) refl mm(2) fresh] by blast
  obtain k where k: "run_state (kernel_init board machine_type atags) (power_on mem h) = run_state (log_runtime board lay) k"
    "serial_live board sent up lat k dm" "\<not> kw_locked (k_world k)" "kw_hw (k_world k) = h" "k_boot k = b"
    using kernel_init_attaches [OF pc boot lay dm uart] by blast
  obtain h1 where h1: "run_state (log_runtime board lay) k = (Ok (), set_hw h1 k)"
    "sent h1 = sent h @ concat (map (serial_line ''kernel::kcore::init'') (runtime_messages lay (bs_platform b) dm))"
    "serial_live board sent up lat (set_hw h1 k) dm"
    using log_runtime_sends [OF k(2,3), of lay] k(4,5) by auto
  obtain h2 k2 where h2: "run_state (kernel_main_body board) (set_hw h1 k) = (Diverge, k2)"
    "sent h2 = sent h1 @ serial_line ''kernel'' (''Booting '' @ pf_name (bs_platform b) @ '' kernel'')"
    and k2: "k2 = k\<lparr>k_world := (k_world k)\<lparr>kw_hw := h2, kw_locked := True\<rparr>\<rparr>"
    using kernel_main_stuck [OF h1(3)] k(3,5) by auto
  have "kw_locked (k_world k2)" "kw_hw (k_world k2) = h2" by (simp_all add: k2)
  then show ?thesis
    using lay k(1) h1(1,2) h2
    by (intro exI [of _ lay] exI [of _ s'] exI [of _ "set_hw h1 k"] exI [of _ k2] conjI) simp_all
qed

text \<open>A PC that a loader other than Multiboot2 starts, with a UART that is always ready.\<close>

definition demo_board :: "u8 list board" where
  "demo_board =
     \<lparr>bd_target = X86, bd_midr = 0, bd_symbol = 0x200000, bd_inb = (\<lambda>port d. (LSR_THRE, d)),
      bd_outb = (\<lambda>port v d. if port = 0x3F8 then d @ [v] else d),
      bd_mmio8 = \<lparr>bus_read = (\<lambda>a d. (0, d)), bus_write = (\<lambda>a v d. d)\<rparr>, bd_mmio32 = \<lparr>bus_read = (\<lambda>a d. (0, d)), bus_write = (\<lambda>a v d. d)\<rparr>,
      bd_frame_buffer = (\<lambda>_. \<lparr>fb_width = 0, fb_height = 0, fb_bytes_per_pixel = 0, fb_pitch = 0, fb_size = 0, fb_buffer_ptr = 0,
        fb_pixel_format = Rgb, fb_clear = (\<lambda>_ d. Ok d), fb_set_pixel = (\<lambda>_ _ _ d. Ok (False, d)), fb_get_pixel = (\<lambda>_ _ _. Ok None),
        fb_draw_hline = (\<lambda>_ _ _ _ d. Ok d), fb_draw_vline = (\<lambda>_ _ _ _ d. Ok d), fb_draw_rect = (\<lambda>_ _ _ _ _ d. Ok d)\<rparr>)\<rparr>"

theorem pc_boot_log_deadlocks_witness:
  "\<exists>k1 k2. run_state (kernel_init demo_board 0 0) (power_on cold_memory []) = (Ok (), k1) \<and>
    run_state (kernel_main_body demo_board) k1 = (Diverge, k2) \<and> kw_locked (k_world k2) \<and>
    kw_hw (k_world k2) = kw_hw (k_world k1) @ serial_line ''kernel'' ''Booting Generic PC (x86) kernel''"
proof -
  define p where "p = set_platform_name ''Generic PC (x86)''
    (register_standard_pc_devices (set_arch X86 (platform_statics\<lparr>pf_initialized := True\<rparr>)))"
  define dm where "dm = dm_register device_manager_new ''serial0'' (Serial (Uart16550Pio 0x3F8))"
  have boot: "boot_init X86 (bd_midr demo_board) (km_mem cold_memory) (determine_boot_info X86 (km_mem cold_memory) 0 0) boot_statics =
      (Ok (), boot_statics\<lparr>bs_platform := p\<rparr>)"
  proof -
    have "determine_platform_name X86 (register_standard_pc_devices (set_arch X86 (platform_statics\<lparr>pf_initialized := True\<rparr>))) =
        ''Generic PC (x86)''" by code_simp
    then show ?thesis
      by (simp add: boot_init_def determine_boot_info_def discover_boot_def pb_begin_def boot_statics_def probe_platform_def
          probe_x86_def p_def) (simp add: platform_statics_def)
  qed
  have m: "get_memory_map p = Ok pc_map" unfolding p_def by code_simp
  have f: "layout_fits X86 pc_map (unat (get_kernel_end_address X86 (bd_symbol demo_board)))"
    by (simp add: layout_fits_def pc_map_def usable_to_def table_to_def table_from_def table_bits_def round_up_def
        get_kernel_end_address_def demo_board_def)
  have d: "init_devices X86 p device_manager_new = (Ok (), dm)" unfolding p_def dm_def by code_simp
  have c: "serial_console dm = Some (Uart16550Pio 0x3F8)" unfolding dm_def by code_simp
  have u: "u16_tx (Pio (bd_inb demo_board) (bd_outb demo_board)) (uart16550_new 0x3F8) id (\<lambda>_. True) (\<lambda>_. 0)"
    by (simp add: u16_tx_def tx_laws_def Pio_def demo_board_def uart16550_new_def LSR_THRE_def THR_def)
  have n: "pf_name p = ''Generic PC (x86)''" by (simp add: p_def set_platform_name_def)
  have "bd_target demo_board = X86" "km_heap cold_memory = None" "km_pages cold_memory = None"
    by (simp_all add: demo_board_def cold_memory_def)
  then show ?thesis
    using pc_boot_log_deadlocks [where board = demo_board and h = "[]", OF _ boot _ f _ _ _ c u] m d n by auto
qed

section \<open>The Raspberry Pi\<close>

text \<open>On the 32-bit ARM target \<^verbatim>\<open>kernel_init\<close> panics in its first call and touches nothing.\<close>

lemma arm_kernel_init_panics:
  assumes "bd_target board = Arm"
  shows "\<exists>k. run_state (kernel_init board machine_type atags) (power_on mem h) = (Panic, k) \<and> k_world k = k_world (power_on mem h)"
proof -
  obtain b where "boot_init Arm (bd_midr board) (km_mem mem) (determine_boot_info Arm (km_mem mem) machine_type atags) boot_statics =
      (Err ''unknown ARM CPU'', b)"
    using arm_boot_unknown_cpu [of "bd_midr board" "km_mem mem" machine_type atags] by (metis prod.collapse)
  then have "run_state (k_boot_init board machine_type atags) (power_on mem h) = (Panic, (power_on mem h)\<lparr>k_boot := b\<rparr>)"
    using assms by (simp add: k_boot_init_def power_on_def)
  then show ?thesis by (simp add: kernel_init_def run_io_bind)
qed

end
