(* ===== verification/Process.thy ===== *)
theory Process
  imports Scheduler Page_Allocator Fs_File Timer_Properties
begin

text \<open>
  Processes and the processor state they are saved in (\<^verbatim>\<open>kernel/src/process/pcb.rs\<close>, \<^verbatim>\<open>kernel/src/arch/arm/context\<close>,
  the trap frames of both architectures), and the busy wait of \<^verbatim>\<open>kernel/src/arch/x86/time.rs\<close>.
\<close>

section \<open>Processes\<close>

datatype process_state = Ready | Running | Blocked | Zombie

text \<open>The register context of the ARM; the PC's is an empty struct.\<close>

record arm_context =
  ctx_r0 :: u32
  ctx_r1 :: u32
  ctx_r2 :: u32
  ctx_r3 :: u32
  ctx_r4 :: u32
  ctx_r5 :: u32
  ctx_r6 :: u32
  ctx_r7 :: u32
  ctx_r8 :: u32
  ctx_r9 :: u32
  ctx_r10 :: u32
  ctx_r11 :: u32
  ctx_r12 :: u32
  ctx_sp :: u32
  ctx_lr :: u32
  ctx_pc :: u32
  ctx_cpsr :: u32

definition context_new :: arm_context where
  "context_new = \<lparr>ctx_r0 = 0, ctx_r1 = 0, ctx_r2 = 0, ctx_r3 = 0, ctx_r4 = 0, ctx_r5 = 0, ctx_r6 = 0,
     ctx_r7 = 0, ctx_r8 = 0, ctx_r9 = 0, ctx_r10 = 0, ctx_r11 = 0, ctx_r12 = 0, ctx_sp = 0, ctx_lr = 0, ctx_pc = 0, ctx_cpsr = 0x10\<rparr>"

record arm_trap_frame =
  atf_spsr :: u32
  atf_r0 :: u32
  atf_r1 :: u32
  atf_r2 :: u32
  atf_r3 :: u32
  atf_r4 :: u32
  atf_r5 :: u32
  atf_r6 :: u32
  atf_r7 :: u32
  atf_r8 :: u32
  atf_r9 :: u32
  atf_r10 :: u32
  atf_r11 :: u32
  atf_r12 :: u32
  atf_lr :: u32

record x86_trap_frame =
  tf_gs :: u32
  tf_fs :: u32
  tf_es :: u32
  tf_ds :: u32
  tf_edi :: u32
  tf_esi :: u32
  tf_ebp :: u32
  tf_esp :: u32
  tf_ebx :: u32
  tf_edx :: u32
  tf_ecx :: u32
  tf_eax :: u32
  tf_trap_number :: u32
  tf_error_code :: u32
  tf_eip :: u32
  tf_cs :: u32
  tf_eflags :: u32

text \<open>A process; \<open>'w\<close> is the world of the files behind its descriptors.\<close>

record 'w process =
  pcb_pid :: pid
  pcb_parent_pid :: "pid option"
  pcb_state :: process_state
  pcb_context :: arm_context
  pcb_page_table :: l1_table
  pcb_kernel_stack :: kernel_stack
  pcb_user_stack :: user_stack
  pcb_name :: string
  pcb_priority :: u8
  pcb_time_slice :: u32
  pcb_fd_table :: "'w fd_table"
  pcb_exit_code :: "32 word option"

section \<open>Busy waits\<close>

text \<open>The instruction \<^verbatim>\<open>rdtsc\<close> leaves the counter in two registers and is a parameter.\<close>

definition rdtsc :: "('d \<Rightarrow> (u32 \<times> u32) \<times> 'd) \<Rightarrow> ('d, u64) state" where
  "rdtsc instr = State (\<lambda>d. case instr d of ((low, high), d') \<Rightarrow> (push_bit 32 (ucast high) OR ucast low, d'))"

definition x86_delay_cycles :: "('d \<Rightarrow> (u32 \<times> u32) \<times> 'd) \<Rightarrow> u64 \<Rightarrow> ('d, unit, unit) io" where
  "x86_delay_cycles instr cycles = do {
     start \<leftarrow> rdtsc instr;
     io_bind (spin_while (rdtsc instr) (\<lambda>now. now - start < cycles)) (\<lambda>_. ok ())
   }"

text \<open>
  The counter: every execution of the instruction is later than the one before, by at most \<open>D\<close>
  cycles, and yields the low and the high word of the time.
\<close>

definition tsc_laws :: "('d \<Rightarrow> (u32 \<times> u32) \<times> 'd) \<Rightarrow> ('d \<Rightarrow> nat) \<Rightarrow> nat \<Rightarrow> bool" where
  "tsc_laws instr clock D \<longleftrightarrow>
     (\<forall>d low high d'. instr d = ((low, high), d') \<longrightarrow>
        clock d < clock d' \<and> clock d' \<le> clock d + D \<and> low = lo_half (clock d') \<and> high = hi_half (clock d'))"

lemma run_rdtsc:
  assumes "tsc_laws instr clock D"
  shows "\<exists>d'. run_state (rdtsc instr) d = (of_nat (clock d'), d') \<and> clock d < clock d' \<and> clock d' \<le> clock d + D"
proof -
  obtain low high d' where i: "instr d = ((low, high), d')" by (metis prod.exhaust)
  then have "clock d < clock d' \<and> clock d' \<le> clock d + D \<and> low = lo_half (clock d') \<and> high = hi_half (clock d')"
    using assms unfolding tsc_laws_def by blast
  then show ?thesis using i by (intro exI [of _ d']) (simp add: rdtsc_def halves)
qed

text \<open>The wait ends, and when it does at least the requested number of cycles has passed, also when the counter wraps.\<close>

lemma x86_delay_cycles_ends:
  assumes T: "tsc_laws instr clock D" and fits: "unat cycles + D < 2 ^ 64"
  shows "\<exists>d'. run_state (x86_delay_cycles instr cycles) d = (Ok (), d') \<and> clock d + unat cycles \<le> clock d' \<and>
    clock d' \<le> clock d + unat cycles + 2 * D"
proof -
  obtain d0 where d0: "run_state (rdtsc instr) d = (of_nat (clock d0), d0)" "clock d < clock d0" "clock d0 \<le> clock d + D"
    using run_rdtsc [OF T] by blast
  define I where "I = (\<lambda>x. clock d0 \<le> clock x \<and> clock x \<le> clock d0 + unat cycles)"
  obtain y v d1 where y: "I y" "run_state (rdtsc instr) y = (v, d1)" "\<not> v - of_nat (clock d0) < cycles"
    "run_state (spin_while (rdtsc instr) (\<lambda>now. now - of_nat (clock d0) < cycles) :: (_, _, unit) io) d0 = (Ok v, d1)"
  proof (rule spin_ends [of I d0 "rdtsc instr" "\<lambda>now. now - of_nat (clock d0) < cycles" "\<lambda>x. clock d0 + unat cycles - clock x"])
    show "I d0" by (simp add: I_def)
    fix x v x' assume x: "I x" "run_state (rdtsc instr) x = (v, x')" "v - of_nat (clock d0) < cycles"
    then have v: "v = of_nat (clock x')" "clock x < clock x'" "clock x' \<le> clock x + D" using run_rdtsc [OF T, of x] by auto
    then have "clock x' - clock d0 < 2 ^ 64" "clock d0 \<le> clock x'" using x(1) fits by (auto simp: I_def)
    then have "clock x' - clock d0 < unat cycles" using elapsed_word [of "clock d0" "clock x'"] x(3) v(1) by (simp add: word_less_nat_alt)
    then show "I x' \<and> clock d0 + unat cycles - clock x' < clock d0 + unat cycles - clock x"
      using v x(1) by (auto simp: I_def)
  qed
  have v: "v = of_nat (clock d1)" "clock y < clock d1" "clock d1 \<le> clock y + D" using run_rdtsc [OF T, of y] y(2) by auto
  then have b: "clock d1 - clock d0 < 2 ^ 64" "clock d0 \<le> clock d1" using y(1) fits by (auto simp: I_def)
  then have "unat cycles \<le> clock d1 - clock d0" using elapsed_word [of "clock d0" "clock d1"] y(3) v(1) by (simp add: word_less_nat_alt)
  moreover have "run_state (x86_delay_cycles instr cycles) d = (Ok (), d1)"
    by (simp add: x86_delay_cycles_def d0(1) run_io_bind_Ok [OF y(4)] run_ok)
  ultimately show ?thesis using b v(3) y(1) d0(2,3) by (intro exI [of _ d1]) (auto simp: I_def)
qed

end
