(* ===== verification/Spec2Isabelle.thy ===== *)
theory Spec2Isabelle
  imports
    Buddy_Properties Page_Properties Heap_Properties
    Irq_Mutex Scheduler
    Fs_Fd Vfs_Properties Device_Manager
    Uart_Properties Line_Drawing Mb2_Fb_Properties Dev_Files Std_Streams
    Fat32_Table Fat32_Content Fat32_Dir
    Gpio_Properties Timer_Properties Irq_Dispatch Vga_Properties
    X86_Mmu_Properties Arm_Mmu_Properties Kernel_Memory_Properties
    Mailbox_Properties Bcm_Fb_Properties Emmc_Properties Logger Subsystems
    Kernel_Init_Properties Process
begin

text \<open>
  A verification development for pi-os, a small operating-system kernel in Rust for the Raspberry
  Pi (ARM) and the PC (x86), both 32 bits wide.  The repository has three crates: \<^verbatim>\<open>common\<close>
  (synchronisation), \<^verbatim>\<open>drivers\<close> (hardware abstractions under \<^verbatim>\<open>hal\<close>, drivers under \<^verbatim>\<open>peripheral\<close>, a
  device registry) and \<^verbatim>\<open>kernel\<close> (memory management, processes, file systems, interrupts, boot).
  The model follows the release build: integer arithmetic wraps at its width, \<^verbatim>\<open>usize\<close> is 32 bits,
  indexing out of bounds and division by zero panic.

  \<^bold>\<open>How the code is modelled.\<close>  A struct is a record, an enum a datatype, a trait object a record of
  its methods over the state behind it.  A call returns an \<open>outcome\<close>: \<open>Ok\<close>, \<open>Err\<close>, \<open>Panic\<close> or
  \<open>Diverge\<close>.  Memory is a function from 32-bit addresses to bytes with little-endian accesses.  A
  driver is a state transformer over the hardware it drives (\<open>io\<close> of \<open>Device_Io\<close>, on the state
  monad); what the hardware does on a register access is a parameter, with the promises of its
  data sheet as named hypotheses.  A loop that may not end is a \<open>partial_function (option)\<close> whose
  \<open>None\<close> becomes \<open>Diverge\<close>; no definition uses fuel.

  \<^bold>\<open>Memory management\<close> (\<^verbatim>\<open>kernel/src/mm\<close>, \<^verbatim>\<open>kernel/src/process/stack.rs\<close>).
  \<^item> \<open>Buddy_Allocator\<close> is \<^verbatim>\<open>buddy_allocator.rs\<close> on raw memory: intrusive free lists, splitting,
    merging, the carving of a region, the block header.  \<open>Buddy_Geometry\<close> is the abstract view (sets
    of blocks that tile a region), \<open>Buddy_Lists\<close> relates the links in memory to it, \<open>Buddy_Correct\<close>,
    \<open>Buddy_Init\<close> and \<open>Buddy_Api\<close> prove every operation against the invariant, and \<open>Buddy_Machine\<close>
    and \<open>Buddy_Properties\<close> state the results for every state clients can reach: blocks in use are
    disjoint, free space is conserved, allocation fails only when no aligned run is left, freeing
    always returns.
  \<^item> \<open>Page_Allocator\<close> is \<^verbatim>\<open>page_allocator.rs\<close>, \<^verbatim>\<open>page_table.rs\<close> and the process stacks; \<open>Heap_Allocator\<close>
    is \<^verbatim>\<open>heap_allocator.rs\<close>.  Both are clients of the buddy contract, a locale interpreted on the
    buddy model.  \<open>Page_Correct\<close>, \<open>Page_Properties\<close> and \<open>Heap_Properties\<close> hold their invariants,
    reachable states and properties.

  \<^bold>\<open>Synchronisation and scheduling.\<close>  \<open>Irq_Mutex\<close> is \<^verbatim>\<open>common/src/sync\<close> with the interrupt masking of both
  architectures; the \<^verbatim>\<open>spin\<close> mutex is a parameter.  The drop of a guard is the list of its steps, which
  \<open>core_step\<close> interleaves with those of other cores.  \<open>Scheduler\<close> is \<^verbatim>\<open>process/sched/scheduler.rs\<close>.

  \<^bold>\<open>Files\<close> (\<^verbatim>\<open>kernel/src/fs\<close>).
  \<^item> \<open>Fs_File\<close> and \<open>Fs_Fd\<close> are \<^verbatim>\<open>file.rs\<close> and \<^verbatim>\<open>fd.rs\<close>: flags, descriptors, the descriptor table as a
    finite map, seeking, and the locale \<open>content_file\<close> of files that hold a byte sequence.
  \<^item> \<open>Vfs\<close> and \<open>Vfs_Properties\<close> are \<^verbatim>\<open>vfs.rs\<close> and \<^verbatim>\<open>dev/mod.rs\<close> over \<open>BTree_Map\<close>, what they use of the
    standard library's ordered map: mounts, longest-prefix dispatch, the device file system.
  \<^item> \<open>Dev_Files\<close> is \<^verbatim>\<open>dev/uart_file.rs\<close> and \<^verbatim>\<open>dev/framebuffer_file.rs\<close>; \<open>Std_Streams\<close> puts them on the
    devices that the boot registers and shows that the standard streams reach none of them.
  \<^item> \<open>Block_Device\<close> is \<^verbatim>\<open>drivers/src/hal/block_device.rs\<close>; \<open>Fat32\<close> and \<open>Fat32_File\<close> are
    \<^verbatim>\<open>fat/fat32.rs\<close> over a parameter block device.  \<open>Fat32_Table\<close> proves the allocation table and
    cluster chains, \<open>Fat32_Content\<close> that a file is the bytes of its chain (an instance of
    \<open>content_file\<close>) and that writes replace exactly their range, \<open>Fat32_Dir\<close> directories and opening.
    The hypotheses \<open>disk_laws\<close> say that a block read returns the block last written.

  \<^bold>\<open>Drivers\<close> (\<^verbatim>\<open>drivers/src\<close>).
  \<^item> \<open>Device_Manager\<close> is \<^verbatim>\<open>device_manager.rs\<close>.
  \<^item> \<open>Serial_Port\<close>, \<open>Uart_Drivers\<close> and \<open>Uart_Properties\<close> are \<^verbatim>\<open>hal/serial.rs\<close>, \<^verbatim>\<open>x86/uart16550.rs\<close> and
    \<^verbatim>\<open>arm/pl011.rs\<close>: text on the wire, blocking reads in order, baud rates.
  \<^item> \<open>Frame_Buffer\<close>, \<open>Line_Drawing\<close>, \<open>Mb2_Fb\<close> and \<open>Mb2_Fb_Properties\<close> are \<^verbatim>\<open>hal/fb.rs\<close> and
    \<^verbatim>\<open>x86/mb2fb.rs\<close>: drawing routines and pixels.
  \<^item> \<open>Gpio\<close> and \<open>Gpio_Properties\<close> are \<^verbatim>\<open>hal/gpio.rs\<close> and \<^verbatim>\<open>bcm2835/gpio.rs\<close>; \<open>Timers\<close> and \<open>Timer_Properties\<close>
    are \<^verbatim>\<open>hal/timer.rs\<close>, \<^verbatim>\<open>bcm2835/timer.rs\<close> and \<^verbatim>\<open>x86/i8254_pit.rs\<close>: functions, latches, pulls and
    events of a pin change without touching its neighbours and an output reads back its latch
    (\<open>gpio_hw\<close> is the manual's description of the registers); delays end once enough time has passed.
  \<^item> \<open>Mailbox\<close> and \<open>Mailbox_Properties\<close> are \<^verbatim>\<open>bcm2835/mailbox.rs\<close> against a firmware that is a function
    of the request, behind a mailbox that takes a message only while it is not full; \<open>Bcm_Fb\<close> and \<open>Bcm_Fb_Properties\<close> are \<^verbatim>\<open>bcm2835/framebuffer.rs\<close>, set up through it: what
    a filled rectangle paints, and what setting up the display returns.
  \<^item> \<open>Emmc_Regs\<close>, \<open>Emmc\<close> and \<open>Emmc_Properties\<close> are \<^verbatim>\<open>bcm2835/emmc.rs\<close>.  The controller with its card is a
    small machine of phases (\<open>sd_write\<close>, \<open>sd_expect\<close>, \<open>sd_ack\<close>) that takes a command only while its
    lines are free and an acknowledge only of a flag it has raised; over hardware that refines it,
    with a bounded latency, the driver is a disk.  The bounded waits of the code are primitive recursive in their limits.
  \<^item> \<open>Vga_Text\<close> and \<open>Vga_Properties\<close> are \<^verbatim>\<open>hal/console.rs\<close> and \<^verbatim>\<open>x86/vga_text.rs\<close>: the console refines a
    terminal with 25 rows and 80 columns.
  \<^item> \<open>Interrupts\<close> is \<^verbatim>\<open>hal/interrupt.rs\<close> and \<^verbatim>\<open>bcm2835/intc.rs\<close>; \<open>Irq_Dispatch\<close> is the kernel's handler table
    (\<^verbatim>\<open>kernel/src/irq\<close>), which runs exactly the handlers of the pending lines and logs the others.

  \<^bold>\<open>Address translation\<close> (\<^verbatim>\<open>kernel/src/arch\<close>).  \<open>X86_Mmu\<close> and \<open>Arm_Mmu\<close> are the two-level tables of the PC and
  the section table of the Raspberry Pi, over raw memory that is accessed at physical addresses
  (the kernel maps its tables to themselves).  The page walk of each processor, with the rights
  that both levels of a PC's tables allow together, is a specification over the same memory, the translation cache a set of entries.  \<open>X86_Mmu_Properties\<close> and
  \<open>Arm_Mmu_Properties\<close> relate the operations to the walk: what a mapped address translates to, and
  that no other address changes.

  \<^bold>\<open>Boot\<close> (\<^verbatim>\<open>drivers/src/platform\<close>, \<^verbatim>\<open>kernel/src/boot\<close>, \<^verbatim>\<open>kernel/src/kcore/init.rs\<close>).  \<open>Platform\<close> holds the
  platform tables, their builder and queries; \<open>Boot_Info\<close> the walk over the Multiboot2 tags, the
  probing fallback and their order; \<open>Boot_Properties\<close> shows what the tables hold afterwards.
  \<open>Kernel_Memory\<close> is the memory layout that \<^verbatim>\<open>setup_memory_management\<close> computes from the platform and
  gives to both allocators; \<open>Kernel_Memory_Properties\<close> that its parts are disjoint and that each
  allocator starts with all of its own region.

  \<^bold>\<open>Global subsystems\<close> (\<^verbatim>\<open>kernel/src/subsystems\<close>, \<^verbatim>\<open>kernel/src/logger.rs\<close>, \<^verbatim>\<open>kernel/src/main.rs\<close>).  \<open>Subsystems\<close> is
  the global device manager, the kernel's picture and the panic handler's text; \<open>Logger\<close> the logger
  with its line buffer and sinks.  \<open>Kernel_Init\<close> composes all of it to \<^verbatim>\<open>kernel_init\<close> and \<^verbatim>\<open>kernel_main\<close>, with the
  lines they log and the lock of the device manager as part of the state; \<open>Kernel_Init_Properties\<close>
  shows what a PC prints on its serial line, that it then waits for a lock that it holds, and that
  the ARM target panics.  \<open>Process\<close> is the process control block with the saved processor state, and the
  busy wait on the time stamp counter.

  \<^bold>\<open>Not modelled.\<close>  Inline assembly, trap stubs, module declarations and the empty system-call and
  user crates have no logic of their own.  The device-tree parser is behind a feature that is off,
  so its disabled form is the model.  The floating-point hit rate of the block cache counters and
  the memory that the standard containers allocate during boot are left out.
  Locks that protect a single call make it one step and are otherwise left out; the lock of the
  device manager, which \<^verbatim>\<open>print_devices\<close> holds across calls, is modelled in \<open>Kernel_Init\<close>.  Time and the order
  of interrupts are modelled in \<open>Irq_Mutex\<close>, and time alone in \<open>Timers\<close>.
\<close>

end
